(* ===== verification/Prelude.thy ===== *)
theory Prelude
  imports Main "HOL-Library.Word"
begin

text \<open>
  What every component of the development shares: results that may throw, decimal rendering and
  parsing of integers (\<open>String(n)\<close> and \<open>BigInt(s)\<close> of the source language), sets kept as lists in
  insertion order, and the collections of rewrite rules the component proofs are run with.

  A source string is its list of UTF-8 bytes (\<^typ>\<open>string\<close>), so \<open>Buffer.byteLength\<close> is
  \<^const>\<open>length\<close>. An absent (\<open>undefined\<close> or \<open>null\<close>) value of a typed field is \<^const>\<open>None\<close>.
\<close>

named_theorems res_simps \<open>rewrite rules for results that may throw\<close>
named_theorems text_simps \<open>rewrite rules for rendered and parsed text\<close>
named_theorems table_simps \<open>rewrite rules for tables with unique indexes\<close>

type_synonym byte = "8 word"

section \<open>Results\<close>

text \<open>A computation that may throw: \<^const>\<open>Inl\<close> is the thrown error.\<close>

type_synonym ('e, 'a) res = "'e + 'a"

fun bind_res :: "('e, 'a) res \<Rightarrow> ('a \<Rightarrow> ('e, 'b) res) \<Rightarrow> ('e, 'b) res" where
  "bind_res (Inl e) f = Inl e"
| "bind_res (Inr a) f = f a"

fun map_res :: "('a \<Rightarrow> ('e, 'b) res) \<Rightarrow> 'a list \<Rightarrow> ('e, 'b list) res" where
  "map_res f [] = Inr []"
| "map_res f (x # xs) =
     bind_res (f x) (\<lambda>y. bind_res (map_res f xs) (\<lambda>ys. Inr (y # ys)))"

lemma bind_res_Inr [res_simps]:
  "bind_res m f = Inr b \<longleftrightarrow> (\<exists>a. m = Inr a \<and> f a = Inr b)"
  by (cases m) auto

lemma bind_res_Inl [res_simps]:
  "bind_res m f = Inl e \<longleftrightarrow> m = Inl e \<or> (\<exists>a. m = Inr a \<and> f a = Inl e)"
  by (cases m) auto

lemma map_res_pure [simp]: "map_res (\<lambda>x. Inr (f x)) xs = Inr (map f xs)"
  by (induction xs) auto

lemma map_res_all_Inr: "(\<And>x. x \<in> set xs \<Longrightarrow> f x = Inr (g x)) \<Longrightarrow> map_res f xs = Inr (map g xs)"
  by (induction xs) auto

lemma map_res_InrD: "map_res f xs = Inr ys \<Longrightarrow> x \<in> set xs \<Longrightarrow> \<exists>y \<in> set ys. f x = Inr y"
proof (induction xs arbitrary: ys)
  case (Cons a xs)
  then show ?case by (auto simp: res_simps)
qed simp

section \<open>Integers as text\<close>

definition digit_char :: "nat \<Rightarrow> char" where
  "digit_char d = char_of (48 + d)"

fun show_nat :: "nat \<Rightarrow> string" where
  "show_nat n = (if n < 10 then [digit_char n] else show_nat (n div 10) @ [digit_char (n mod 10)])"

declare show_nat.simps [simp del]

text \<open>\<open>String(n)\<close> and \<open>n.toString()\<close> of an integer.\<close>

definition show_int :: "int \<Rightarrow> string" where
  "show_int i = (if i < 0 then ''-'' @ show_nat (nat (- i)) else show_nat (nat i))"

definition is_digit :: "char \<Rightarrow> bool" where
  "is_digit c \<longleftrightarrow> 48 \<le> (of_char c :: nat) \<and> (of_char c :: nat) \<le> 57"

definition digit_value :: "char \<Rightarrow> nat option" where
  "digit_value c =
     (let n = (of_char c :: nat)
      in if 48 \<le> n \<and> n \<le> 57 then Some (n - 48)
         else if 97 \<le> n \<and> n \<le> 122 then Some (n - 87)
         else if 65 \<le> n \<and> n \<le> 90 then Some (n - 55)
         else None)"

text \<open>The digits of \<open>cs\<close> in \<open>base\<close>, most significant first, after those read so far (\<open>acc\<close>).\<close>

fun read_digits :: "nat \<Rightarrow> nat \<Rightarrow> string \<Rightarrow> nat option" where
  "read_digits base acc [] = Some acc"
| "read_digits base acc (c # cs) =
     (case digit_value c of
        Some d \<Rightarrow> if d < base then read_digits base (base * acc + d) cs else None
      | None \<Rightarrow> None)"

definition read_nat :: "nat \<Rightarrow> string \<Rightarrow> nat option" where
  "read_nat base cs = (if cs = [] then None else read_digits base 0 cs)"

definition is_space :: "char \<Rightarrow> bool" where
  "is_space c \<longleftrightarrow> (let n = (of_char c :: nat) in n = 32 \<or> 9 \<le> n \<and> n \<le> 13)"

definition trim :: "string \<Rightarrow> string" where
  "trim s = rev (dropWhile is_space (rev (dropWhile is_space s)))"

text \<open>
  \<open>BigInt(s)\<close> of a string: surrounding white space is ignored (its ASCII characters here), the empty
  string is zero, a sign goes with decimal digits only, and \<open>0x\<close>, \<open>0o\<close>, \<open>0b\<close> name the other
  bases. \<^const>\<open>None\<close> is the \<open>SyntaxError\<close> it throws.
\<close>

definition parse_bigint :: "string \<Rightarrow> int option" where
  "parse_bigint s =
     (case trim s of
        [] \<Rightarrow> Some 0
      | c # r \<Rightarrow>
          if c = CHR ''-'' then map_option (\<lambda>n. - int n) (read_nat 10 r)
          else if c = CHR ''+'' then map_option int (read_nat 10 r)
          else (case r of
                  x # ds \<Rightarrow>
                    if c = CHR ''0'' \<and> (x = CHR ''x'' \<or> x = CHR ''X'') then map_option int (read_nat 16 ds)
                    else if c = CHR ''0'' \<and> (x = CHR ''o'' \<or> x = CHR ''O'') then map_option int (read_nat 8 ds)
                    else if c = CHR ''0'' \<and> (x = CHR ''b'' \<or> x = CHR ''B'') then map_option int (read_nat 2 ds)
                    else map_option int (read_nat 10 (c # r))
                | [] \<Rightarrow> map_option int (read_nat 10 (c # r))))"

lemma digit_char_simps [simp]:
  "digit_char 0 = CHR ''0''"
  "digit_char (Suc 0) = CHR ''1''"
  "digit_char 2 = CHR ''2''"
  "digit_char 3 = CHR ''3''"
  "digit_char 4 = CHR ''4''"
  "digit_char 5 = CHR ''5''"
  "digit_char 6 = CHR ''6''"
  "digit_char 7 = CHR ''7''"
  "digit_char 8 = CHR ''8''"
  "digit_char 9 = CHR ''9''"
  by code_simp+

lemma of_char_digit_char [text_simps]: "d < 10 \<Longrightarrow> of_char (digit_char d) = (48 + d :: nat)"
  by (simp add: digit_char_def)

lemma digit_value_digit_char [text_simps]: "d < 10 \<Longrightarrow> digit_value (digit_char d) = Some d"
  by (simp add: digit_value_def of_char_digit_char)

lemma is_digit_digit_char [text_simps]: "d < 10 \<Longrightarrow> is_digit (digit_char d)"
  by (simp add: is_digit_def of_char_digit_char)

lemma show_nat_digits: "list_all is_digit (show_nat n)"
proof (induction n rule: show_nat.induct)
  case (1 n)
  then show ?case by (subst show_nat.simps) (simp add: text_simps)
qed

lemma show_nat_nonempty [simp]: "show_nat n \<noteq> []"
  by (subst show_nat.simps) simp

lemma read_digits_append:
  "read_digits b acc (xs @ ys) =
     (case read_digits b acc xs of Some a \<Rightarrow> read_digits b a ys | None \<Rightarrow> None)"
  by (induction xs arbitrary: acc) (auto split: option.splits)

lemma read_digits_show_nat: "read_digits 10 0 (show_nat n) = Some n"
proof (induction n rule: show_nat.induct)
  case (1 n)
  show ?case
  proof (cases "n < 10")
    case True
    then show ?thesis by (subst show_nat.simps) (simp add: text_simps)
  next
    case False
    then have "read_digits 10 0 (show_nat (n div 10)) = Some (n div 10)" by (rule "1.IH")
    moreover from False
    have "show_nat n = show_nat (n div 10) @ [digit_char (n mod 10)]" by (subst show_nat.simps) simp
    ultimately show ?thesis by (simp add: read_digits_append text_simps)
  qed
qed

lemma read_nat_show_nat [text_simps]: "read_nat 10 (show_nat n) = Some n"
  by (simp add: read_nat_def read_digits_show_nat)

lemma show_nat_inject [simp]: "show_nat m = show_nat n \<longleftrightarrow> m = n"
  by (metis read_nat_show_nat option.inject)

lemma is_digit_not_space: "is_digit c \<Longrightarrow> \<not> is_space c"
  by (simp add: is_digit_def is_space_def Let_def)

lemma is_digit_chars: "is_digit c \<Longrightarrow> c \<noteq> CHR ''-'' \<and> c \<noteq> CHR ''+'' \<and> c \<noteq> CHR ''x'' \<and> c \<noteq> CHR ''X''
    \<and> c \<noteq> CHR ''o'' \<and> c \<noteq> CHR ''O'' \<and> c \<noteq> CHR ''b'' \<and> c \<noteq> CHR ''B'' \<and> c \<noteq> CHR ''_''"
  by (auto simp: is_digit_def)

lemma dropWhile_none: "list_all (\<lambda>c. \<not> P c) s \<Longrightarrow> dropWhile P s = s"
  by (cases s) auto

lemma trim_no_space: "list_all (\<lambda>c. \<not> is_space c) s \<Longrightarrow> trim s = s"
  by (simp add: trim_def dropWhile_none list_all_rev)

lemma show_nat_no_space: "list_all (\<lambda>c. \<not> is_space c) (show_nat n)"
  using show_nat_digits[of n] by (auto simp: list_all_iff dest: is_digit_not_space)

lemma parse_bigint_digits:
  assumes "list_all is_digit s" "s \<noteq> []"
  shows "parse_bigint s = map_option int (read_nat 10 s)"
proof -
  have "trim s = s"
    using assms(1) by (intro trim_no_space) (auto simp: list_all_iff dest: is_digit_not_space)
  obtain c r where s: "s = c # r" using assms(2) by (cases s) auto
  have c: "c \<noteq> CHR ''-''" "c \<noteq> CHR ''+''"
    using assms(1) s is_digit_chars[of c] by auto
  have x: "x \<noteq> CHR ''x'' \<and> x \<noteq> CHR ''X'' \<and> x \<noteq> CHR ''o'' \<and> x \<noteq> CHR ''O'' \<and> x \<noteq> CHR ''b'' \<and> x \<noteq> CHR ''B''"
    if "r = x # ds" for x ds
    using assms(1) s that is_digit_chars[of x] by auto
  show ?thesis
  proof (cases r)
    case Nil
    with c \<open>trim s = s\<close> s show ?thesis by (simp add: parse_bigint_def)
  next
    case (Cons y ds)
    with c x[OF Cons] \<open>trim s = s\<close> s show ?thesis by (simp add: parse_bigint_def)
  qed
qed

text \<open>An integer written with \<open>toString\<close> is read back by \<open>BigInt\<close>.\<close>

lemma parse_bigint_show_int [text_simps]: "parse_bigint (show_int i) = Some i"
proof (cases "i < 0")
  case True
  have "\<not> is_space CHR ''-''" by (simp add: is_space_def)
  then have "trim (''-'' @ show_nat (nat (- i))) = ''-'' @ show_nat (nat (- i))"
    using show_nat_no_space by (intro trim_no_space) simp
  then show ?thesis using True by (simp add: show_int_def parse_bigint_def read_nat_show_nat)
next
  case False
  then show ?thesis
    by (simp add: show_int_def parse_bigint_digits show_nat_digits read_nat_show_nat)
qed

lemma show_int_inject [simp]: "show_int i = show_int j \<longleftrightarrow> i = j"
  by (metis parse_bigint_show_int option.inject)

lemma show_int_nonempty [simp]: "show_int i \<noteq> []"
  by (simp add: show_int_def)

lemma show_int_no_underscore: "CHR ''_'' \<notin> set (show_int i)"
proof -
  have "CHR ''_'' \<notin> set (show_nat n)" for n
    using show_nat_digits[of n] by (auto simp: list_all_iff dest: is_digit_chars)
  then show ?thesis by (simp add: show_int_def)
qed

text \<open>\<open>xs.join(sep)\<close>.\<close>

fun join :: "string \<Rightarrow> string list \<Rightarrow> string" where
  "join sep [] = []"
| "join sep [x] = x"
| "join sep (x # y # ys) = x @ sep @ join sep (y # ys)"

section \<open>Sets and maps kept in insertion order\<close>

text \<open>\<open>Set.add\<close>: a \<open>Set\<close> iterates in the order its members were first added.\<close>

definition set_add :: "'a \<Rightarrow> 'a list \<Rightarrow> 'a list" where
  "set_add x xs = (if x \<in> set xs then xs else xs @ [x])"

definition to_set :: "'a list \<Rightarrow> 'a list" where
  "to_set xs = fold set_add xs []"

lemma set_set_add [simp]: "set (set_add x xs) = insert x (set xs)"
  by (auto simp: set_add_def)

lemma distinct_set_add [simp]: "distinct xs \<Longrightarrow> distinct (set_add x xs)"
  by (simp add: set_add_def)

lemma fold_set_add: "set (fold set_add xs acc) = set acc \<union> set xs"
  by (induction xs arbitrary: acc) auto

lemma set_to_set [simp]: "set (to_set xs) = set xs"
  by (simp add: to_set_def fold_set_add)

lemma distinct_to_set [simp]: "distinct (to_set xs)"
proof -
  have "distinct acc \<Longrightarrow> distinct (fold set_add xs acc)" for acc :: "'a list"
    by (induction xs arbitrary: acc) auto
  then show ?thesis by (simp add: to_set_def)
qed

text \<open>\<open>xs.find(p)\<close> and \<open>xs.findLast(p)\<close> are \<^const>\<open>List.find\<close> and its mirror image.\<close>

definition find_last :: "('a \<Rightarrow> bool) \<Rightarrow> 'a list \<Rightarrow> 'a option" where
  "find_last P xs = List.find P (rev xs)"

lemma find_SomeD: "List.find P xs = Some x \<Longrightarrow> x \<in> set xs \<and> P x"
  by (induction xs) (auto split: if_splits)

lemma find_NoneD: "List.find P xs = None \<Longrightarrow> x \<in> set xs \<Longrightarrow> \<not> P x"
  by (simp add: find_None_iff)

text \<open>\<open>Math.min(Math.max(x, lo), hi)\<close>.\<close>

definition clamp :: "int \<Rightarrow> int \<Rightarrow> int \<Rightarrow> int" where
  "clamp lo hi x = min (max x lo) hi"

end
