(* ===== verification/Js_Values.thy ===== *)
theory Js_Values
  imports Prelude "HOL-Library.List_Lexorder" "HOL-Library.Char_ord"
begin

text \<open>
  The dynamically typed values of the source (\<open>unknown\<close>, \<open>Record<string, unknown>\<close>): what a
  protobuf message holds before it is stored (with \<open>bigint\<close>s and byte arrays) and the JSON values
  a \<open>jsonb\<close> column holds. An object is its entries in insertion order. Numbers are integers: the
  numeric fields this code reads are enums, counts and ports.
\<close>

named_theorems js_simps \<open>rewrite rules for reading and writing fields\<close>

datatype js =
    Undef
  | Null
  | Bool bool
  | Num int
  | Big int
  | Str string
  | Bytes "byte list"
  | Arr "js list"
  | Obj "(string \<times> js) list"

section \<open>Fields\<close>

text \<open>\<open>value.k\<close>; a missing field is \<open>undefined\<close>.\<close>

fun get :: "js \<Rightarrow> string \<Rightarrow> js" where
  "get (Obj kvs) k = (case map_of kvs k of Some v \<Rightarrow> v | None \<Rightarrow> Undef)"
| "get _ k = Undef"

text \<open>Writing a key of an object literal: a key already there keeps its place.\<close>

fun put_entry :: "string \<Rightarrow> js \<Rightarrow> (string \<times> js) list \<Rightarrow> (string \<times> js) list" where
  "put_entry k v [] = [(k, v)]"
| "put_entry k v ((k', v') # kvs) = (if k = k' then (k, v) # kvs else (k', v') # put_entry k v kvs)"

text \<open>\<open>{ ...value, k1: v1, k2: v2 }\<close>.\<close>

fun spread :: "js \<Rightarrow> (string \<times> js) list \<Rightarrow> js" where
  "spread (Obj kvs) new = Obj (fold (\<lambda>(k, v). put_entry k v) new kvs)"
| "spread _ new = Obj (fold (\<lambda>(k, v). put_entry k v) new [])"

text \<open>The rest of a destructuring: \<open>const { k1, k2, ...rest } = value\<close>.\<close>

fun without :: "js \<Rightarrow> string list \<Rightarrow> js" where
  "without (Obj kvs) ks = Obj (filter (\<lambda>(k, v). k \<notin> set ks) kvs)"
| "without v ks = Obj []"

lemma map_of_put_entry [js_simps]: "map_of (put_entry k v kvs) = (map_of kvs)(k \<mapsto> v)"
  by (induction kvs) auto

lemma map_of_filter_keys: "map_of (filter (\<lambda>(k, v). P k) kvs) = (\<lambda>k. if P k then map_of kvs k else None)"
  by (induction kvs) auto

lemma get_without [js_simps]: "get (without v ks) k = (if k \<in> set ks then Undef else get v k)"
  by (cases v) (auto simp: map_of_filter_keys[of "\<lambda>k. k \<notin> set ks"])

lemma get_spread_Nil: "get (spread v []) k = get v k"
  by (cases v) auto

lemma map_of_fold_put:
  "map_of (fold (\<lambda>(k, v). put_entry k v) new kvs) k =
     (case map_of (rev new) k of Some v \<Rightarrow> Some v | None \<Rightarrow> map_of kvs k)"
proof (induction new arbitrary: kvs)
  case (Cons a new)
  show ?case
    by (cases a) (auto simp: Cons.IH map_of_put_entry map_add_def split: option.splits)
qed simp

lemma get_spread [js_simps]:
  "get (spread v new) k = (case map_of (rev new) k of Some w \<Rightarrow> w | None \<Rightarrow> get v k)"
  by (cases v) (auto simp: map_of_fold_put split: option.splits)

section \<open>The conversions of the source\<close>

text \<open>\<open>a ?? b\<close>.\<close>

definition coalesce :: "js \<Rightarrow> js \<Rightarrow> js" where
  "coalesce a b = (if a = Undef \<or> a = Null then b else a)"

text \<open>\<open>String(v)\<close>.\<close>

primrec js_string :: "js \<Rightarrow> string" where
  "js_string Undef = ''undefined''"
| "js_string Null = ''null''"
| "js_string (Bool b) = (if b then ''true'' else ''false'')"
| "js_string (Num i) = show_int i"
| "js_string (Big i) = show_int i"
| "js_string (Str s) = s"
| "js_string (Bytes bs) = join '','' (map (\<lambda>b. show_nat (unat b)) bs)"
| "js_string (Arr vs) =
     join '','' (map (\<lambda>(blank, t). if blank then [] else t)
       (zip (map (\<lambda>v. v = Undef \<or> v = Null) vs) (map js_string vs)))"
| "js_string (Obj kvs) = ''[object Object]''"

definition isRecord :: "js \<Rightarrow> bool" where
  "isRecord v = (case v of Obj _ \<Rightarrow> True | Arr _ \<Rightarrow> True | Bytes _ \<Rightarrow> True | _ \<Rightarrow> False)"

definition asBigInt :: "js \<Rightarrow> int option" where
  "asBigInt v =
     (case v of
        Big i \<Rightarrow> Some i
      | Str s \<Rightarrow> if length s > 0 then parse_bigint s else Some 0
      | Num i \<Rightarrow> Some i
      | _ \<Rightarrow> Some 0)"

definition asString :: "js \<Rightarrow> string option" where
  "asString v = (case v of Str s \<Rightarrow> Some s | _ \<Rightarrow> None)"

definition asNumber :: "js \<Rightarrow> int" where
  "asNumber v = (case v of Num i \<Rightarrow> i | _ \<Rightarrow> 0)"

text \<open>A field a generated message type declares as \<open>bigint\<close>, \<open>number\<close> or \<open>string\<close>.\<close>

definition big_field :: "js \<Rightarrow> int option" where
  "big_field v = (case v of Big i \<Rightarrow> Some i | _ \<Rightarrow> None)"

definition num_field :: "js \<Rightarrow> int option" where
  "num_field v = (case v of Num i \<Rightarrow> Some i | _ \<Rightarrow> None)"

section \<open>Base 64\<close>

definition base64_char :: "nat \<Rightarrow> char" where
  "base64_char n =
     (if n < 26 then char_of (65 + n) else if n < 52 then char_of (71 + n)
      else if n < 62 then char_of (n - 4) else if n = 62 then CHR ''+'' else CHR ''/'')"

text \<open>\<open>Buffer.from(bytes).toString("base64")\<close>.\<close>

fun base64 :: "byte list \<Rightarrow> string" where
  "base64 [] = []"
| "base64 [a] =
     (let n = unat a * 16 in [base64_char (n div 64), base64_char (n mod 64), CHR ''='', CHR ''=''])"
| "base64 [a, b] =
     (let n = (unat a * 256 + unat b) * 4
      in [base64_char (n div 4096), base64_char (n div 64 mod 64), base64_char (n mod 64), CHR ''=''])"
| "base64 (a # b # c # bs) =
     (let n = (unat a * 256 + unat b) * 256 + unat c
      in [base64_char (n div 262144), base64_char (n div 4096 mod 64), base64_char (n div 64 mod 64),
          base64_char (n mod 64)] @ base64 bs)"

section \<open>JSON\<close>

text \<open>The replacer every \<open>jsonb\<close> write is made with.\<close>

definition bigintReplacer :: "js \<Rightarrow> js" where
  "bigintReplacer v =
     (case v of Big i \<Rightarrow> Str (show_int i) | Bytes bs \<Rightarrow> Str (base64 bs) | _ \<Rightarrow> v)"

definition undef_to_null :: "js \<Rightarrow> js" where
  "undef_to_null v = (if v = Undef then Null else v)"

text \<open>
  \<open>JSON.parse(JSON.stringify(v, bigintReplacer))\<close>: an \<open>undefined\<close> field is left out, an
  \<open>undefined\<close> element is \<open>null\<close>.
\<close>

primrec json_clone :: "js \<Rightarrow> js" where
  "json_clone Undef = Undef"
| "json_clone Null = Null"
| "json_clone (Bool b) = Bool b"
| "json_clone (Num i) = Num i"
| "json_clone (Big i) = bigintReplacer (Big i)"
| "json_clone (Str s) = Str s"
| "json_clone (Bytes bs) = bigintReplacer (Bytes bs)"
| "json_clone (Arr vs) = Arr (map undef_to_null (map json_clone vs))"
| "json_clone (Obj kvs) = Obj (filter (\<lambda>kv. snd kv \<noteq> Undef) (map (map_prod id json_clone) kvs))"

definition toJsonSafe :: "js \<Rightarrow> js" where
  "toJsonSafe v =
     (let cloned = json_clone (coalesce v (Obj [])) in if isRecord cloned then cloned else Obj [])"

text \<open>A value \<open>JSON.stringify\<close> writes without throwing and reads back as itself.\<close>

primrec json_safe :: "js \<Rightarrow> bool" where
  "json_safe Undef = False"
| "json_safe Null = True"
| "json_safe (Bool b) = True"
| "json_safe (Num i) = True"
| "json_safe (Big i) = False"
| "json_safe (Str s) = True"
| "json_safe (Bytes bs) = False"
| "json_safe (Arr vs) = list_all id (map json_safe vs)"
| "json_safe (Obj kvs) = list_all snd (map (map_prod id json_safe) kvs)"

lemma json_safe_clone: "json_clone v \<noteq> Undef \<Longrightarrow> json_safe (json_clone v)"
proof (induction v)
  case (Arr vs)
  then show ?case by (auto simp: list_all_iff undef_to_null_def)
next
  case (Obj kvs)
  then show ?case by (fastforce simp: list_all_iff snds.simps)
qed (auto simp: bigintReplacer_def)

lemma json_safe_toJsonSafe [js_simps]: "json_safe (toJsonSafe v)"
proof -
  have "json_safe (json_clone (coalesce v (Obj [])))"
    by (rule json_safe_clone) (cases v, auto simp: coalesce_def bigintReplacer_def)
  then show ?thesis by (simp add: toJsonSafe_def Let_def)
qed

lemma json_safe_Obj: "json_safe (Obj kvs) \<longleftrightarrow> (\<forall>(k, v) \<in> set kvs. json_safe v)"
  by (auto simp: list_all_iff)

lemma set_put_entry: "set (put_entry k v kvs) \<subseteq> insert (k, v) (set kvs)"
  by (induction kvs) (auto split: if_splits)

lemma set_fold_put: "set (fold (\<lambda>(k, v). put_entry k v) new kvs) \<subseteq> set kvs \<union> set new"
proof (induction new arbitrary: kvs)
  case (Cons a new)
  then show ?case using set_put_entry[of "fst a" "snd a" kvs] by (cases a) fastforce
qed simp

lemma json_safe_spread [js_simps]:
  "json_safe v \<Longrightarrow> (\<forall>(k, w) \<in> set new. json_safe w) \<Longrightarrow> json_safe (spread v new)"
  using set_fold_put[of new "case v of Obj kvs \<Rightarrow> kvs | _ \<Rightarrow> []"]
  by (cases v) (fastforce simp: json_safe_Obj simp del: json_safe.simps)+

lemma json_safe_without [js_simps]: "json_safe v \<Longrightarrow> json_safe (without v ks)"
  by (cases v) (auto simp: json_safe_Obj simp del: json_safe.simps)

text \<open>JSON text of a string: quotes, backslashes and control characters are escaped.\<close>

definition hex_char :: "nat \<Rightarrow> char" where
  "hex_char n = (if n < 10 then char_of (48 + n) else char_of (87 + n))"

definition quote_char :: "char \<Rightarrow> string" where
  "quote_char c =
     (let n = (of_char c :: nat); bs = char_of (92 :: nat)
      in if n = 34 \<or> n = 92 then [bs, c]
         else if n = 8 then [bs, CHR ''b''] else if n = 9 then [bs, CHR ''t'']
         else if n = 10 then [bs, CHR ''n''] else if n = 12 then [bs, CHR ''f'']
         else if n = 13 then [bs, CHR ''r'']
         else if n < 32 then [bs, CHR ''u'', CHR ''0'', CHR ''0'', hex_char (n div 16), hex_char (n mod 16)]
         else [c])"

definition json_quote :: "string \<Rightarrow> string" where
  "json_quote s = char_of (34 :: nat) # concat (map quote_char s) @ [char_of (34 :: nat)]"

definition object_text :: "(string \<times> string option) list \<Rightarrow> string" where
  "object_text kts =
     ''{'' @ join '',''
       (concat (map (\<lambda>(k, t). case t of None \<Rightarrow> [] | Some x \<Rightarrow> [json_quote k @ '':'' @ x])
         (sort_key fst kts))) @ ''}''"

text \<open>
  \<open>canonical\<close>: the JSON text with sorted keys, two values being the same when their texts are.
  \<^const>\<open>None\<close> is the \<open>undefined\<close> that \<open>JSON.stringify(undefined)\<close> answers.
\<close>

primrec canonical :: "js \<Rightarrow> string option" where
  "canonical Undef = None"
| "canonical Null = Some ''null''"
| "canonical (Bool b) = Some (if b then ''true'' else ''false'')"
| "canonical (Num i) = Some (show_int i)"
| "canonical (Big i) = Some (json_quote (show_int i))"
| "canonical (Str s) = Some (json_quote s)"
| "canonical (Bytes bs) =
     Some (object_text (map (\<lambda>(i, b). (show_nat i, Some (show_nat (unat b)))) (enumerate 0 bs)))"
| "canonical (Arr vs) =
     Some (''['' @ join '','' (map (\<lambda>t. case t of None \<Rightarrow> ''null'' | Some x \<Rightarrow> x) (map canonical vs)) @ '']'')"
| "canonical (Obj kvs) = Some (object_text (map (map_prod id canonical) kvs))"

end
