(* ===== verification/Telemetry_Events.thy ===== *)
theory Telemetry_Events
  imports Js_Values
begin

text \<open>
  \<open>packages/telemetry/src/types.ts\<close> and \<open>normalize.ts\<close>: the daemon's event envelope, the normalized
  event both the ingest and the rebuild path work on, and the pure derivations of the stored rows
  (\<open>packages/db/src/schema/telemetry.ts\<close>) from it.

  The envelope's message types come from the runtime protocol, a package outside the repository: the
  model keeps their discriminator, the typed fields of an \<open>ioChunk\<close> (the one case the code takes
  apart field by field) and an arbitrary value for every other case. The numeric stream kinds of
  \<open>@sealant/runtime-client\<close> and the SHA-256 digest (in hexadecimal) are parameters.
\<close>

section \<open>Envelopes\<close>

datatype msg_case =
    RuntimeStateChanged | RuntimeHeartbeat | ProcessStarted | ProcessExited | TelemetryDropped
  | FileChange | FileWatchOverflow | FileSnapshotCompleted | FileDiffAvailable
  | NetworkRequest | NetworkSourceObserved

datatype payload_case = IoChunkCase | Msg msg_case | UnknownCase

fun msg_case_name :: "msg_case \<Rightarrow> string" where
  "msg_case_name RuntimeStateChanged = ''runtimeStateChanged''"
| "msg_case_name RuntimeHeartbeat = ''runtimeHeartbeat''"
| "msg_case_name ProcessStarted = ''processStarted''"
| "msg_case_name ProcessExited = ''processExited''"
| "msg_case_name TelemetryDropped = ''telemetryDropped''"
| "msg_case_name FileChange = ''fileChange''"
| "msg_case_name FileWatchOverflow = ''fileWatchOverflow''"
| "msg_case_name FileSnapshotCompleted = ''fileSnapshotCompleted''"
| "msg_case_name FileDiffAvailable = ''fileDiffAvailable''"
| "msg_case_name NetworkRequest = ''networkRequest''"
| "msg_case_name NetworkSourceObserved = ''networkSourceObserved''"

fun payload_case_name :: "payload_case \<Rightarrow> string" where
  "payload_case_name IoChunkCase = ''ioChunk''"
| "payload_case_name (Msg m) = msg_case_name m"
| "payload_case_name UnknownCase = ''unknown''"

definition payloadCaseValues :: "payload_case list" where
  "payloadCaseValues =
     [Msg RuntimeStateChanged, Msg RuntimeHeartbeat, Msg ProcessStarted, Msg ProcessExited,
      IoChunkCase, Msg TelemetryDropped, Msg FileChange, Msg FileWatchOverflow,
      Msg FileSnapshotCompleted, Msg FileDiffAvailable, Msg NetworkRequest,
      Msg NetworkSourceObserved, UnknownCase]"

text \<open>\<open>payloadCaseGuard\<close>: the case a stored text names, if any.\<close>

definition payloadCaseGuard :: "string \<Rightarrow> payload_case option" where
  "payloadCaseGuard s = List.find (\<lambda>c. payload_case_name c = s) payloadCaseValues"

record io_transform =
  tr_redacted :: bool
  tr_truncated :: bool
  tr_coalesced :: bool
  tr_originalByteCount :: "int option"

record io_chunk =
  io_stream :: int
  io_byteCount :: int
  io_streamOffset :: int
  io_content :: "byte list option"
  io_artifact :: "(string \<times> string) option"
  io_transform :: "io_transform option"

datatype env_payload = IoChunk io_chunk | Message msg_case js | NoPayload

fun env_case :: "env_payload \<Rightarrow> payload_case" where
  "env_case (IoChunk io) = IoChunkCase"
| "env_case (Message m v) = Msg m"
| "env_case NoPayload = UnknownCase"

record envelope =
  env_eventId :: string
  env_runtimeId :: string
  env_executionId :: "string option"
  env_sessionId :: "string option"
  env_processId :: "string option"
  env_requestId :: "string option"
  env_schemaVersion :: int
  env_sequence :: int
  env_observedAt :: int
  env_monotonicTimestamp :: int
  env_captureMethod :: int
  env_confidence :: int
  env_payload :: env_payload

section \<open>Normalized events and stored rows\<close>

record norm_content =
  nc_algo :: string
  nc_hash :: string
  nc_byteSize :: int
  nc_bytes :: "byte list"

record norm_scrollback =
  ns_processId :: "string option"
  ns_sessionId :: "string option"
  ns_stream :: int
  ns_streamOffset :: int
  ns_byteCount :: int
  ns_contentAlgo :: "string option"
  ns_contentHash :: "string option"
  ns_redacted :: bool
  ns_truncated :: bool
  ns_coalesced :: bool
  ns_originalByteCount :: "int option"

record norm_event =
  ne_eventId :: string
  ne_runtimeId :: string
  ne_executionId :: "string option"
  ne_sessionId :: "string option"
  ne_processId :: "string option"
  ne_requestId :: "string option"
  ne_schemaVersion :: int
  ne_sequence :: int
  ne_observedAt :: int
  ne_monotonicTimestamp :: int
  ne_captureMethod :: int
  ne_confidence :: int
  ne_payloadCase :: payload_case
  ne_payload :: js
  ne_summary :: string
  ne_content :: "norm_content option"
  ne_scrollback :: "norm_scrollback option"
  ne_attributedRunId :: "string option"

record event_row =
  er_eventId :: string
  er_runId :: string
  er_runtimeId :: string
  er_executionId :: "string option"
  er_sessionId :: "string option"
  er_processId :: "string option"
  er_requestId :: "string option"
  er_schemaVersion :: int
  er_sequence :: int
  er_observedAt :: int
  er_monotonicTimestamp :: int
  er_captureMethod :: int
  er_confidence :: int
  er_payloadCase :: string
  er_payload :: js

record timeline_row =
  tl_eventId :: string
  tl_runId :: string
  tl_sequence :: int
  tl_kind :: string
  tl_occurredAt :: int
  tl_summary :: string
  tl_refJson :: js

record scrollback_row =
  sb_eventId :: string
  sb_runId :: string
  sb_processId :: "string option"
  sb_sessionId :: "string option"
  sb_stream :: int
  sb_streamOffset :: int
  sb_byteCount :: int
  sb_contentAlgo :: "string option"
  sb_contentHash :: "string option"
  sb_redacted :: bool
  sb_truncated :: bool
  sb_coalesced :: bool
  sb_originalByteCount :: "int option"
  sb_sequence :: int

section \<open>Withheld arguments (packages/db/src/withheld-arguments.ts)\<close>

text \<open>The entries \<open>argCount\<close> and \<open>argLengths\<close> that stand in for the arguments.\<close>

definition describeArguments :: "js list \<Rightarrow> (string \<times> js) list" where
  "describeArguments args =
     [(''argCount'', Num (int (length args))),
      (''argLengths'', Arr (map (\<lambda>arg. Num (int (length (js_string arg)))) args))]"

definition withholdProcessArgs :: "js \<Rightarrow> js" where
  "withholdProcessArgs payload =
     (case get payload ''args'' of
        Arr args \<Rightarrow>
          if length args = 0 then payload
          else spread payload ((''args'', Arr []) # describeArguments args)
      | _ \<Rightarrow> payload)"

definition processArgCount :: "js \<Rightarrow> int" where
  "processArgCount payload =
     (case get payload ''argCount'' of
        Num n \<Rightarrow> n
      | _ \<Rightarrow> (case get payload ''args'' of Arr args \<Rightarrow> int (length args) | _ \<Rightarrow> 0))"

section \<open>Summaries\<close>

record stream_kinds =
  STDOUT :: int
  STDERR :: int
  STDIN :: int
  PTY_OUTPUT :: int
  PTY_INPUT :: int

definition streamLabel :: "stream_kinds \<Rightarrow> int \<Rightarrow> string" where
  "streamLabel k stream =
     (if stream = STDOUT k then ''stdout''
      else if stream = STDERR k then ''stderr''
      else if stream = STDIN k then ''stdin''
      else if stream = PTY_OUTPUT k then ''pty-out''
      else if stream = PTY_INPUT k then ''pty-in''
      else ''stream:'' @ show_int stream)"

text \<open>\<open>String(payload.field ?? default)\<close>.\<close>

definition field_or :: "js \<Rightarrow> string \<Rightarrow> js \<Rightarrow> string" where
  "field_or payload k d = js_string (coalesce (get payload k) d)"

definition summarize :: "stream_kinds \<Rightarrow> payload_case \<Rightarrow> js \<Rightarrow> string" where
  "summarize k payloadCase payload =
     (let f = field_or payload; is_set = (\<lambda>key. get payload key \<noteq> Undef);
          str = (\<lambda>key. js_string (get payload key)) in
      case payloadCase of
        IoChunkCase \<Rightarrow>
          streamLabel k (asNumber (get payload ''stream'')) @ '' '' @ f ''byteCount'' (Str ''0'')
            @ ''B @'' @ f ''streamOffset'' (Str ''0'')
      | Msg ProcessStarted \<Rightarrow>
          (let argCount = processArgCount payload in
           ''exec '' @ f ''executable'' (Str ''?'')
             @ (if argCount = 0 then ''''
                else '' ('' @ show_int argCount @ '' ''
                  @ (if argCount = 1 then ''argument'' else ''arguments'') @ '' not recorded)''))
      | Msg ProcessExited \<Rightarrow>
          ''exit code='' @ (if is_set ''exitCode'' then str ''exitCode'' else ''?'')
            @ (if is_set ''signal'' then '' signal='' @ str ''signal'' else '''')
            @ '' reason='' @ f ''reason'' (Num 0)
      | Msg NetworkRequest \<Rightarrow>
          f ''method'' (Str ''?'') @ '' '' @ f ''host'' (Str ''?'') @ '':'' @ f ''port'' (Num 0)
            @ f ''path'' (Str '''')
            @ (if is_set ''status'' then '' -> '' @ str ''status'' else '''')
      | Msg NetworkSourceObserved \<Rightarrow>
          ''observed '' @ f ''host'' (Str ''?'') @ '':'' @ f ''port'' (Num 0)
      | Msg FileChange \<Rightarrow> ''file kind='' @ f ''kind'' (Num 0) @ '' '' @ f ''path'' (Str '''')
      | Msg FileDiffAvailable \<Rightarrow>
          ''diff +'' @ f ''added'' (Num 0) @ '' ~'' @ f ''modified'' (Num 0) @ '' -'' @ f ''deleted'' (Num 0)
      | Msg FileSnapshotCompleted \<Rightarrow>
          ''snapshot '' @ f ''root'' (Str '''') @ '' ('' @ f ''fileCount'' (Num 0) @ '' files)''
      | Msg FileWatchOverflow \<Rightarrow> ''watch overflow '' @ f ''root'' (Str '''')
      | Msg RuntimeStateChanged \<Rightarrow>
          ''runtime state='' @ f ''state'' (Num 0)
            @ (if is_set ''reason'' then '' ('' @ str ''reason'' @ '')'' else '''')
      | Msg RuntimeHeartbeat \<Rightarrow> ''heartbeat state='' @ f ''state'' (Num 0)
      | Msg TelemetryDropped \<Rightarrow> ''dropped '' @ f ''count'' (Num 0) @ '' ('' @ f ''reason'' (Str '''') @ '')''
      | UnknownCase \<Rightarrow> ''unknown event'')"

section \<open>Normalization\<close>

datatype js_error = SyntaxError

definition big_or_throw :: "js \<Rightarrow> (js_error, int) res" where
  "big_or_throw v = (case asBigInt v of Some i \<Rightarrow> Inr i | None \<Rightarrow> Inl SyntaxError)"

definition deriveScrollback ::
  "string option \<Rightarrow> string option \<Rightarrow> payload_case \<Rightarrow> js \<Rightarrow> (js_error, norm_scrollback option) res"
where
  "deriveScrollback processId sessionId payloadCase payload =
     (if payloadCase \<noteq> IoChunkCase then Inr None
      else
        let transform =
              (if isRecord (get payload ''transform'') then Some (get payload ''transform'') else None);
            flag = (\<lambda>k. case transform of Some t \<Rightarrow> get t k = Bool True | None \<Rightarrow> False);
            original = (case transform of Some t \<Rightarrow> get t ''originalByteCount'' | None \<Rightarrow> Undef) in
        bind_res (big_or_throw (get payload ''streamOffset'')) (\<lambda>streamOffset.
        bind_res (big_or_throw (get payload ''byteCount'')) (\<lambda>byteCount.
        bind_res (if original = Undef then Inr None
                  else bind_res (big_or_throw original) (\<lambda>i. Inr (Some i))) (\<lambda>originalByteCount.
        Inr (Some
          \<lparr>ns_processId = processId, ns_sessionId = sessionId,
           ns_stream = asNumber (get payload ''stream''),
           ns_streamOffset = streamOffset, ns_byteCount = byteCount,
           ns_contentAlgo = asString (get payload ''contentAlgo''),
           ns_contentHash = asString (get payload ''contentHash''),
           ns_redacted = flag ''redacted'', ns_truncated = flag ''truncated'',
           ns_coalesced = flag ''coalesced'', ns_originalByteCount = originalByteCount\<rparr>)))))"

text \<open>The \<open>contentAlgo\<close> and \<open>contentHash\<close> of a chunk: its inline content's digest, or its artifact's.\<close>

definition chunk_digest :: "(byte list \<Rightarrow> string) \<Rightarrow> io_chunk \<Rightarrow> (string \<times> string) option" where
  "chunk_digest sha256 io =
     (case io_content io of
        Some bytes \<Rightarrow> Some (''sha256'', sha256 bytes)
      | None \<Rightarrow> (case io_artifact io of Some (algo, hash) \<Rightarrow> Some (algo, hash) | None \<Rightarrow> None))"

definition transform_entries :: "io_transform \<Rightarrow> (string \<times> js) list" where
  "transform_entries tr =
     [(''redacted'', Bool (tr_redacted tr)), (''truncated'', Bool (tr_truncated tr)),
      (''coalesced'', Bool (tr_coalesced tr))]
     @ (case tr_originalByteCount tr of
          None \<Rightarrow> [] | Some n \<Rightarrow> [(''originalByteCount'', Str (show_int n))])"

definition chunk_payload :: "(byte list \<Rightarrow> string) \<Rightarrow> io_chunk \<Rightarrow> js" where
  "chunk_payload sha256 io =
     Obj ([(''stream'', Num (io_stream io)),
           (''byteCount'', Str (show_int (io_byteCount io))),
           (''streamOffset'', Str (show_int (io_streamOffset io)))]
          @ (case chunk_digest sha256 io of
               Some (algo, hash) \<Rightarrow> [(''contentAlgo'', Str algo), (''contentHash'', Str hash)]
             | None \<Rightarrow> [])
          @ (case io_transform io of
               Some tr \<Rightarrow> [(''transform'', Obj (transform_entries tr))] | None \<Rightarrow> []))"

text \<open>
  A \<open>processStarted\<close> message: its arguments are dropped before anything is cloned, and the count and
  lengths of a daemon that withholds them itself are kept when there were some.
\<close>

definition described_args :: "js \<Rightarrow> (string \<times> js) list" where
  "described_args v =
     (case get v ''argCount'' of
        Num n \<Rightarrow>
          if n > 0
          then [(''argCount'', Num n),
                (''argLengths'', case get v ''argLengths'' of Arr ls \<Rightarrow> Arr ls | _ \<Rightarrow> Arr [])]
          else []
      | _ \<Rightarrow> [])"

definition started_payload :: "js \<Rightarrow> js" where
  "started_payload v =
     (let started = without v [''args'', ''argCount'', ''argLengths'']
      in withholdProcessArgs
           (spread (toJsonSafe started) (described_args v @ [(''args'', get v ''args'')])))"

definition buildPayload :: "(byte list \<Rightarrow> string) \<Rightarrow> envelope \<Rightarrow> js" where
  "buildPayload sha256 env =
     (case env_payload env of
        IoChunk io \<Rightarrow> chunk_payload sha256 io
      | Message ProcessStarted v \<Rightarrow> started_payload v
      | Message m v \<Rightarrow> toJsonSafe v
      | NoPayload \<Rightarrow> Obj [])"

definition env_content :: "(byte list \<Rightarrow> string) \<Rightarrow> envelope \<Rightarrow> norm_content option" where
  "env_content sha256 env =
     (case env_payload env of
        IoChunk io \<Rightarrow>
          (case io_content io of
             Some bytes \<Rightarrow>
               Some \<lparr>nc_algo = ''sha256'', nc_hash = sha256 bytes, nc_byteSize = io_byteCount io,
                     nc_bytes = bytes\<rparr>
           | None \<Rightarrow> None)
      | _ \<Rightarrow> None)"

definition normalizeEnvelope ::
  "stream_kinds \<Rightarrow> (byte list \<Rightarrow> string) \<Rightarrow> envelope \<Rightarrow> (js_error, norm_event) res"
where
  "normalizeEnvelope k sha256 env =
     (let payloadCase = env_case (env_payload env); payload = buildPayload sha256 env in
      bind_res (deriveScrollback (env_processId env) (env_sessionId env) payloadCase payload) (\<lambda>scrollback.
      Inr \<lparr>ne_eventId = env_eventId env, ne_runtimeId = env_runtimeId env,
           ne_executionId = env_executionId env, ne_sessionId = env_sessionId env,
           ne_processId = env_processId env, ne_requestId = env_requestId env,
           ne_schemaVersion = env_schemaVersion env, ne_sequence = env_sequence env,
           ne_observedAt = env_observedAt env, ne_monotonicTimestamp = env_monotonicTimestamp env,
           ne_captureMethod = env_captureMethod env, ne_confidence = env_confidence env,
           ne_payloadCase = payloadCase, ne_payload = payload,
           ne_summary = summarize k payloadCase payload,
           ne_content = env_content sha256 env, ne_scrollback = scrollback,
           ne_attributedRunId = None\<rparr>))"

definition eventRowToNormalized :: "stream_kinds \<Rightarrow> event_row \<Rightarrow> (js_error, norm_event) res" where
  "eventRowToNormalized k row =
     (let payloadCase = (case payloadCaseGuard (er_payloadCase row) of Some c \<Rightarrow> c | None \<Rightarrow> UnknownCase);
          payload = (if payloadCase = Msg ProcessStarted then withholdProcessArgs (er_payload row)
                     else er_payload row) in
      bind_res (deriveScrollback (er_processId row) (er_sessionId row) payloadCase payload) (\<lambda>scrollback.
      Inr \<lparr>ne_eventId = er_eventId row, ne_runtimeId = er_runtimeId row,
           ne_executionId = er_executionId row, ne_sessionId = er_sessionId row,
           ne_processId = er_processId row, ne_requestId = er_requestId row,
           ne_schemaVersion = er_schemaVersion row, ne_sequence = er_sequence row,
           ne_observedAt = er_observedAt row, ne_monotonicTimestamp = er_monotonicTimestamp row,
           ne_captureMethod = er_captureMethod row, ne_confidence = er_confidence row,
           ne_payloadCase = payloadCase, ne_payload = payload,
           ne_summary = summarize k payloadCase payload,
           ne_content = None, ne_scrollback = scrollback, ne_attributedRunId = None\<rparr>))"

section \<open>Rows derived from an event\<close>

definition eventRow :: "norm_event \<Rightarrow> string \<Rightarrow> event_row" where
  "eventRow event runId =
     \<lparr>er_eventId = ne_eventId event, er_runId = runId, er_runtimeId = ne_runtimeId event,
      er_executionId = ne_executionId event, er_sessionId = ne_sessionId event,
      er_processId = ne_processId event, er_requestId = ne_requestId event,
      er_schemaVersion = ne_schemaVersion event, er_sequence = ne_sequence event,
      er_observedAt = ne_observedAt event, er_monotonicTimestamp = ne_monotonicTimestamp event,
      er_captureMethod = ne_captureMethod event, er_confidence = ne_confidence event,
      er_payloadCase = payload_case_name (ne_payloadCase event), er_payload = ne_payload event\<rparr>"

definition deriveTimelineRow :: "norm_event \<Rightarrow> string \<Rightarrow> timeline_row" where
  "deriveTimelineRow event runId =
     \<lparr>tl_eventId = ne_eventId event, tl_runId = runId, tl_sequence = ne_sequence event,
      tl_kind = payload_case_name (ne_payloadCase event), tl_occurredAt = ne_monotonicTimestamp event,
      tl_summary = ne_summary event, tl_refJson = ne_payload event\<rparr>"

definition deriveScrollbackRow :: "norm_event \<Rightarrow> string \<Rightarrow> scrollback_row option" where
  "deriveScrollbackRow event runId =
     (case ne_scrollback event of
        None \<Rightarrow> None
      | Some s \<Rightarrow> Some
          \<lparr>sb_eventId = ne_eventId event, sb_runId = runId, sb_processId = ns_processId s,
           sb_sessionId = ns_sessionId s, sb_stream = ns_stream s, sb_streamOffset = ns_streamOffset s,
           sb_byteCount = ns_byteCount s, sb_contentAlgo = ns_contentAlgo s,
           sb_contentHash = ns_contentHash s, sb_redacted = ns_redacted s,
           sb_truncated = ns_truncated s, sb_coalesced = ns_coalesced s,
           sb_originalByteCount = ns_originalByteCount s, sb_sequence = ne_sequence event\<rparr>)"

end
