(* ===== verification/Telemetry_Events_Proofs.thy ===== *)
theory Telemetry_Events_Proofs
  imports Telemetry_Events
begin

text \<open>
  What normalization promises: it never throws, its payloads can be written as JSON, a process's
  arguments leave no trace but their number and lengths, and an event read back from its stored row
  is the event that was stored (so a projection rebuilt from the log is the one made at ingest).
\<close>

section \<open>The cases and their names\<close>

lemma payload_case_guard [simp]: "payloadCaseGuard (payload_case_name c) = Some c"
proof (cases c)
  case (Msg m)
  then show ?thesis by (cases m) (simp_all add: payloadCaseGuard_def payloadCaseValues_def)
qed (simp_all add: payloadCaseGuard_def payloadCaseValues_def)

lemma payload_case_name_inject [simp]: "payload_case_name c = payload_case_name d \<longleftrightarrow> c = d"
  by (metis payload_case_guard option.inject)

section \<open>Scrollback of a chunk\<close>

definition chunk_scrollback ::
  "(byte list \<Rightarrow> string) \<Rightarrow> string option \<Rightarrow> string option \<Rightarrow> io_chunk \<Rightarrow> norm_scrollback"
where
  "chunk_scrollback sha256 p s io =
     \<lparr>ns_processId = p, ns_sessionId = s, ns_stream = io_stream io,
      ns_streamOffset = io_streamOffset io, ns_byteCount = io_byteCount io,
      ns_contentAlgo = map_option fst (chunk_digest sha256 io),
      ns_contentHash = map_option snd (chunk_digest sha256 io),
      ns_redacted = (case io_transform io of Some tr \<Rightarrow> tr_redacted tr | None \<Rightarrow> False),
      ns_truncated = (case io_transform io of Some tr \<Rightarrow> tr_truncated tr | None \<Rightarrow> False),
      ns_coalesced = (case io_transform io of Some tr \<Rightarrow> tr_coalesced tr | None \<Rightarrow> False),
      ns_originalByteCount = Option.bind (io_transform io) tr_originalByteCount\<rparr>"

lemma big_or_throw_decimal [simp]: "big_or_throw (Str (show_int i)) = Inr i"
  by (simp add: big_or_throw_def asBigInt_def text_simps)

lemma get_chunk_payload:
  "get (chunk_payload h io) ''stream'' = Num (io_stream io)"
  "get (chunk_payload h io) ''byteCount'' = Str (show_int (io_byteCount io))"
  "get (chunk_payload h io) ''streamOffset'' = Str (show_int (io_streamOffset io))"
  "get (chunk_payload h io) ''contentAlgo'' =
     (case chunk_digest h io of Some d \<Rightarrow> Str (fst d) | None \<Rightarrow> Undef)"
  "get (chunk_payload h io) ''contentHash'' =
     (case chunk_digest h io of Some d \<Rightarrow> Str (snd d) | None \<Rightarrow> Undef)"
  "get (chunk_payload h io) ''transform'' =
     (case io_transform io of Some tr \<Rightarrow> Obj (transform_entries tr) | None \<Rightarrow> Undef)"
  by (auto simp: chunk_payload_def map_add_def split: option.splits prod.splits)

lemma get_transform_entries:
  "get (Obj (transform_entries tr)) ''redacted'' = Bool (tr_redacted tr)"
  "get (Obj (transform_entries tr)) ''truncated'' = Bool (tr_truncated tr)"
  "get (Obj (transform_entries tr)) ''coalesced'' = Bool (tr_coalesced tr)"
  "get (Obj (transform_entries tr)) ''originalByteCount'' =
     (case tr_originalByteCount tr of Some n \<Rightarrow> Str (show_int n) | None \<Rightarrow> Undef)"
  by (auto simp: transform_entries_def split: option.splits)

lemma deriveScrollback_chunk:
  "deriveScrollback p s IoChunkCase (chunk_payload h io) = Inr (Some (chunk_scrollback h p s io))"
  by (cases "io_transform io"; cases "chunk_digest h io")
    (auto simp: deriveScrollback_def get_chunk_payload get_transform_entries chunk_scrollback_def
      Let_def isRecord_def asNumber_def asString_def simp del: get.simps split: option.splits)

lemma deriveScrollback_other [simp]:
  "c \<noteq> IoChunkCase \<Longrightarrow> deriveScrollback p s c payload = Inr None"
  by (simp add: deriveScrollback_def)

section \<open>Withheld arguments\<close>

lemma get_withheld_args:
  "get (withholdProcessArgs p) ''args'' = (case get p ''args'' of Arr _ \<Rightarrow> Arr [] | v \<Rightarrow> v)"
  by (auto simp: withholdProcessArgs_def js_simps describeArguments_def split: js.splits)

lemma withhold_idem [simp]: "withholdProcessArgs (withholdProcessArgs p) = withholdProcessArgs p"
  unfolding withholdProcessArgs_def[of "withholdProcessArgs p"]
  by (auto simp: get_withheld_args split: js.splits)

lemma started_payload_withheld [simp]: "withholdProcessArgs (started_payload v) = started_payload v"
  by (simp add: started_payload_def Let_def)

text \<open>What \<^const>\<open>withholdProcessArgs\<close> leaves of the arguments: their number and their lengths.\<close>

lemma put_entry_shadow:
  "put_entry k w (put_entry k v kvs) = put_entry k w kvs"
  by (induction kvs) auto

lemma spread_args_last:
  "\<exists>kvs. spread p (new @ [(k, v)]) = Obj (put_entry k v kvs) \<and> (\<forall>w. spread p (new @ [(k, w)]) = Obj (put_entry k w kvs))"
  by (cases p) auto

lemma withhold_put_args:
  assumes "map (length \<circ> js_string) args = map (length \<circ> js_string) args'"
  shows "withholdProcessArgs (Obj (put_entry ''args'' (Arr args) kvs))
       = withholdProcessArgs (Obj (put_entry ''args'' (Arr args') kvs))"
proof -
  have len: "length args = length args'" using assms by (metis length_map)
  have "map (\<lambda>a. Num (int (length (js_string a)))) xs = map (\<lambda>n. Num (int n)) (map (length \<circ> js_string) xs)" for xs
    by simp
  then have "describeArguments args = describeArguments args'"
    using assms len unfolding describeArguments_def by metis
  then show ?thesis
    using len by (cases "args = []") (auto simp: withholdProcessArgs_def map_of_put_entry put_entry_shadow)
qed

lemma started_payload_lengths_only:
  assumes rest: "\<And>k. k \<noteq> ''args'' \<Longrightarrow> get v k = get v' k"
    and started: "without v [''args'', ''argCount'', ''argLengths''] = without v' [''args'', ''argCount'', ''argLengths'']"
    and args: "get v ''args'' = Arr args" "get v' ''args'' = Arr args'"
    and lengths: "map (length \<circ> js_string) args = map (length \<circ> js_string) args'"
  shows "started_payload v = started_payload v'"
proof -
  define started where "started = toJsonSafe (without v' [''args'', ''argCount'', ''argLengths''])"
  have described: "described_args v = described_args v'"
    using rest[of "''argCount''"] rest[of "''argLengths''"] by (simp add: described_args_def split: js.splits)
  obtain kvs where kvs: "\<And>w. spread started (described_args v' @ [(''args'', w)]) = Obj (put_entry ''args'' w kvs)"
    using spread_args_last[of started "described_args v'" "''args''"] by blast
  have "started_payload v = withholdProcessArgs (Obj (put_entry ''args'' (Arr args) kvs))"
    and "started_payload v' = withholdProcessArgs (Obj (put_entry ''args'' (Arr args') kvs))"
    using started args described kvs by (simp_all add: started_payload_def Let_def started_def)
  then show ?thesis using withhold_put_args[OF lengths] by simp
qed

section \<open>Normalizing and reading back\<close>

lemma normalizeEnvelope_total: "\<exists>event. normalizeEnvelope k h env = Inr event"
proof (cases "env_payload env")
  case (IoChunk io)
  then show ?thesis by (simp add: normalizeEnvelope_def buildPayload_def deriveScrollback_chunk Let_def)
next
  case (Message m v)
  then show ?thesis by (simp add: normalizeEnvelope_def Let_def)
next
  case NoPayload
  then show ?thesis by (simp add: normalizeEnvelope_def Let_def)
qed

text \<open>
  An event as normalization makes it: its payload is withheld, and its summary and scrollback are
  the ones its payload gives.
\<close>

definition well_normalized :: "stream_kinds \<Rightarrow> norm_event \<Rightarrow> bool" where
  "well_normalized k event \<longleftrightarrow>
     (ne_payloadCase event = Msg ProcessStarted \<longrightarrow> withholdProcessArgs (ne_payload event) = ne_payload event) \<and>
     ne_summary event = summarize k (ne_payloadCase event) (ne_payload event) \<and>
     deriveScrollback (ne_processId event) (ne_sessionId event) (ne_payloadCase event) (ne_payload event)
       = Inr (ne_scrollback event)"

lemma normalizeEnvelope_well_normalized:
  assumes "normalizeEnvelope k h env = Inr event"
  shows "well_normalized k event"
proof -
  have "withholdProcessArgs (buildPayload h env) = buildPayload h env"
    if "env_case (env_payload env) = Msg ProcessStarted"
    using that by (cases "env_payload env") (auto simp: buildPayload_def)
  then show ?thesis
    using assms by (auto simp: normalizeEnvelope_def well_normalized_def Let_def res_simps)
qed

text \<open>What a stored row gives back of the event it was made from.\<close>

definition readable :: "norm_event \<Rightarrow> norm_event" where
  "readable event = event\<lparr>ne_content := None, ne_attributedRunId := None\<rparr>"

lemma readback:
  assumes "well_normalized k event"
  shows "eventRowToNormalized k (eventRow event runId) = Inr (readable event)"
  using assms by (auto simp: eventRowToNormalized_def eventRow_def well_normalized_def readable_def Let_def)

text \<open>The same, when only the payload and the correlation fields of the event are as normalized.\<close>

lemma readback_payload:
  assumes "ne_payloadCase event = Msg ProcessStarted \<Longrightarrow> withholdProcessArgs (ne_payload event) = ne_payload event"
    and "deriveScrollback (ne_processId event) (ne_sessionId event) (ne_payloadCase event) (ne_payload event) = Inr s"
  shows "eventRowToNormalized k (eventRow event runId) =
    Inr (event\<lparr>ne_content := None, ne_attributedRunId := None, ne_scrollback := s,
           ne_summary := summarize k (ne_payloadCase event) (ne_payload event)\<rparr>)"
  using assms by (auto simp: eventRowToNormalized_def eventRow_def Let_def)

lemma deriveTimelineRow_readable [simp]: "deriveTimelineRow (readable event) r = deriveTimelineRow event r"
  by (simp add: deriveTimelineRow_def readable_def)

lemma deriveScrollbackRow_readable [simp]: "deriveScrollbackRow (readable event) r = deriveScrollbackRow event r"
  by (simp add: deriveScrollbackRow_def readable_def split: option.splits)

lemma json_safe_withhold: "json_safe p \<Longrightarrow> json_safe (withholdProcessArgs p)"
  by (auto simp: withholdProcessArgs_def describeArguments_def list_all_iff
      simp del: get.simps intro!: json_safe_spread split: js.splits)

section \<open>The properties\<close>

text \<open>Concrete parameters for the examples.\<close>

definition stream_kinds_example :: stream_kinds where
  "stream_kinds_example = \<lparr>STDOUT = 2, STDERR = 3, STDIN = 1, PTY_OUTPUT = 5, PTY_INPUT = 4\<rparr>"

definition digest_example :: "byte list \<Rightarrow> string" where
  [simp]: "digest_example bytes = ''digest''"

text \<open>C4: normalizing an envelope never throws, and the rows the rebuild path derives from the
  stored log row are the rows the ingest path derives from the live event: timeline and scrollback
  projections of a stored event do not depend on which path made them.\<close>

theorem normalize_rebuild_agrees:
  "\<exists>event rebuilt.
     normalizeEnvelope k sha256 env = Inr event \<and>
     eventRowToNormalized k (eventRow event runId) = Inr rebuilt \<and>
     deriveTimelineRow rebuilt runId = deriveTimelineRow event runId \<and>
     deriveScrollbackRow rebuilt runId = deriveScrollbackRow event runId \<and>
     eventRow rebuilt runId = eventRow event runId"
proof -
  obtain event where e: "normalizeEnvelope k sha256 env = Inr event"
    using normalizeEnvelope_total by blast
  then have "eventRowToNormalized k (eventRow event runId) = Inr (readable event)"
    by (intro readback normalizeEnvelope_well_normalized)
  moreover have "eventRow (readable event) runId = eventRow event runId"
    by (simp add: eventRow_def readable_def)
  ultimately show ?thesis using e by auto
qed

text \<open>C5: a process's arguments leave nothing in the record but how many there were and how long
  each one was. Two \<open>processStarted\<close> events that differ only in the text of their arguments, not
  in its lengths, are stored as the same row.\<close>

theorem arguments_never_stored:
  assumes "env_payload env = Message ProcessStarted v"
    and "get v ''args'' = Arr args" "get v' ''args'' = Arr args'"
    and "map (length \<circ> js_string) args = map (length \<circ> js_string) args'"
    and "without v [''args''] = without v' [''args'']"
  shows "normalizeEnvelope k sha256 env =
     normalizeEnvelope k sha256 (env\<lparr>env_payload := Message ProcessStarted v'\<rparr>)"
proof -
  have "get v key = get v' key" if "key \<noteq> ''args''" for key
    using that arg_cong[OF assms(5), of "\<lambda>w. get w key"] by (simp add: get_without)
  moreover have "without w [''args'', ''argCount'', ''argLengths''] =
      without (without w [''args'']) [''argCount'', ''argLengths'']" for w
    by (cases w) (auto simp: intro!: filter_cong)
  then have "without v [''args'', ''argCount'', ''argLengths''] = without v' [''args'', ''argCount'', ''argLengths'']"
    using assms(5) by metis
  ultimately have "started_payload v = started_payload v'"
    using assms(2-4) by (intro started_payload_lengths_only)
  then show ?thesis
    using assms(1) by (simp add: normalizeEnvelope_def buildPayload_def env_content_def Let_def)
qed

theorem arguments_never_stored_witness:
  "let env = \<lparr>env_eventId = ''e1'', env_runtimeId = ''rt'', env_executionId = None, env_sessionId = None,
       env_processId = Some ''p'', env_requestId = None, env_schemaVersion = 1, env_sequence = 4,
       env_observedAt = 0, env_monotonicTimestamp = 9, env_captureMethod = 1, env_confidence = 1,
       env_payload = Message ProcessStarted
         (Obj [(''executable'', Str ''curl''), (''args'', Arr [Str ''-H'', Str ''hunter2''])])\<rparr>
   in normalizeEnvelope stream_kinds_example digest_example env = normalizeEnvelope stream_kinds_example digest_example
        (env\<lparr>env_payload := Message ProcessStarted
           (Obj [(''executable'', Str ''curl''), (''args'', Arr [Str ''-X'', Str ''letmein''])])\<rparr>)
      \<and> (\<exists>event. normalizeEnvelope stream_kinds_example digest_example env = Inr event \<and> ne_summary event = ''exec curl (2 arguments not recorded)'')"
  unfolding Let_def
  by (intro conjI arguments_never_stored[where v = "Obj [(''executable'', Str ''curl''), (''args'', Arr [Str ''-H'', Str ''hunter2''])]" and args = "[Str ''-H'', Str ''hunter2'']" and args' = "[Str ''-X'', Str ''letmein'']"])
    (simp_all add: normalizeEnvelope_def buildPayload_def started_payload_def described_args_def
      withholdProcessArgs_def toJsonSafe_def coalesce_def isRecord_def describeArguments_def summarize_def
      field_or_def processArgCount_def show_int_def show_nat.simps Let_def)

text \<open>Every payload that normalization makes can be written to a \<open>jsonb\<close> column: no \<open>bigint\<close>,
  byte array or \<open>undefined\<close> is left in it at any depth (given that a \<open>processStarted\<close> message has its
  repeated fields, as the protocol's messages have).\<close>

lemma payload_json_safe:
  assumes "normalizeEnvelope k sha256 env = Inr event"
    and "\<And>v. env_payload env = Message ProcessStarted v \<Longrightarrow> (\<exists>args. get v ''args'' = Arr args \<and> list_all json_safe args) \<and>
           (\<exists>ls. get v ''argLengths'' = Arr ls \<and> list_all json_safe ls)"
  shows "json_safe (ne_payload event)"
proof -
  have "ne_payload event = buildPayload sha256 env"
    using assms(1) by (auto simp: normalizeEnvelope_def Let_def res_simps)
  moreover have "json_safe (buildPayload sha256 env)"
  proof (cases "env_payload env")
    case (IoChunk io)
    then show ?thesis
      by (auto simp: buildPayload_def chunk_payload_def transform_entries_def split: option.splits)
  next
    case (Message m v)
    have started: "json_safe (started_payload v)" if "m = ProcessStarted"
    proof -
      obtain args ls where a: "get v ''args'' = Arr args" "list_all json_safe args"
        and l: "get v ''argLengths'' = Arr ls" "list_all json_safe ls"
        using assms(2)[of v] Message \<open>m = ProcessStarted\<close> by auto
      then have "\<forall>(key, w) \<in> set (described_args v @ [(''args'', get v ''args'')]). json_safe w"
        by (cases "get v ''argCount''") (auto simp: described_args_def list_all_iff)
      then show ?thesis
        unfolding started_payload_def Let_def
        by (intro json_safe_withhold json_safe_spread json_safe_toJsonSafe)
    qed
    then show ?thesis using Message by (cases m) (auto simp: buildPayload_def json_safe_toJsonSafe)
  next
    case NoPayload
    then show ?thesis by (simp add: buildPayload_def)
  qed
  ultimately show ?thesis by simp
qed

end
