(* ===== verification/Telemetry_Loss.thy ===== *)
theory Telemetry_Loss
  imports Telemetry_Events_Proofs
begin

text \<open>
  How the record accounts for what it does not hold: \<open>detectGap\<close> and \<open>reassembleByStreamOffset\<close>
  (\<open>packages/telemetry/src/normalize.ts\<close>), the per-connection output budget (\<open>output-budget.ts\<close>) and
  the ids of loss spans (\<open>sink.ts\<close>).
\<close>

section \<open>Loss spans\<close>

datatype loss_kind = Dropped_event | Sequence_gap | Watch_overflow | Early_close

datatype detected_via = Marker | Gap

record loss_span =
  ls_kind :: loss_kind
  ls_fromSequence :: "int option"
  ls_toSequence :: "int option"
  ls_droppedCount :: "int option"
  ls_priority :: "int option"
  ls_reason :: "string option"
  ls_detectedVia :: detected_via
  ls_atSequence :: "int option"

definition no_span :: loss_span where
  "no_span = \<lparr>ls_kind = Early_close, ls_fromSequence = None, ls_toSequence = None,
     ls_droppedCount = None, ls_priority = None, ls_reason = None, ls_detectedVia = Marker,
     ls_atSequence = None\<rparr>"

text \<open>\<open>span.sequence ?? "x"\<close> in a template.\<close>

definition seq_text :: "int option \<Rightarrow> string" where
  "seq_text s = (case s of Some i \<Rightarrow> show_int i | None \<Rightarrow> ''x'')"

definition lossSpanId :: "string \<Rightarrow> string \<Rightarrow> loss_span \<Rightarrow> string" where
  "lossSpanId runId runtimeId span =
     ''tls_'' @ runId @ ''_'' @ runtimeId @
     (case ls_kind span of
        Sequence_gap \<Rightarrow> ''_gap_'' @ seq_text (ls_fromSequence span) @ ''_'' @ seq_text (ls_toSequence span)
      | Dropped_event \<Rightarrow> ''_drop_'' @ seq_text (ls_atSequence span)
      | Watch_overflow \<Rightarrow> ''_watch_'' @ seq_text (ls_atSequence span)
      | Early_close \<Rightarrow> ''_early_close'')"

section \<open>Gap detection\<close>

type_synonym gap_state = "string \<rightharpoonup> int"

definition detectGap :: "gap_state \<Rightarrow> envelope \<Rightarrow> gap_state \<times> loss_span option" where
  "detectGap state env =
     (let prev = state (env_runtimeId env); sequence = env_sequence env;
          gap = (case prev of
                   Some p \<Rightarrow>
                     if sequence > p + 1
                     then Some (no_span\<lparr>ls_kind := Sequence_gap, ls_fromSequence := Some (p + 1),
                            ls_toSequence := Some (sequence - 1),
                            ls_droppedCount := Some (sequence - p - 1), ls_detectedVia := Gap\<rparr>)
                     else None
                 | None \<Rightarrow> None);
          lossSpan =
            (case env_payload env of
               Message TelemetryDropped dropped \<Rightarrow>
                 Some (no_span\<lparr>ls_kind := Dropped_event,
                   ls_droppedCount := big_field (get dropped ''count''),
                   ls_priority := num_field (get dropped ''priority''),
                   ls_reason := asString (get dropped ''reason''),
                   ls_detectedVia := Marker, ls_atSequence := Some sequence\<rparr>)
             | Message FileWatchOverflow overflow \<Rightarrow>
                 Some (no_span\<lparr>ls_kind := Watch_overflow, ls_reason := asString (get overflow ''root''),
                   ls_detectedVia := Marker, ls_atSequence := Some sequence\<rparr>)
             | _ \<Rightarrow> gap)
      in (if (case prev of None \<Rightarrow> True | Some p \<Rightarrow> sequence > p)
          then state(env_runtimeId env \<mapsto> sequence) else state, lossSpan))"

text \<open>The in-order tap of the ingest stream: every span detected on the way.\<close>

fun detectGaps :: "gap_state \<Rightarrow> envelope list \<Rightarrow> gap_state \<times> loss_span list" where
  "detectGaps state [] = (state, [])"
| "detectGaps state (env # envs) =
     (let (next, span) = detectGap state env; (final, spans) = detectGaps next envs
      in (final, (case span of Some s \<Rightarrow> [s] | None \<Rightarrow> []) @ spans))"

fun is_marker :: "env_payload \<Rightarrow> bool" where
  "is_marker (Message TelemetryDropped v) = True"
| "is_marker (Message FileWatchOverflow v) = True"
| "is_marker p = False"

section \<open>Reassembly by stream offset\<close>

type_synonym stream_chunk = "int \<times> byte list"

fun reassemble_loop :: "int \<Rightarrow> stream_chunk list \<Rightarrow> byte list \<times> (int \<times> int) list" where
  "reassemble_loop expected [] = ([], [])"
| "reassemble_loop expected ((offset, bytes) # chunks) =
     (let (rest, gaps) = reassemble_loop (offset + int (length bytes)) chunks
      in (bytes @ rest, (if offset > expected then [(expected, offset)] else []) @ gaps))"

definition reassembleByStreamOffset :: "stream_chunk list \<Rightarrow> byte list \<times> (int \<times> int) list" where
  "reassembleByStreamOffset chunks =
     (let sorted = sort_key fst chunks
      in reassemble_loop (case sorted of [] \<Rightarrow> 0 | c # _ \<Rightarrow> fst c) sorted)"

section \<open>The output budget\<close>

record output_budget =
  ob_storedBytes :: int
  ob_reported :: bool

definition makeOutputBudgetState :: output_budget where
  "makeOutputBudgetState = \<lparr>ob_storedBytes = 0, ob_reported = False\<rparr>"

definition budget_reason :: "int \<Rightarrow> string" where
  "budget_reason maxBytes =
     ''run output budget reached ('' @ show_int maxBytes @ '' bytes): later output content was not stored''"

definition content_size :: "norm_content \<Rightarrow> int" where
  "content_size c = int (length (nc_bytes c))"

text \<open>An event whose content is not stored: its scrollback row stops naming the content too.\<close>

definition drop_content :: "norm_event \<Rightarrow> norm_event" where
  "drop_content event =
     event\<lparr>ne_content := None,
       ne_scrollback := map_option (\<lambda>s. s\<lparr>ns_contentAlgo := None, ns_contentHash := None\<rparr>) (ne_scrollback event)\<rparr>"

definition budget_step ::
  "int \<Rightarrow> output_budget \<Rightarrow> norm_event \<Rightarrow> output_budget \<times> norm_event \<times> loss_span option"
where
  "budget_step maxBytes state event =
     (case ne_content event of
        None \<Rightarrow> (state, event, None)
      | Some content \<Rightarrow>
          let size = content_size content in
          if ob_storedBytes state + size \<le> maxBytes
          then (state\<lparr>ob_storedBytes := ob_storedBytes state + size\<rparr>, event, None)
          else (state\<lparr>ob_reported := True\<rparr>, drop_content event,
                if ob_reported state then None
                else Some (no_span\<lparr>ls_kind := Dropped_event, ls_fromSequence := Some (ne_sequence event),
                       ls_reason := Some (budget_reason maxBytes), ls_detectedVia := Marker,
                       ls_atSequence := Some (ne_sequence event)\<rparr>)))"

fun budget_loop ::
  "int \<Rightarrow> output_budget \<Rightarrow> norm_event list \<Rightarrow> output_budget \<times> norm_event list \<times> loss_span option"
where
  "budget_loop maxBytes state [] = (state, [], None)"
| "budget_loop maxBytes state (event # events) =
     (let (state', kept, span) = budget_step maxBytes state event;
          (final, rest, later) = budget_loop maxBytes state' events
      in (final, kept # rest, case later of Some s \<Rightarrow> Some s | None \<Rightarrow> span))"

definition applyOutputBudget ::
  "output_budget \<Rightarrow> norm_event list \<Rightarrow> int \<Rightarrow> output_budget \<times> norm_event list \<times> loss_span option"
where
  "applyOutputBudget state batch maxBytes =
     (if maxBytes \<le> 0 then (state, batch, None) else budget_loop maxBytes state batch)"

end
