(* ===== verification/Telemetry_Redelivery.thy ===== *)
theory Telemetry_Redelivery
  imports Telemetry_Events_Proofs "HOL-Library.Multiset"
begin

text \<open>
  Re-delivery checks (\<open>packages/telemetry/src/redelivery.ts\<close>): which fields two copies of an event
  differ in, which re-delivered events conflict with the stored log, and which events of one batch
  conflict with each other.
\<close>

section \<open>Differences\<close>

definition js_opt :: "string option \<Rightarrow> js" where
  "js_opt s = (case s of Some t \<Rightarrow> Str t | None \<Rightarrow> Undef)"

definition placedRightly :: "event_row \<Rightarrow> norm_event \<Rightarrow> string \<Rightarrow> bool" where
  "placedRightly stored event runId \<longleftrightarrow>
     ne_executionId event = None \<or> ne_executionId event = Some (er_runId stored) \<or> er_runId stored = runId"

definition compared_fields :: "norm_event \<Rightarrow> (string \<times> js) list" where
  "compared_fields e =
     [(''runtimeId'', Str (ne_runtimeId e)), (''sequence'', Big (ne_sequence e)),
      (''executionId'', js_opt (ne_executionId e)), (''sessionId'', js_opt (ne_sessionId e)),
      (''processId'', js_opt (ne_processId e)), (''requestId'', js_opt (ne_requestId e)),
      (''schemaVersion'', Num (ne_schemaVersion e)), (''observedAt'', Big (ne_observedAt e)),
      (''monotonicTimestamp'', Big (ne_monotonicTimestamp e)),
      (''captureMethod'', Num (ne_captureMethod e)), (''confidence'', Num (ne_confidence e)),
      (''payloadCase'', Str (payload_case_name (ne_payloadCase e))), (''payload'', ne_payload e)]"

definition eventDifferences :: "norm_event \<Rightarrow> norm_event \<Rightarrow> string list" where
  "eventDifferences kept event =
     map (\<lambda>((name, _), _). name)
       (filter (\<lambda>((_, a), (_, b)). canonical a \<noteq> canonical b)
         (zip (compared_fields kept) (compared_fields event)))"

definition redeliveryDifferences ::
  "stream_kinds \<Rightarrow> event_row \<Rightarrow> norm_event \<Rightarrow> string \<Rightarrow> (js_error, string list) res"
where
  "redeliveryDifferences k stored event runId =
     bind_res (eventRowToNormalized k stored) (\<lambda>kept.
       let differences = eventDifferences kept event
       in Inr (if placedRightly stored event runId then differences else ''runId'' # differences))"

section \<open>Conflicts\<close>

datatype against = Log | Batch

record conflict =
  cf_eventId :: string
  cf_against :: against
  cf_runId :: string
  cf_runtimeId :: string
  cf_sequence :: int
  cf_storedEventIdAtSequence :: "string option"
  cf_differences :: "string list"

definition positionKey :: "string \<Rightarrow> int \<Rightarrow> string" where
  "positionKey runtimeId sequence = runtimeId @ '':'' @ show_int sequence"

text \<open>One skipped event against the stored rows; a \<open>Map\<close> built from rows keeps the last of a key.\<close>

definition log_conflict ::
  "stream_kinds \<Rightarrow> event_row list \<Rightarrow> (norm_event \<Rightarrow> string) \<Rightarrow> norm_event \<Rightarrow> (js_error, conflict list) res"
where
  "log_conflict k stored runIdFor event =
     (let runId = runIdFor event;
          sameId = find_last (\<lambda>row. er_eventId row = ne_eventId event) stored;
          atPosition = find_last (\<lambda>row. positionKey (er_runtimeId row) (er_sequence row)
                                      = positionKey (ne_runtimeId event) (ne_sequence event)) stored in
      bind_res (case sameId of None \<Rightarrow> Inr [''eventId''] | Some row \<Rightarrow> redeliveryDifferences k row event runId)
        (\<lambda>differences.
          Inr (if differences = [] then []
               else [\<lparr>cf_eventId = ne_eventId event, cf_against = Log, cf_runId = runId,
                      cf_runtimeId = ne_runtimeId event, cf_sequence = ne_sequence event,
                      cf_storedEventIdAtSequence =
                        (case atPosition of
                           None \<Rightarrow> None
                         | Some row \<Rightarrow> if er_eventId row = ne_eventId event then None else Some (er_eventId row)),
                      cf_differences = differences\<rparr>])))"

definition conflictingRedeliveries ::
  "stream_kinds \<Rightarrow> norm_event list \<Rightarrow> event_row list \<Rightarrow> (norm_event \<Rightarrow> string) \<Rightarrow> (js_error, conflict list) res"
where
  "conflictingRedeliveries k skipped stored runIdFor =
     bind_res (map_res (log_conflict k stored runIdFor) skipped) (\<lambda>conflicts. Inr (concat conflicts))"

text \<open>\<open>first\<close> holds the first event with each id, in order; a later one with an id is compared with it.\<close>

fun split_loop ::
  "(norm_event \<Rightarrow> string) \<Rightarrow> norm_event list \<Rightarrow> norm_event list \<Rightarrow> norm_event list \<times> conflict list"
where
  "split_loop runIdFor first [] = (first, [])"
| "split_loop runIdFor first (event # events) =
     (case List.find (\<lambda>e. ne_eventId e = ne_eventId event) first of
        None \<Rightarrow> split_loop runIdFor (first @ [event]) events
      | Some earlier \<Rightarrow>
          let same = eventDifferences earlier event;
              differences = (if runIdFor earlier \<noteq> runIdFor event then ''runId'' # same else same);
              (unique, conflicts) = split_loop runIdFor first events
          in (unique,
              (if differences = [] then []
               else [\<lparr>cf_eventId = ne_eventId event, cf_against = Batch, cf_runId = runIdFor event,
                      cf_runtimeId = ne_runtimeId event, cf_sequence = ne_sequence event,
                      cf_storedEventIdAtSequence = None, cf_differences = differences\<rparr>]) @ conflicts))"

definition splitDuplicateIds ::
  "norm_event list \<Rightarrow> (norm_event \<Rightarrow> string) \<Rightarrow> norm_event list \<times> conflict list"
where
  "splitDuplicateIds batch runIdFor = split_loop runIdFor [] batch"

definition describe_conflict :: "conflict \<Rightarrow> string" where
  "describe_conflict c =
     (case cf_storedEventIdAtSequence c of
        Some other \<Rightarrow> cf_eventId c @ '' at the position of '' @ other
      | None \<Rightarrow>
          cf_eventId c @ '' with other '' @ join '', '' (cf_differences c)
            @ (if cf_against c = Batch then '' in the same batch'' else ''''))"

definition describeConflicts :: "conflict list \<Rightarrow> string" where
  "describeConflicts conflicts =
     (let named = map describe_conflict (take 5 conflicts);
          more = (if length conflicts > 5
                  then '', and '' @ show_int (int (length conflicts) - 5) @ '' more'' else '''')
      in show_int (int (length conflicts)) @ '' event(s) differ from the ones the record holds (''
           @ join ''; '' named @ more @ ''); the record keeps its own'')"

section \<open>Quoted strings are read back\<close>

definition hex_value :: "char \<Rightarrow> nat" where
  "hex_value c = (let n = (of_char c :: nat) in if n < 58 then n - 48 else n - 87)"

fun unquote_char :: "string \<Rightarrow> (char \<times> string) option" where
  "unquote_char [] = None"
| "unquote_char (c # r) =
     (if of_char c \<noteq> (92 :: nat) then Some (c, r)
      else case r of
        [] \<Rightarrow> None
      | x # r' \<Rightarrow>
          if x = CHR ''b'' then Some (char_of (8 :: nat), r') else if x = CHR ''t'' then Some (char_of (9 :: nat), r')
          else if x = CHR ''n'' then Some (char_of (10 :: nat), r') else if x = CHR ''f'' then Some (char_of (12 :: nat), r')
          else if x = CHR ''r'' then Some (char_of (13 :: nat), r')
          else if x = CHR ''u'' then
            (case r' of _ # _ # a # b # r'' \<Rightarrow> Some (char_of (16 * hex_value a + hex_value b), r'') | _ \<Rightarrow> None)
          else Some (x, r'))"

lemma hex_value_hex_char: "n < 16 \<Longrightarrow> hex_value (hex_char n) = n"
  by (simp add: hex_value_def hex_char_def Let_def)

lemma of_char_eq_iff: "(of_char c :: nat) = n \<longleftrightarrow> n < 256 \<and> c = char_of n"
  using nat_of_char_less_256[of c] by auto

lemma quoted_chars [simp]:
  "char_of (34 :: nat) \<noteq> CHR ''b''" "char_of (34 :: nat) \<noteq> CHR ''t''" "char_of (34 :: nat) \<noteq> CHR ''n''"
  "char_of (34 :: nat) \<noteq> CHR ''f''" "char_of (34 :: nat) \<noteq> CHR ''r''" "char_of (34 :: nat) \<noteq> CHR ''u''"
  "char_of (92 :: nat) \<noteq> CHR ''b''" "char_of (92 :: nat) \<noteq> CHR ''t''" "char_of (92 :: nat) \<noteq> CHR ''n''"
  "char_of (92 :: nat) \<noteq> CHR ''f''" "char_of (92 :: nat) \<noteq> CHR ''r''" "char_of (92 :: nat) \<noteq> CHR ''u''"
  by code_simp+

lemma unquote_quote_char: "unquote_char (quote_char c @ r) = Some (c, r)"
proof -
  define n where "n = (of_char c :: nat)"
  have c: "c = char_of n" by (simp add: n_def)
  consider "n = 34" | "n = 92" | "n = 8" | "n = 9" | "n = 10" | "n = 12" | "n = 13"
    | "n < 32" "n \<notin> {8, 9, 10, 12, 13}" | "n \<ge> 32" "n \<noteq> 34" "n \<noteq> 92" by fastforce
  then show ?thesis
  proof cases
    case 8
    then have "16 * hex_value (hex_char (n div 16)) + hex_value (hex_char (n mod 16)) = n"
      by (simp add: hex_value_hex_char)
    with 8 show ?thesis by (simp add: quote_char_def flip: n_def) (simp add: c)
  next
    case 9
    then show ?thesis by (simp add: quote_char_def flip: n_def)
  qed (simp_all add: quote_char_def c of_char_eq_iff Let_def flip: n_def)
qed

lemma concat_quote_inject: "concat (map quote_char s) = concat (map quote_char t) \<longleftrightarrow> s = t"
proof (induction s arbitrary: t)
  case Nil
  show ?case by (cases t) (auto simp: quote_char_def Let_def)
next
  case (Cons c s)
  show ?case
  proof (cases t)
    case Nil
    then show ?thesis by (auto simp: quote_char_def Let_def)
  next
    case (Cons d t')
    have "c = d \<and> concat (map quote_char s) = concat (map quote_char t')"
      if "quote_char c @ concat (map quote_char s) = quote_char d @ concat (map quote_char t')"
      using arg_cong[OF that, of unquote_char] by (simp add: unquote_quote_char)
    then show ?thesis using Cons Cons.IH by auto
  qed
qed

lemma json_quote_inject [simp]: "json_quote s = json_quote t \<longleftrightarrow> s = t"
  by (simp add: json_quote_def concat_quote_inject)

lemma canonical_js_opt [simp]: "canonical (js_opt s) = canonical (js_opt t) \<longleftrightarrow> s = t"
  by (auto simp: js_opt_def split: option.splits)

section \<open>What a comparison says\<close>

text \<open>Two events are the same when every compared field is.\<close>

definition same_event :: "norm_event \<Rightarrow> norm_event \<Rightarrow> bool" where
  "same_event a b \<longleftrightarrow>
     ne_runtimeId a = ne_runtimeId b \<and> ne_sequence a = ne_sequence b \<and>
     ne_executionId a = ne_executionId b \<and> ne_sessionId a = ne_sessionId b \<and>
     ne_processId a = ne_processId b \<and> ne_requestId a = ne_requestId b \<and>
     ne_schemaVersion a = ne_schemaVersion b \<and> ne_observedAt a = ne_observedAt b \<and>
     ne_monotonicTimestamp a = ne_monotonicTimestamp b \<and> ne_captureMethod a = ne_captureMethod b \<and>
     ne_confidence a = ne_confidence b \<and> ne_payloadCase a = ne_payloadCase b \<and>
     canonical (ne_payload a) = canonical (ne_payload b)"

lemma no_differences: "eventDifferences a b = [] \<longleftrightarrow> same_event a b"
  by (auto simp: eventDifferences_def compared_fields_def same_event_def filter_empty_conv)

lemma same_event_refl [simp]: "same_event a a"
  by (simp add: same_event_def)

lemma same_event_trans: "same_event a b \<Longrightarrow> same_event b c \<Longrightarrow> same_event a c"
  by (simp add: same_event_def)

lemma same_event_readable [simp]: "same_event (readable a) b \<longleftrightarrow> same_event a b"
  by (simp add: same_event_def readable_def)

text \<open>The comparison looks at content, not at the order the keys were stored in.\<close>

lemma object_text_reorder:
  assumes "mset kts = mset kts'" "distinct (map fst kts)"
  shows "object_text kts = object_text kts'"
proof -
  have "sort_key fst kts' = sort_key fst kts"
  proof (rule sort_key_inj_key_eq)
    show "mset kts' = mset (sort_key fst kts)" using assms(1) by simp
    show "inj_on fst (set kts')" using assms by (metis distinct_map set_mset_mset)
    show "sorted (map fst (sort_key fst kts))" by simp
  qed
  then show ?thesis by (simp add: object_text_def)
qed

end
