(* ===== verification/Sql_Tables.thy ===== *)
theory Sql_Tables
  imports Prelude
begin

text \<open>
  A table is the list of its rows, in the order they were inserted. Its unique indexes are one
  relation \<open>clash\<close>: two rows that agree in the columns of some unique index (a \<open>NULL\<close> in an
  index agrees with nothing). \<open>INSERT ... ON CONFLICT DO NOTHING\<close> takes the rows one after
  another and skips one that clashes with a row already there, rows of the same statement included.
\<close>

fun fresh_rows :: "('r \<Rightarrow> 'r \<Rightarrow> bool) \<Rightarrow> 'r list \<Rightarrow> 'r list \<Rightarrow> 'r list" where
  "fresh_rows clash t [] = []"
| "fresh_rows clash t (r # rs) =
     (if list_ex (clash r) t then fresh_rows clash t rs else r # fresh_rows clash (t @ [r]) rs)"

definition insert_rows :: "('r \<Rightarrow> 'r \<Rightarrow> bool) \<Rightarrow> 'r list \<Rightarrow> 'r list \<Rightarrow> 'r list" where
  "insert_rows clash t rs = t @ fresh_rows clash t rs"

text \<open>\<open>UPDATE ... SET f WHERE p\<close>.\<close>

definition update_rows :: "('r \<Rightarrow> bool) \<Rightarrow> ('r \<Rightarrow> 'r) \<Rightarrow> 'r list \<Rightarrow> 'r list" where
  "update_rows p f t = map (\<lambda>r. if p r then f r else r) t"

lemma fresh_rows_subset: "set (fresh_rows clash t rs) \<subseteq> set rs"
  by (induction rs arbitrary: t) auto

lemma set_insert_rows: "set (insert_rows clash t rs) \<subseteq> set t \<union> set rs"
  using fresh_rows_subset[of clash t rs] by (auto simp: insert_rows_def)

lemma insert_rows_keeps [table_simps]: "r \<in> set t \<Longrightarrow> r \<in> set (insert_rows clash t rs)"
  by (simp add: insert_rows_def)

lemma fresh_rows_in [table_simps]: "r \<in> set (fresh_rows clash t rs) \<Longrightarrow> r \<in> set (insert_rows clash t rs)"
  by (simp add: insert_rows_def)

lemma insert_rows_Nil [simp]: "insert_rows clash t [] = t"
  by (simp add: insert_rows_def)

lemma insert_rows_Cons:
  "insert_rows clash t (r # rs) =
     (if list_ex (clash r) t then insert_rows clash t rs else insert_rows clash (t @ [r]) rs)"
  by (simp add: insert_rows_def)

lemma insert_rows_insert: "insert_rows clash (insert_rows clash t [r]) rs = insert_rows clash t (r # rs)"
  by (simp add: insert_rows_def)

lemma fresh_rows_all:
  "sorted_wrt (\<lambda>a b. \<not> clash b a) rs \<Longrightarrow> (\<forall>r \<in> set rs. \<forall>x \<in> set t. \<not> clash r x)
   \<Longrightarrow> fresh_rows clash t rs = rs"
  by (induction rs arbitrary: t) (auto simp: list_ex_iff)

section \<open>What the unique indexes promise\<close>

text \<open>
  The contract of a table, used by every component that stores rows: \<open>clash\<close> compares columns,
  so it is symmetric, and a row with a primary key clashes with itself.
\<close>

locale unique_table =
  fixes clash :: "'r \<Rightarrow> 'r \<Rightarrow> bool"
  assumes clash_refl: "clash r r"
    and clash_sym: "clash a b \<Longrightarrow> clash b a"
begin

lemma covered: "r \<in> set rs \<Longrightarrow> \<exists>x \<in> set (insert_rows clash t rs). clash r x"
proof (induction rs arbitrary: t)
  case (Cons a rs)
  show ?case
  proof (cases "r = a")
    case True
    then show ?thesis
      using clash_refl[of a] by (fastforce simp: insert_rows_Cons list_ex_iff intro: insert_rows_keeps)
  next
    case False
    with Cons show ?thesis by (auto simp: insert_rows_Cons)
  qed
qed simp

lemma uniqueness_kept:
  "sorted_wrt (\<lambda>a b. \<not> clash a b) t \<Longrightarrow> sorted_wrt (\<lambda>a b. \<not> clash a b) (insert_rows clash t rs)"
proof (induction rs arbitrary: t)
  case (Cons a rs)
  show ?case
  proof (cases "list_ex (clash a) t")
    case False
    with Cons.prems have "sorted_wrt (\<lambda>a b. \<not> clash a b) (t @ [a])"
      by (auto simp: list_ex_iff sorted_wrt_append dest: clash_sym)
    with False show ?thesis by (simp add: insert_rows_Cons Cons.IH)
  qed (simp add: insert_rows_Cons Cons)
qed simp

lemma no_fresh: "(\<And>r. r \<in> set rs \<Longrightarrow> \<exists>x \<in> set t. clash r x) \<Longrightarrow> fresh_rows clash t rs = []"
proof (induction rs arbitrary: t)
  case (Cons a rs)
  then have "list_ex (clash a) t" by (auto simp: list_ex_iff)
  with Cons show ?case by simp
qed simp

lemma reinsert: "set rs' \<subseteq> set rs \<Longrightarrow> insert_rows clash (insert_rows clash t rs) rs' = insert_rows clash t rs"
  using no_fresh[of rs' "insert_rows clash t rs"] covered
  by (simp add: insert_rows_def subset_iff)

lemma unique_row:
  assumes "sorted_wrt (\<lambda>a b. \<not> clash a b) t" "a \<in> set t" "b \<in> set t" "clash a b"
  shows "a = b"
  using assms
proof (induction t)
  case (Cons x t)
  then show ?case by (auto dest: clash_sym)
qed simp

lemma distinct_rows: "sorted_wrt (\<lambda>a b. \<not> clash a b) t \<Longrightarrow> distinct t"
  by (induction t) (auto simp: clash_refl)

end

end
