(* ===== verification/Telemetry_Sink.thy ===== *)
theory Telemetry_Sink
  imports Telemetry_Loss Telemetry_Redelivery Sql_Tables
begin

text \<open>
  The storage seam (\<open>packages/telemetry/src/sink.ts\<close>), the artifact store (\<open>artifact-store.ts\<close>), run
  attribution (\<open>attribution.ts\<close>), the projector (\<open>projector.ts\<close>) and the queries (\<open>query.ts\<close>), as
  functions of the telemetry tables (\<open>packages/db/src/schema/telemetry.ts\<close>). An operation returns
  the new tables and its result; a statement that fails (a lost connection) is not modelled. Where
  the code leaves an order to the database, rows of equal key keep the order they were inserted in.
\<close>

section \<open>The tables\<close>

datatype epoch_status = Open | Closed | Lost

datatype close_reason = Stream_end | Transport_close | Shutdown

definition close_reason_name :: "close_reason \<Rightarrow> string" where
  "close_reason_name r = (case r of Stream_end \<Rightarrow> ''stream-end'' | Transport_close \<Rightarrow> ''transport-close''
     | Shutdown \<Rightarrow> ''shutdown'')"

record epoch_row =
  ep_id :: string
  ep_runId :: string
  ep_runtimeId :: string
  ep_schemaVersion :: int
  ep_status :: epoch_status
  ep_firstSequence :: "int option"
  ep_lastSequence :: "int option"
  ep_eventsPersisted :: int
  ep_closeReason :: "close_reason option"
  ep_openedAt :: int
  ep_closedAt :: "int option"

record artifact_row =
  ar_id :: string
  ar_runId :: string
  ar_algo :: string
  ar_hash :: string
  ar_byteSize :: int
  ar_inlineBytes :: "byte list option"

record loss_row =
  lr_id :: string
  lr_runId :: string
  lr_runtimeId :: string
  lr_kind :: loss_kind
  lr_fromSequence :: "int option"
  lr_toSequence :: "int option"
  lr_droppedCount :: "int option"
  lr_priority :: "int option"
  lr_reason :: "string option"
  lr_detectedVia :: detected_via
  lr_detectedAt :: int

text \<open>The columns of \<open>runs\<close> (\<open>schema/control-plane.ts\<close>) that telemetry reads and writes.\<close>

record run_row =
  run_id :: string
  run_workspaceId :: string
  run_finishedAt :: "int option"
  run_recordDeletedAt :: "int option"

record store =
  st_events :: "event_row list"
  st_timeline :: "timeline_row list"
  st_scrollback :: "scrollback_row list"
  st_artifacts :: "artifact_row list"
  st_lossSpans :: "loss_row list"
  st_epochs :: "epoch_row list"
  st_runs :: "run_row list"

text \<open>The unique indexes.\<close>

definition event_clash :: "event_row \<Rightarrow> event_row \<Rightarrow> bool" where
  "event_clash a b \<longleftrightarrow> er_eventId a = er_eventId b \<or>
     (er_runtimeId a = er_runtimeId b \<and> er_sequence a = er_sequence b)"

definition timeline_clash :: "timeline_row \<Rightarrow> timeline_row \<Rightarrow> bool" where
  "timeline_clash a b \<longleftrightarrow> tl_eventId a = tl_eventId b \<or>
     (tl_runId a = tl_runId b \<and> tl_sequence a = tl_sequence b)"

definition scrollback_clash :: "scrollback_row \<Rightarrow> scrollback_row \<Rightarrow> bool" where
  "scrollback_clash a b \<longleftrightarrow> sb_eventId a = sb_eventId b \<or>
     (sb_runId a = sb_runId b \<and> sb_processId a \<noteq> None \<and> sb_processId a = sb_processId b \<and>
      sb_stream a = sb_stream b \<and> sb_streamOffset a = sb_streamOffset b)"

definition artifact_clash :: "artifact_row \<Rightarrow> artifact_row \<Rightarrow> bool" where
  "artifact_clash a b \<longleftrightarrow> ar_id a = ar_id b \<or>
     (ar_runId a = ar_runId b \<and> ar_algo a = ar_algo b \<and> ar_hash a = ar_hash b)"

definition loss_clash :: "loss_row \<Rightarrow> loss_row \<Rightarrow> bool" where
  "loss_clash a b \<longleftrightarrow> lr_id a = lr_id b"

definition epoch_clash :: "epoch_row \<Rightarrow> epoch_row \<Rightarrow> bool" where
  "epoch_clash a b \<longleftrightarrow> ep_id a = ep_id b \<or> (ep_runId a = ep_runId b \<and> ep_runtimeId a = ep_runtimeId b)"

section \<open>Artifacts\<close>

record artifact_put =
  ap_runId :: string
  ap_algo :: string
  ap_hash :: string
  ap_bytes :: "byte list"
  ap_byteSize :: int

definition artifact_row_of :: "artifact_put \<Rightarrow> artifact_row" where
  "artifact_row_of input =
     \<lparr>ar_id = ''tart_'' @ ap_runId input @ ''_'' @ ap_algo input @ ''_'' @ take 24 (ap_hash input),
      ar_runId = ap_runId input, ar_algo = ap_algo input, ar_hash = ap_hash input,
      ar_byteSize = ap_byteSize input, ar_inlineBytes = Some (ap_bytes input)\<rparr>"

definition artifact_put :: "store \<Rightarrow> artifact_put \<Rightarrow> store" where
  "artifact_put st input =
     st\<lparr>st_artifacts := insert_rows artifact_clash (st_artifacts st) [artifact_row_of input]\<rparr>"

text \<open>\<^const>\<open>None\<close> is the invariant error "Artifact ... not found for run ...".\<close>

definition artifact_get :: "store \<Rightarrow> string \<Rightarrow> string \<Rightarrow> string \<Rightarrow> byte list option" where
  "artifact_get st runId algo hash =
     (case List.find (\<lambda>r. ar_runId r = runId \<and> ar_algo r = algo \<and> ar_hash r = hash) (st_artifacts st) of
        Some row \<Rightarrow> ar_inlineBytes row
      | None \<Rightarrow> None)"

section \<open>Attribution\<close>

definition attributeBatch :: "norm_event list \<Rightarrow> (string \<rightharpoonup> string) \<Rightarrow> norm_event list" where
  "attributeBatch batch resolutions =
     map (\<lambda>event.
       case Option.bind (ne_executionId event) resolutions of
         None \<Rightarrow> event
       | Some runId \<Rightarrow> event\<lparr>ne_attributedRunId := Some runId\<rparr>) batch"

fun collect_ids :: "string list \<Rightarrow> norm_event list \<Rightarrow> string list" where
  "collect_ids ids [] = ids"
| "collect_ids ids (event # events) =
     (case ne_executionId event of
        Some e \<Rightarrow> collect_ids (if length e > 0 then set_add e ids else ids) events
      | None \<Rightarrow> collect_ids ids events)"

definition collectExecutionIds :: "norm_event list \<Rightarrow> string list" where
  "collectExecutionIds batch = collect_ids [] batch"

definition resolve_runs :: "store \<Rightarrow> string \<Rightarrow> string list \<Rightarrow> (string \<rightharpoonup> string)" where
  "resolve_runs st defaultRunId ids =
     (if ids = [] then Map.empty
      else case List.find (\<lambda>r. run_id r = defaultRunId) (st_runs st) of
        None \<Rightarrow> Map.empty
      | Some defaultRun \<Rightarrow>
          let candidates = filter (\<lambda>r. run_id r \<in> set ids) (st_runs st);
              same = filter (\<lambda>r. run_workspaceId r = run_workspaceId defaultRun) candidates
          in map_of (rev (map (\<lambda>r. (run_id r, run_id r)) same)))"

section \<open>The sink\<close>

text \<open>\<open>max(sequence)\<close> over the runtime's rows; \<open>NULL\<close> over none.\<close>

definition selectMaxSequence :: "store \<Rightarrow> string \<Rightarrow> int option" where
  "selectMaxSequence st runtimeId =
     (case map er_sequence (filter (\<lambda>r. er_runtimeId r = runtimeId) (st_events st)) of
        [] \<Rightarrow> None
      | s # ss \<Rightarrow> Some (fold max ss s))"

text \<open>SQL \<open>greatest\<close> of a column and a value: a \<open>NULL\<close> is skipped.\<close>

definition greatest :: "int option \<Rightarrow> int \<Rightarrow> int option" where
  "greatest column v = Some (case column of None \<Rightarrow> v | Some c \<Rightarrow> max c v)"

definition openEpoch :: "store \<Rightarrow> int \<Rightarrow> string \<Rightarrow> string \<Rightarrow> int \<Rightarrow> store \<times> string \<times> int option" where
  "openEpoch st now runId runtimeId schemaVersion =
     (let epochId = ''tep_'' @ runId @ ''_'' @ take 8 runtimeId;
          row = \<lparr>ep_id = epochId, ep_runId = runId, ep_runtimeId = runtimeId,
                 ep_schemaVersion = schemaVersion, ep_status = Open, ep_firstSequence = None,
                 ep_lastSequence = None, ep_eventsPersisted = 0, ep_closeReason = None,
                 ep_openedAt = now, ep_closedAt = None\<rparr>
      in (st\<lparr>st_epochs := insert_rows epoch_clash (st_epochs st) [row]\<rparr>, epochId,
          selectMaxSequence st runtimeId))"

datatype sink_error = ConflictError string "string list" | ReadError js_error

definition runIdFor :: "string \<Rightarrow> norm_event \<Rightarrow> string" where
  "runIdFor runId event = (case ne_attributedRunId event of Some r \<Rightarrow> r | None \<Rightarrow> runId)"

definition readBackConflicts ::
  "stream_kinds \<Rightarrow> store \<Rightarrow> norm_event list \<Rightarrow> (norm_event \<Rightarrow> string) \<Rightarrow> (js_error, conflict list) res"
where
  "readBackConflicts k st skipped f =
     conflictingRedeliveries k skipped
       (filter (\<lambda>row. er_eventId row \<in> set (map ne_eventId skipped) \<or>
          (\<exists>e \<in> set skipped. ne_runtimeId e = er_runtimeId row \<and> ne_sequence e = er_sequence row))
         (st_events st))
       f"

definition content_put :: "(norm_event \<Rightarrow> string) \<Rightarrow> norm_event \<Rightarrow> artifact_put list" where
  "content_put f event =
     (case ne_content event of
        None \<Rightarrow> []
      | Some c \<Rightarrow> [\<lparr>ap_runId = f event, ap_algo = nc_algo c, ap_hash = nc_hash c,
                    ap_bytes = nc_bytes c, ap_byteSize = nc_byteSize c\<rparr>])"

definition offload :: "(norm_event \<Rightarrow> string) \<Rightarrow> store \<Rightarrow> norm_event list \<Rightarrow> store" where
  "offload f st batch = fold (\<lambda>p s. artifact_put s p) (concat (map (content_put f) batch)) st"

text \<open>The transaction of \<open>appendBatch\<close>: the log rows, the projections of the rows it took, the watermark.\<close>

definition append_tx ::
  "store \<Rightarrow> string \<Rightarrow> string \<Rightarrow> norm_event list \<Rightarrow> store \<times> norm_event list"
where
  "append_tx st runId runtimeId batch =
     (let f = runIdFor runId;
          inserted = fresh_rows event_clash (st_events st) (map (\<lambda>e. eventRow e (f e)) batch);
          events = st_events st @ inserted;
          committed = filter (\<lambda>e. ne_eventId e \<in> set (map er_eventId inserted)) batch in
      case committed of
        [] \<Rightarrow> (st\<lparr>st_events := events\<rparr>, [])
      | c # _ \<Rightarrow>
          let timeline = insert_rows timeline_clash (st_timeline st) (map (\<lambda>e. deriveTimelineRow e (f e)) committed);
              scrollback = insert_rows scrollback_clash (st_scrollback st)
                (List.map_filter (\<lambda>e. deriveScrollbackRow e (f e)) committed);
              maxSeq = fold max (map ne_sequence committed) (ne_sequence c);
              epochs = update_rows (\<lambda>ep. ep_runId ep = runId \<and> ep_runtimeId ep = runtimeId)
                (\<lambda>ep. ep\<lparr>ep_lastSequence := greatest (ep_lastSequence ep) maxSeq\<rparr>) (st_epochs st)
          in (st\<lparr>st_events := events, st_timeline := timeline, st_scrollback := scrollback,
                 st_epochs := epochs\<rparr>, committed))"

definition appendBatch ::
  "stream_kinds \<Rightarrow> store \<Rightarrow> string \<Rightarrow> string \<Rightarrow> norm_event list \<Rightarrow> store \<times> (sink_error, norm_event list) res"
where
  "appendBatch k st runId runtimeId input =
     (let f = runIdFor runId; (batch, inBatch) = splitDuplicateIds input f in
      if batch = [] then (st, Inr [])
      else
        let (st', appended) = append_tx (offload f st batch) runId runtimeId batch;
            skipped = filter (\<lambda>e. ne_eventId e \<notin> set (map ne_eventId appended)) batch in
        case (if skipped = [] then Inr [] else readBackConflicts k st' skipped f) of
          Inl e \<Rightarrow> (st', Inl (ReadError e))
        | Inr readBack \<Rightarrow>
            let conflicts = inBatch @ readBack in
            if conflicts \<noteq> []
            then (st', Inl (ConflictError (describeConflicts conflicts) (map cf_eventId conflicts)))
            else (st', Inr appended))"

definition loss_row_of :: "int \<Rightarrow> string \<Rightarrow> string \<Rightarrow> loss_span \<Rightarrow> loss_row" where
  "loss_row_of now runId runtimeId span =
     \<lparr>lr_id = lossSpanId runId runtimeId span, lr_runId = runId, lr_runtimeId = runtimeId,
      lr_kind = ls_kind span, lr_fromSequence = ls_fromSequence span,
      lr_toSequence = ls_toSequence span, lr_droppedCount = ls_droppedCount span,
      lr_priority = ls_priority span, lr_reason = ls_reason span,
      lr_detectedVia = ls_detectedVia span, lr_detectedAt = now\<rparr>"

definition insertLossSpan :: "store \<Rightarrow> int \<Rightarrow> string \<Rightarrow> string \<Rightarrow> loss_span \<Rightarrow> store" where
  "insertLossSpan st now runId runtimeId span =
     st\<lparr>st_lossSpans := insert_rows loss_clash (st_lossSpans st) [loss_row_of now runId runtimeId span]\<rparr>"

definition closeEpoch :: "store \<Rightarrow> int \<Rightarrow> string \<Rightarrow> string \<Rightarrow> close_reason \<Rightarrow> bool \<Rightarrow> store" where
  "closeEpoch st now runId runtimeId closeReason suspicious =
     (let maxSeq = selectMaxSequence st runtimeId;
          closed = st\<lparr>st_epochs := update_rows (\<lambda>ep. ep_runId ep = runId \<and> ep_runtimeId ep = runtimeId)
            (\<lambda>ep. ep\<lparr>ep_status := Closed, ep_closeReason := Some closeReason, ep_closedAt := Some now,
               ep_lastSequence := (case maxSeq of None \<Rightarrow> ep_lastSequence ep
                                   | Some m \<Rightarrow> greatest (ep_lastSequence ep) m)\<rparr>) (st_epochs st)\<rparr>
      in if suspicious
         then insertLossSpan closed now runId runtimeId
                (no_span\<lparr>ls_kind := Early_close, ls_reason := Some (close_reason_name closeReason),
                   ls_detectedVia := Marker, ls_toSequence := maxSeq\<rparr>)
         else closed)"

definition streamRawLog :: "store \<Rightarrow> string \<Rightarrow> event_row list" where
  "streamRawLog st runId =
     sort_key er_runtimeId (sort_key er_sequence (filter (\<lambda>r. er_runId r = runId) (st_events st)))"

section \<open>The projector\<close>

definition rebuild :: "stream_kinds \<Rightarrow> store \<Rightarrow> string \<Rightarrow> store \<times> (js_error, unit) res" where
  "rebuild k st runId =
     (let timeline = filter (\<lambda>r. tl_runId r \<noteq> runId) (st_timeline st);
          scrollback = filter (\<lambda>r. sb_runId r \<noteq> runId) (st_scrollback st);
          rows = streamRawLog st runId in
      if rows = [] then (st\<lparr>st_timeline := timeline, st_scrollback := scrollback\<rparr>, Inr ())
      else case map_res (eventRowToNormalized k) rows of
        Inl e \<Rightarrow> (st, Inl e)
      | Inr normalized \<Rightarrow>
          (st\<lparr>st_timeline := insert_rows timeline_clash timeline
                (map (\<lambda>e. deriveTimelineRow e runId) normalized),
              st_scrollback := insert_rows scrollback_clash scrollback
                (List.map_filter (\<lambda>e. deriveScrollbackRow e runId) normalized)\<rparr>, Inr ()))"

section \<open>The queries\<close>

record timeline_entry =
  te_eventId :: string
  te_sequence :: int
  te_kind :: string
  te_occurredAt :: int
  te_summary :: string
  te_ref :: js
  te_processId :: "string option"
  te_captureMethod :: int
  te_confidence :: int

definition at_least :: "int option \<Rightarrow> int \<Rightarrow> bool" where
  "at_least bound s = (case bound of None \<Rightarrow> True | Some b \<Rightarrow> b \<le> s)"

definition at_most :: "int option \<Rightarrow> int \<Rightarrow> bool" where
  "at_most bound s = (case bound of None \<Rightarrow> True | Some b \<Rightarrow> s \<le> b)"

definition getTimeline ::
  "store \<Rightarrow> string \<Rightarrow> int option \<Rightarrow> int option \<Rightarrow> payload_case list option \<Rightarrow> timeline_entry list"
where
  "getTimeline st runId fromSequence toSequence kinds =
     (let rows = filter (\<lambda>r. tl_runId r = runId \<and> at_least fromSequence (tl_sequence r) \<and>
            at_most toSequence (tl_sequence r) \<and>
            (case kinds of None \<Rightarrow> True | Some cs \<Rightarrow> cs = [] \<or> tl_kind r \<in> set (map payload_case_name cs)))
            (st_timeline st);
          joined = concat (map (\<lambda>t. map (\<lambda>e.
            \<lparr>te_eventId = tl_eventId t, te_sequence = tl_sequence t, te_kind = tl_kind t,
             te_occurredAt = tl_occurredAt t, te_summary = tl_summary t, te_ref = tl_refJson t,
             te_processId = er_processId e, te_captureMethod = er_captureMethod e,
             te_confidence = er_confidence e\<rparr>)
            (filter (\<lambda>e. er_eventId e = tl_eventId t) (st_events st))) rows)
      in sort_key te_sequence joined)"

text \<open>\<^const>\<open>None\<close> is the error "No event at sequence ... for run ...".\<close>

definition getEvent :: "store \<Rightarrow> string \<Rightarrow> int \<Rightarrow> event_row option" where
  "getEvent st runId sequence =
     (case sort_key er_runtimeId (filter (\<lambda>r. er_runId r = runId \<and> er_sequence r = sequence) (st_events st)) of
        [] \<Rightarrow> None | row # _ \<Rightarrow> Some row)"

record loss_report =
  rp_droppedEventCount :: int
  rp_sequenceGapCount :: int
  rp_watchOverflowCount :: int
  rp_earlyClose :: bool

fun tally_loss :: "loss_row list \<Rightarrow> loss_report \<Rightarrow> loss_report" where
  "tally_loss [] rp = rp"
| "tally_loss (span # spans) rp = tally_loss spans
     (case lr_kind span of
        Dropped_event \<Rightarrow> rp\<lparr>rp_droppedEventCount := rp_droppedEventCount rp +
          (case lr_droppedCount span of Some n \<Rightarrow> n | None \<Rightarrow> 0)\<rparr>
      | Sequence_gap \<Rightarrow> rp\<lparr>rp_sequenceGapCount := rp_sequenceGapCount rp + 1\<rparr>
      | Watch_overflow \<Rightarrow> rp\<lparr>rp_watchOverflowCount := rp_watchOverflowCount rp + 1\<rparr>
      | Early_close \<Rightarrow> rp\<lparr>rp_earlyClose := True\<rparr>)"

definition getLossReport :: "store \<Rightarrow> string \<Rightarrow> loss_report \<times> loss_row list" where
  "getLossReport st runId =
     (let spans = sort_key lr_detectedAt (filter (\<lambda>r. lr_runId r = runId) (st_lossSpans st))
      in (tally_loss spans \<lparr>rp_droppedEventCount = 0, rp_sequenceGapCount = 0,
            rp_watchOverflowCount = 0, rp_earlyClose = False\<rparr>, spans))"

record range_options =
  ro_processId :: "string option"
  ro_sessionId :: "string option"
  ro_fromSequence :: "int option"
  ro_toSequence :: "int option"
  ro_limit :: "int option"

record scrollback_chunk =
  sc_sequence :: int
  sc_stream :: int
  sc_streamOffset :: int
  sc_bytes :: "byte list"
  sc_missing :: bool

definition chunk_of_row :: "store \<Rightarrow> string \<Rightarrow> scrollback_row \<Rightarrow> (unit, scrollback_chunk) res" where
  "chunk_of_row st runId row =
     (case (sb_contentAlgo row, sb_contentHash row) of
        (Some algo, Some hash) \<Rightarrow>
          (case artifact_get st runId algo hash of
             None \<Rightarrow> Inl ()
           | Some bytes \<Rightarrow> Inr \<lparr>sc_sequence = sb_sequence row, sc_stream = sb_stream row,
               sc_streamOffset = sb_streamOffset row, sc_bytes = bytes, sc_missing = False\<rparr>)
      | _ \<Rightarrow> Inr \<lparr>sc_sequence = sb_sequence row, sc_stream = sb_stream row,
               sc_streamOffset = sb_streamOffset row, sc_bytes = [], sc_missing = True\<rparr>)"

definition matching_rows :: "store \<Rightarrow> string \<Rightarrow> int list \<Rightarrow> range_options \<Rightarrow> scrollback_row list" where
  "matching_rows st runId streams options =
     sort_key sb_sequence (filter (\<lambda>r. sb_runId r = runId \<and> sb_stream r \<in> set streams \<and>
       (case ro_processId options of None \<Rightarrow> True | Some p \<Rightarrow> sb_processId r = Some p) \<and>
       (case ro_sessionId options of None \<Rightarrow> True | Some s \<Rightarrow> sb_sessionId r = Some s) \<and>
       at_least (ro_fromSequence options) (sb_sequence r) \<and>
       at_most (ro_toSequence options) (sb_sequence r)) (st_scrollback st))"

definition chunk_limit :: "range_options \<Rightarrow> nat" where
  "chunk_limit options = nat (clamp 1 10000 (case ro_limit options of Some l \<Rightarrow> l | None \<Rightarrow> 5000))"

definition scrollbackChunks ::
  "store \<Rightarrow> string \<Rightarrow> int list \<Rightarrow> range_options \<Rightarrow> (unit, scrollback_chunk list) res"
where
  "scrollbackChunks st runId streams options =
     map_res (chunk_of_row st runId) (take (chunk_limit options) (matching_rows st runId streams options))"

text \<open>The bytes of one process's stream up to a sequence, in offset order; a failed read ends it.\<close>

definition reconstructScrollback ::
  "store \<Rightarrow> string \<Rightarrow> string \<Rightarrow> int \<Rightarrow> int \<Rightarrow> (unit, byte list list) res"
where
  "reconstructScrollback st runId processId stream atSequence =
     map_res (\<lambda>row. bind_res (chunk_of_row st runId row) (\<lambda>c. Inr (sc_bytes c)))
       (sort_key sb_streamOffset (filter (\<lambda>r. sb_runId r = runId \<and> sb_processId r = Some processId \<and>
          sb_stream r = stream \<and> sb_sequence r \<le> atSequence) (st_scrollback st)))"

definition maxSequence :: "store \<Rightarrow> string \<Rightarrow> int" where
  "maxSequence st runId =
     (case map er_sequence (filter (\<lambda>r. er_runId r = runId) (st_events st)) of
        [] \<Rightarrow> 0 | s # ss \<Rightarrow> fold max ss s)"

definition hasEpoch :: "store \<Rightarrow> string \<Rightarrow> bool" where
  "hasEpoch st runId \<longleftrightarrow> list_ex (\<lambda>ep. ep_runId ep = runId) (st_epochs st)"

record run_summary =
  rs_runId :: string
  rs_runtimeId :: string
  rs_status :: epoch_status
  rs_eventsPersisted :: int
  rs_firstSequence :: "int option"
  rs_lastSequence :: "int option"

definition listRuns :: "store \<Rightarrow> int option \<Rightarrow> run_summary list" where
  "listRuns st filter_limit =
     (let limit = nat (clamp 1 100 (case filter_limit of Some l \<Rightarrow> l | None \<Rightarrow> 25));
          epochs = take limit (sort_key (\<lambda>ep. - ep_openedAt ep) (st_epochs st))
      in map (\<lambda>ep. \<lparr>rs_runId = ep_runId ep, rs_runtimeId = ep_runtimeId ep, rs_status = ep_status ep,
           rs_eventsPersisted = int (length (filter (\<lambda>r. er_runId r = ep_runId ep \<and>
              er_runtimeId r = ep_runtimeId ep) (st_events st))),
           rs_firstSequence = ep_firstSequence ep, rs_lastSequence = ep_lastSequence ep\<rparr>) epochs)"

end
