(* ===== verification/Telemetry_Sink_Proofs.thy ===== *)
theory Telemetry_Sink_Proofs
  imports Telemetry_Sink
begin

text \<open>
  What the sink promises its writers: the log is append-only and unique, an append that succeeds
  means every event of the batch is in the log as it was sent, and replaying it changes nothing.
\<close>

section \<open>The tables keep their indexes\<close>

interpretation log: unique_table event_clash
  by unfold_locales (auto simp: event_clash_def)

interpretation timeline: unique_table timeline_clash
  by unfold_locales (auto simp: timeline_clash_def)

interpretation scrollback: unique_table scrollback_clash
  by unfold_locales (auto simp: scrollback_clash_def)

interpretation artifacts: unique_table artifact_clash
  by unfold_locales (auto simp: artifact_clash_def)

interpretation losses: unique_table loss_clash
  by unfold_locales (auto simp: loss_clash_def)

interpretation epochs: unique_table epoch_clash
  by unfold_locales (auto simp: epoch_clash_def)

definition log_unique :: "store \<Rightarrow> bool" where
  "log_unique st \<longleftrightarrow> sorted_wrt (\<lambda>a b. \<not> event_clash a b) (st_events st)"

lemma eventRow_sel [simp]:
  "er_eventId (eventRow e r) = ne_eventId e" "er_runId (eventRow e r) = r"
  "er_runtimeId (eventRow e r) = ne_runtimeId e" "er_sequence (eventRow e r) = ne_sequence e"
  "er_payload (eventRow e r) = ne_payload e"
  by (simp_all add: eventRow_def)

section \<open>Duplicates within a batch\<close>

lemma split_loop_unique:
  assumes "split_loop f first events = (unique, conflicts)" "distinct (map ne_eventId first)"
  shows "distinct (map ne_eventId unique) \<and> set first \<subseteq> set unique \<and> set unique \<subseteq> set first \<union> set events"
  using assms
proof (induction events arbitrary: first unique conflicts)
  case (Cons event events)
  show ?case
  proof (cases "List.find (\<lambda>e. ne_eventId e = ne_eventId event) first")
    case None
    then have "ne_eventId event \<notin> ne_eventId ` set first" by (auto dest: find_NoneD)
    then show ?thesis using Cons.IH[of "first @ [event]" unique conflicts] Cons.prems None by auto
  next
    case (Some earlier)
    then obtain cs where "split_loop f first events = (unique, cs)"
      using Cons.prems(1) by (auto simp: Let_def split: prod.splits)
    then show ?thesis using Cons.IH[of first unique cs] Cons.prems(2) by auto
  qed
qed auto

lemma split_loop_agrees:
  assumes "split_loop f first events = (unique, [])" "distinct (map ne_eventId first)" "e \<in> set first \<union> set events"
  shows "\<exists>u \<in> set unique. ne_eventId u = ne_eventId e \<and> same_event u e \<and> f u = f e"
  using assms
proof (induction events arbitrary: first unique)
  case Nil
  then show ?case by auto
next
  case (Cons event events)
  show ?case
  proof (cases "List.find (\<lambda>e. ne_eventId e = ne_eventId event) first")
    case None
    then have "ne_eventId event \<notin> ne_eventId ` set first" by (auto dest: find_NoneD)
    then show ?thesis using Cons.IH[of "first @ [event]" unique] Cons.prems None by auto
  next
    case (Some earlier)
    then have earlier: "earlier \<in> set first" "ne_eventId earlier = ne_eventId event"
      by (auto dest: find_SomeD)
    have loop: "split_loop f first events = (unique, [])"
      and same: "same_event earlier event" "f earlier = f event"
      using Cons.prems(1) Some by (auto simp: Let_def no_differences split: prod.splits if_splits)
    note sub = split_loop_unique[OF loop Cons.prems(2)]
    show ?thesis
    proof (cases "e = event")
      case True
      then show ?thesis using sub earlier same by auto
    next
      case False
      then show ?thesis using Cons.IH[OF loop Cons.prems(2)] Cons.prems(3) by auto
    qed
  qed
qed

lemma split_batch:
  assumes "splitDuplicateIds input f = (batch, conflicts)"
  shows "distinct (map ne_eventId batch)" "set batch \<subseteq> set input"
    and "conflicts = [] \<Longrightarrow> e \<in> set input \<Longrightarrow>
      \<exists>u \<in> set batch. ne_eventId u = ne_eventId e \<and> same_event u e \<and> f u = f e"
  using split_loop_unique[of f "[]" input batch conflicts] split_loop_agrees[of f "[]" input batch e] assms
  by (auto simp: splitDuplicateIds_def)

section \<open>The transaction\<close>

definition batch_rows :: "string \<Rightarrow> norm_event list \<Rightarrow> event_row list" where
  "batch_rows runId batch = map (\<lambda>e. eventRow e (runIdFor runId e)) batch"

lemma append_tx_log:
  assumes "append_tx st runId rt batch = (st', committed)"
  shows "st_events st' = insert_rows event_clash (st_events st) (batch_rows runId batch)"
    and "st_artifacts st' = st_artifacts st" "st_lossSpans st' = st_lossSpans st" "st_runs st' = st_runs st"
  using assms by (auto simp: append_tx_def insert_rows_def batch_rows_def Let_def split: list.splits)

lemma append_tx_committed:
  assumes "append_tx st runId rt batch = (st', committed)"
  shows "committed = filter (\<lambda>e. ne_eventId e \<in>
    er_eventId ` set (fresh_rows event_clash (st_events st) (batch_rows runId batch))) batch"
  using assms by (auto simp: append_tx_def batch_rows_def Let_def split: list.splits)

lemma committed_iff:
  assumes "append_tx st runId rt batch = (st', committed)" "distinct (map ne_eventId batch)" "e \<in> set batch"
  shows "e \<in> set committed \<longleftrightarrow>
    eventRow e (runIdFor runId e) \<in> set (fresh_rows event_clash (st_events st) (batch_rows runId batch))"
proof
  assume "e \<in> set committed"
  then obtain row where row: "row \<in> set (fresh_rows event_clash (st_events st) (batch_rows runId batch))"
    "er_eventId row = ne_eventId e"
    using append_tx_committed[OF assms(1)] by auto
  then obtain e' where e': "e' \<in> set batch" "row = eventRow e' (runIdFor runId e')"
    using fresh_rows_subset[of event_clash "st_events st" "batch_rows runId batch"] by (auto simp: batch_rows_def)
  then have "e' = e" using assms(2,3) row(2) by (auto simp: distinct_map dest: inj_onD)
  then show "eventRow e (runIdFor runId e) \<in> set (fresh_rows event_clash (st_events st) (batch_rows runId batch))"
    using row(1) e'(2) by simp
next
  assume "eventRow e (runIdFor runId e) \<in> set (fresh_rows event_clash (st_events st) (batch_rows runId batch))"
  then show "e \<in> set committed"
    using append_tx_committed[OF assms(1)] assms(3) by (force intro: rev_image_eqI)
qed

section \<open>Offloaded content\<close>

lemma artifact_put_artifacts [simp]:
  "st_artifacts (artifact_put st p) = insert_rows artifact_clash (st_artifacts st) [artifact_row_of p]"
  "st_events (artifact_put st p) = st_events st" "st_timeline (artifact_put st p) = st_timeline st"
  "st_scrollback (artifact_put st p) = st_scrollback st" "st_epochs (artifact_put st p) = st_epochs st"
  "st_lossSpans (artifact_put st p) = st_lossSpans st" "st_runs (artifact_put st p) = st_runs st"
  by (simp_all add: artifact_put_def)

lemma artifact_put_update: "(artifact_put st p)\<lparr>st_artifacts := x\<rparr> = st\<lparr>st_artifacts := x\<rparr>"
  by (simp add: artifact_put_def)

lemma fold_artifact_put:
  "fold (\<lambda>p s. artifact_put s p) ps st =
     st\<lparr>st_artifacts := insert_rows artifact_clash (st_artifacts st) (map artifact_row_of ps)\<rparr>"
proof (induction ps arbitrary: st)
  case (Cons p ps)
  show ?case
    by (simp add: Cons.IH artifact_put_update insert_rows_insert)
qed simp

definition offload_rows :: "(norm_event \<Rightarrow> string) \<Rightarrow> norm_event list \<Rightarrow> artifact_row list" where
  "offload_rows f batch = map artifact_row_of (concat (map (content_put f) batch))"

lemma offload_store:
  "offload f st batch = st\<lparr>st_artifacts := insert_rows artifact_clash (st_artifacts st) (offload_rows f batch)\<rparr>"
  by (simp add: offload_def fold_artifact_put offload_rows_def)

section \<open>Reading back\<close>

lemma redelivery_same:
  "redeliveryDifferences k row e r = Inr [] \<longleftrightarrow>
     (\<exists>n. eventRowToNormalized k row = Inr n \<and> same_event n e) \<and> placedRightly row e r"
  by (auto simp: redeliveryDifferences_def res_simps Let_def no_differences)

text \<open>
  An event whose row can be read back as the event: its payload is withheld and its chunk metadata
  parse. Every normalized event is one, and so is one the output budget took the content from.
\<close>

definition storable :: "stream_kinds \<Rightarrow> norm_event \<Rightarrow> bool" where
  "storable k event \<longleftrightarrow>
     (ne_payloadCase event = Msg ProcessStarted \<longrightarrow> withholdProcessArgs (ne_payload event) = ne_payload event) \<and>
     (\<exists>s. deriveScrollback (ne_processId event) (ne_sessionId event) (ne_payloadCase event) (ne_payload event) = Inr s)"

lemma well_normalized_storable: "well_normalized k e \<Longrightarrow> storable k e"
  by (auto simp: well_normalized_def storable_def)

lemma redelivery_of_own_row:
  assumes "storable k e"
  shows "redeliveryDifferences k (eventRow e r) e r = Inr []"
proof -
  obtain s where "deriveScrollback (ne_processId e) (ne_sessionId e) (ne_payloadCase e) (ne_payload e) = Inr s"
    using assms by (auto simp: storable_def)
  from readback_payload[OF _ this, of k r] show ?thesis
    using assms by (auto simp: redelivery_same placedRightly_def storable_def same_event_def)
qed

lemma redelivery_same_event:
  "redeliveryDifferences k row u r = Inr [] \<Longrightarrow> same_event u e \<Longrightarrow> redeliveryDifferences k row e r = Inr []"
  by (auto simp: redelivery_same placedRightly_def same_event_def)

lemma log_conflict_none:
  "log_conflict k stored f e = Inr [] \<longleftrightarrow>
     (\<exists>row. find_last (\<lambda>row. er_eventId row = ne_eventId e) stored = Some row \<and>
        redeliveryDifferences k row e (f e) = Inr [])"
  by (auto simp: log_conflict_def res_simps Let_def split: option.splits if_splits)

lemma map_res_all_Nil:
  "(\<exists>ys. map_res g xs = Inr ys \<and> concat ys = []) \<longleftrightarrow> (\<forall>x \<in> set xs. g x = Inr [])"
proof (induction xs)
  case (Cons x xs)
  have "(\<exists>ys. map_res g (x # xs) = Inr ys \<and> concat ys = []) \<longleftrightarrow>
      g x = Inr [] \<and> (\<exists>ys. map_res g xs = Inr ys \<and> concat ys = [])"
    by (fastforce simp: res_simps)
  then show ?case using Cons.IH by simp
qed simp

lemma no_conflicting_redeliveries:
  "conflictingRedeliveries k skipped stored f = Inr [] \<longleftrightarrow> (\<forall>e \<in> set skipped. log_conflict k stored f e = Inr [])"
  unfolding map_res_all_Nil[symmetric] by (auto simp: conflictingRedeliveries_def res_simps)

text \<open>The log holds an event when the row with its id is that event, in a run that holds it.\<close>

definition holds :: "stream_kinds \<Rightarrow> store \<Rightarrow> string \<Rightarrow> norm_event \<Rightarrow> bool" where
  "holds k st runId e \<longleftrightarrow>
     (\<exists>row \<in> set (st_events st). er_eventId row = ne_eventId e \<and>
        redeliveryDifferences k row e (runIdFor runId e) = Inr [])"

lemma read_back_holds:
  assumes "readBackConflicts k st skipped (runIdFor runId) = Inr []" "e \<in> set skipped"
  shows "holds k st runId e"
  using assms
  by (auto simp: readBackConflicts_def no_conflicting_redeliveries log_conflict_none find_last_def holds_def
      dest!: bspec find_SomeD)

lemma holds_read_back:
  assumes "log_unique st" "\<And>e. e \<in> set skipped \<Longrightarrow> holds k st runId e"
  shows "readBackConflicts k st skipped (runIdFor runId) = Inr []"
proof -
  have "\<exists>row. find_last (\<lambda>row. er_eventId row = ne_eventId e) (filter P (st_events st)) = Some row \<and>
      redeliveryDifferences k row e (runIdFor runId e) = Inr []"
    if e: "e \<in> set skipped" and P: "\<And>row. er_eventId row = ne_eventId e \<Longrightarrow> P row" for e and P :: "event_row \<Rightarrow> bool"
  proof -
    obtain row where row: "row \<in> set (st_events st)" "er_eventId row = ne_eventId e"
      "redeliveryDifferences k row e (runIdFor runId e) = Inr []"
      using assms(2)[OF e] by (auto simp: holds_def)
    have "find_last (\<lambda>row. er_eventId row = ne_eventId e) (filter P (st_events st)) \<noteq> None"
      using row(1,2) P by (auto simp: find_last_def find_None_iff)
    then obtain row' where row': "find_last (\<lambda>row. er_eventId row = ne_eventId e) (filter P (st_events st)) = Some row'"
      by blast
    then have "row' \<in> set (st_events st)" "er_eventId row' = ne_eventId e"
      by (auto simp: find_last_def dest!: find_SomeD)
    then have "row' = row"
      using log.unique_row[OF assms(1)[unfolded log_unique_def] _ row(1)] row(2) by (simp add: event_clash_def)
    then show ?thesis using row' row(3) by simp
  qed
  then show ?thesis
    by (simp add: readBackConflicts_def no_conflicting_redeliveries log_conflict_none)
qed

section \<open>Appending\<close>

lemma appendBatch_cases:
  assumes "appendBatch k st runId rt input = (st', Inr appended)"
  obtains (empty) "input = []" "st' = st" "appended = []"
  | (stored) batch where "splitDuplicateIds input (runIdFor runId) = (batch, [])" "batch \<noteq> []"
      "append_tx (offload (runIdFor runId) st batch) runId rt batch = (st', appended)"
      "\<And>e. e \<in> set batch \<Longrightarrow> e \<notin> set appended \<Longrightarrow> holds k st' runId e"
proof -
  obtain batch inBatch where split: "splitDuplicateIds input (runIdFor runId) = (batch, inBatch)" by fastforce
  obtain st1 committed where tx: "append_tx (offload (runIdFor runId) st batch) runId rt batch = (st1, committed)" by fastforce
  show ?thesis
  proof (cases "batch = []")
    case True
    have "input = []"
    proof (cases input)
      case (Cons e es)
      then show ?thesis using split True split_loop_unique[of "runIdFor runId" "[e]" es batch inBatch]
        by (auto simp: splitDuplicateIds_def)
    qed simp
    then show ?thesis using assms True split by (intro empty) (auto simp: appendBatch_def splitDuplicateIds_def)
  next
    case False
    let ?skipped = "filter (\<lambda>e. ne_eventId e \<notin> set (map ne_eventId committed)) batch"
    have result: "st' = st1" "appended = committed" "inBatch = []"
      and answers: "?skipped \<noteq> [] \<longrightarrow> readBackConflicts k st1 ?skipped (runIdFor runId) = Inr []"
      using assms False split tx by (auto simp: appendBatch_def Let_def split: sum.splits if_splits)
    have "holds k st' runId e" if "e \<in> set batch" "e \<notin> set appended" for e
    proof -
      have "ne_eventId e \<notin> ne_eventId ` set committed"
        using that result split_batch(1)[OF split] append_tx_committed[OF tx]
        by (auto simp: distinct_map dest: inj_onD)
      then have e: "e \<in> set ?skipped" using that(1) by simp
      then have "?skipped \<noteq> []" by (metis list.set(1) empty_iff)
      then show ?thesis using answers read_back_holds[OF _ e] result(1) by blast
    qed
    then show ?thesis using split tx False result by (intro stored[of batch]) auto
  qed
qed

lemma append_keeps_losses:
  assumes "appendBatch k st runId rt input = (st', result)"
  shows "st_lossSpans st' = st_lossSpans st"
proof -
  obtain batch inBatch where split: "splitDuplicateIds input (runIdFor runId) = (batch, inBatch)" by fastforce
  obtain st1 committed where tx: "append_tx (offload (runIdFor runId) st batch) runId rt batch = (st1, committed)" by fastforce
  have "st' = st \<or> st' = st1"
    using assms split tx by (auto simp: appendBatch_def Let_def split: sum.splits if_splits)
  then show ?thesis using append_tx_log(3)[OF tx] by (auto simp: offload_store)
qed

lemma appended_holds:
  assumes tx: "append_tx st runId rt batch = (st', appended)" and "distinct (map ne_eventId batch)"
    and e: "e \<in> set appended" "storable k e"
  shows "holds k st' runId e"
proof -
  have "e \<in> set batch" using e(1) append_tx_committed[OF tx] by auto
  then have "eventRow e (runIdFor runId e) \<in> set (st_events st')"
    using committed_iff[OF tx assms(2)] e(1) append_tx_log(1)[OF tx] by (auto intro: fresh_rows_in)
  then show ?thesis
    unfolding holds_def by (rule rev_bexI) (simp add: redelivery_of_own_row[OF e(2)])
qed

text \<open>A heartbeat, stored in empty tables.\<close>

definition heartbeat :: "stream_kinds \<Rightarrow> string \<Rightarrow> string \<Rightarrow> int \<Rightarrow> norm_event" where
  "heartbeat k eventId runtimeId sequence =
     \<lparr>ne_eventId = eventId, ne_runtimeId = runtimeId, ne_executionId = None, ne_sessionId = None,
      ne_processId = None, ne_requestId = None, ne_schemaVersion = 1, ne_sequence = sequence,
      ne_observedAt = 0, ne_monotonicTimestamp = sequence, ne_captureMethod = 1, ne_confidence = 1,
      ne_payloadCase = Msg RuntimeHeartbeat, ne_payload = Obj [(''state'', Num 2)],
      ne_summary = summarize k (Msg RuntimeHeartbeat) (Obj [(''state'', Num 2)]),
      ne_content = None, ne_scrollback = None, ne_attributedRunId = None\<rparr>"

definition empty_store :: store where
  "empty_store = \<lparr>st_events = [], st_timeline = [], st_scrollback = [], st_artifacts = [],
     st_lossSpans = [], st_epochs = [], st_runs = []\<rparr>"

lemma heartbeat_sel [simp]:
  "ne_eventId (heartbeat k i r s) = i" "ne_runtimeId (heartbeat k i r s) = r" "ne_sequence (heartbeat k i r s) = s"
  "ne_content (heartbeat k i r s) = None" "ne_scrollback (heartbeat k i r s) = None" "ne_attributedRunId (heartbeat k i r s) = None"
  by (simp_all add: heartbeat_def)

lemma heartbeat_storable: "storable k (heartbeat k i r s)"
  by (simp add: heartbeat_def storable_def)

lemma heartbeat_well_normalized: "well_normalized k (heartbeat k i r s)"
  by (simp add: heartbeat_def well_normalized_def)

lemma empty_store_unique [simp]: "log_unique empty_store"
  by (simp add: log_unique_def empty_store_def)

lemma append_heartbeat:
  "appendBatch k empty_store runId rt [heartbeat k i rt s] =
     (empty_store\<lparr>st_events := [eventRow (heartbeat k i rt s) runId],
        st_timeline := [deriveTimelineRow (heartbeat k i rt s) runId]\<rparr>, Inr [heartbeat k i rt s])"
  by (simp add: appendBatch_def splitDuplicateIds_def append_tx_def empty_store_def offload_def content_put_def
      runIdFor_def insert_rows_def update_rows_def List.map_filter_def deriveScrollbackRow_def Let_def)

lemma append_stores:
  assumes "appendBatch k st runId rt input = (st', Inr appended)"
    and "\<And>e. e \<in> set input \<Longrightarrow> storable k e" "e \<in> set input"
  shows "\<exists>row \<in> set (st_events st'). er_eventId row = ne_eventId e \<and>
    redeliveryDifferences k row e (runIdFor runId e) = Inr []"
proof (cases rule: appendBatch_cases[OF assms(1)])
  case 1
  then show ?thesis using assms(3) by simp
next
  case (2 batch)
  note split = split_batch[OF 2(1)]
  obtain u where u: "u \<in> set batch" "ne_eventId u = ne_eventId e" "same_event u e"
    "runIdFor runId u = runIdFor runId e"
    using split(3)[OF refl assms(3)] by blast
  have "holds k st' runId u"
  proof (cases "u \<in> set appended")
    case True
    then show ?thesis using appended_holds[OF 2(3) split(1)] assms(2) split(2) u(1) by blast
  next
    case False
    then show ?thesis using 2(4) u(1) by blast
  qed
  then show ?thesis using u redelivery_same_event by (auto simp: holds_def)
qed

text \<open>C1: an append that succeeds keeps its promise: every event of the batch is in the log, stored
  as the event that was sent and in a run that holds it. Nothing is taken as recorded that is not.\<close>

theorem append_success_sound:
  assumes "appendBatch k st runId rt input = (st', Inr appended)"
    and "\<And>e. e \<in> set input \<Longrightarrow> storable k e" "e \<in> set input"
  shows "\<exists>row \<in> set (st_events st'). er_eventId row = ne_eventId e \<and>
    redeliveryDifferences k row e (runIdFor runId e) = Inr []"
  by (rule append_stores[OF assms])

theorem append_success_sound_witness:
  "\<exists>row \<in> set (st_events (fst (appendBatch stream_kinds_example empty_store ''run'' ''rt'' [heartbeat stream_kinds_example ''e1'' ''rt'' 1]))).
     er_eventId row = ''e1'' \<and> redeliveryDifferences stream_kinds_example row (heartbeat stream_kinds_example ''e1'' ''rt'' 1) ''run'' = Inr []"
  using append_success_sound[OF append_heartbeat[of stream_kinds_example "''run''" "''rt''" "''e1''" 1], of "heartbeat stream_kinds_example ''e1'' ''rt'' 1"]
  by (simp add: append_heartbeat heartbeat_storable runIdFor_def)

lemma append_keeps_log:
  assumes "appendBatch k st runId rt input = (st', result)"
  shows "\<exists>batch. st_events st' = insert_rows event_clash (st_events st) (batch_rows runId batch) \<and> set batch \<subseteq> set input"
proof -
  obtain batch inBatch where split: "splitDuplicateIds input (runIdFor runId) = (batch, inBatch)" by fastforce
  obtain st1 committed where tx: "append_tx (offload (runIdFor runId) st batch) runId rt batch = (st1, committed)" by fastforce
  consider "st' = st" | "st' = st1"
    using assms split tx by (auto simp: appendBatch_def Let_def split: sum.splits if_splits)
  then show ?thesis
  proof cases
    case 1
    then show ?thesis by (intro exI[of _ "[]"]) (simp add: batch_rows_def)
  next
    case 2
    then show ?thesis
      using append_tx_log(1)[OF tx] split_batch(2)[OF split] by (auto simp: offload_store)
  qed
qed

lemma log_unique_append:
  "log_unique st \<Longrightarrow> appendBatch k st runId rt input = (st', result) \<Longrightarrow> log_unique st'"
  using append_keeps_log[of k st runId rt input st' result] log.uniqueness_kept by (auto simp: log_unique_def)

text \<open>The appends of others, of any runs and runtimes, with whatever outcome.\<close>

fun append_all :: "stream_kinds \<Rightarrow> store \<Rightarrow> (string \<times> string \<times> norm_event list) list \<Rightarrow> store" where
  "append_all k st [] = st"
| "append_all k st ((runId, rt, batch) # calls) = append_all k (fst (appendBatch k st runId rt batch)) calls"

lemma append_grows:
  assumes "appendBatch k st runId rt input = (st', result)"
  shows "set (st_events st) \<subseteq> set (st_events st') \<and> set (st_artifacts st) \<subseteq> set (st_artifacts st')"
proof -
  obtain batch inBatch where split: "splitDuplicateIds input (runIdFor runId) = (batch, inBatch)" by fastforce
  obtain st1 committed where tx: "append_tx (offload (runIdFor runId) st batch) runId rt batch = (st1, committed)" by fastforce
  have "st' = st \<or> st' = st1"
    using assms split tx by (auto simp: appendBatch_def Let_def split: sum.splits if_splits)
  then show ?thesis
    using append_tx_log(1,2)[OF tx] by (auto simp: offload_store insert_rows_keeps)
qed

lemma append_all_grows:
  "set (st_events st) \<subseteq> set (st_events (append_all k st calls)) \<and>
   set (st_artifacts st) \<subseteq> set (st_artifacts (append_all k st calls)) \<and>
   (log_unique st \<longrightarrow> log_unique (append_all k st calls))"
proof (induction calls arbitrary: st)
  case (Cons call calls)
  obtain runId rt batch where call: "call = (runId, rt, batch)" by (cases call)
  obtain st' result where run: "appendBatch k st runId rt batch = (st', result)" by fastforce
  show ?case
    using Cons[of st'] append_grows[OF run] log_unique_append[OF _ run] unfolding call by (simp add: run) blast
qed simp

lemma reinserted:
  assumes "unique_table clash" "set (insert_rows clash t rs) \<subseteq> set t'"
  shows "fresh_rows clash t' rs = []"
  using unique_table.no_fresh[OF assms(1), of rs t'] unique_table.covered[OF assms(1), of _ rs t] assms(2)
  by blast

text \<open>C3: delivery is at least once and storage exactly once. When an append of storable events
  succeeded, delivering the same batch again, after whatever appends of whatever runs came in between,
  commits nothing, reports no conflict and leaves every table of the store as it is.\<close>

theorem replay_is_idempotent:
  assumes "log_unique st" "appendBatch k st runId rt input = (st', Inr appended)"
    and "list_all (storable k) input" "later = append_all k st' others"
  shows "appendBatch k later runId rt input = (later, Inr [])"
proof (cases rule: appendBatch_cases[OF assms(2)])
  case 1
  then show ?thesis by (simp add: appendBatch_def splitDuplicateIds_def)
next
  case (2 batch)
  note split = split_batch[OF 2(1)]
  have log: "st_events st' = insert_rows event_clash (st_events st) (batch_rows runId batch)"
    and artifacts: "st_artifacts st' = insert_rows artifact_clash (st_artifacts st) (offload_rows (runIdFor runId) batch)"
    using append_tx_log[OF 2(3)] by (simp_all add: offload_store)
  have grown: "set (st_events st') \<subseteq> set (st_events later)" "set (st_artifacts st') \<subseteq> set (st_artifacts later)"
    "log_unique later"
    using append_all_grows[of st' k others] log_unique_append[OF assms(1,2)] unfolding assms(4) by blast+
  have "fresh_rows artifact_clash (st_artifacts later) (offload_rows (runIdFor runId) batch) = []"
    by (rule reinserted[OF artifacts.unique_table_axioms]) (use grown(2) artifacts in simp)
  then have "offload (runIdFor runId) later batch = later"
    by (simp add: offload_store insert_rows_def)
  moreover have "fresh_rows event_clash (st_events later) (batch_rows runId batch) = []"
    by (rule reinserted[OF log.unique_table_axioms]) (use grown(1) log in simp)
  then have "append_tx later runId rt batch = (later, [])"
    by (simp add: append_tx_def batch_rows_def[symmetric])
  moreover have "holds k later runId e" if "e \<in> set batch" for e
  proof -
    have "storable k e" using that split(2) assms(3) by (auto simp: list_all_iff)
    then have "holds k st' runId e" using that 2(4) appended_holds[OF 2(3) split(1)] by blast
    then show ?thesis using grown(1) unfolding holds_def by blast
  qed
  then have "readBackConflicts k later batch (runIdFor runId) = Inr []"
    by (intro holds_read_back grown(3))
  ultimately show ?thesis using 2(1,2) by (simp add: appendBatch_def)
qed

theorem replay_is_idempotent_witness:
  "let k = stream_kinds_example; first = [heartbeat k ''e1'' ''rt'' 1]; second = [heartbeat k ''e2'' ''rt'' 2];
       st1 = fst (appendBatch k empty_store ''run'' ''rt'' first); st2 = fst (appendBatch k st1 ''run'' ''rt'' second)
   in length (st_events st2) = 2 \<and> appendBatch k st2 ''run'' ''rt'' first = (st2, Inr [])"
proof -
  let ?k = stream_kinds_example
  let ?first = "[heartbeat ?k ''e1'' ''rt'' 1]" and ?second = "[heartbeat ?k ''e2'' ''rt'' 2]"
  let ?st1 = "fst (appendBatch ?k empty_store ''run'' ''rt'' ?first)"
  have "appendBatch ?k empty_store ''run'' ''rt'' ?first = (?st1, Inr ?first)"
    by (simp add: append_heartbeat)
  from replay_is_idempotent[OF empty_store_unique this, of _ "[(''run'', ''rt'', ?second)]"]
  have "appendBatch ?k (fst (appendBatch ?k ?st1 ''run'' ''rt'' ?second)) ''run'' ''rt'' ?first =
      (fst (appendBatch ?k ?st1 ''run'' ''rt'' ?second), Inr [])"
    by (simp add: heartbeat_storable)
  moreover have "length (st_events (fst (appendBatch ?k ?st1 ''run'' ''rt'' ?second))) = 2" by code_simp
  ultimately show ?thesis by (simp add: Let_def)
qed

end
