(* ===== verification/Telemetry_Projection.thy ===== *)
theory Telemetry_Projection
  imports Telemetry_Sink_Proofs
begin

text \<open>
  The projections (\<open>telemetry_timeline\<close>, \<open>telemetry_scrollback\<close>) against their specification: they
  are functions of the log. Every history of the sink is a step relation over its operations; in
  every reachable state a rebuild makes again the rows that ingest wrote, provided every row has a
  place of its own in its run, and the last theorem shows what is lost when it has not.
\<close>

section \<open>The specification\<close>

text \<open>The projections a log row gives.\<close>

definition row_event :: "stream_kinds \<Rightarrow> event_row \<Rightarrow> norm_event" where
  "row_event k row = projr (eventRowToNormalized k row)"

definition row_timeline :: "stream_kinds \<Rightarrow> event_row \<Rightarrow> timeline_row" where
  "row_timeline k row = deriveTimelineRow (row_event k row) (er_runId row)"

definition row_scrollback :: "stream_kinds \<Rightarrow> event_row \<Rightarrow> scrollback_row option" where
  "row_scrollback k row = deriveScrollbackRow (row_event k row) (er_runId row)"

definition row_readable :: "stream_kinds \<Rightarrow> event_row \<Rightarrow> bool" where
  "row_readable k row \<longleftrightarrow> (\<exists>e. eventRowToNormalized k row = Inr e)"

text \<open>
  A log whose rows have a place each in their run: one position per sequence, and one per process,
  stream and offset. That is a run of one runtime, whose chunks do not overlap.
\<close>

definition clean_log :: "stream_kinds \<Rightarrow> event_row list \<Rightarrow> bool" where
  "clean_log k rows \<longleftrightarrow>
     sorted_wrt (\<lambda>a b. \<not> timeline_clash a b) (map (row_timeline k) rows) \<and>
     sorted_wrt (\<lambda>a b. \<not> scrollback_clash a b) (List.map_filter (row_scrollback k) rows)"

text \<open>The specification of the projections: they are functions of the log.\<close>

definition projected :: "stream_kinds \<Rightarrow> store \<Rightarrow> bool" where
  "projected k st \<longleftrightarrow>
     list_all (row_readable k) (st_events st) \<and>
     mset (st_timeline st) = mset (map (row_timeline k) (st_events st)) \<and>
     mset (st_scrollback st) = mset (List.map_filter (row_scrollback k) (st_events st))"

section \<open>Appending\<close>

lemma row_of_event:
  assumes "well_normalized k e"
  shows "row_readable k (eventRow e r)" "row_timeline k (eventRow e r) = deriveTimelineRow e r"
    "row_scrollback k (eventRow e r) = deriveScrollbackRow e r"
  using readback[OF assms, of r] by (simp_all add: row_readable_def row_timeline_def row_scrollback_def row_event_def)

lemma fresh_rows_filter:
  "distinct rs \<Longrightarrow> fresh_rows clash t rs = filter (\<lambda>r. r \<in> set (fresh_rows clash t rs)) rs"
proof (induction rs arbitrary: t)
  case (Cons a rs)
  have "set (fresh_rows clash x rs) \<subseteq> set rs" for x by (rule fresh_rows_subset)
  moreover have "filter (\<lambda>r. r = a \<or> r \<in> X) rs = filter (\<lambda>r. r \<in> X) rs" for X
    using Cons.prems by (intro filter_cong) auto
  ultimately show ?case using Cons.IH[of t] Cons.IH[of "t @ [a]"] Cons.prems by auto
qed simp

lemma inserted_committed:
  assumes "append_tx st runId rt batch = (st', committed)" "distinct (map ne_eventId batch)"
  shows "fresh_rows event_clash (st_events st) (batch_rows runId batch) = batch_rows runId committed"
proof -
  have "distinct (batch_rows runId batch)"
    using assms(2) by (auto simp: batch_rows_def distinct_map inj_on_def dest!: arg_cong[of _ _ er_eventId])
  note this[THEN fresh_rows_filter, of event_clash "st_events st"]
  moreover have "committed = filter (\<lambda>e. eventRow e (runIdFor runId e)
      \<in> set (fresh_rows event_clash (st_events st) (batch_rows runId batch))) batch"
    using committed_iff[OF assms] append_tx_committed[OF assms(1)]
    by (subst append_tx_committed[OF assms(1)]) (rule filter_cong, auto)
  ultimately show ?thesis by (simp add: batch_rows_def filter_map comp_def)
qed

lemma append_tx_projections:
  assumes "append_tx st runId rt batch = (st', committed)"
  shows "st_timeline st' = insert_rows timeline_clash (st_timeline st)
           (map (\<lambda>e. deriveTimelineRow e (runIdFor runId e)) committed)"
    and "st_scrollback st' = insert_rows scrollback_clash (st_scrollback st)
           (List.map_filter (\<lambda>e. deriveScrollbackRow e (runIdFor runId e)) committed)"
proof -
  let ?C = "filter (\<lambda>e. ne_eventId e \<in> set (map er_eventId
    (fresh_rows event_clash (st_events st) (map (\<lambda>e. eventRow e (runIdFor runId e)) batch)))) batch"
  have "?C = committed" using append_tx_committed[OF assms] by (simp add: batch_rows_def)
  note tx = assms[unfolded append_tx_def Let_def this]
  show "st_timeline st' = insert_rows timeline_clash (st_timeline st)
           (map (\<lambda>e. deriveTimelineRow e (runIdFor runId e)) committed)"
    using tx by (cases committed) auto
  show "st_scrollback st' = insert_rows scrollback_clash (st_scrollback st)
           (List.map_filter (\<lambda>e. deriveScrollbackRow e (runIdFor runId e)) committed)"
    using tx by (cases committed) (auto simp: List.map_filter_def)
qed

lemma map_filter_append: "List.map_filter f (xs @ ys) = List.map_filter f xs @ List.map_filter f ys"
  by (simp add: List.map_filter_def)

lemma clean_log_prefix: "clean_log k (xs @ ys) \<Longrightarrow> clean_log k xs"
  by (auto simp: clean_log_def sorted_wrt_append map_filter_append)

text \<open>Rows that clash with none of a table are all taken, whatever the order of the table.\<close>

lemma insert_rows_clean:
  assumes "unique_table clash" "sorted_wrt (\<lambda>a b. \<not> clash a b) (ys @ rs)" "set t = set ys"
  shows "insert_rows clash t rs = t @ rs"
proof -
  have sym: "clash a b \<Longrightarrow> clash b a" for a b using assms(1) by (simp add: unique_table_def)
  have "sorted_wrt (\<lambda>a b. \<not> clash b a) rs"
    using assms(2) by (auto simp: sorted_wrt_append dest: sym elim: sorted_wrt_mono_rel[rotated])
  moreover have "\<forall>r \<in> set rs. \<forall>x \<in> set t. \<not> clash r x"
    using assms(2,3) by (auto simp: sorted_wrt_append dest: sym)
  ultimately show ?thesis by (simp add: insert_rows_def fresh_rows_all)
qed


lemma pairwise_permuted:
  assumes "\<And>a b. clash a b \<Longrightarrow> clash b a" "mset xs = mset ys" "sorted_wrt (\<lambda>a b. \<not> clash a b) xs"
  shows "sorted_wrt (\<lambda>a b. \<not> clash a b) ys"
  using assms(2,3)
proof (induction ys arbitrary: xs)
  case (Cons y ys)
  have "y \<in> set xs" using Cons.prems(1) by (metis list.set_intros(1) set_mset_mset)
  then obtain as bs where xs: "xs = as @ y # bs" by (meson split_list)
  then have rest: "mset (as @ bs) = mset ys" "sorted_wrt (\<lambda>a b. \<not> clash a b) (as @ bs)"
    and apart: "\<forall>x \<in> set (as @ bs). \<not> clash y x"
    using Cons.prems by (auto simp: sorted_wrt_append dest: assms(1))
  moreover have "set (as @ bs) = set ys" using rest(1) by (metis set_mset_mset)
  ultimately show ?case using Cons.IH[OF rest] by simp
qed simp

lemma map_filter_mset: "mset (List.map_filter f xs) = image_mset (the \<circ> f) (filter_mset (\<lambda>x. f x \<noteq> None) (mset xs))"
  by (simp add: List.map_filter_def)

lemma projected_append_tx:
  assumes "projected k st" "append_tx st runId rt batch = (st', committed)"
    and "distinct (map ne_eventId batch)" "\<And>e. e \<in> set batch \<Longrightarrow> well_normalized k e"
    and "clean_log k (st_events st')"
  shows "projected k st'"
proof -
  have log: "st_events st' = st_events st @ batch_rows runId committed"
    using append_tx_log(1)[OF assms(2)] inserted_committed[OF assms(2,3)] by (simp add: insert_rows_def)
  have wn: "well_normalized k e" if "e \<in> set committed" for e
    using that append_tx_committed[OF assms(2)] assms(4) by auto
  let ?tl = "map (\<lambda>e. deriveTimelineRow e (runIdFor runId e)) committed"
  let ?sb = "List.map_filter (\<lambda>e. deriveScrollbackRow e (runIdFor runId e)) committed"
  have tl: "map (row_timeline k) (batch_rows runId committed) = ?tl"
    using wn by (simp add: batch_rows_def row_of_event)
  have sb: "List.map_filter (row_scrollback k) (batch_rows runId committed) = ?sb"
    using wn by (induction committed) (auto simp: batch_rows_def row_of_event List.map_filter_def)
  have clean: "sorted_wrt (\<lambda>a b. \<not> timeline_clash a b) (map (row_timeline k) (st_events st) @ ?tl)"
    "sorted_wrt (\<lambda>a b. \<not> scrollback_clash a b) (List.map_filter (row_scrollback k) (st_events st) @ ?sb)"
    using assms(5) by (simp_all add: clean_log_def log map_filter_append tl sb)
  have "st_timeline st' = st_timeline st @ ?tl"
    using insert_rows_clean[OF timeline.unique_table_axioms clean(1)] append_tx_projections(1)[OF assms(2)]
      assms(1) by (metis projected_def mset_eq_setD)
  moreover have "st_scrollback st' = st_scrollback st @ ?sb"
    using insert_rows_clean[OF scrollback.unique_table_axioms clean(2)] append_tx_projections(2)[OF assms(2)]
      assms(1) by (metis projected_def mset_eq_setD)
  moreover have "list_all (row_readable k) (batch_rows runId committed)"
    using wn by (auto simp: list_all_iff batch_rows_def row_of_event)
  ultimately show ?thesis
    using assms(1) by (simp add: projected_def log tl sb map_filter_append del: mset_map)
qed

lemma projected_offload [simp]: "projected k (offload f st batch) = projected k st"
  by (simp add: projected_def offload_store)

lemma projected_append:
  assumes "projected k st" "appendBatch k st runId rt input = (st', result)"
    and "\<And>e. e \<in> set input \<Longrightarrow> well_normalized k e" "clean_log k (st_events st')"
  shows "projected k st'"
proof -
  obtain batch inBatch where split: "splitDuplicateIds input (runIdFor runId) = (batch, inBatch)" by fastforce
  obtain st1 committed where tx: "append_tx (offload (runIdFor runId) st batch) runId rt batch = (st1, committed)" by fastforce
  consider "st' = st" | "st' = st1"
    using assms split tx by (auto simp: appendBatch_def Let_def split: sum.splits if_splits)
  then show ?thesis
  proof cases
    case 2
    then show ?thesis
      using projected_append_tx[OF _ tx split_batch(1)[OF split]] assms(1,3,4) split_batch(2)[OF split] by auto
  qed (simp add: assms(1))
qed

section \<open>Rebuilding\<close>

lemma map_res_projr:
  "(\<And>x. x \<in> set xs \<Longrightarrow> \<exists>y. f x = Inr y) \<Longrightarrow> map_res f xs = Inr (map (\<lambda>x. projr (f x)) xs)"
  by (induction xs) (force simp: res_simps)+

lemma streamRawLog_mset: "mset (streamRawLog st r) = filter_mset (\<lambda>row. er_runId row = r) (mset (st_events st))"
  by (simp add: streamRawLog_def)

lemma row_run [simp]: "tl_runId (row_timeline k row) = er_runId row"
  "row_scrollback k row = Some s \<Longrightarrow> sb_runId s = er_runId row"
  by (auto simp: row_timeline_def row_scrollback_def deriveTimelineRow_def deriveScrollbackRow_def split: option.splits)


lemma map_filter_comp: "List.map_filter (\<lambda>e. deriveScrollbackRow e r) (map g xs) = List.map_filter (\<lambda>x. deriveScrollbackRow (g x) r) xs"
  by (simp add: List.map_filter_def filter_map comp_def)

lemma map_filter_cong': "(\<And>x. x \<in> set xs \<Longrightarrow> f x = g x) \<Longrightarrow> List.map_filter f xs = List.map_filter g xs"
  by (induction xs) (auto simp: List.map_filter_def)

lemma rebuild_projected:
  assumes "projected k st" "clean_log k (st_events st)"
  shows "\<exists>st'. rebuild k st r = (st', Inr ()) \<and> st_events st' = st_events st \<and> projected k st' \<and>
    st_artifacts st' = st_artifacts st \<and> st_lossSpans st' = st_lossSpans st \<and> st_epochs st' = st_epochs st"
proof -
  let ?rows = "streamRawLog st r"
  let ?T = "filter (\<lambda>t. tl_runId t \<noteq> r) (st_timeline st)"
  let ?S = "filter (\<lambda>s. sb_runId s \<noteq> r) (st_scrollback st)"
  let ?tl = "map (row_timeline k) ?rows" and ?sb = "List.map_filter (row_scrollback k) ?rows"
  let ?E = "mset (st_events st)"
  have rows: "row \<in> set ?rows \<Longrightarrow> er_runId row = r \<and> row_readable k row" for row
    using assms(1) by (auto simp: streamRawLog_def projected_def list_all_iff)
  then have read: "map_res (eventRowToNormalized k) ?rows = Inr (map (row_event k) ?rows)"
    unfolding row_event_def by (intro map_res_projr) (auto simp: row_readable_def)
  have tl: "map (\<lambda>e. deriveTimelineRow e r) (map (row_event k) ?rows) = ?tl"
    using rows by (simp add: row_timeline_def)
  have sb: "List.map_filter (\<lambda>e. deriveScrollbackRow e r) (map (row_event k) ?rows) = ?sb"
    unfolding map_filter_comp using rows by (intro map_filter_cong') (simp add: row_scrollback_def)
  have T: "mset ?T = image_mset (row_timeline k) (filter_mset (\<lambda>row. er_runId row \<noteq> r) ?E)"
    using assms(1) by (simp add: projected_def filter_mset_image_mset)
  have "filter_mset (\<lambda>s. sb_runId s \<noteq> r) (image_mset (the \<circ> row_scrollback k) (filter_mset (\<lambda>x. row_scrollback k x \<noteq> None) ?E))
    = image_mset (the \<circ> row_scrollback k) (filter_mset (\<lambda>x. row_scrollback k x \<noteq> None) (filter_mset (\<lambda>row. er_runId row \<noteq> r) ?E))"
    by (auto simp: filter_mset_image_mset filter_filter_mset intro!: arg_cong[where f = "image_mset _"] filter_mset_cong)
  then have S: "mset ?S = image_mset (the \<circ> row_scrollback k)
      (filter_mset (\<lambda>x. row_scrollback k x \<noteq> None) (filter_mset (\<lambda>row. er_runId row \<noteq> r) ?E))"
    using assms(1) by (simp add: projected_def map_filter_mset)
  have split: "M = filter_mset (\<lambda>row. er_runId row \<noteq> r) M + filter_mset (\<lambda>row. er_runId row = r) M" for M
    by (rule multiset_eqI) simp
  have mT: "mset (?T @ ?tl) = mset (map (row_timeline k) (st_events st))"
    using split[of ?E] T by (simp add: streamRawLog_mset image_mset_union[symmetric] del: image_mset_union)
  have mS: "mset (?S @ ?sb) = mset (List.map_filter (row_scrollback k) (st_events st))"
    using split[of ?E] S
    by (simp add: streamRawLog_mset map_filter_mset image_mset_union[symmetric] filter_union_mset[symmetric]
        del: image_mset_union filter_union_mset)
  have cT: "insert_rows timeline_clash ?T ?tl = ?T @ ?tl"
    using insert_rows_clean[OF timeline.unique_table_axioms
        pairwise_permuted[OF timeline.clash_sym mT[symmetric]]] assms(2)
    by (simp add: clean_log_def)
  have cS: "insert_rows scrollback_clash ?S ?sb = ?S @ ?sb"
    using insert_rows_clean[OF scrollback.unique_table_axioms
        pairwise_permuted[OF scrollback.clash_sym mS[symmetric]]] assms(2)
    by (simp add: clean_log_def)
  show ?thesis
  proof (cases "?rows = []")
    case True
    then show ?thesis using mT mS assms(1) by (simp add: rebuild_def Let_def projected_def List.map_filter_def)
  next
    case False
    then have "rebuild k st r = (st\<lparr>st_timeline := ?T @ ?tl, st_scrollback := ?S @ ?sb\<rparr>, Inr ())"
      by (simp only: rebuild_def Let_def read tl sb cT cS if_False sum.case)
    then show ?thesis using mT mS assms(1) by (simp add: projected_def)
  qed
qed

section \<open>Every history of the sink\<close>

inductive sink_step :: "stream_kinds \<Rightarrow> store \<Rightarrow> store \<Rightarrow> bool" for k where
  append: "appendBatch k st runId rt input = (st', result) \<Longrightarrow> (\<And>e. e \<in> set input \<Longrightarrow> well_normalized k e)
    \<Longrightarrow> sink_step k st st'"
| open_epoch: "openEpoch st now runId rt v = (st', epochId, maxSeq) \<Longrightarrow> sink_step k st st'"
| close_epoch: "closeEpoch st now runId rt reason suspicious = st' \<Longrightarrow> sink_step k st st'"
| loss: "insertLossSpan st now runId rt span = st' \<Longrightarrow> sink_step k st st'"
| rebuilt: "rebuild k st runId = (st', result) \<Longrightarrow> sink_step k st st'"

inductive reachable :: "stream_kinds \<Rightarrow> store \<Rightarrow> bool" for k where
  start: "reachable k (empty_store\<lparr>st_runs := runs\<rparr>)"
| step: "reachable k st \<Longrightarrow> sink_step k st st' \<Longrightarrow> reachable k st'"

lemma side_steps [simp]:
  "st_events (insertLossSpan st now r rt s) = st_events st" "projected k (insertLossSpan st now r rt s) = projected k st"
  "st_events (closeEpoch st now r rt c b) = st_events st" "projected k (closeEpoch st now r rt c b) = projected k st"
  by (simp_all add: insertLossSpan_def closeEpoch_def projected_def Let_def)

lemma sink_step_log: "sink_step k st st' \<Longrightarrow> \<exists>new. st_events st' = st_events st @ new"
proof (induction rule: sink_step.induct)
  case (append st runId rt input st' result)
  then show ?case using append_keeps_log[OF append(1)] by (auto simp: insert_rows_def)
qed (auto simp: openEpoch_def rebuild_def Let_def split: if_splits sum.splits)

lemma projected_step:
  assumes "sink_step k st st'" "projected k st" "clean_log k (st_events st')"
  shows "projected k st'"
  using assms
proof (induction rule: sink_step.induct)
  case (append st runId rt input st' result)
  then show ?case using projected_append by blast
next
  case (rebuilt st runId st' result)
  have "st_events st' = st_events st"
    using rebuilt(1) by (auto simp: rebuild_def Let_def split: if_splits sum.splits)
  then show ?case using rebuild_projected[of k st runId] rebuilt by auto
next
  case (open_epoch st now runId rt v st' epochId maxSeq)
  then show ?case by (auto simp: openEpoch_def projected_def Let_def)
qed auto

lemma reachable_projected: "reachable k st \<Longrightarrow> clean_log k (st_events st) \<Longrightarrow> projected k st"
proof (induction rule: reachable.induct)
  case (start runs)
  then show ?case by (simp add: projected_def empty_store_def List.map_filter_def)
next
  case (step st st')
  then show ?case using sink_step_log[OF step(2)] clean_log_prefix projected_step by metis
qed

text \<open>C2: projection equals rebuild, for events appended as they were normalized. After any history of
  appends of such events (none trimmed by the output budget), epochs, losses and rebuilds, and as long
  as each event of the log has its own position in its run (its runtime not restarted under the same
  run), deleting a run's projections and making them again from the log gives exactly the rows ingest
  had written, and touches nothing else.\<close>

theorem projection_equals_rebuild:
  assumes "reachable k st" "clean_log k (st_events st)"
  shows "\<exists>st'. rebuild k st runId = (st', Inr ()) \<and>
    mset (st_timeline st') = mset (st_timeline st) \<and> mset (st_scrollback st') = mset (st_scrollback st) \<and>
    st_events st' = st_events st \<and> st_artifacts st' = st_artifacts st \<and> st_lossSpans st' = st_lossSpans st \<and>
    st_epochs st' = st_epochs st"
proof -
  have st: "projected k st" by (rule reachable_projected[OF assms])
  obtain st' where st': "rebuild k st runId = (st', Inr ())" "st_events st' = st_events st" "projected k st'"
    "st_artifacts st' = st_artifacts st" "st_lossSpans st' = st_lossSpans st" "st_epochs st' = st_epochs st"
    using rebuild_projected[OF st assms(2), of runId] by blast
  then have "mset (st_timeline st') = mset (st_timeline st) \<and> mset (st_scrollback st') = mset (st_scrollback st)"
    using st by (simp add: projected_def)
  with st' show ?thesis by blast
qed

lemma reachable_empty: "reachable k empty_store"
  using reachable.start[of k "[]"] by (simp add: empty_store_def)

lemma reachable_heartbeat: "reachable k (fst (appendBatch k empty_store ''run'' ''rt'' [heartbeat k ''e1'' ''rt'' 1]))"
  by (rule reachable.step[OF reachable_empty], rule sink_step.append[OF surjective_pairing])
    (simp add: heartbeat_well_normalized)

theorem projection_equals_rebuild_witness:
  "let st = fst (appendBatch stream_kinds_example empty_store ''run'' ''rt'' [heartbeat stream_kinds_example ''e1'' ''rt'' 1]) in
   st_timeline st \<noteq> [] \<and> (\<exists>st'. rebuild stream_kinds_example st ''run'' = (st', Inr ()) \<and> mset (st_timeline st') = mset (st_timeline st))"
proof -
  have "clean_log stream_kinds_example (st_events (fst (appendBatch stream_kinds_example empty_store ''run'' ''rt'' [heartbeat stream_kinds_example ''e1'' ''rt'' 1])))"
    by (simp add: append_heartbeat) (simp add: clean_log_def row_of_event heartbeat_well_normalized List.map_filter_def deriveScrollbackRow_def)
  from projection_equals_rebuild[OF reachable_heartbeat this, of "''run''"] show ?thesis
    by (simp add: append_heartbeat) blast
qed

text \<open>The timeline's unique index is (run, sequence), and sequences start again with every runtime:
  a run whose daemon is restarted loses from its timeline every event of the second runtime whose
  sequence the first one used, though the append reports it stored and the log has it.\<close>

lemma second_runtime_missing_from_timeline:
  "let st = fst (appendBatch k empty_store ''run'' ''rt1'' [heartbeat k ''e1'' ''rt1'' 1]);
       (st', result) = appendBatch k st ''run'' ''rt2'' [heartbeat k ''e2'' ''rt2'' 1] in
   result = Inr [heartbeat k ''e2'' ''rt2'' 1] \<and>
   ''e2'' \<in> er_eventId ` set (st_events st') \<and>
   ''e2'' \<notin> te_eventId ` set (getTimeline st' ''run'' None None None)"
  by (simp add: append_heartbeat) 
    (simp add: appendBatch_def splitDuplicateIds_def append_tx_def empty_store_def offload_def content_put_def
      runIdFor_def insert_rows_def update_rows_def List.map_filter_def deriveScrollbackRow_def Let_def
      event_clash_def timeline_clash_def deriveTimelineRow_def getTimeline_def at_least_def at_most_def image_iff)
end
