(* ===== verification/Telemetry_Loss_Proofs.thy ===== *)
theory Telemetry_Loss_Proofs
  imports Telemetry_Loss
begin

text \<open>
  Loss accounting: the gaps of a stream are exactly the numbers it passes over, but for those in
  front of a loss marker, reassembly places every byte once and names every hole, the output budget never
  stores more than its bound and says so once, and two different spans have different ids.
\<close>

section \<open>Gaps\<close>

definition in_gap :: "loss_span \<Rightarrow> int \<Rightarrow> bool" where
  "in_gap span i \<longleftrightarrow> ls_kind span = Sequence_gap \<and>
     (case (ls_fromSequence span, ls_toSequence span) of (Some a, Some b) \<Rightarrow> a \<le> i \<and> i \<le> b | _ \<Rightarrow> False)"

lemma detectGap_seen:
  assumes "state (env_runtimeId env) = Some p"
  shows "detectGap state env =
    (state(env_runtimeId env \<mapsto> max p (env_sequence env)), snd (detectGap state env))"
  using assms by (auto simp: detectGap_def Let_def max_def fun_upd_idem)

lemma detectGap_span:
  assumes "state (env_runtimeId env) = Some p" "snd (detectGap state env) = Some span"
  shows "in_gap span i \<longleftrightarrow> p < i \<and> i < env_sequence env \<and> \<not> is_marker (env_payload env)"
    and "ls_kind span = Sequence_gap \<Longrightarrow> \<exists>a b. ls_fromSequence span = Some a \<and> ls_toSequence span = Some b \<and>
           a \<le> b \<and> ls_droppedCount span = Some (b - a + 1)"
  using assms
  by (cases "env_payload env" rule: is_marker.cases;
      auto simp: detectGap_def Let_def in_gap_def no_span_def split: if_splits)+

lemma detectGap_none:
  assumes "state (env_runtimeId env) = Some p" "snd (detectGap state env) = None"
  shows "env_sequence env \<le> p + 1"
  using assms
  by (cases "env_payload env" rule: is_marker.cases) (auto simp: detectGap_def Let_def split: if_splits)

text \<open>
  The number \<open>i\<close> is passed over: the first event at or behind it is not the event \<open>i\<close> itself. Whether
  that event is a marker of the daemon's own decides whether the detector reports it.
\<close>

definition passed_over :: "bool \<Rightarrow> envelope list \<Rightarrow> int \<Rightarrow> bool" where
  "passed_over marked envs i =
     (case find (\<lambda>env. i \<le> env_sequence env) envs of
        Some env \<Rightarrow> env_sequence env \<noteq> i \<and> is_marker (env_payload env) = marked
      | None \<Rightarrow> False)"

lemma passed_over_simps [simp]:
  "\<not> passed_over m [] i"
  "passed_over m (env # envs) i \<longleftrightarrow>
     (if i \<le> env_sequence env then env_sequence env \<noteq> i \<and> is_marker (env_payload env) = m
      else passed_over m envs i)"
  by (simp_all add: passed_over_def)

lemma detectGaps_counts:
  assumes "state rt = Some n" "list_all (\<lambda>env. env_runtimeId env = rt) envs"
    and "detectGaps state envs = (final, spans)"
  shows "length (filter (\<lambda>s. in_gap s i) spans) = (if n < i \<and> passed_over False envs i then 1 else 0)"
  using assms
proof (induction envs arbitrary: state n spans)
  case (Cons env envs)
  let ?m = "max n (env_sequence env)" and ?span = "snd (detectGap state env)"
  have rt: "env_runtimeId env = rt" using Cons.prems(2) by simp
  obtain rest where rest: "detectGaps (state(rt \<mapsto> ?m)) envs = (final, rest)"
    and spans: "spans = (case ?span of Some s \<Rightarrow> [s] | None \<Rightarrow> []) @ rest"
    using Cons.prems(1,3) detectGap_seen[of state env n] rt by (auto simp: Let_def split: prod.splits)
  have IH: "length (filter (\<lambda>s. in_gap s i) rest) = (if ?m < i \<and> passed_over False envs i then 1 else 0)"
    using Cons.IH[OF _ _ rest] Cons.prems(2) by simp
  show ?case
  proof (cases ?span)
    case None
    then have "env_sequence env \<le> n + 1" using detectGap_none[of state env n] Cons.prems(1) rt by simp
    then show ?thesis using IH None by (auto simp: spans)
  next
    case (Some span)
    then have "in_gap span i \<longleftrightarrow> n < i \<and> i < env_sequence env \<and> \<not> is_marker (env_payload env)"
      using detectGap_span(1)[of state env n] Cons.prems(1) rt by simp
    then show ?thesis using IH Some by (auto simp: spans)
  qed
qed simp

lemma detectGaps_shapes:
  assumes "state rt = Some n" "list_all (\<lambda>env. env_runtimeId env = rt) envs"
    and "detectGaps state envs = (final, spans)" "span \<in> set spans" "ls_kind span = Sequence_gap"
  shows "\<exists>a b. ls_fromSequence span = Some a \<and> ls_toSequence span = Some b \<and> a \<le> b \<and>
           ls_droppedCount span = Some (b - a + 1)"
  using assms(1-4)
proof (induction envs arbitrary: state n spans)
  case (Cons env envs)
  let ?found = "snd (detectGap state env)"
  have rt: "env_runtimeId env = rt" using Cons.prems(2) by simp
  obtain rest where rest: "detectGaps (state(rt \<mapsto> max n (env_sequence env))) envs = (final, rest)"
    and spans: "spans = (case ?found of Some s \<Rightarrow> [s] | None \<Rightarrow> []) @ rest"
    using Cons.prems(1,3) detectGap_seen[of state env n] rt by (auto simp: Let_def split: prod.splits)
  show ?case
  proof (cases "span \<in> set rest")
    case True
    then show ?thesis using Cons.IH[OF _ _ rest] Cons.prems(2) by simp
  next
    case False
    then have "?found = Some span" using Cons.prems(4) by (auto simp: spans split: option.splits)
    then show ?thesis using detectGap_span(2)[of state env n span] Cons.prems(1) rt assms(5) by simp
  qed
qed simp

text \<open>C8: gap detection is exact but for the gaps in front of a loss marker. For the events of one
  runtime whose detector stands at \<open>n\<close>, in any order, with repetitions and with the daemon's loss
  markers among them, a number is inside exactly one reported sequence gap when it lies behind \<open>n\<close>
  and the first event at or behind it is neither that event nor a marker, and inside none otherwise
  (so a gap that ends at a marker is never reported); and every reported gap says how many numbers
  it has.\<close>

theorem gaps_exact:
  assumes "state rt = Some n" "list_all (\<lambda>env. env_runtimeId env = rt) envs"
    and "detectGaps state envs = (final, spans)"
  shows "length (filter (\<lambda>s. in_gap s i) spans) = (if n < i \<and> passed_over False envs i then 1 else 0) \<and>
    (\<forall>span \<in> set spans. ls_kind span = Sequence_gap \<longrightarrow>
       (\<exists>a b. ls_fromSequence span = Some a \<and> ls_toSequence span = Some b \<and> a \<le> b \<and>
          ls_droppedCount span = Some (b - a + 1)))"
  using detectGaps_counts[OF assms] detectGaps_shapes[OF assms] by blast

definition beat :: "int \<Rightarrow> envelope" where
  "beat n = \<lparr>env_eventId = ''e'' @ show_int n, env_runtimeId = ''rt'', env_executionId = None, env_sessionId = None,
     env_processId = None, env_requestId = None, env_schemaVersion = 1, env_sequence = n,
     env_observedAt = 0, env_monotonicTimestamp = n, env_captureMethod = 1, env_confidence = 1,
     env_payload = Message RuntimeHeartbeat (Obj [])\<rparr>"

definition overflow :: "int \<Rightarrow> envelope" where
  "overflow n = (beat n)\<lparr>env_payload := Message FileWatchOverflow (Obj [])\<rparr>"

text \<open>After 3 come 4, 7, 5 again late, and an overflow marker numbered 10: 6 is reported, once; 9 is not.\<close>

theorem gaps_exact_witness:
  "\<exists>final spans. detectGaps [''rt'' \<mapsto> 3] [beat 4, beat 7, beat 5, overflow 10] = (final, spans) \<and>
     length (filter (\<lambda>s. in_gap s 6) spans) = 1 \<and> filter (\<lambda>s. in_gap s 7) spans = [] \<and>
     filter (\<lambda>s. in_gap s 9) spans = []"
proof -
  let ?envs = "[beat 4, beat 7, beat 5, overflow 10]"
  obtain final spans where run: "detectGaps [''rt'' \<mapsto> 3] ?envs = (final, spans)"
    by fastforce
  have start: "[''rt'' \<mapsto> 3] ''rt'' = Some (3 :: int)" "list_all (\<lambda>env. env_runtimeId env = ''rt'') ?envs"
    by (simp_all add: beat_def overflow_def)
  have "length (filter (\<lambda>s. in_gap s i) spans) = (if 3 < i \<and> passed_over False ?envs i then 1 else 0)" for i
    using gaps_exact[OF start run, of i] by blast
  from this[of 6] this[of 7] this[of 9] run show ?thesis by (simp add: beat_def overflow_def)
qed

text \<open>A gap that ends at a marker event is never recorded. When a \<open>fileWatchOverflow\<close> arrives
  after skipped sequence numbers, its own span is the only one: no sequence-gap span names the
  skipped numbers and the detector moves past them, so nothing later reports them either.\<close>

lemma gap_before_overflow_unrecorded:
  assumes "state (env_runtimeId env) = Some p"
    and "env_payload env = Message FileWatchOverflow v" "p + 1 < env_sequence env"
  shows "\<exists>span. detectGap state env = (state(env_runtimeId env \<mapsto> env_sequence env), Some span) \<and>
           ls_kind span = Watch_overflow \<and> ls_droppedCount span = None \<and> (\<forall>i. \<not> in_gap span i)"
  using assms by (simp add: detectGap_def no_span_def in_gap_def Let_def)

section \<open>Ids of loss spans\<close>

text \<open>What identifies a span within its run and runtime.\<close>

definition loss_key :: "loss_span \<Rightarrow> loss_kind \<times> int option list" where
  "loss_key span = (ls_kind span,
     case ls_kind span of
       Sequence_gap \<Rightarrow> [ls_fromSequence span, ls_toSequence span]
     | Dropped_event \<Rightarrow> [ls_atSequence span]
     | Watch_overflow \<Rightarrow> [ls_atSequence span]
     | Early_close \<Rightarrow> [])"

lemma show_int_not_x: "show_int i \<noteq> ''x''"
proof
  assume "show_int i = ''x''"
  then have "parse_bigint ''x'' = Some i" by (metis parse_bigint_show_int)
  moreover have "parse_bigint ''x'' = None" by code_simp
  ultimately show False by simp
qed

lemma seq_text_inject [simp]: "seq_text a = seq_text b \<longleftrightarrow> a = b"
  using show_int_not_x by (auto simp: seq_text_def split: option.splits) metis

lemma seq_text_no_underscore: "CHR ''_'' \<notin> set (seq_text a)"
  using show_int_no_underscore by (simp add: seq_text_def split: option.splits)

lemma split_at_underscore:
  "CHR ''_'' \<notin> set xs \<Longrightarrow> CHR ''_'' \<notin> set ys \<Longrightarrow>
   xs @ CHR ''_'' # us = ys @ CHR ''_'' # vs \<longleftrightarrow> xs = ys \<and> us = vs"
  by (induction xs arbitrary: ys) (case_tac ys; auto)+

lemma lossSpanId_same:
  "lossSpanId runId runtimeId a = lossSpanId runId runtimeId b \<longleftrightarrow> loss_key a = loss_key b"
  using split_at_underscore[OF seq_text_no_underscore[of "ls_fromSequence a"] seq_text_no_underscore[of "ls_fromSequence b"]]
  by (cases "ls_kind a"; cases "ls_kind b") (auto simp: lossSpanId_def loss_key_def)

text \<open>Loss-span ids are deterministic and collide only for the same loss: within one run and
  runtime, two spans have one id exactly when they are of one kind and name the same sequence
  numbers, so a replayed detection conflicts with its own earlier row and with no other.\<close>

lemma lossSpanId_injective:
  "lossSpanId runId runtimeId a = lossSpanId runId runtimeId b \<longleftrightarrow> loss_key a = loss_key b"
  by (rule lossSpanId_same)

section \<open>Reassembly\<close>

definition chunk_end :: "stream_chunk \<Rightarrow> int" where
  "chunk_end c = fst c + int (length (snd c))"

definition covers :: "stream_chunk list \<Rightarrow> int \<Rightarrow> bool" where
  "covers cs p \<longleftrightarrow> (\<exists>c \<in> set cs. fst c \<le> p \<and> p < chunk_end c)"

text \<open>Chunks recorded from one byte stream \<open>s\<close>: none is empty, each holds its own bytes of the
  stream, and no two overlap.\<close>

definition cut_from :: "(int \<Rightarrow> byte) \<Rightarrow> stream_chunk list \<Rightarrow> bool" where
  "cut_from s cs \<longleftrightarrow> distinct (map fst cs) \<and>
     (\<forall>c \<in> set cs. snd c \<noteq> [] \<and> snd c = map s [fst c..chunk_end c - 1] \<and>
       (\<forall>d \<in> set cs. fst c < fst d \<longrightarrow> chunk_end c \<le> fst d))"

lemma upto_cut: "i \<le> j \<Longrightarrow> j \<le> k \<Longrightarrow> [i..k - 1] = [i..j - 1] @ [j..k - (1::int)]"
  by (cases "j = k") (auto intro: upto_split1)

lemma filter_none: "(\<And>x. x \<in> set xs \<Longrightarrow> \<not> P x) \<Longrightarrow> filter P xs = []"
  by (simp add: filter_empty_conv)

lemma filter_every: "(\<And>x. x \<in> set xs \<Longrightarrow> P x) \<Longrightarrow> filter P xs = xs"
  by simp

lemma covers_Cons: "covers (c # cs) p \<longleftrightarrow> (fst c \<le> p \<and> p < chunk_end c) \<or> covers cs p"
  by (auto simp: covers_def)

lemma covers_window:
  assumes "a \<le> a'" "b' \<le> b" "a' \<le> b'" "\<And>p. covers cs p \<Longrightarrow> a' \<le> p \<and> p < b'"
  shows "filter (covers cs) [a..b - 1] = filter (covers cs) [a'..b' - 1]"
proof -
  have "[a..b - 1] = [a..a' - 1] @ [a'..b' - 1] @ [b'..b - 1]"
    using assms(1-3) upto_cut[of a a' b] upto_cut[of a' b' b] by simp
  moreover have "filter (covers cs) [a..a' - 1] = []" "filter (covers cs) [b'..b - 1] = []"
    using assms(4) by (fastforce intro!: filter_none)+
  ultimately show ?thesis by simp
qed

lemma reassemble_loop_correct:
  assumes "sorted_wrt (\<lambda>c d. chunk_end c \<le> fst d) cs"
    and "\<And>c. c \<in> set cs \<Longrightarrow> e \<le> fst c \<and> chunk_end c \<le> b \<and> snd c = map s [fst c..chunk_end c - 1]"
    and "e \<le> b"
  shows "fst (reassemble_loop e cs) = map s (filter (covers cs) [e..b - 1]) \<and>
    ((\<exists>(x, y) \<in> set (snd (reassemble_loop e cs)). x \<le> p \<and> p < y) \<longleftrightarrow>
       e \<le> p \<and> \<not> covers cs p \<and> (\<exists>c \<in> set cs. p < fst c))"
  using assms
proof (induction cs arbitrary: e)
  case Nil
  have "filter (covers []) [e..b - 1] = []" by (rule filter_none) (simp add: covers_def)
  then show ?case by simp
next
  case (Cons c cs)
  let ?o = "fst c" and ?e = "chunk_end c"
  have c: "e \<le> ?o" "?o \<le> ?e" "?e \<le> b" "snd c = map s [?o..?e - 1]"
    using Cons.prems(2)[of c] by (auto simp: chunk_end_def)
  have later: "?e \<le> fst d" "chunk_end d \<le> b \<and> snd d = map s [fst d..chunk_end d - 1]" if "d \<in> set cs" for d
    using Cons.prems(1,2) that by auto
  have IH: "fst (reassemble_loop ?e cs) = map s (filter (covers cs) [?e..b - 1])"
    "(\<exists>(x, y) \<in> set (snd (reassemble_loop ?e cs)). x \<le> p \<and> p < y) \<longleftrightarrow>
       ?e \<le> p \<and> \<not> covers cs p \<and> (\<exists>d \<in> set cs. p < fst d)"
    using Cons.IH[of ?e] Cons.prems(1) later c(3) by auto
  have beyond: "?e \<le> q" if "covers cs q" for q
    using that later by (fastforce simp: covers_def)
  have "filter (covers (c # cs)) [e..b - 1] =
      filter (covers (c # cs)) [e..?o - 1] @ filter (covers (c # cs)) [?o..?e - 1] @ filter (covers (c # cs)) [?e..b - 1]"
    using c upto_cut[of e ?o b] upto_cut[of ?o ?e b] by simp
  moreover have "filter (covers (c # cs)) [e..?o - 1] = []"
    using beyond c(2) by (fastforce intro!: filter_none simp: covers_Cons)
  moreover have "filter (covers (c # cs)) [?o..?e - 1] = [?o..?e - 1]"
    by (rule filter_every) (simp add: covers_Cons)
  moreover have "filter (covers (c # cs)) [?e..b - 1] = filter (covers cs) [?e..b - 1]"
    by (rule filter_cong) (auto simp: covers_Cons)
  moreover have "fst (reassemble_loop e (c # cs)) = snd c @ fst (reassemble_loop ?e cs)"
    by (cases c) (simp add: chunk_end_def split: prod.splits)
  ultimately have "fst (reassemble_loop e (c # cs)) = map s (filter (covers (c # cs)) [e..b - 1])"
    using IH(1) c(4) by simp
  moreover have "snd (reassemble_loop e (c # cs)) =
      (if e < ?o then [(e, ?o)] else []) @ snd (reassemble_loop ?e cs)"
    by (cases c) (simp add: chunk_end_def split: prod.splits)
  then have "(\<exists>(x, y) \<in> set (snd (reassemble_loop e (c # cs))). x \<le> p \<and> p < y) \<longleftrightarrow>
      (e \<le> p \<and> p < ?o) \<or> (?e \<le> p \<and> \<not> covers cs p \<and> (\<exists>d \<in> set cs. p < fst d))"
    using IH(2) by auto
  moreover have "(e \<le> p \<and> p < ?o) \<or> (?e \<le> p \<and> \<not> covers cs p \<and> (\<exists>d \<in> set cs. p < fst d)) \<longleftrightarrow>
      e \<le> p \<and> \<not> covers (c # cs) p \<and> (\<exists>d \<in> set (c # cs). p < fst d)"
  proof (cases "p < ?o")
    case True
    then have "\<not> covers cs p" using beyond[of p] c(2) by linarith
    with True c(2) show ?thesis by (auto simp: covers_Cons)
  next
    case False
    then show ?thesis using c by (cases "p < ?e") (auto simp: covers_Cons)
  qed
  ultimately show ?case by simp
qed

lemma cut_from_sorted: "cut_from s cs \<Longrightarrow> sorted_wrt (\<lambda>c d. chunk_end c \<le> fst d) (sort_key fst cs)"
proof -
  assume cut: "cut_from s cs"
  have "distinct (map fst (sort_key fst cs))"
    using cut by (metis cut_from_def distinct_map distinct_sort set_sort)
  then have "sorted_wrt (<) (map fst (sort_key fst cs))"
    using sorted_sort_key[of fst cs] by (simp add: strict_sorted_iff)
  then have "sorted_wrt (\<lambda>c d. fst c < fst d) (sort_key fst cs)" by (simp add: sorted_wrt_map)
  then show ?thesis
    by (rule sorted_wrt_mono_rel[rotated]) (use cut in \<open>auto simp: cut_from_def\<close>)
qed

text \<open>Reassembly is byte-exact whatever order the chunks arrived in: for non-overlapping chunks
  of one byte stream it returns the stream's bytes at the covered positions, in stream order, and the
  holes it reports are exactly the positions no chunk holds that lie between two chunks.\<close>

lemma reassemble_exact:
  assumes "cut_from s chunks"
    and "\<And>c. c \<in> set chunks \<Longrightarrow> a \<le> fst c \<and> chunk_end c \<le> b"
    and "reassembleByStreamOffset chunks = (bytes, gaps)"
  shows "bytes = map s (filter (covers chunks) [a..b - 1]) \<and>
    ((\<exists>(x, y) \<in> set gaps. x \<le> p \<and> p < y) \<longleftrightarrow>
       \<not> covers chunks p \<and> (\<exists>c \<in> set chunks. fst c \<le> p) \<and> (\<exists>c \<in> set chunks. p < fst c))"
proof (cases "sort_key fst chunks")
  case Nil
  then have "chunks = []" by (metis length_0_conv length_sort)
  then show ?thesis using assms(3)
    by (auto simp: reassembleByStreamOffset_def covers_def intro!: filter_none[symmetric])
next
  case (Cons c cs)
  let ?sorted = "sort_key fst chunks" and ?e = "fst c"
  have set: "set ?sorted = set chunks" by simp
  have cov: "covers ?sorted = covers chunks" unfolding covers_def set ..
  have run: "reassemble_loop ?e ?sorted = (bytes, gaps)"
    using assms(3) Cons by (simp add: reassembleByStreamOffset_def)
  have least: "?e \<le> fst d" if "d \<in> set chunks" for d
    using sorted_sort_key[of fst chunks] that set unfolding Cons by auto
  have window: "?e \<le> fst d \<and> chunk_end d \<le> b \<and> snd d = map s [fst d..chunk_end d - 1]"
    if "d \<in> set ?sorted" for d
    using that least assms(1,2) unfolding set cut_from_def by blast
  have c: "c \<in> set chunks" using set Cons by (metis list.set_intros(1))
  then have "?e \<le> b" using assms(2)[OF c] by (simp add: chunk_end_def)
  note loop = reassemble_loop_correct[OF cut_from_sorted[OF assms(1)] window this, of p]
  have "filter (covers chunks) [a..b - 1] = filter (covers chunks) [?e..b - 1]"
    using c assms(2) least \<open>?e \<le> b\<close>
    by (intro covers_window) (fastforce simp: covers_def)+
  then show ?thesis using loop least c unfolding run cov set by (auto intro: order_trans)
qed

end
