(* ===== verification/Telemetry_Budget_Proofs.thy ===== *)
theory Telemetry_Budget_Proofs
  imports Telemetry_Loss_Proofs
begin

text \<open>
  The per-connection output budget (\<open>packages/telemetry/src/output-budget.ts\<close>): it never stores
  more than its bound and says so once; and a rebuilt projection undoes the mark it leaves.
\<close>

section \<open>The output budget\<close>

definition stored_bytes :: "norm_event \<Rightarrow> int" where
  "stored_bytes event = (case ne_content event of Some c \<Rightarrow> content_size c | None \<Rightarrow> 0)"

definition stored_size :: "norm_event list \<Rightarrow> int" where
  "stored_size events = sum_list (map stored_bytes events)"

definition has_content :: "norm_event \<Rightarrow> bool" where
  "has_content event \<longleftrightarrow> ne_content event \<noteq> None"

text \<open>An event without what the budget may take from it.\<close>

definition metadata :: "norm_event \<Rightarrow> norm_event" where
  "metadata event = event\<lparr>ne_content := None, ne_scrollback :=
     map_option (\<lambda>s. s\<lparr>ns_contentAlgo := None, ns_contentHash := None\<rparr>) (ne_scrollback event)\<rparr>"

lemma budget_step_cases:
  assumes "budget_step maxBytes state event = (state', kept, span)"
  obtains (stored) "kept = event" "span = None"
      "ob_storedBytes state' = ob_storedBytes state + stored_bytes event"
      "ob_reported state' = ob_reported state" "ob_storedBytes state \<le> maxBytes \<Longrightarrow> ob_storedBytes state' \<le> maxBytes"
  | (dropped) "has_content event" "kept = drop_content event" "span \<noteq> None \<longleftrightarrow> \<not> ob_reported state"
      "ob_storedBytes state' = ob_storedBytes state" "ob_reported state'"
  using assms
  by (cases "ne_content event")
    (auto simp: budget_step_def stored_bytes_def has_content_def Let_def split: if_splits)

lemma stored_size_simps [simp]:
  "stored_size [] = 0"
  "stored_size (e # es) = stored_bytes e + stored_size es"
  "stored_bytes (drop_content e) = 0"
  by (auto simp: stored_size_def stored_bytes_def drop_content_def)

lemma drop_content_simps [simp]:
  "\<not> has_content (drop_content e)" "metadata (drop_content e) = metadata e"
  by (auto simp: has_content_def drop_content_def metadata_def option.map_comp comp_def)

lemma budget_loop_correct:
  assumes "budget_loop maxBytes state events = (state', kept, span)"
  shows "map metadata kept = map metadata events \<and>
    ob_storedBytes state' = ob_storedBytes state + stored_size kept \<and>
    (ob_storedBytes state \<le> maxBytes \<longrightarrow> ob_storedBytes state' \<le> maxBytes) \<and>
    (ob_reported state' \<longleftrightarrow> ob_reported state \<or> map has_content kept \<noteq> map has_content events) \<and>
    (span \<noteq> None \<longleftrightarrow> \<not> ob_reported state \<and> map has_content kept \<noteq> map has_content events)"
  using assms
proof (induction events arbitrary: state state' kept span)
  case Nil
  then show ?case by simp
next
  case (Cons event events)
  obtain mid one first rest later where step: "budget_step maxBytes state event = (mid, one, first)"
    and loop: "budget_loop maxBytes mid events = (state', rest, later)"
    and result: "kept = one # rest" "span = (case later of Some s \<Rightarrow> Some s | None \<Rightarrow> first)"
    using Cons.prems by (auto simp: Let_def split: prod.splits)
  note IH = Cons.IH[OF loop]
  show ?case
  proof (cases rule: budget_step_cases[OF step])
    case 1
    then show ?thesis using IH result by (cases later) auto
  next
    case 2
    then show ?thesis using IH result by (cases later) auto
  qed
qed

text \<open>The output budget holds and is honest. A connection never stores more than its budget and
  counts exactly the bytes it stores; every event keeps its row whatever happens to its bytes; and
  the record says bytes are missing exactly once, at the first batch that lost some.\<close>

lemma output_budget_exact:
  assumes "applyOutputBudget state batch maxBytes = (state', kept, span)" "0 < maxBytes"
    and "ob_storedBytes state \<le> maxBytes"
  shows "ob_storedBytes state' \<le> maxBytes \<and>
    ob_storedBytes state' = ob_storedBytes state + stored_size kept \<and>
    map metadata kept = map metadata batch \<and>
    (span \<noteq> None \<longleftrightarrow> \<not> ob_reported state \<and> map has_content kept \<noteq> map has_content batch) \<and>
    (ob_reported state' \<longleftrightarrow> ob_reported state \<or> map has_content kept \<noteq> map has_content batch)"
  using assms budget_loop_correct[of maxBytes state batch state' kept span]
  by (auto simp: applyOutputBudget_def)

definition chunk_envelope :: "int \<Rightarrow> byte list \<Rightarrow> envelope" where
  "chunk_envelope n bytes =
     (beat n)\<lparr>env_payload := IoChunk \<lparr>io_stream = 2, io_byteCount = int (length bytes), io_streamOffset = 0,
        io_content = Some bytes, io_artifact = None, io_transform = None\<rparr>\<rparr>"

definition normalized :: "envelope \<Rightarrow> norm_event" where
  "normalized env = projr (normalizeEnvelope stream_kinds_example digest_example env)"

lemma normalized_simps:
  "normalizeEnvelope stream_kinds_example digest_example env = Inr (normalized env)"
  using normalizeEnvelope_total[of stream_kinds_example digest_example env]
  by (auto simp: normalized_def)

lemma normalized_chunk:
  "ne_content (normalized (chunk_envelope n bytes)) =
     Some \<lparr>nc_algo = ''sha256'', nc_hash = ''digest'', nc_byteSize = int (length bytes), nc_bytes = bytes\<rparr>"
  by (simp add: normalized_def normalizeEnvelope_def chunk_envelope_def beat_def env_content_def
      buildPayload_def deriveScrollback_chunk Let_def)

text \<open>A rebuild undoes the budget's mark. A chunk whose bytes were not stored has an ingested
  scrollback row that names no content, so a reader skips it as a hole; the row rebuilt from its log
  row names the content again (the payload keeps the hash), and its artifact was never stored.\<close>

lemma budgeted_chunk_rebuilds_differently:
  assumes "normalizeEnvelope k sha256 env = Inr event" "env_payload env = IoChunk io"
    and "io_content io = Some content" "0 < maxBytes" "maxBytes < ob_storedBytes state + int (length content)"
  shows "\<exists>state' kept span rebuilt ingested_row rebuilt_row.
    applyOutputBudget state [event] maxBytes = (state', [kept], span) \<and> ne_content kept = None \<and>
    deriveScrollbackRow kept runId = Some ingested_row \<and> sb_contentHash ingested_row = None \<and>
    eventRowToNormalized k (eventRow kept runId) = Inr rebuilt \<and>
    deriveScrollbackRow rebuilt runId = Some rebuilt_row \<and> sb_contentHash rebuilt_row = Some (sha256 content)"
proof -
  have event: "ne_payloadCase event = IoChunkCase" "ne_payload event = chunk_payload sha256 io"
    "ne_scrollback event = Some (chunk_scrollback sha256 (env_processId env) (env_sessionId env) io)"
    "ne_content event = Some \<lparr>nc_algo = ''sha256'', nc_hash = sha256 content, nc_byteSize = io_byteCount io, nc_bytes = content\<rparr>"
    "ne_processId event = env_processId env" "ne_sessionId event = env_sessionId env"
    using assms(1-3) by (auto simp: normalizeEnvelope_def buildPayload_def env_content_def deriveScrollback_chunk Let_def)
  then have kept: "budget_step maxBytes state event = (state\<lparr>ob_reported := True\<rparr>, drop_content event,
      snd (snd (budget_step maxBytes state event)))"
    using assms(5) by (simp add: budget_step_def content_size_def Let_def)
  have rebuilt: "eventRowToNormalized k (eventRow (drop_content event) runId) = Inr (readable event)"
    using event assms(1) normalizeEnvelope_well_normalized[OF assms(1)]
    by (subst readback_payload[where s = "ne_scrollback event"])
      (auto simp: drop_content_def well_normalized_def readable_def)
  show ?thesis
    using assms(3,4) kept rebuilt event
    by (auto simp: applyOutputBudget_def Let_def drop_content_def deriveScrollbackRow_def readable_def
        chunk_scrollback_def chunk_digest_def split: prod.splits)
qed

end
