(* ===== verification/Telemetry_Retention.thy ===== *)
theory Telemetry_Retention
  imports Telemetry_Sink
begin

text \<open>
  Run-record retention (\<open>packages/telemetry/src/retention.ts\<close>). Its two loops end only because a
  chunk deletes rows, so they are partial functions: \<^const>\<open>None\<close> is a call that never returns.
  Which rows of a run a \<open>LIMIT\<close> picks is the database's choice; the model takes the first ones.
\<close>

datatype record_table = Timeline | Scrollback | Artifacts | Loss_spans | Events | Run_epochs

definition RECORD_TABLES :: "record_table list" where
  "RECORD_TABLES = [Timeline, Scrollback, Artifacts, Loss_spans, Events, Run_epochs]"

text \<open>The rows left when at most \<open>n\<close> of those with \<open>p\<close> are deleted.\<close>

fun delete_first :: "('r \<Rightarrow> bool) \<Rightarrow> nat \<Rightarrow> 'r list \<Rightarrow> 'r list" where
  "delete_first p n [] = []"
| "delete_first p n (r # rs) =
     (if p r \<and> n > 0 then delete_first p (n - 1) rs else r # delete_first p n rs)"

definition table_size :: "record_table \<Rightarrow> string \<Rightarrow> store \<Rightarrow> nat" where
  "table_size t r st =
     (case t of
        Timeline \<Rightarrow> length (filter (\<lambda>x. tl_runId x = r) (st_timeline st))
      | Scrollback \<Rightarrow> length (filter (\<lambda>x. sb_runId x = r) (st_scrollback st))
      | Artifacts \<Rightarrow> length (filter (\<lambda>x. ar_runId x = r) (st_artifacts st))
      | Loss_spans \<Rightarrow> length (filter (\<lambda>x. lr_runId x = r) (st_lossSpans st))
      | Events \<Rightarrow> length (filter (\<lambda>x. er_runId x = r) (st_events st))
      | Run_epochs \<Rightarrow> length (filter (\<lambda>x. ep_runId x = r) (st_epochs st)))"

text \<open>One statement: delete at most \<open>limit\<close> of the run's rows and count them.\<close>

definition delete_rows :: "record_table \<Rightarrow> string \<Rightarrow> nat \<Rightarrow> store \<Rightarrow> store \<times> nat" where
  "delete_rows t r limit st =
     (case t of
        Timeline \<Rightarrow> st\<lparr>st_timeline := delete_first (\<lambda>x. tl_runId x = r) limit (st_timeline st)\<rparr>
      | Scrollback \<Rightarrow> st\<lparr>st_scrollback := delete_first (\<lambda>x. sb_runId x = r) limit (st_scrollback st)\<rparr>
      | Artifacts \<Rightarrow> st\<lparr>st_artifacts := delete_first (\<lambda>x. ar_runId x = r) limit (st_artifacts st)\<rparr>
      | Loss_spans \<Rightarrow> st\<lparr>st_lossSpans := delete_first (\<lambda>x. lr_runId x = r) limit (st_lossSpans st)\<rparr>
      | Events \<Rightarrow> st\<lparr>st_events := delete_first (\<lambda>x. er_runId x = r) limit (st_events st)\<rparr>
      | Run_epochs \<Rightarrow> st\<lparr>st_epochs := delete_first (\<lambda>x. ep_runId x = r) limit (st_epochs st)\<rparr>,
      min limit (table_size t r st))"

text \<open>The inner loop, for one table; its flag is \<open>finished\<close>.\<close>

partial_function (option) empty_table ::
  "nat \<Rightarrow> nat \<Rightarrow> record_table \<Rightarrow> string \<Rightarrow> store \<Rightarrow> nat \<Rightarrow> (store \<times> nat \<times> bool) option"
where
  "empty_table chunkRows maxRows t r st deletedRows =
     (if deletedRows \<ge> maxRows then Some (st, deletedRows, False)
      else
        let limit = min chunkRows (maxRows - deletedRows); d = delete_rows t r limit st in
        if snd d < limit then Some (fst d, deletedRows + snd d, True)
        else empty_table chunkRows maxRows t r (fst d) (deletedRows + snd d))"

fun empty_tables ::
  "nat \<Rightarrow> nat \<Rightarrow> record_table list \<Rightarrow> string \<Rightarrow> store \<Rightarrow> nat \<Rightarrow> (store \<times> nat \<times> bool) option"
where
  "empty_tables chunkRows maxRows [] r st deletedRows = Some (st, deletedRows, True)"
| "empty_tables chunkRows maxRows (t # ts) r st deletedRows =
     (case empty_table chunkRows maxRows t r st deletedRows of
        None \<Rightarrow> None
      | Some (st', deleted, finished) \<Rightarrow>
          if \<not> finished then Some (st', deleted, False)
          else empty_tables chunkRows maxRows ts r st' deleted)"

definition is_expired :: "int \<Rightarrow> run_row \<Rightarrow> bool" where
  "is_expired finishedBefore run \<longleftrightarrow>
     (case run_finishedAt run of None \<Rightarrow> False | Some t \<Rightarrow> t < finishedBefore) \<and>
     run_recordDeletedAt run = None"

definition next_expired :: "int \<Rightarrow> store \<Rightarrow> run_row option" where
  "next_expired finishedBefore st =
     (case sort_key (\<lambda>run. the (run_finishedAt run)) (filter (is_expired finishedBefore) (st_runs st)) of
        [] \<Rightarrow> None | run # _ \<Rightarrow> Some run)"

definition mark_deleted :: "int \<Rightarrow> string \<Rightarrow> store \<Rightarrow> store" where
  "mark_deleted now r st =
     st\<lparr>st_runs := update_rows (\<lambda>run. run_id run = r) (\<lambda>run. run\<lparr>run_recordDeletedAt := Some now\<rparr>) (st_runs st)\<rparr>"

partial_function (option) expire_runs ::
  "nat \<Rightarrow> nat \<Rightarrow> int \<Rightarrow> int \<Rightarrow> store \<Rightarrow> nat \<Rightarrow> nat \<Rightarrow> (store \<times> nat \<times> nat) option"
where
  "expire_runs chunkRows maxRows finishedBefore now st deletedRuns deletedRows =
     (if \<not> deletedRows < maxRows then Some (st, deletedRuns, deletedRows)
      else case next_expired finishedBefore st of
        None \<Rightarrow> Some (st, deletedRuns, deletedRows)
      | Some run \<Rightarrow>
          (case empty_tables chunkRows maxRows RECORD_TABLES (run_id run) st deletedRows of
             None \<Rightarrow> None
           | Some (st', deleted, finished) \<Rightarrow>
               if \<not> finished then Some (st', deletedRuns, deleted)
               else expire_runs chunkRows maxRows finishedBefore now (mark_deleted now (run_id run) st')
                      (deletedRuns + 1) deleted))"

definition deleteExpiredRunRecords ::
  "nat option \<Rightarrow> nat option \<Rightarrow> int \<Rightarrow> int \<Rightarrow> store \<Rightarrow> (store \<times> nat \<times> nat) option"
where
  "deleteExpiredRunRecords chunkRows maxRows finishedBefore now st =
     expire_runs (case chunkRows of Some n \<Rightarrow> n | None \<Rightarrow> 5000)
       (case maxRows of Some n \<Rightarrow> n | None \<Rightarrow> 500000) finishedBefore now st 0 0"

section \<open>One table\<close>

definition record_size :: "string \<Rightarrow> store \<Rightarrow> nat" where
  "record_size r st = sum_list (map (\<lambda>t. table_size t r st) RECORD_TABLES)"

text \<open>What retention may not touch: the rows of every run not in \<open>rs\<close>, in order.\<close>

definition rows_outside :: "string set \<Rightarrow> store \<Rightarrow> store" where
  "rows_outside rs st = st\<lparr>
     st_timeline := filter (\<lambda>x. tl_runId x \<notin> rs) (st_timeline st),
     st_scrollback := filter (\<lambda>x. sb_runId x \<notin> rs) (st_scrollback st),
     st_artifacts := filter (\<lambda>x. ar_runId x \<notin> rs) (st_artifacts st),
     st_lossSpans := filter (\<lambda>x. lr_runId x \<notin> rs) (st_lossSpans st),
     st_events := filter (\<lambda>x. er_runId x \<notin> rs) (st_events st),
     st_epochs := filter (\<lambda>x. ep_runId x \<notin> rs) (st_epochs st),
     st_runs := []\<rparr>"

lemma delete_first_count:
  "length (filter p (delete_first p n xs)) = length (filter p xs) - n"
  by (induction p n xs rule: delete_first.induct) (auto simp: Suc_diff_le)

lemma delete_first_other:
  "(\<And>x. q x \<Longrightarrow> \<not> p x) \<Longrightarrow> filter q (delete_first p n xs) = filter q xs"
  by (induction p n xs rule: delete_first.induct) auto

lemma delete_rows_simps [simp]:
  "table_size t r (fst (delete_rows t r n st)) = table_size t r st - n"
  "snd (delete_rows t r n st) = min n (table_size t r st)"
  "st_runs (fst (delete_rows t r n st)) = st_runs st"
  by (cases t; simp add: delete_rows_def table_size_def delete_first_count)+

lemma delete_rows_other [simp]:
  "t' \<noteq> t \<or> r' \<noteq> r \<Longrightarrow> table_size t' r' (fst (delete_rows t r n st)) = table_size t' r' st"
  by (cases t; cases t') (auto simp: delete_rows_def table_size_def delete_first_other)

lemma delete_first_outside:
  "r \<in> rs \<Longrightarrow> filter (\<lambda>x. f x \<notin> rs) (delete_first (\<lambda>x. f x = r) n xs) = filter (\<lambda>x. f x \<notin> rs) xs"
  by (rule delete_first_other) auto

lemma delete_rows_outside [simp]:
  "r \<in> rs \<Longrightarrow> rows_outside rs (fst (delete_rows t r n st)) = rows_outside rs st"
  by (cases t) (simp_all add: delete_rows_def rows_outside_def delete_first_outside)


text \<open>\<open>n\<close> rows of the run are gone, and nothing else has changed.\<close>

definition shrunk :: "string \<Rightarrow> nat \<Rightarrow> store \<Rightarrow> store \<Rightarrow> bool" where
  "shrunk r n st st' \<longleftrightarrow>
     st_runs st' = st_runs st \<and> (\<forall>rs. r \<in> rs \<longrightarrow> rows_outside rs st' = rows_outside rs st) \<and>
     (\<forall>t. table_size t r st' \<le> table_size t r st) \<and> record_size r st = record_size r st' + n"

lemma record_size_simp:
  "record_size r st = table_size Timeline r st + table_size Scrollback r st + table_size Artifacts r st +
     table_size Loss_spans r st + table_size Events r st + table_size Run_epochs r st"
  by (simp add: record_size_def RECORD_TABLES_def)

lemma shrunk_refl: "shrunk r 0 st st"
  by (simp add: shrunk_def)

lemma shrunk_trans: "shrunk r n st st' \<Longrightarrow> shrunk r m st' st'' \<Longrightarrow> shrunk r (n + m) st st''"
  by (auto simp: shrunk_def intro: le_trans)

lemma shrunk_delete: "shrunk r (snd (delete_rows t r n st)) st (fst (delete_rows t r n st))"
proof -
  have "table_size t' r (fst (delete_rows t r n st)) \<le> table_size t' r st" for t'
    by (cases "t' = t") auto
  moreover have "record_size r st = record_size r (fst (delete_rows t r n st)) + min n (table_size t r st)"
    by (cases t) (simp_all add: record_size_simp)
  ultimately show ?thesis by (simp add: shrunk_def)
qed

lemma empty_table_result:
  assumes "0 < chunkRows" "deleted \<le> maxRows"
  shows "\<exists>st' n finished. empty_table chunkRows maxRows t r st deleted = Some (st', deleted + n, finished) \<and>
    shrunk r n st st' \<and> deleted + n \<le> maxRows \<and>
    (if finished then table_size t r st' = 0 else deleted + n = maxRows)"
  using assms(2)
proof (induction "maxRows - deleted" arbitrary: st deleted rule: less_induct)
  case less
  let ?limit = "min chunkRows (maxRows - deleted)"
  let ?d = "delete_rows t r ?limit st"
  show ?case
  proof (cases "deleted \<ge> maxRows")
    case True
    then show ?thesis using less.prems shrunk_refl
      by (intro exI[of _ st] exI[of _ 0] exI[of _ False]) (simp add: empty_table.simps)
  next
    case running: False
    show ?thesis
    proof (cases "snd ?d < ?limit")
      case True
      then have "empty_table chunkRows maxRows t r st deleted = Some (fst ?d, deleted + snd ?d, True)"
        using running by (subst empty_table.simps) (simp add: Let_def)
      moreover have "table_size t r (fst ?d) = 0" using True by auto
      ultimately show ?thesis using shrunk_delete[of r t ?limit st] True by fastforce
    next
      case False
      then have full: "snd ?d = ?limit" by (metis delete_rows_simps(2) le_neq_implies_less min.cobounded1)
      have call: "empty_table chunkRows maxRows t r st deleted =
          empty_table chunkRows maxRows t r (fst ?d) (deleted + ?limit)"
        using running False full by (subst empty_table.simps) (simp only: Let_def if_False)
      have "maxRows - (deleted + ?limit) < maxRows - deleted" "deleted + ?limit \<le> maxRows"
        using assms(1) running by auto
      from less.hyps[OF this] obtain st' n finished where rest:
        "empty_table chunkRows maxRows t r (fst ?d) (deleted + ?limit) = Some (st', deleted + ?limit + n, finished)"
        "shrunk r n (fst ?d) st'" "deleted + ?limit + n \<le> maxRows"
        "if finished then table_size t r st' = 0 else deleted + ?limit + n = maxRows"
        by blast
      have "shrunk r (?limit + n) st st'"
        using shrunk_trans[OF shrunk_delete rest(2)] full by simp
      then show ?thesis using rest call by (intro exI[of _ st'] exI[of _ "?limit + n"]) (auto simp: add.assoc)
    qed
  qed
qed

lemma empty_tables_result:
  assumes "0 < chunkRows" "deleted \<le> maxRows"
  shows "\<exists>st' n finished. empty_tables chunkRows maxRows ts r st deleted = Some (st', deleted + n, finished) \<and>
    shrunk r n st st' \<and> deleted + n \<le> maxRows \<and>
    (if finished then \<forall>t \<in> set ts. table_size t r st' = 0 else deleted + n = maxRows)"
  using assms(2)
proof (induction ts arbitrary: st deleted)
  case Nil
  then show ?case using shrunk_refl by (auto intro!: exI[of _ "0::nat"])
next
  case (Cons t ts)
  obtain st1 n finished where one: "empty_table chunkRows maxRows t r st deleted = Some (st1, deleted + n, finished)"
    "shrunk r n st st1" "deleted + n \<le> maxRows" "if finished then table_size t r st1 = 0 else deleted + n = maxRows"
    using empty_table_result[OF assms(1) Cons.prems] by blast
  show ?case
  proof (cases finished)
    case False
    then show ?thesis using one by auto
  next
    case True
    obtain st' m finished' where rest:
      "empty_tables chunkRows maxRows ts r st1 (deleted + n) = Some (st', deleted + n + m, finished')"
      "shrunk r m st1 st'" "deleted + n + m \<le> maxRows"
      "if finished' then \<forall>t \<in> set ts. table_size t r st' = 0 else deleted + n + m = maxRows"
      using Cons.IH[OF one(3)] by blast
    have "table_size t r st' = 0" using rest(2) one(4) True by (auto simp: shrunk_def) (metis le_zero_eq)
    then show ?thesis
      using one rest True shrunk_trans[OF one(2) rest(2)]
      by (intro exI[of _ st'] exI[of _ "n + m"] exI[of _ finished']) (auto simp: add.assoc)
  qed
qed


section \<open>The runs\<close>

definition expired_ids :: "int \<Rightarrow> store \<Rightarrow> string set" where
  "expired_ids finishedBefore st = run_id ` set (filter (is_expired finishedBefore) (st_runs st))"

lemma next_expired_None: "next_expired b st = None \<longleftrightarrow> expired_ids b st = {}"
proof -
  have "next_expired b st = None \<longleftrightarrow> set (sort_key (\<lambda>run. the (run_finishedAt run)) (filter (is_expired b) (st_runs st))) = {}"
    unfolding next_expired_def set_empty by (auto split: list.splits)
  then show ?thesis by (simp add: expired_ids_def)
qed

lemma next_expired_Some:
  assumes "next_expired b st = Some run"
  shows "run \<in> set (st_runs st)" "is_expired b run" "run_id run \<in> expired_ids b st"
proof -
  obtain rest where sorted: "sort_key (\<lambda>run. the (run_finishedAt run)) (filter (is_expired b) (st_runs st)) = run # rest"
    using assms by (auto simp: next_expired_def split: list.splits)
  have "run \<in> set (sort_key (\<lambda>run. the (run_finishedAt run)) (filter (is_expired b) (st_runs st)))"
    unfolding sorted by simp
  then show "run \<in> set (st_runs st)" "is_expired b run" "run_id run \<in> expired_ids b st"
    by (auto simp: expired_ids_def)
qed

lemma expired_marked_runs:
  "filter (is_expired b) (st_runs (mark_deleted now r st)) = filter (\<lambda>x. run_id x \<noteq> r) (filter (is_expired b) (st_runs st))"
proof -
  have "filter (is_expired b) (map (\<lambda>x. if run_id x = r then x\<lparr>run_recordDeletedAt := Some now\<rparr> else x) xs) =
      filter (\<lambda>x. run_id x \<noteq> r) (filter (is_expired b) xs)" for xs
    by (induction xs) (auto simp: is_expired_def)
  then show ?thesis by (simp add: mark_deleted_def update_rows_def)
qed

lemma expired_mark [simp]: "expired_ids b (mark_deleted now r st) = expired_ids b st - {r}"
  unfolding expired_ids_def expired_marked_runs by auto

lemma expired_marked_fewer:
  assumes "run \<in> set (st_runs st)" "is_expired b run"
  shows "length (filter (is_expired b) (st_runs (mark_deleted now (run_id run) st))) <
    length (filter (is_expired b) (st_runs st))"
  unfolding expired_marked_runs using assms by (intro length_filter_less[of run]) auto

lemma mark_deleted_simps [simp]:
  "table_size t r (mark_deleted now r' st) = table_size t r st"
  "record_size r (mark_deleted now r' st) = record_size r st"
  "rows_outside rs (mark_deleted now r' st) = rows_outside rs st"
  by (auto simp: mark_deleted_def table_size_def record_size_def rows_outside_def RECORD_TABLES_def split: record_table.splits)

lemma table_size_outside:
  assumes "rows_outside rs a = rows_outside rs b" "r \<notin> rs"
  shows "record_size r a = record_size r b"
proof -
  have "filter (\<lambda>x. f x = r) (filter (\<lambda>x. f x \<notin> rs) xs) = filter (\<lambda>x. f x = r) xs" for f :: "'a \<Rightarrow> string" and xs
    using assms(2) by (auto simp: intro!: filter_cong)
  note cut = this
  have "table_size t r st = table_size t r (rows_outside rs st)" for t st
    by (cases t) (simp_all add: table_size_def rows_outside_def cut del: filter_filter)
  then have "table_size t r a = table_size t r b" for t using assms(1) by metis
  then show ?thesis by (simp add: record_size_def)
qed

lemma outside_expired: "shrunk r n st st' \<Longrightarrow> expired_ids b st' = expired_ids b st"
  by (simp add: shrunk_def expired_ids_def)

lemma expire_runs_result:
  assumes "0 < chunkRows" "rows \<le> maxRows"
  shows "\<exists>st' gone m. expire_runs chunkRows maxRows b now st n rows = Some (st', n + length gone, rows + m) \<and>
    rows + m \<le> maxRows \<and> distinct gone \<and> set gone \<subseteq> expired_ids b st \<and>
    st_runs st' = update_rows (\<lambda>run. run_id run \<in> set gone) (\<lambda>run. run\<lparr>run_recordDeletedAt := Some now\<rparr>) (st_runs st) \<and>
    (\<forall>r \<in> set gone. record_size r st' = 0) \<and>
    rows_outside (expired_ids b st) st' = rows_outside (expired_ids b st) st \<and>
    (rows + m < maxRows \<longrightarrow> set gone = expired_ids b st)"
  using assms(2)
proof (induction "length (filter (is_expired b) (st_runs st))" arbitrary: st n rows rule: less_induct)
  case less
  show ?case
  proof (cases "rows < maxRows")
    case False
    then show ?thesis
      by (intro exI[of _ st] exI[of _ "[]"] exI[of _ 0]) (simp add: expire_runs.simps less.prems update_rows_def)
  next
    case running: True
    show ?thesis
    proof (cases "next_expired b st")
      case None
      then show ?thesis using running next_expired_None[of b st]
        by (intro exI[of _ st] exI[of _ "[]"] exI[of _ 0]) (simp add: expire_runs.simps update_rows_def)
    next
      case (Some run)
      let ?r = "run_id run"
      note run = next_expired_Some[OF Some]
      obtain st1 d finished where tables: "empty_tables chunkRows maxRows RECORD_TABLES ?r st rows = Some (st1, rows + d, finished)"
        "shrunk ?r d st st1" "rows + d \<le> maxRows"
        "if finished then \<forall>t \<in> set RECORD_TABLES. table_size t ?r st1 = 0 else rows + d = maxRows"
        using empty_tables_result[OF assms(1) less.prems] by blast
      have outside: "rows_outside (expired_ids b st) st1 = rows_outside (expired_ids b st) st"
        and runs: "st_runs st1 = st_runs st"
        using tables(2) run(3) by (auto simp: shrunk_def)
      show ?thesis
      proof (cases finished)
        case False
        then show ?thesis using running Some tables outside runs
          by (intro exI[of _ st1] exI[of _ "[]"] exI[of _ d]) (simp add: expire_runs.simps update_rows_def)
      next
        case True
        let ?st2 = "mark_deleted now ?r st1"
        have "length (filter (is_expired b) (st_runs ?st2)) < length (filter (is_expired b) (st_runs st))"
          using expired_marked_fewer[of run st1 b] run(1,2) runs by simp
        from less.hyps[OF this tables(3), of "Suc n"] obtain st' gone m where rest:
          "expire_runs chunkRows maxRows b now ?st2 (Suc n) (rows + d) = Some (st', Suc n + length gone, rows + d + m)"
          "rows + d + m \<le> maxRows" "distinct gone" "set gone \<subseteq> expired_ids b ?st2"
          "st_runs st' = update_rows (\<lambda>run. run_id run \<in> set gone) (\<lambda>run. run\<lparr>run_recordDeletedAt := Some now\<rparr>) (st_runs ?st2)"
          "\<forall>r \<in> set gone. record_size r st' = 0"
          "rows_outside (expired_ids b ?st2) st' = rows_outside (expired_ids b ?st2) ?st2"
          "rows + d + m < maxRows \<longrightarrow> set gone = expired_ids b ?st2"
          by blast
        have e2: "expired_ids b ?st2 = expired_ids b st - {?r}" using outside_expired[OF tables(2)] by simp
        have "record_size ?r st1 = 0" using tables(4) True by (auto simp: record_size_def)
        then have "record_size ?r st' = 0"
          using table_size_outside[OF rest(7), of ?r] e2 by simp
        moreover have "rows_outside (expired_ids b st) st' = rows_outside (expired_ids b st) st1"
        proof -
          have grow: "rows_outside A (rows_outside B x) = rows_outside (A \<union> B) x" for A B x
            by (simp add: rows_outside_def conj_commute)
          have "expired_ids b st = {?r} \<union> expired_ids b ?st2" using e2 run(3) by auto
          then show ?thesis using arg_cong[OF rest(7), of "rows_outside {?r}"] by (simp add: grow)
        qed
        moreover have "expire_runs chunkRows maxRows b now st n rows = Some (st', n + length (?r # gone), rows + (d + m))"
          using running Some tables(1) True rest(1) by (subst expire_runs.simps) (simp add: add.assoc)
        moreover have "st_runs st' = update_rows (\<lambda>x. run_id x \<in> set (?r # gone)) (\<lambda>run. run\<lparr>run_recordDeletedAt := Some now\<rparr>) (st_runs st)"
          using rest(5) runs by (auto simp: mark_deleted_def update_rows_def)
        ultimately show ?thesis using rest e2 run(3) outside
          by (intro exI[of _ st'] exI[of _ "?r # gone"] exI[of _ "d + m"]) (auto simp: add.assoc)
      qed
    qed
  qed
qed


section \<open>The properties\<close>

text \<open>C7: retention ends and deletes only what it may. With a positive chunk a call always returns,
  having deleted at most \<open>maxRows\<close> rows; the rows of every other run (unfinished, finished too
  recently, or deleted before) are as they were; a run is marked only once nothing of its record is
  left, each marked run counts once, and a call that did not use its row bound has finished them all.\<close>

theorem retention_correct:
  assumes "0 < chunkRows"
  shows "\<exists>st' gone rows. deleteExpiredRunRecords (Some chunkRows) (Some maxRows) finishedBefore now st
      = Some (st', length gone, rows) \<and>
    rows \<le> maxRows \<and> distinct gone \<and> set gone \<subseteq> expired_ids finishedBefore st \<and>
    (\<forall>r \<in> set gone. record_size r st' = 0) \<and>
    rows_outside (expired_ids finishedBefore st) st' = rows_outside (expired_ids finishedBefore st) st \<and>
    st_runs st' = update_rows (\<lambda>run. run_id run \<in> set gone) (\<lambda>run. run\<lparr>run_recordDeletedAt := Some now\<rparr>) (st_runs st) \<and>
    (rows < maxRows \<longrightarrow> set gone = expired_ids finishedBefore st)"
  using expire_runs_result[OF assms, of 0 maxRows finishedBefore now st 0]
  by (fastforce simp: deleteExpiredRunRecords_def)

definition retention_store :: store where
  "retention_store = \<lparr>st_events = [], st_timeline = [], st_scrollback = [], st_artifacts =
     [\<lparr>ar_id = ''a1'', ar_runId = ''old'', ar_algo = ''sha256'', ar_hash = ''h1'', ar_byteSize = 1, ar_inlineBytes = Some [7]\<rparr>,
      \<lparr>ar_id = ''a2'', ar_runId = ''live'', ar_algo = ''sha256'', ar_hash = ''h1'', ar_byteSize = 1, ar_inlineBytes = Some [7]\<rparr>],
     st_lossSpans = [], st_epochs = [],
     st_runs = [\<lparr>run_id = ''live'', run_workspaceId = ''w'', run_finishedAt = None, run_recordDeletedAt = None\<rparr>,
       \<lparr>run_id = ''old'', run_workspaceId = ''w'', run_finishedAt = Some 10, run_recordDeletedAt = None\<rparr>]\<rparr>"

theorem retention_correct_witness:
  "\<exists>st' n rows. deleteExpiredRunRecords (Some 1) (Some 100) 20 99 retention_store = Some (st', n, rows) \<and>
     n \<le> 1 \<and> rows \<le> 100 \<and> ''a2'' \<in> ar_id ` set (st_artifacts st') \<and> map run_id (st_runs st') = [''live'', ''old'']"
proof -
  have expired: "expired_ids 20 retention_store = {''old''}"
    by (auto simp: expired_ids_def retention_store_def is_expired_def)
  obtain st' gone rows where result: "deleteExpiredRunRecords (Some 1) (Some 100) 20 99 retention_store = Some (st', length gone, rows)"
    "rows \<le> 100" "distinct gone" "set gone \<subseteq> {''old''}"
    "rows_outside {''old''} st' = rows_outside {''old''} retention_store"
    "st_runs st' = update_rows (\<lambda>run. run_id run \<in> set gone) (\<lambda>run. run\<lparr>run_recordDeletedAt := Some 99\<rparr>) (st_runs retention_store)"
    using retention_correct[OF zero_less_one, of 100 20 99 retention_store] unfolding expired
    by (elim exE conjE) (rule that; assumption)
  have "filter (\<lambda>x. ar_runId x \<notin> {''old''}) (st_artifacts st') = filter (\<lambda>x. ar_runId x \<notin> {''old''}) (st_artifacts retention_store)"
    using arg_cong[OF result(5), of st_artifacts] by (simp add: rows_outside_def)
  then have "ar_id ` set (filter (\<lambda>x. ar_runId x \<notin> {''old''}) (st_artifacts st')) = {''a2''}"
    by (simp add: retention_store_def)
  then have "{''a2''} \<subseteq> ar_id ` set (st_artifacts st')"
    using image_mono[OF filter_is_subset, of ar_id "\<lambda>x. ar_runId x \<notin> {''old''}" "st_artifacts st'"] by (simp only:)
  then have "''a2'' \<in> ar_id ` set (st_artifacts st')" by (rule subsetD) (rule insertI1)
  moreover have "length gone \<le> 1"
    using card_mono[OF _ result(4)] distinct_card[OF result(3)] by simp
  moreover have "map run_id (st_runs st') = map run_id (st_runs retention_store)"
    unfolding result(6) update_rows_def by simp
  then have "map run_id (st_runs st') = [''live'', ''old'']" by (simp add: retention_store_def)
  ultimately show ?thesis using result(1,2)
    by (intro exI[of _ st'] exI[of _ "length gone"] exI[of _ rows] conjI)
qed

end
