(* ===== verification/Telemetry_Ingester.thy ===== *)
theory Telemetry_Ingester
  imports Telemetry_Sink_Proofs Telemetry_Loss_Proofs
begin

text \<open>
  The ingester (\<open>packages/telemetry/src/ingester.ts\<close>): one connection of one run, from opening its
  epoch to closing it. The stream's tap runs for every envelope as it arrives; the batches it is
  grouped into are appended behind it, so a run is a sequence of taps and flushes. Timing and
  retries of failed statements are not modelled.
\<close>

section \<open>The connection\<close>

record ingest_config =
  ic_runId :: string
  ic_runtimeId :: string
  ic_outputBudget :: int
  ic_kinds :: stream_kinds
  ic_sha256 :: "byte list \<Rightarrow> string"
  ic_STOPPED :: int
  ic_now :: int

record ingest =
  ig_store :: store
  ig_gap :: gap_state
  ig_budget :: output_budget
  ig_sawStop :: bool
  ig_cache :: "string \<rightharpoonup> string option"
  ig_pending :: "envelope list"
  ig_conflicts :: nat
  ig_failed :: bool

datatype ingest_event = Tap envelope | Flush nat

definition BATCH_SIZE :: nat where "BATCH_SIZE = 256"

definition ingest_start :: "ingest_config \<Rightarrow> store \<Rightarrow> ingest" where
  "ingest_start c st =
     (let (st', epochId, resumed) = openEpoch st (ic_now c) (ic_runId c) (ic_runtimeId c) 0;
          resume = selectMaxSequence st' (ic_runtimeId c)
      in \<lparr>ig_store = st', ig_gap = [ic_runtimeId c \<mapsto> (case resume of Some s \<Rightarrow> s | None \<Rightarrow> 0)],
          ig_budget = makeOutputBudgetState, ig_sawStop = False, ig_cache = Map.empty, ig_pending = [],
          ig_conflicts = 0, ig_failed = False\<rparr>)"

text \<open>The attribution cache: only ids never asked about reach the resolver, answers stay.\<close>

definition resolveAttributions ::
  "ingest_config \<Rightarrow> store \<Rightarrow> (string \<rightharpoonup> string option) \<Rightarrow> string list \<Rightarrow>
   (string \<rightharpoonup> string option) \<times> (string \<rightharpoonup> string)"
where
  "resolveAttributions c st cache executionIds =
     (let unknown = filter (\<lambda>i. cache i = None) executionIds;
          resolved = resolve_runs st (ic_runId c) unknown;
          cache' = fold (\<lambda>i m. m(i \<mapsto> resolved i)) unknown cache
      in (cache', \<lambda>i. if i \<in> set executionIds
                       then (case cache' i of Some r \<Rightarrow> r | None \<Rightarrow> None) else None))"

definition is_stop :: "ingest_config \<Rightarrow> envelope \<Rightarrow> bool" where
  "is_stop c env =
     (case env_payload env of
        Message RuntimeStateChanged v \<Rightarrow> get v ''state'' = Num (ic_STOPPED c)
      | _ \<Rightarrow> False)"

definition record_loss :: "ingest_config \<Rightarrow> store \<Rightarrow> loss_span option \<Rightarrow> store" where
  "record_loss c st span =
     (case span of
        None \<Rightarrow> st
      | Some s \<Rightarrow> insertLossSpan st (ic_now c) (ic_runId c) (ic_runtimeId c) s)"

definition tap :: "ingest_config \<Rightarrow> ingest \<Rightarrow> envelope \<Rightarrow> ingest" where
  "tap c s env =
     (let (gap, span) = detectGap (ig_gap s) env
      in s\<lparr>ig_sawStop := ig_sawStop s \<or> is_stop c env, ig_gap := gap,
           ig_store := record_loss c (ig_store s) span, ig_pending := ig_pending s @ [env]\<rparr>)"

text \<open>\<^const>\<open>ig_failed\<close> is a defect in reading a stored row back: it ends the stream.\<close>

definition flush :: "ingest_config \<Rightarrow> ingest \<Rightarrow> nat \<Rightarrow> ingest" where
  "flush c s n =
     (let size = min (min n BATCH_SIZE) (length (ig_pending s));
          normalized = map (\<lambda>env. projr (normalizeEnvelope (ic_kinds c) (ic_sha256 c) env)) (take size (ig_pending s));
          (budget, kept, span) = applyOutputBudget (ig_budget s) normalized (ic_outputBudget c);
          st = record_loss c (ig_store s) span;
          (cache, resolutions) = resolveAttributions c st (ig_cache s) (collectExecutionIds kept);
          (st', result) = appendBatch (ic_kinds c) st (ic_runId c) (ic_runtimeId c) (attributeBatch kept resolutions)
      in s\<lparr>ig_store := st', ig_budget := budget, ig_cache := cache, ig_pending := drop size (ig_pending s),
           ig_conflicts := ig_conflicts s + (case result of Inl (ConflictError m ids) \<Rightarrow> 1 | _ \<Rightarrow> 0),
           ig_failed := (case result of Inl (ReadError e) \<Rightarrow> True | _ \<Rightarrow> False)\<rparr>)"

fun ingest_step :: "ingest_config \<Rightarrow> ingest_event \<Rightarrow> ingest \<Rightarrow> ingest" where
  "ingest_step c (Tap env) s = (if ig_failed s then s else tap c s env)"
| "ingest_step c (Flush n) s = (if ig_failed s then s else flush c s n)"

definition ingest_end :: "ingest_config \<Rightarrow> ingest \<Rightarrow> store" where
  "ingest_end c s =
     closeEpoch (ig_store s) (ic_now c) (ic_runId c) (ic_runtimeId c)
       (if ig_sawStop s then Shutdown else Stream_end) (\<not> ig_sawStop s)"

definition ingest_run :: "ingest_config \<Rightarrow> store \<Rightarrow> ingest_event list \<Rightarrow> store" where
  "ingest_run c st events = ingest_end c (fold (ingest_step c) events (ingest_start c st))"

section \<open>What a batch stores\<close>

lemma budget_step_storable:
  assumes "budget_step maxBytes state event = (state', kept, span)" "storable k event"
  shows "storable k kept"
  using assms by (auto simp: budget_step_def storable_def drop_content_def Let_def split: option.splits if_splits)

lemma budget_loop_storable:
  assumes "budget_loop maxBytes state events = (state', kept, span)" "list_all (storable k) events"
  shows "list_all (storable k) kept"
  using assms
  by (induction events arbitrary: state state' kept span)
    (auto simp: Let_def split: prod.splits intro: budget_step_storable)

lemma budget_keeps_position:
  assumes "budget_loop maxBytes state events = (state', kept, span)"
  shows "map (\<lambda>e. (ne_runtimeId e, ne_sequence e)) kept = map (\<lambda>e. (ne_runtimeId e, ne_sequence e)) events"
  using assms
  by (induction events arbitrary: state state' kept span)
    (auto simp: Let_def budget_step_def drop_content_def split: prod.splits option.splits if_splits)

lemma attribute_storable: "list_all (storable k) batch \<Longrightarrow> list_all (storable k) (attributeBatch batch m)"
  by (auto simp: attributeBatch_def list_all_iff storable_def split: option.splits)

lemma attribute_position:
  "map (\<lambda>e. (ne_runtimeId e, ne_sequence e)) (attributeBatch batch m) = map (\<lambda>e. (ne_runtimeId e, ne_sequence e)) batch"
  by (simp add: attributeBatch_def split: option.splits)

lemma normalize_position:
  assumes "normalizeEnvelope k h env = Inr e"
  shows "ne_runtimeId e = env_runtimeId env" "ne_sequence e = env_sequence env"
  using assms by (auto simp: normalizeEnvelope_def Let_def res_simps)

lemma held_position:
  assumes "redeliveryDifferences k row e r = Inr []"
  shows "er_runtimeId row = ne_runtimeId e" "er_sequence row = ne_sequence e"
  using assms by (auto simp: redelivery_same same_event_def eventRowToNormalized_def Let_def res_simps)


section \<open>Every number is accounted for\<close>

definition gap_span :: "int \<Rightarrow> int \<Rightarrow> loss_span" where
  "gap_span a b = no_span\<lparr>ls_kind := Sequence_gap, ls_fromSequence := Some a, ls_toSequence := Some b,
     ls_droppedCount := Some (b - a + 1), ls_detectedVia := Gap\<rparr>"

text \<open>The row of the record for a gap of this connection: of its run, of its runtime, with its ends.\<close>

definition gap_row :: "ingest_config \<Rightarrow> int \<Rightarrow> int \<Rightarrow> loss_row \<Rightarrow> bool" where
  "gap_row c a b row \<longleftrightarrow> lr_runId row = ic_runId c \<and> lr_runtimeId row = ic_runtimeId c \<and>
     lr_kind row = Sequence_gap \<and> lr_fromSequence row = Some a \<and> lr_toSequence row = Some b"

text \<open>A row with the id of a gap is that gap.\<close>

definition gap_ids_truthful :: "ingest_config \<Rightarrow> store \<Rightarrow> bool" where
  "gap_ids_truthful c st \<longleftrightarrow> (\<forall>row \<in> set (st_lossSpans st). \<forall>a b.
     lr_id row = lossSpanId (ic_runId c) (ic_runtimeId c) (gap_span a b) \<longrightarrow>
     gap_row c a b row)"

definition gap_recorded :: "ingest_config \<Rightarrow> store \<Rightarrow> int \<Rightarrow> bool" where
  "gap_recorded c st i \<longleftrightarrow>
     (\<exists>row \<in> set (st_lossSpans st). \<exists>a b. gap_row c a b row \<and> a \<le> i \<and> i \<le> b)"

definition in_log :: "string \<Rightarrow> store \<Rightarrow> int \<Rightarrow> bool" where
  "in_log rt st i \<longleftrightarrow> (\<exists>row \<in> set (st_events st). er_runtimeId row = rt \<and> er_sequence row = i)"

lemma insertLossSpan_losses:
  "set (st_lossSpans st) \<subseteq> set (st_lossSpans (insertLossSpan st now r rt span))"
  "\<exists>row \<in> set (st_lossSpans (insertLossSpan st now r rt span)). lr_id row = lossSpanId r rt span"
  "row \<in> set (st_lossSpans (insertLossSpan st now r rt span)) \<Longrightarrow>
     row \<in> set (st_lossSpans st) \<or> row = loss_row_of now r rt span"
  "st_events (insertLossSpan st now r rt span) = st_events st"
  using losses.covered[of "loss_row_of now r rt span" "[loss_row_of now r rt span]" "st_lossSpans st"]
    set_insert_rows[of loss_clash "st_lossSpans st" "[loss_row_of now r rt span]"]
  by (auto simp: insertLossSpan_def insert_rows_keeps loss_clash_def loss_row_of_def)

lemma gap_ids_truthful_insert:
  assumes "gap_ids_truthful c st"
  shows "gap_ids_truthful c (insertLossSpan st (ic_now c) (ic_runId c) (ic_runtimeId c) span)"
proof -
  have "gap_row c a b row"
    if "row = loss_row_of (ic_now c) (ic_runId c) (ic_runtimeId c) span"
      "lr_id row = lossSpanId (ic_runId c) (ic_runtimeId c) (gap_span a b)" for row a b
  proof -
    have "loss_key span = loss_key (gap_span a b)"
      using that lossSpanId_same[of "ic_runId c" "ic_runtimeId c" span "gap_span a b"] by (simp add: loss_row_of_def)
    then show ?thesis using that by (cases "ls_kind span") (auto simp: loss_key_def gap_span_def no_span_def loss_row_of_def gap_row_def)
  qed
  note new = this
  show ?thesis unfolding gap_ids_truthful_def
  proof (intro ballI allI impI)
    fix row a b
    assume row: "row \<in> set (st_lossSpans (insertLossSpan st (ic_now c) (ic_runId c) (ic_runtimeId c) span))"
      "lr_id row = lossSpanId (ic_runId c) (ic_runtimeId c) (gap_span a b)"
    show "gap_row c a b row"
      using insertLossSpan_losses(3)[OF row(1)] new[OF _ row(2)] assms row(2) by (auto simp: gap_ids_truthful_def)
  qed
qed


lemma detectGap_step:
  assumes "state rt = Some p" "detectGap state env = (state', span)"
  shows "state' rt = Some (if env_runtimeId env = rt then max p (env_sequence env) else p)"
    and "env_runtimeId env = rt \<Longrightarrow> p + 1 < env_sequence env \<Longrightarrow> \<not> is_marker (env_payload env) \<Longrightarrow>
      span = Some (gap_span (p + 1) (env_sequence env - 1))"
proof -
  show "env_runtimeId env = rt \<Longrightarrow> p + 1 < env_sequence env \<Longrightarrow> \<not> is_marker (env_payload env) \<Longrightarrow>
      span = Some (gap_span (p + 1) (env_sequence env - 1))"
    using assms
    by (cases "env_payload env" rule: is_marker.cases)
      (auto simp: detectGap_def Let_def gap_span_def split: option.splits)
  show "state' rt = Some (if env_runtimeId env = rt then max p (env_sequence env) else p)"
    using assms by (auto simp: detectGap_def Let_def)
qed

text \<open>The envelopes tapped so far.\<close>

fun tapped :: "ingest_event list \<Rightarrow> envelope list" where
  "tapped [] = []"
| "tapped (Tap env # es) = env # tapped es"
| "tapped (Flush n # es) = tapped es"

text \<open>
  The invariant of a connection that has met no conflict: the gap state is the highest number seen,
  every number up to it was tapped, is in a recorded gap or was passed over by a loss marker, and a
  tapped event is pending or logged.
\<close>

definition numbers :: "string \<Rightarrow> envelope list \<Rightarrow> int set" where
  "numbers rt envs = env_sequence ` {env \<in> set envs. env_runtimeId env = rt}"

definition of_runtime :: "string \<Rightarrow> envelope list \<Rightarrow> envelope list" where
  "of_runtime rt envs = filter (\<lambda>env. env_runtimeId env = rt) envs"

definition answered_for :: "ingest_config \<Rightarrow> envelope list \<Rightarrow> store \<Rightarrow> int \<Rightarrow> bool" where
  "answered_for c envs st i \<longleftrightarrow> i \<in> numbers (ic_runtimeId c) envs \<or> gap_recorded c st i \<or>
     passed_over True (of_runtime (ic_runtimeId c) envs) i"

definition accounted :: "ingest_config \<Rightarrow> int \<Rightarrow> envelope list \<Rightarrow> ingest \<Rightarrow> bool" where
  "accounted c resume envs s \<longleftrightarrow>
     gap_ids_truthful c (ig_store s) \<and>
     (\<exists>p. ig_gap s (ic_runtimeId c) = Some p \<and> resume \<le> p \<and> (\<forall>i \<in> numbers (ic_runtimeId c) envs. i \<le> p) \<and>
        (\<forall>i. resume < i \<and> i \<le> p \<longrightarrow> answered_for c envs (ig_store s) i)) \<and>
     (\<forall>i \<in> numbers (ic_runtimeId c) envs.
        i \<in> numbers (ic_runtimeId c) (ig_pending s) \<or> in_log (ic_runtimeId c) (ig_store s) i)"

lemma numbers_append [simp]: "numbers rt (xs @ ys) = numbers rt xs \<union> numbers rt ys"
  by (auto simp: numbers_def)

lemma numbers_one [simp]: "numbers rt [env] = (if env_runtimeId env = rt then {env_sequence env} else {})"
  by (auto simp: numbers_def)

lemma passed_over_append:
  "passed_over m envs i \<Longrightarrow> passed_over m (envs @ later) i"
  by (induction envs) (auto split: if_splits)

lemma passed_over_next:
  "\<forall>env \<in> set envs. env_sequence env < i \<Longrightarrow> passed_over m (envs @ later) i \<longleftrightarrow> passed_over m later i"
  by (induction envs) auto

lemma of_runtime_append [simp]: "of_runtime rt (xs @ ys) = of_runtime rt xs @ of_runtime rt ys"
  by (simp add: of_runtime_def)

lemma record_loss_simps:
  "gap_ids_truthful c st \<Longrightarrow> gap_ids_truthful c (record_loss c st span)"
  "st_events (record_loss c st span) = st_events st"
  by (simp_all add: record_loss_def gap_ids_truthful_insert insertLossSpan_losses(4) split: option.splits)

lemma record_loss_keeps: "gap_recorded c st i \<Longrightarrow> gap_recorded c (record_loss c st span) i"
proof (cases span)
  case (Some s)
  have "set (st_lossSpans st) \<subseteq> set (st_lossSpans (record_loss c st span))"
    using insertLossSpan_losses(1) by (simp add: record_loss_def Some)
  then show "gap_recorded c st i \<Longrightarrow> ?thesis" by (fastforce simp: gap_recorded_def)
qed (simp add: record_loss_def)

lemma record_loss_gap:
  assumes "gap_ids_truthful c st" "a \<le> i" "i \<le> b"
  shows "gap_recorded c (record_loss c st (Some (gap_span a b))) i"
proof -
  let ?st = "insertLossSpan st (ic_now c) (ic_runId c) (ic_runtimeId c) (gap_span a b)"
  obtain row where row: "row \<in> set (st_lossSpans ?st)" "lr_id row = lossSpanId (ic_runId c) (ic_runtimeId c) (gap_span a b)"
    using insertLossSpan_losses(2) by blast
  then have "gap_row c a b row"
    using gap_ids_truthful_insert[OF assms(1)] by (simp add: gap_ids_truthful_def)
  then show ?thesis using row(1) assms(2,3) by (auto simp: record_loss_def gap_recorded_def)
qed

lemma accounted_tap:
  assumes "accounted c resume envs s"
  shows "accounted c resume (envs @ [env]) (tap c s env)"
proof -
  let ?rt = "ic_runtimeId c"
  obtain gap span where detect: "detectGap (ig_gap s) env = (gap, span)" by fastforce
  let ?st = "record_loss c (ig_store s) span"
  have tap: "ig_store (tap c s env) = ?st" "ig_gap (tap c s env) = gap" "ig_pending (tap c s env) = ig_pending s @ [env]"
    by (simp_all add: tap_def detect)
  obtain p where p: "ig_gap s ?rt = Some p" "resume \<le> p" "\<forall>i \<in> numbers ?rt envs. i \<le> p"
    "\<forall>i. resume < i \<and> i \<le> p \<longrightarrow> answered_for c envs (ig_store s) i"
    and truthful: "gap_ids_truthful c (ig_store s)"
    and logged: "\<forall>i \<in> numbers ?rt envs. i \<in> numbers ?rt (ig_pending s) \<or> in_log ?rt (ig_store s) i"
    using assms(1) by (auto simp: accounted_def)
  note step = detectGap_step[OF p(1) detect]
  let ?p = "if env_runtimeId env = ?rt then max p (env_sequence env) else p"
  have covered: "answered_for c (envs @ [env]) ?st i" if i: "resume < i" "i \<le> ?p" for i
  proof -
    consider "i \<le> p" | "env_runtimeId env = ?rt" "i = env_sequence env" | "env_runtimeId env = ?rt" "p < i" "i < env_sequence env"
      using i(2) by (cases "i \<le> p"; cases "i = env_sequence env") (auto simp: le_max_iff_disj split: if_splits)
    then show ?thesis
    proof cases
      case 1
      then have "answered_for c envs (ig_store s) i" using p(4) i(1) by blast
      then show ?thesis
        using record_loss_keeps[of c "ig_store s" i span] passed_over_append by (auto simp: answered_for_def)
    next
      case 2
      then show ?thesis by (simp add: answered_for_def)
    next
      case 3
      have "env_sequence e < i" if "e \<in> set (of_runtime ?rt envs)" for e
        using that p(3) 3(2) by (force simp: of_runtime_def numbers_def)
      then have "is_marker (env_payload env) \<Longrightarrow> passed_over True (of_runtime ?rt (envs @ [env])) i"
        using 3 by (simp add: passed_over_next of_runtime_def)
      moreover have "\<not> is_marker (env_payload env) \<Longrightarrow> gap_recorded c ?st i"
        using step(2) 3 record_loss_gap[OF truthful, of "p + 1" i "env_sequence env - 1"] by simp
      ultimately show ?thesis by (auto simp: answered_for_def)
    qed
  qed
  have "\<forall>i \<in> numbers ?rt (envs @ [env]). i \<le> ?p" "resume \<le> ?p" using p(2,3) by (auto simp: le_max_iff_disj)
  moreover have "\<forall>i \<in> numbers ?rt (envs @ [env]). i \<in> numbers ?rt (ig_pending s @ [env]) \<or> in_log ?rt ?st i"
    using logged by (auto simp: in_log_def record_loss_simps(2))
  ultimately show ?thesis
    unfolding accounted_def tap using step(1) covered record_loss_simps(1)[OF truthful] by blast
qed


lemma map_numbers:
  assumes "map (\<lambda>e. (ne_runtimeId e, ne_sequence e)) batch = map (\<lambda>env. (env_runtimeId env, env_sequence env)) envs"
    and "i \<in> numbers rt envs"
  shows "\<exists>e \<in> set batch. ne_runtimeId e = rt \<and> ne_sequence e = i"
proof -
  have "(rt, i) \<in> set (map (\<lambda>env. (env_runtimeId env, env_sequence env)) envs)"
    using assms(2) by (auto simp: numbers_def)
  then show ?thesis unfolding assms(1)[symmetric] by auto
qed

lemma normalized_batch:
  "list_all (storable k) (map (\<lambda>env. projr (normalizeEnvelope k h env)) envs)"
  "map (\<lambda>e. (ne_runtimeId e, ne_sequence e)) (map (\<lambda>env. projr (normalizeEnvelope k h env)) envs) =
     map (\<lambda>env. (env_runtimeId env, env_sequence env)) envs"
proof -
  have "storable k (projr (normalizeEnvelope k h env)) \<and>
      ne_runtimeId (projr (normalizeEnvelope k h env)) = env_runtimeId env \<and>
      ne_sequence (projr (normalizeEnvelope k h env)) = env_sequence env" for env
  proof -
    obtain e where e: "normalizeEnvelope k h env = Inr e" using normalizeEnvelope_total by blast
    then show ?thesis
      using normalize_position[OF e] well_normalized_storable[OF normalizeEnvelope_well_normalized[OF e]] by simp
  qed
  then show "list_all (storable k) (map (\<lambda>env. projr (normalizeEnvelope k h env)) envs)"
    "map (\<lambda>e. (ne_runtimeId e, ne_sequence e)) (map (\<lambda>env. projr (normalizeEnvelope k h env)) envs) =
     map (\<lambda>env. (env_runtimeId env, env_sequence env)) envs"
    by (simp_all add: list_all_iff)
qed

lemma budget_batch:
  assumes "applyOutputBudget b batch maxBytes = (b', kept, span)"
  shows "list_all (storable k) batch \<Longrightarrow> list_all (storable k) kept"
    and "map (\<lambda>e. (ne_runtimeId e, ne_sequence e)) kept = map (\<lambda>e. (ne_runtimeId e, ne_sequence e)) batch"
  using assms budget_loop_storable budget_keeps_position
  by (fastforce simp: applyOutputBudget_def split: if_splits)+

lemma accounted_flush:
  assumes "accounted c resume envs s" "ig_conflicts (flush c s n) = ig_conflicts s" "\<not> ig_failed (flush c s n)"
  shows "accounted c resume envs (flush c s n)"
proof -
  let ?rt = "ic_runtimeId c" and ?size = "min (min n BATCH_SIZE) (length (ig_pending s))"
  let ?normalized = "map (\<lambda>env. projr (normalizeEnvelope (ic_kinds c) (ic_sha256 c) env)) (take ?size (ig_pending s))"
  obtain budget kept span where budget: "applyOutputBudget (ig_budget s) ?normalized (ic_outputBudget c) = (budget, kept, span)"
    by (metis prod_cases3)
  let ?st = "record_loss c (ig_store s) span"
  obtain cache resolutions where attributed: "resolveAttributions c ?st (ig_cache s) (collectExecutionIds kept) = (cache, resolutions)"
    by fastforce
  let ?batch = "attributeBatch kept resolutions"
  obtain st' result where append: "appendBatch (ic_kinds c) ?st (ic_runId c) ?rt ?batch = (st', result)" by fastforce
  note parts = flush_def Let_def budget attributed append prod.case
  have flushed: "ig_store (flush c s n) = st'" "ig_gap (flush c s n) = ig_gap s"
    "ig_pending (flush c s n) = drop ?size (ig_pending s)"
    unfolding parts by simp_all
  obtain appended where ok: "result = Inr appended"
    using assms(2,3) unfolding parts by (auto split: sum.splits sink_error.splits)
  have storable: "list_all (storable (ic_kinds c)) ?batch"
    by (intro attribute_storable budget_batch(1)[OF budget] normalized_batch)
  have logged: "in_log ?rt st' i" if "i \<in> numbers ?rt (take ?size (ig_pending s))" for i
  proof -
    have "map (\<lambda>e. (ne_runtimeId e, ne_sequence e)) ?batch = map (\<lambda>env. (env_runtimeId env, env_sequence env)) (take ?size (ig_pending s))"
      by (simp only: attribute_position budget_batch(2)[OF budget] normalized_batch(2))
    from map_numbers[OF this that] obtain e where e: "e \<in> set ?batch" "ne_runtimeId e = ?rt" "ne_sequence e = i" by blast
    have "\<exists>row \<in> set (st_events st'). er_eventId row = ne_eventId e \<and>
        redeliveryDifferences (ic_kinds c) row e (runIdFor (ic_runId c) e) = Inr []"
      using append_stores[OF append[unfolded ok] _ e(1)] storable by (simp add: list_all_iff)
    then show ?thesis using held_position e(2,3) by (fastforce simp: in_log_def)
  qed
  have "set (st_events (ig_store s)) \<subseteq> set (st_events st')"
    using append_keeps_log[OF append] record_loss_simps(2) by (auto simp: insert_rows_def)
  then have keeps: "in_log ?rt (ig_store s) i \<Longrightarrow> in_log ?rt st' i" for i by (auto simp: in_log_def)
  have losses: "st_lossSpans st' = st_lossSpans ?st" by (rule append_keeps_losses[OF append])
  have "gap_ids_truthful c ?st" using assms(1) record_loss_simps(1) unfolding accounted_def by blast
  then have "gap_ids_truthful c st'" unfolding gap_ids_truthful_def losses .
  moreover have gaps: "answered_for c envs (ig_store s) i \<Longrightarrow> answered_for c envs st' i" for i
    using record_loss_keeps[of c "ig_store s" i span] losses by (auto simp: gap_recorded_def answered_for_def)
  have "\<exists>p. ig_gap s ?rt = Some p \<and> resume \<le> p \<and> (\<forall>i \<in> numbers ?rt envs. i \<le> p) \<and>
      (\<forall>i. resume < i \<and> i \<le> p \<longrightarrow> answered_for c envs st' i)"
    using conjunct1[OF conjunct2[OF assms(1)[unfolded accounted_def]]]
  proof (elim exE conjE)
    fix p
    assume p: "ig_gap s ?rt = Some p" "resume \<le> p" "\<forall>i \<in> numbers ?rt envs. i \<le> p"
      "\<forall>i. resume < i \<and> i \<le> p \<longrightarrow> answered_for c envs (ig_store s) i"
    have "\<forall>i. resume < i \<and> i \<le> p \<longrightarrow> answered_for c envs st' i"
      using p(4) gaps by blast
    with p(1-3) show ?thesis by blast
  qed
  moreover have "i \<in> numbers ?rt (drop ?size (ig_pending s)) \<or> in_log ?rt st' i" if "i \<in> numbers ?rt envs" for i
  proof -
    have "i \<in> numbers ?rt (ig_pending s) \<or> in_log ?rt (ig_store s) i"
      using conjunct2[OF conjunct2[OF assms(1)[unfolded accounted_def]]] that by blast
    then show ?thesis
      using logged keeps numbers_append[of ?rt "take ?size (ig_pending s)" "drop ?size (ig_pending s)"] by auto
  qed
  ultimately show ?thesis unfolding accounted_def flushed by blast
qed


lemma accounted_start:
  assumes "gap_ids_truthful c st"
  shows "accounted c (case selectMaxSequence st (ic_runtimeId c) of Some m \<Rightarrow> m | None \<Rightarrow> 0) [] (ingest_start c st)"
proof -
  have "st_lossSpans (ig_store (ingest_start c st)) = st_lossSpans st"
    "ig_gap (ingest_start c st) (ic_runtimeId c) = Some (case selectMaxSequence st (ic_runtimeId c) of Some m \<Rightarrow> m | None \<Rightarrow> 0)"
    by (simp_all add: ingest_start_def openEpoch_def selectMaxSequence_def Let_def)
  then show ?thesis using assms by (auto simp: accounted_def gap_ids_truthful_def numbers_def)
qed

lemma tapped_append [simp]: "tapped (xs @ ys) = tapped xs @ tapped ys"
  by (induction xs rule: tapped.induct) auto

lemma ingest_step_flags:
  "ig_failed s \<Longrightarrow> ingest_step c e s = s"
  "ig_conflicts s \<le> ig_conflicts (ingest_step c e s)"
  by (cases e; simp add: tap_def flush_def Let_def split: prod.splits)+

lemma accounted_run:
  assumes "accounted c resume [] s0"
    and "\<not> ig_failed (fold (ingest_step c) events s0)" "ig_conflicts (fold (ingest_step c) events s0) = 0"
  shows "accounted c resume (tapped events) (fold (ingest_step c) events s0)"
  using assms(2-)
proof (induction events rule: rev_induct)
  case Nil
  then show ?case using assms(1) by simp
next
  case (snoc e events)
  let ?s = "fold (ingest_step c) events s0"
  have running: "\<not> ig_failed ?s" using snoc.prems(1) ingest_step_flags(1)[of ?s c e] by auto
  have "ig_conflicts ?s = 0" using snoc.prems(2) ingest_step_flags(2)[of ?s c e] by simp
  then have IH: "accounted c resume (tapped events) ?s" using snoc running by simp
  show ?case
  proof (cases e)
    case (Tap env)
    then show ?thesis using accounted_tap[OF IH, of env] running by simp
  next
    case (Flush n)
    then show ?thesis using accounted_flush[OF IH, of n] snoc.prems running \<open>ig_conflicts ?s = 0\<close> by simp
  qed
qed

lemma sawStop_run:
  "\<not> ig_failed (fold (ingest_step c) events s0) \<Longrightarrow>
   ig_sawStop (fold (ingest_step c) events s0) \<longleftrightarrow> ig_sawStop s0 \<or> (\<exists>env \<in> set (tapped events). is_stop c env)"
proof (induction events rule: rev_induct)
  case (snoc e events)
  let ?s = "fold (ingest_step c) events s0"
  have "\<not> ig_failed ?s" using snoc.prems ingest_step_flags(1)[of ?s c e] by auto
  then show ?case using snoc.IH
    by (cases e) (auto simp: tap_def flush_def Let_def split: prod.splits)
qed simp

section \<open>The properties\<close>

text \<open>C6: nothing is lost silently but in front of a loss marker. When the batches of a connection
  met no conflict and no unreadable row and none is left pending at its end, and no foreign row stands
  under the id of one of its gaps, then every sequence number from where the log stopped up to the
  highest one received is in the log, or inside a sequence gap recorded for this run and runtime, or
  the first event received at or behind it is a loss marker with a later number; in whatever order
  and however often the events came and wherever the batches were cut.\<close>

theorem nothing_lost_silently:
  assumes "gap_ids_truthful c st"
    and "\<not> ig_failed (fold (ingest_step c) events (ingest_start c st))"
    and "ig_conflicts (fold (ingest_step c) events (ingest_start c st)) = 0"
    and "ig_pending (fold (ingest_step c) events (ingest_start c st)) = []"
    and "env \<in> set (tapped events)" "env_runtimeId env = ic_runtimeId c"
    and "(case selectMaxSequence st (ic_runtimeId c) of Some m \<Rightarrow> m | None \<Rightarrow> 0) < i" "i \<le> env_sequence env"
  shows "in_log (ic_runtimeId c) (ingest_run c st events) i \<or> gap_recorded c (ingest_run c st events) i \<or>
    passed_over True (of_runtime (ic_runtimeId c) (tapped events)) i"
proof -
  let ?s = "fold (ingest_step c) events (ingest_start c st)" and ?rt = "ic_runtimeId c"
  note acc = accounted_run[OF accounted_start[OF assms(1)] assms(2-3), unfolded accounted_def]
  have "env_sequence env \<in> numbers ?rt (tapped events)" using assms(5,6) by (auto simp: numbers_def)
  then have "answered_for c (tapped events) (ig_store ?s) i"
    using conjunct1[OF conjunct2[OF acc]] assms(7,8) by (meson order_trans)
  then have "in_log ?rt (ig_store ?s) i \<or> gap_recorded c (ig_store ?s) i \<or> passed_over True (of_runtime ?rt (tapped events)) i"
    using conjunct2[OF conjunct2[OF acc]] assms(4) by (auto simp: numbers_def answered_for_def)
  moreover have "st_events (ingest_run c st events) = st_events (ig_store ?s)"
    and "set (st_lossSpans (ig_store ?s)) \<subseteq> set (st_lossSpans (ingest_run c st events))"
    by (auto simp: ingest_run_def ingest_end_def closeEpoch_def insertLossSpan_def Let_def insert_rows_keeps)
  ultimately show ?thesis unfolding in_log_def gap_recorded_def by auto
qed

definition example_config :: ingest_config where
  "example_config = \<lparr>ic_runId = ''run'', ic_runtimeId = ''rt'', ic_outputBudget = 0, ic_kinds = stream_kinds_example,
     ic_sha256 = digest_example, ic_STOPPED = 5, ic_now = 0\<rparr>"

definition example_events :: "ingest_event list" where
  "example_events = [Tap (beat 1), Tap (beat 3), Tap (overflow 4), Flush 256]"

lemma example_run:
  "\<not> ig_failed (fold (ingest_step example_config) example_events (ingest_start example_config empty_store))"
  "ig_conflicts (fold (ingest_step example_config) example_events (ingest_start example_config empty_store)) = 0"
  "ig_pending (fold (ingest_step example_config) example_events (ingest_start example_config empty_store)) = []"
  "\<not> in_log ''rt'' (ingest_run example_config empty_store example_events) 2"
  by code_simp+

lemma example_truthful: "gap_ids_truthful example_config empty_store"
  by (simp add: gap_ids_truthful_def empty_store_def)

lemma example_tapped: "tapped example_events = [beat 1, beat 3, overflow 4]"
  by (simp add: example_events_def)

lemma beat_sel [simp]: "env_runtimeId (beat i) = ''rt''" "env_sequence (beat i) = i"
  "is_marker (env_payload (beat i)) = False"
  by (simp_all add: beat_def)

lemma example_start: "ic_runtimeId example_config = ''rt''" "selectMaxSequence empty_store rt = None"
  by (simp_all add: example_config_def selectMaxSequence_def empty_store_def)

theorem nothing_lost_silently_witness:
  "gap_recorded example_config (ingest_run example_config empty_store example_events) 2"
proof -
  have "in_log ''rt'' (ingest_run example_config empty_store example_events) 2 \<or>
      gap_recorded example_config (ingest_run example_config empty_store example_events) 2 \<or>
      passed_over True (of_runtime ''rt'' (tapped example_events)) 2"
    using nothing_lost_silently[OF example_truthful example_run(1-3), of "beat 3" 2]
    by (simp add: example_tapped example_start)
  moreover have "\<not> passed_over True (of_runtime ''rt'' (tapped example_events)) 2"
    by (simp add: example_tapped of_runtime_def)
  ultimately show ?thesis using example_run(4) by blast
qed

text \<open>The end of a connection is recorded honestly: its epoch is closed, with the reason
  \<open>shutdown\<close> when the stream said the runtime stopped and \<open>stream-end\<close> otherwise, and the record
  has an early-close loss exactly in the second case.\<close>

lemma close_is_honest:
  assumes "\<not> ig_failed (fold (ingest_step c) events (ingest_start c st))"
  shows "(\<forall>ep \<in> set (st_epochs (ingest_run c st events)).
      ep_runId ep = ic_runId c \<and> ep_runtimeId ep = ic_runtimeId c \<longrightarrow>
      ep_status ep = Closed \<and> ep_closeReason ep =
        Some (if \<exists>env \<in> set (tapped events). is_stop c env then Shutdown else Stream_end)) \<and>
    (if \<exists>env \<in> set (tapped events). is_stop c env
     then st_lossSpans (ingest_run c st events) = st_lossSpans (ig_store (fold (ingest_step c) events (ingest_start c st)))
     else \<exists>row \<in> set (st_lossSpans (ingest_run c st events)).
       lr_id row = lossSpanId (ic_runId c) (ic_runtimeId c) (no_span\<lparr>ls_kind := Early_close\<rparr>))"
proof -
  let ?s = "fold (ingest_step c) events (ingest_start c st)"
  have stop: "ig_sawStop ?s \<longleftrightarrow> (\<exists>env \<in> set (tapped events). is_stop c env)"
    using sawStop_run[OF assms] by (simp add: ingest_start_def openEpoch_def Let_def)
  have id: "lossSpanId r rt (no_span\<lparr>ls_kind := Early_close, ls_reason := a, ls_detectedVia := b, ls_toSequence := m\<rparr>) =
      lossSpanId r rt (no_span\<lparr>ls_kind := Early_close\<rparr>)" for r rt a b m
    by (simp add: lossSpanId_def)
  have early: "\<exists>row \<in> set (st_lossSpans (closeEpoch st now r rt reason True)).
      lr_id row = lossSpanId r rt (no_span\<lparr>ls_kind := Early_close\<rparr>)" for st now r rt reason
    unfolding closeEpoch_def Let_def if_True
      id[where r = r and rt = rt and a = "Some (close_reason_name reason)" and b = Marker
        and m = "selectMaxSequence st rt", symmetric]
    by (rule insertLossSpan_losses(2))
  have closed: "\<forall>ep \<in> set (st_epochs (closeEpoch st now r rt reason b)). ep_runId ep = r \<and> ep_runtimeId ep = rt \<longrightarrow>
      ep_status ep = Closed \<and> ep_closeReason ep = Some reason" for st now r rt reason b
    by (simp add: closeEpoch_def update_rows_def insertLossSpan_def Let_def ball_Un) blast
  have quiet: "st_lossSpans (closeEpoch st now r rt reason False) = st_lossSpans st" for st now r rt reason
    by (simp add: closeEpoch_def Let_def)
  show ?thesis
  proof (cases "ig_sawStop ?s")
    case True
    show ?thesis unfolding stop[symmetric] ingest_run_def ingest_end_def
      by (simp only: True if_True not_True_eq_False quiet) (intro conjI closed refl)
  next
    case False
    show ?thesis unfolding stop[symmetric] ingest_run_def ingest_end_def
      by (simp only: False if_False not_False_eq_True early) (intro conjI closed TrueI)
  qed
qed

end
