(* ===== verification/Capture_Evidence.thy ===== *)
theory Capture_Evidence
  imports Js_Values
begin

text \<open>
  How Core orders the capture evidence of one executor (\<open>packages/db/src/capture-evidence-order.ts\<close>):
  positions in the executor's own history, when a status replaces the one on record, and the set
  of answers that still say the work is not saved.
\<close>

section \<open>Positions\<close>

record executor_origin =
  eo_epoch :: int
  eo_launch :: string
  eo_bootId :: string
  eo_bootGeneration :: int
  eo_observation :: int
  eo_headN :: "int option"

datatype origin_order = Before | Same | After | Incomparable

definition is_plain_record :: "js \<Rightarrow> bool" where
  "is_plain_record v \<longleftrightarrow> isRecord v \<and> (case v of Arr _ \<Rightarrow> False | _ \<Rightarrow> True)"

definition executorOriginFromStored :: "js \<Rightarrow> executor_origin option" where
  "executorOriginFromStored stored =
     (if \<not> is_plain_record stored then None
      else case (get stored ''epoch'', get stored ''launch'', get stored ''bootId'',
                 get stored ''bootGeneration'', get stored ''observation'') of
        (Num epoch, Str launch, Str bootId, Num bootGeneration, Num observation) \<Rightarrow>
          if length launch = 0 \<or> length bootId = 0 then None
          else Some \<lparr>eo_epoch = epoch, eo_launch = launch, eo_bootId = bootId,
                 eo_bootGeneration = bootGeneration, eo_observation = observation,
                 eo_headN = (case get stored ''headN'' of Num n \<Rightarrow> Some n | _ \<Rightarrow> None)\<rparr>
      | _ \<Rightarrow> None)"

definition orderNumbers :: "int \<Rightarrow> int \<Rightarrow> origin_order" where
  "orderNumbers a b = (if a < b then Before else if a > b then After else Same)"

definition compareExecutorOrigins :: "executor_origin option \<Rightarrow> executor_origin option \<Rightarrow> origin_order" where
  "compareExecutorOrigins x y =
     (case (x, y) of
        (Some a, Some b) \<Rightarrow>
          if eo_epoch a \<noteq> eo_epoch b \<or> eo_launch a \<noteq> eo_launch b then Incomparable
          else if eo_bootId a = eo_bootId b then
            (let byObservation = orderNumbers (eo_observation a) (eo_observation b) in
             if byObservation = Same \<and> eo_headN a \<noteq> None \<and> eo_headN b \<noteq> None \<and> eo_headN a \<noteq> eo_headN b
             then Incomparable else byObservation)
          else if eo_bootGeneration a > 0 \<and> eo_bootGeneration b > 0 \<and> eo_bootGeneration a \<noteq> eo_bootGeneration b
          then orderNumbers (eo_bootGeneration a) (eo_bootGeneration b)
          else Incomparable
      | _ \<Rightarrow> Incomparable)"

section \<open>Statuses\<close>

definition storedStatusComplete :: "js \<Rightarrow> bool" where
  "storedStatusComplete stored \<longleftrightarrow>
     is_plain_record stored \<and> get stored ''complete'' = Bool True \<and> get stored ''incompleteReason'' = Undef"

definition storedStatusOrigin :: "js \<Rightarrow> executor_origin option" where
  "storedStatusOrigin stored =
     (if is_plain_record stored then executorOriginFromStored (get stored ''origin'') else None)"

definition compare_statuses :: "js \<Rightarrow> js \<Rightarrow> origin_order" where
  "compare_statuses a b = compareExecutorOrigins (storedStatusOrigin a) (storedStatusOrigin b)"

definition statusSupersedes :: "js \<Rightarrow> js \<Rightarrow> bool \<Rightarrow> bool" where
  "statusSupersedes stored incoming causallyAfter =
     (if stored = Undef \<or> stored = Null then True
      else
        let order = compare_statuses incoming stored in
        if order = After \<or> order = Same then True
        else if order = Before \<and> \<not> causallyAfter then False
        else if order = Incomparable \<and> causallyAfter then True
        else \<not> storedStatusComplete incoming \<or> storedStatusComplete stored)"

record observation =
  ob_status :: js
  ob_recordedAt :: "int option"

text \<open>\<open>askedAt !== null && (recordedAt === null || askedAt > recordedAt)\<close>.\<close>

definition asked_after :: "int option \<Rightarrow> int option \<Rightarrow> bool" where
  "asked_after askedAt recordedAt =
     (case askedAt of None \<Rightarrow> False
      | Some a \<Rightarrow> (case recordedAt of None \<Rightarrow> True | Some r \<Rightarrow> a > r))"

definition answerCovers :: "js \<Rightarrow> int option \<Rightarrow> js \<Rightarrow> int option \<Rightarrow> bool" where
  "answerCovers answer askedAt recorded recordedAt =
     (let order = compare_statuses answer recorded in
      if order = After \<or> order = Same then True
      else order = Incomparable \<and> asked_after askedAt recordedAt)"

definition is_stale :: "observation list \<Rightarrow> js \<Rightarrow> int option \<Rightarrow> bool" where
  "is_stale known incoming askedAt =
     list_ex (\<lambda>answer. let order = compare_statuses incoming (ob_status answer) in
       order = Same \<or> (order = Before \<and> \<not> asked_after askedAt (ob_recordedAt answer))) known"

definition nextUnsavedObservations ::
  "observation list \<Rightarrow> js \<Rightarrow> int option \<Rightarrow> js \<Rightarrow> int option \<Rightarrow> int \<Rightarrow> observation list"
where
  "nextUnsavedObservations unsaved stored storedRecordedAt incoming askedAt recordedAt =
     (let known = (if is_plain_record stored then [\<lparr>ob_status = stored, ob_recordedAt = storedRecordedAt\<rparr>] else [])
            @ unsaved in
      if is_stale known incoming askedAt then unsaved
      else
        let kept = filter (\<lambda>m. \<not> answerCovers incoming askedAt (ob_status m) (ob_recordedAt m)) unsaved in
        if storedStatusComplete incoming then kept
        else kept @ [\<lparr>ob_status = incoming, ob_recordedAt = Some recordedAt\<rparr>])"

section \<open>Positions are ordered\<close>

fun flip_order :: "origin_order \<Rightarrow> origin_order" where
  "flip_order Before = After" | "flip_order After = Before" | "flip_order o1 = o1"

text \<open>One boot has one generation.\<close>

definition one_generation :: "executor_origin \<Rightarrow> executor_origin \<Rightarrow> bool" where
  "one_generation a b \<longleftrightarrow> (eo_bootId a = eo_bootId b \<longrightarrow> eo_bootGeneration a = eo_bootGeneration b)"

lemma compare_after:
  "compareExecutorOrigins (Some a) (Some b) = After \<longleftrightarrow>
     eo_epoch a = eo_epoch b \<and> eo_launch a = eo_launch b \<and>
     (if eo_bootId a = eo_bootId b then eo_observation b < eo_observation a
      else 0 < eo_bootGeneration b \<and> eo_bootGeneration b < eo_bootGeneration a)"
  by (cases "eo_epoch a = eo_epoch b \<and> eo_launch a = eo_launch b"; cases "eo_bootId a = eo_bootId b")
    (auto simp: compareExecutorOrigins_def orderNumbers_def Let_def)

lemma compare_flip:
  "compareExecutorOrigins y x = flip_order (compareExecutorOrigins x y)"
  by (cases x; cases y) (auto simp: compareExecutorOrigins_def orderNumbers_def Let_def)

text \<open>Positions are ordered consistently. Swapping two answers swaps the order, an answer is
  never after itself, and "after" is transitive over the boots of a disk, given that one daemon
  process has one generation.\<close>

lemma origin_order_is_partial:
  assumes "one_generation a b" "one_generation b c" "one_generation a c"
  shows "compareExecutorOrigins (Some b) (Some a) = flip_order (compareExecutorOrigins (Some a) (Some b)) \<and>
    compareExecutorOrigins (Some a) (Some a) = Same \<and>
    (compareExecutorOrigins (Some a) (Some b) = After \<longrightarrow> compareExecutorOrigins (Some b) (Some c) = After \<longrightarrow>
       compareExecutorOrigins (Some a) (Some c) = After)"
proof (intro conjI impI)
  show "compareExecutorOrigins (Some a) (Some a) = Same"
    by (simp add: compareExecutorOrigins_def orderNumbers_def Let_def)
  assume "compareExecutorOrigins (Some a) (Some b) = After" "compareExecutorOrigins (Some b) (Some c) = After"
  then show "compareExecutorOrigins (Some a) (Some c) = After"
    using assms unfolding compare_after one_generation_def by (auto split: if_splits)
qed (rule compare_flip)

section \<open>What is on record\<close>

definition record_status :: "js \<Rightarrow> js \<Rightarrow> bool \<Rightarrow> js" where
  "record_status stored incoming causallyAfter = (if statusSupersedes stored incoming causallyAfter then incoming else stored)"

text \<open>Unordered evidence fails closed. What is on record after an answer reads saved only if the
  answer whose position or request is the later one reads saved, or both do: an incomplete answer
  already on record is never replaced by a complete one that nothing puts after it.\<close>

lemma unordered_evidence_fails_closed:
  assumes "stored \<noteq> Undef" "stored \<noteq> Null"
    and "storedStatusComplete (record_status stored incoming causallyAfter)"
  shows "(storedStatusComplete stored \<and> storedStatusComplete incoming) \<or>
    (storedStatusComplete incoming \<and>
       (compare_statuses incoming stored \<in> {After, Same} \<or>
        (compare_statuses incoming stored = Incomparable \<and> causallyAfter))) \<or>
    (storedStatusComplete stored \<and> compare_statuses incoming stored = Before \<and> \<not> causallyAfter)"
  using assms by (cases "compare_statuses incoming stored")
    (auto simp: record_status_def statusSupersedes_def Let_def split: if_splits)

section \<open>The unsaved answers\<close>

text \<open>One answer as it is recorded, with the status on record at that moment.\<close>

record answer =
  an_stored :: js
  an_storedAt :: "int option"
  an_incoming :: js
  an_askedAt :: "int option"
  an_recordedAt :: int

definition record_answer :: "answer \<Rightarrow> observation list \<Rightarrow> observation list" where
  "record_answer a unsaved =
     nextUnsavedObservations unsaved (an_stored a) (an_storedAt a) (an_incoming a) (an_askedAt a) (an_recordedAt a)"

definition known_answers :: "answer \<Rightarrow> observation list \<Rightarrow> observation list" where
  "known_answers a unsaved =
     (if is_plain_record (an_stored a) then [\<lparr>ob_status = an_stored a, ob_recordedAt = an_storedAt a\<rparr>] else []) @ unsaved"

definition observation_of :: "answer \<Rightarrow> observation" where
  "observation_of a = \<lparr>ob_status = an_incoming a, ob_recordedAt = Some (an_recordedAt a)\<rparr>"

definition covers :: "answer \<Rightarrow> observation \<Rightarrow> bool" where
  "covers a m = answerCovers (an_incoming a) (an_askedAt a) (ob_status m) (ob_recordedAt m)"

lemma record_answer_cases:
  "record_answer a unsaved =
     (if is_stale (known_answers a unsaved) (an_incoming a) (an_askedAt a) then unsaved
      else filter (\<lambda>m. \<not> covers a m) unsaved @ (if storedStatusComplete (an_incoming a) then [] else [observation_of a]))"
  by (simp add: record_answer_def nextUnsavedObservations_def known_answers_def observation_of_def covers_def Let_def)

lemma member_survives:
  "m \<in> set unsaved \<Longrightarrow> \<forall>a \<in> set answers. \<not> covers a m \<Longrightarrow> m \<in> set (fold record_answer answers unsaved)"
  by (induction answers arbitrary: unsaved) (auto simp: record_answer_cases)

text \<open>An unsaved answer leaves the record only when a later answer covers it. Whatever else is
  recorded in between and in whatever order, when nothing unsaved is left at the end then every
  answer that said the work was not saved is covered by one recorded after it, unless an answer
  already known when it came had a position at or after its own.\<close>

lemma saved_only_when_covered:
  assumes "fold record_answer (earlier @ a # later) [] = []" "\<not> storedStatusComplete (an_incoming a)"
    and "\<not> is_stale (known_answers a (fold record_answer earlier [])) (an_incoming a) (an_askedAt a)"
  shows "\<exists>b \<in> set later. covers b (observation_of a)"
proof (rule ccontr)
  assume "\<not> ?thesis"
  moreover have "observation_of a \<in> set (record_answer a (fold record_answer earlier []))"
    using assms(2,3) by (simp add: record_answer_cases)
  ultimately have "observation_of a \<in> set (fold record_answer later (record_answer a (fold record_answer earlier [])))"
    by (intro member_survives) auto
  then show False using assms(1) by simp
qed

text \<open>The unsaved answers form an antichain: none of them covers an earlier one by its position,
  so no answer that says the work is not saved is kept twice or beside one that supersedes it.\<close>

lemma unsaved_is_antichain:
  "sorted_wrt (\<lambda>m n. compare_statuses (ob_status n) (ob_status m) \<notin> {After, Same}) (fold record_answer answers [])"
proof (induction answers rule: rev_induct)
  case (snoc a answers)
  let ?u = "fold record_answer answers []"
  have "compare_statuses (an_incoming a) (ob_status m) \<notin> {After, Same}" if "\<not> covers a m" for m
    using that by (auto simp: covers_def answerCovers_def Let_def)
  then show ?case
    using snoc.IH by (auto simp: record_answer_cases sorted_wrt_append sorted_wrt_filter observation_of_def)
qed simp

definition status_at :: "int \<Rightarrow> string \<Rightarrow> bool \<Rightarrow> js" where
  "status_at observation boot complete = Obj [(''complete'', Bool complete), (''origin'', Obj [(''epoch'', Num 1),
     (''launch'', Str ''l''), (''bootId'', Str boot), (''bootGeneration'', Num 0), (''observation'', Num observation)])]"

end
