(* ===== verification/Executor_Preservation.thy ===== *)
theory Executor_Preservation
  imports Capture_Evidence
begin

text \<open>
  The one policy for deleting an executor (\<open>packages/workspaces/src/runtime/executor-preservation.ts\<close>):
  what evidence lets it go, and when the control plane's attestation of a sealed final capture
  counts against what Core itself observed.
\<close>

section \<open>The decision\<close>

datatype runtime_state = Rt_running | Rt_exited | Rt_missing | Rt_unknown

text \<open>An optional boolean of the evidence counts only when it is \<open>true\<close>.\<close>

record deletion_evidence =
  de_captureSourced :: bool
  de_runtime :: runtime_state
  de_observedComplete :: bool
  de_attestedComplete :: bool
  de_drainedNow :: bool
  de_discarded :: bool
  de_ledgerUnreadable :: bool

datatype deletion_basis =
  Not_capture | Missing | Observed_complete | Attested_complete | Discarded | Nothing_to_save | Issued_before

datatype deletion_decision = Delete deletion_basis | Keep string

definition has_ended :: "runtime_state \<Rightarrow> bool" where
  "has_ended rt \<longleftrightarrow> rt = Rt_exited \<or> rt = Rt_missing"

definition decideExecutorDeletion :: "deletion_evidence \<Rightarrow> deletion_decision" where
  "decideExecutorDeletion e =
     (if \<not> de_captureSourced e then Delete Not_capture
      else if de_discarded e then Delete Discarded
      else if de_drainedNow e then Delete Observed_complete
      else if has_ended (de_runtime e) \<and> de_observedComplete e then Delete Observed_complete
      else if has_ended (de_runtime e) \<and> de_attestedComplete e then Delete Attested_complete
      else if de_runtime e = Rt_missing then Delete Missing
      else
        let unknownLedger = (if de_ledgerUnreadable e then ''; its drain record could not be read'' else '''') in
        Keep ((case de_runtime e of
            Rt_running \<Rightarrow> ''the executor is running and its work is not confirmed saved by a drain of it''
          | Rt_exited \<Rightarrow> ''the executor ended and its disk holds work not confirmed saved (no complete final flush observed, attested or discarded)''
          | _ \<Rightarrow> ''the runtime cannot say whether the executor or its disk remains'') @ unknownLedger))"

text \<open>What lets a capture-sourced executor go, and nothing else.\<close>

definition may_go :: "deletion_evidence \<Rightarrow> bool" where
  "may_go e \<longleftrightarrow> de_discarded e \<or> de_drainedNow e \<or> de_runtime e = Rt_missing \<or>
     (de_runtime e = Rt_exited \<and> (de_observedComplete e \<or> de_attestedComplete e))"

lemma deleted_iff_may_go:
  "(\<exists>b. decideExecutorDeletion e = Delete b) \<longleftrightarrow> \<not> de_captureSourced e \<or> may_go e"
  by (cases "de_runtime e") (auto simp: decideExecutorDeletion_def may_go_def has_ended_def Let_def)

lemma decide_basis:
  assumes "decideExecutorDeletion e = Delete b"
  shows "case b of
      Not_capture \<Rightarrow> \<not> de_captureSourced e
    | Missing \<Rightarrow> de_runtime e = Rt_missing
    | Observed_complete \<Rightarrow> de_drainedNow e \<or> de_observedComplete e
    | Attested_complete \<Rightarrow> has_ended (de_runtime e) \<and> de_attestedComplete e
    | Discarded \<Rightarrow> de_discarded e
    | _ \<Rightarrow> False"
  using assms by (auto simp: decideExecutorDeletion_def Let_def split: if_splits)

section \<open>An attestation against what Core observed\<close>

record completion_attestation =
  ca_executorId :: string
  ca_epoch :: int
  ca_captureN :: int
  ca_sealedAtMs :: "int option"
  ca_origin :: "executor_origin option"

record executor_identity =
  xi_runId :: string
  xi_resourceId :: "string option"
  xi_reference :: "string option"

record capture_reading =
  cr_epoch :: int
  cr_headN :: "int option"
  cr_complete :: bool
  cr_incompleteReason :: "string option"
  cr_atMs :: "int option"
  cr_origin :: "executor_origin option"

datatype observed_capture = Readable capture_reading | Unreadable

definition observedCaptureFromStored :: "js \<Rightarrow> int option \<Rightarrow> observed_capture option" where
  "observedCaptureFromStored stored atMs =
     (if stored = Null \<or> stored = Undef then None
      else case get stored ''epoch'' of
        Num epoch \<Rightarrow> Some (Readable
          \<lparr>cr_epoch = epoch,
           cr_headN = (case get stored ''headN'' of Num n \<Rightarrow> Some n | _ \<Rightarrow> None),
           cr_complete = (get stored ''complete'' = Bool True \<and> get stored ''incompleteReason'' = Undef),
           cr_incompleteReason = asString (get stored ''incompleteReason''),
           cr_atMs = atMs,
           cr_origin = storedStatusOrigin stored\<rparr>)
      | _ \<Rightarrow> Some Unreadable)"

datatype coverage = Covers | Not_covering string

text \<open>The identifiers of an executor that are known and not empty.\<close>

definition executor_ids :: "executor_identity \<Rightarrow> string list" where
  "executor_ids x = filter (\<lambda>i. i \<noteq> []) (xi_runId x # List.map_filter id [xi_resourceId x, xi_reference x])"

definition attestationCoversExecutor ::
  "completion_attestation \<Rightarrow> executor_identity \<Rightarrow> observed_capture option \<Rightarrow> coverage"
where
  "attestationCoversExecutor a x observed =
     (let ids = executor_ids x; n = show_int (ca_captureN a) in
      if ca_executorId a \<notin> set ids then
        Not_covering (''the attestation names executor '' @ ca_executorId a @ '', not this run's executor ('' @ join '', '' ids @ '')'')
      else case observed of
        None \<Rightarrow> Covers
      | Some Unreadable \<Rightarrow> Not_covering ''Core's last observation of the executor's daemon cannot be read, so the attestation cannot be shown to follow it''
      | Some (Readable seen) \<Rightarrow>
          if ca_epoch a < cr_epoch seen then
            Not_covering (''the attestation is for epoch '' @ show_int (ca_epoch a) @ '', older than epoch '' @ show_int (cr_epoch seen) @ '' the executor last reported'')
          else if ca_epoch a > cr_epoch seen then Covers
          else if (case cr_headN seen of Some h \<Rightarrow> h > ca_captureN a | None \<Rightarrow> False) then
            Not_covering (''the executor last reported capture '' @ show_int (the (cr_headN seen)) @ '', past the attested capture '' @ n @ '': the seal does not cover what came after it'')
          else if cr_complete seen then Covers
          else if (case cr_headN seen of Some h \<Rightarrow> h < ca_captureN a | None \<Rightarrow> False) then Covers
          else
            let said = ''not saved'' @ (case cr_incompleteReason seen of None \<Rightarrow> '''' | Some why \<Rightarrow> '' ('' @ why @ '')'');
                order = compareExecutorOrigins (cr_origin seen) (ca_origin a)
            in if order = Before then Covers
               else Not_covering
                 (if order = Incomparable then
                    ''the executor last reported its work '' @ said @ '' at capture '' @
                    (case cr_headN seen of Some h \<Rightarrow> show_int h | None \<Rightarrow> ''unknown'') @
                    '', and nothing in the executor's own history (its origin position) shows the seal of capture '' @ n @ '' came after that''
                  else ''the executor reported its work '' @ said @ '' at or after the seal of capture '' @ n @
                    '', by its own history: a newer observation revokes an older seal''))"

fun attestationCoversAll ::
  "completion_attestation \<Rightarrow> executor_identity \<Rightarrow> observed_capture option list \<Rightarrow> coverage"
where
  "attestationCoversAll a x [] = Covers"
| "attestationCoversAll a x (each # rest) =
     (case attestationCoversExecutor a x each of
        Covers \<Rightarrow> attestationCoversAll a x rest
      | Not_covering why \<Rightarrow> Not_covering why)"

definition attestationCoversObservations ::
  "completion_attestation \<Rightarrow> executor_identity \<Rightarrow> observed_capture option \<Rightarrow> observed_capture option list \<Rightarrow> coverage"
where
  "attestationCoversObservations a x observed unsaved = attestationCoversAll a x (observed # unsaved)"

lemma covers_all_iff:
  "attestationCoversAll a x seen = Covers \<longleftrightarrow> (\<forall>each \<in> set seen. attestationCoversExecutor a x each = Covers)"
  by (induction seen) (auto split: coverage.splits)

text \<open>When the seal stands over one observation: it names the executor, and what Core read is of an
  earlier lease, or of the same lease and no later capture, and then either says saved, or was made
  before the sealed capture existed, or is before the seal in the executor's own history.\<close>

definition seal_stands :: "completion_attestation \<Rightarrow> executor_identity \<Rightarrow> capture_reading \<Rightarrow> bool" where
  "seal_stands a x seen \<longleftrightarrow>
     ca_executorId a \<in> set (executor_ids x) \<and>
     (cr_epoch seen < ca_epoch a \<or>
      cr_epoch seen = ca_epoch a \<and> (\<forall>h. cr_headN seen = Some h \<longrightarrow> h \<le> ca_captureN a) \<and>
        (cr_complete seen \<or> (\<exists>h. cr_headN seen = Some h \<and> h < ca_captureN a) \<or>
         compareExecutorOrigins (cr_origin seen) (ca_origin a) = Before))"

lemma covers_iff_seal_stands:
  "attestationCoversExecutor a x (Some (Readable seen)) = Covers \<longleftrightarrow> seal_stands a x seen"
  by (cases "cr_headN seen") (auto simp: attestationCoversExecutor_def seal_stands_def Let_def)

lemma unreadable_not_covered: "attestationCoversExecutor a x (Some Unreadable) \<noteq> Covers"
  by (simp add: attestationCoversExecutor_def Let_def)

end
