(* ===== verification/Capture_Ledger.thy ===== *)
theory Capture_Ledger
  imports Executor_Preservation "HOL-Library.AList"
begin

text \<open>
  The row Core keeps of one run's executor (\<open>workspace_capture_drains\<close>) and every operation of its
  repository (\<open>packages/db/src/repositories/workspace-capture-drains.ts\<close>): the drain lease, the
  evidence (statuses, observations in flight, the attestation) and its version, the removal as an
  owned transition, retention and recovery claims. An operation takes the run's row, \<^const>\<open>None\<close>
  when there is none, under its lock and at one instant of the database's clock (microseconds).
\<close>

section \<open>The row\<close>

datatype drain_state = Ds_draining | Ds_kept | Ds_saved | Ds_gone | Ds_stop_failed | Ds_stopped | Ds_discarded

record drain_progress =
  dp_state :: "drain_state option"
  dp_detail :: "string option"
  dp_lastProgressAt :: "int option"
  dp_unreachableSince :: "int option"
  dp_keptLogged :: bool
  dp_silentLogged :: bool
  dp_observedAt :: "int option"

record fence =
  fc_openedAt :: int
  fc_expiresAt :: int

text \<open>The completion columns, which only an attestation writes, all at once.\<close>

record completion =
  cm_executorId :: string
  cm_epoch :: int
  cm_captureN :: int
  cm_attestedAt :: int
  cm_attestedBy :: string
  cm_launchId :: "string option"
  cm_sealedAt :: "int option"
  cm_origin :: js

record evidence =
  ev_lastStatus :: js
  ev_lastStatusAt :: "int option"
  ev_recordedAt :: "int option"
  ev_unsaved :: "observation list"
  ev_fences :: "(string \<times> fence) list"
  ev_completion :: "completion option"

datatype removal_state = Deleting | Deleting_issued | Deleted

datatype request_outcome = Rq_unknown | Rq_refused | Rq_done | Rq_fenced

record removal_request =
  rq_id :: string
  rq_issuedAt :: int
  rq_outcome :: request_outcome

record removal =
  rm_state :: "removal_state option"
  rm_token :: "string option"
  rm_evidenceVersion :: "int option"
  rm_authorizedAt :: "int option"
  rm_expiresAt :: "int option"
  rm_issuedAt :: "int option"
  rm_requests :: "removal_request list"

record retention =
  rt_retainedAt :: "int option"
  rt_reason :: "string option"
  rt_attempts :: int
  rt_nextAt :: "int option"
  rt_lastError :: "string option"

text \<open>The schedule of the deadline sweep; its columns are only stored.\<close>

record drain_schedule =
  sc_startsAt :: "int option"
  sc_bytesPerSecond :: js
  sc_sampleBytes :: js
  sc_sampledAt :: "int option"
  sc_samplePendingBytes :: js

datatype desired = Preserve | Recover | Discard

record drain_row =
  dr_leaseOwner :: "string option"
  dr_leaseExpiresAt :: "int option"
  dr_progress :: drain_progress
  dr_evidence :: evidence
  dr_version :: int
  dr_removal :: removal
  dr_retention :: retention
  dr_claimToken :: "string option"
  dr_claimUntil :: "int option"
  dr_schedule :: drain_schedule
  dr_discardRequestedAt :: "int option"
  dr_discardRequestedBy :: "string option"
  dr_captureToken :: "string option"
  dr_custodyContract :: "int option"
  dr_desired :: desired
  dr_custodyRevision :: int

definition NO_DELETION :: removal where
  "NO_DELETION = \<lparr>rm_state = None, rm_token = None, rm_evidenceVersion = None, rm_authorizedAt = None,
     rm_expiresAt = None, rm_issuedAt = None, rm_requests = []\<rparr>"

text \<open>A row as inserted with its run id alone.\<close>

definition fresh_row :: drain_row where
  "fresh_row =
     \<lparr>dr_leaseOwner = None, dr_leaseExpiresAt = None,
      dr_progress = \<lparr>dp_state = None, dp_detail = None, dp_lastProgressAt = None, dp_unreachableSince = None,
        dp_keptLogged = False, dp_silentLogged = False, dp_observedAt = None\<rparr>,
      dr_evidence = \<lparr>ev_lastStatus = Null, ev_lastStatusAt = None, ev_recordedAt = None, ev_unsaved = [],
        ev_fences = [], ev_completion = None\<rparr>,
      dr_version = 0, dr_removal = NO_DELETION,
      dr_retention = \<lparr>rt_retainedAt = None, rt_reason = None, rt_attempts = 0, rt_nextAt = None, rt_lastError = None\<rparr>,
      dr_claimToken = None, dr_claimUntil = None,
      dr_schedule = \<lparr>sc_startsAt = None, sc_bytesPerSecond = Null, sc_sampleBytes = Null, sc_sampledAt = None,
        sc_samplePendingBytes = Null\<rparr>,
      dr_discardRequestedAt = None, dr_discardRequestedBy = None, dr_captureToken = None,
      dr_custodyContract = None, dr_desired = Preserve, dr_custodyRevision = 0\<rparr>"

text \<open>Insert on conflict do nothing, then select: the row there is.\<close>

definition row_or_fresh :: "drain_row option \<Rightarrow> drain_row" where
  "row_or_fresh row = (case row of Some r \<Rightarrow> r | None \<Rightarrow> fresh_row)"

section \<open>Instants\<close>

definition leaseExpiry :: "int \<Rightarrow> int \<Rightarrow> int" where
  "leaseExpiry now leaseMs = now + max 0 leaseMs * 1000"

text \<open>\<open>coalesce(t > now(), false)\<close> and \<open>t is null or t <= now()\<close>.\<close>

definition in_future :: "int \<Rightarrow> int option \<Rightarrow> bool" where
  "in_future now t = (case t of Some e \<Rightarrow> e > now | None \<Rightarrow> False)"

definition removal_live :: "int \<Rightarrow> drain_row \<Rightarrow> bool" where
  "removal_live now r = in_future now (rm_expiresAt (dr_removal r))"

definition claim_live :: "int \<Rightarrow> drain_row \<Rightarrow> bool" where
  "claim_live now r = in_future now (dr_claimUntil r)"

text \<open>A value given replaces the column, one not given leaves it.\<close>

definition given :: "'a option \<Rightarrow> 'a \<Rightarrow> 'a" where
  "given new old = (case new of Some x \<Rightarrow> x | None \<Rightarrow> old)"

section \<open>The drain lease\<close>

definition claimLease :: "string \<Rightarrow> int \<Rightarrow> int \<Rightarrow> drain_row option \<Rightarrow> drain_row option \<times> drain_row option" where
  "claimLease owner leaseMs now row =
     (case row of
        None \<Rightarrow> let r = fresh_row\<lparr>dr_leaseOwner := Some owner, dr_leaseExpiresAt := Some (leaseExpiry now leaseMs)\<rparr>
          in (Some r, Some r)
      | Some r \<Rightarrow>
          if dr_leaseOwner r = None \<or> \<not> in_future now (dr_leaseExpiresAt r) \<or> dr_leaseOwner r = Some owner
          then let r' = r\<lparr>dr_leaseOwner := Some owner, dr_leaseExpiresAt := Some (leaseExpiry now leaseMs)\<rparr>
            in (Some r', Some r')
          else (None, row))"

record progress_input =
  pi_state :: "drain_state option"
  pi_detail :: "string option option"
  pi_lastProgressAt :: "int option option"
  pi_unreachableSince :: "int option option"
  pi_keptLogged :: "bool option"
  pi_silentLogged :: "bool option"
  pi_observedAt :: "int option"

definition progressColumns :: "progress_input \<Rightarrow> drain_progress \<Rightarrow> drain_progress" where
  "progressColumns p old =
     \<lparr>dp_state = (if pi_state p = None then dp_state old else pi_state p),
      dp_detail = given (pi_detail p) (dp_detail old),
      dp_lastProgressAt = given (pi_lastProgressAt p) (dp_lastProgressAt old),
      dp_unreachableSince = given (pi_unreachableSince p) (dp_unreachableSince old),
      dp_keptLogged = given (pi_keptLogged p) (dp_keptLogged old),
      dp_silentLogged = given (pi_silentLogged p) (dp_silentLogged old),
      dp_observedAt = (if pi_observedAt p = None then dp_observedAt old else pi_observedAt p)\<rparr>"

definition recordProgress ::
  "string \<Rightarrow> int \<Rightarrow> progress_input \<Rightarrow> int \<Rightarrow> drain_row option \<Rightarrow> drain_row option \<times> drain_row option"
where
  "recordProgress owner leaseMs progress now row =
     (case row of
        Some r \<Rightarrow>
          if dr_leaseOwner r = Some owner
          then let r' = r\<lparr>dr_progress := progressColumns progress (dr_progress r),
                          dr_leaseExpiresAt := Some (leaseExpiry now leaseMs)\<rparr>
            in (Some r', Some r')
          else (None, row)
      | None \<Rightarrow> (None, None))"

definition releaseLease :: "string \<Rightarrow> drain_row option \<Rightarrow> drain_row option" where
  "releaseLease owner row =
     map_option (\<lambda>r. if dr_leaseOwner r = Some owner then r\<lparr>dr_leaseOwner := None, dr_leaseExpiresAt := None\<rparr> else r) row"

text \<open>\<open>at\<close> is the process's clock. An end of the executor ends its retention.\<close>

definition ends_retention :: "drain_state \<Rightarrow> bool" where
  "ends_retention st \<longleftrightarrow> st = Ds_stopped \<or> st = Ds_discarded \<or> st = Ds_gone"

definition recordObservation :: "drain_state \<Rightarrow> string option \<Rightarrow> int \<Rightarrow> drain_row option \<Rightarrow> drain_row option" where
  "recordObservation st detail at row =
     (let r = row_or_fresh row;
          r' = r\<lparr>dr_progress := (dr_progress r)\<lparr>dp_state := Some st, dp_detail := detail, dp_observedAt := Some at\<rparr>\<rparr>
      in Some (if ends_retention st
               then r'\<lparr>dr_retention := (dr_retention r')\<lparr>rt_retainedAt := None, rt_nextAt := None\<rparr>, dr_captureToken := None\<rparr>
               else r'))"

section \<open>Observations\<close>

datatype open_reply = Opened int | Open_deleting | Open_deleted

definition openObservation :: "string \<Rightarrow> int \<Rightarrow> int \<Rightarrow> drain_row option \<Rightarrow> open_reply \<times> drain_row option" where
  "openObservation token ttlMs now row =
     (let r = row_or_fresh row; st = rm_state (dr_removal r) in
      if st = Some Deleted then (Open_deleted, Some r)
      else if st = Some Deleting_issued \<or> (st = Some Deleting \<and> removal_live now r) then (Open_deleting, Some r)
      else (Opened now, Some (r\<lparr>
        dr_evidence := (dr_evidence r)\<lparr>ev_fences := AList.update token
          \<lparr>fc_openedAt = now, fc_expiresAt = leaseExpiry now ttlMs\<rparr> (ev_fences (dr_evidence r))\<rparr>,
        dr_version := dr_version r + 1,
        dr_removal := (if st = Some Deleting then NO_DELETION else dr_removal r)\<rparr>)))"

definition closeObservation :: "string \<Rightarrow> drain_row option \<Rightarrow> drain_row option" where
  "closeObservation token row = map_option (\<lambda>r. r\<lparr>
     dr_evidence := (dr_evidence r)\<lparr>ev_fences := AList.delete token (ev_fences (dr_evidence r))\<rparr>,
     dr_version := dr_version r + 1\<rparr>) row"

definition endObservation :: "string \<Rightarrow> int \<Rightarrow> drain_row option \<Rightarrow> drain_row option" where
  "endObservation token now row = map_option (\<lambda>r.
     case map_of (ev_fences (dr_evidence r)) token of
       None \<Rightarrow> r
     | Some f \<Rightarrow> r\<lparr>
         dr_evidence := (dr_evidence r)\<lparr>ev_fences :=
           AList.update token (f\<lparr>fc_expiresAt := min (fc_expiresAt f) now\<rparr>) (ev_fences (dr_evidence r))\<rparr>,
         dr_version := dr_version r + 1\<rparr>) row"

text \<open>When the answer's request was sent: now without a fence, else when the fence was opened;
  unknown when the fence was resolved already.\<close>

definition asked_at :: "string option \<Rightarrow> int \<Rightarrow> (string \<times> fence) list \<Rightarrow> int option" where
  "asked_at fence now fences =
     (case fence of None \<Rightarrow> Some now | Some token \<Rightarrow> map_option fc_openedAt (map_of fences token))"

text \<open>What stays open after an answer: not its own fence, and not one that lapsed before it was opened.\<close>

definition remaining_fences :: "string option \<Rightarrow> int \<Rightarrow> (string \<times> fence) list \<Rightarrow> (string \<times> fence) list" where
  "remaining_fences fence now fences =
     (case fence of
        None \<Rightarrow> fences
      | Some token \<Rightarrow> filter (\<lambda>(key, f). key \<noteq> token \<and>
          (case asked_at fence now fences of Some openedAt \<Rightarrow> fc_expiresAt f \<ge> openedAt | None \<Rightarrow> True)) fences)"

definition causally_after :: "int option \<Rightarrow> int option \<Rightarrow> bool" where
  "causally_after askedAt recordedAt =
     (case recordedAt of None \<Rightarrow> True | Some t \<Rightarrow> (case askedAt of Some a \<Rightarrow> a > t | None \<Rightarrow> False))"

definition received :: "js \<Rightarrow> int \<Rightarrow> string option \<Rightarrow> int \<Rightarrow> evidence \<Rightarrow> bool \<times> evidence" where
  "received status observedAt fence now e =
     (let askedAt = asked_at fence now (ev_fences e);
          replaces = statusSupersedes (ev_lastStatus e) status (causally_after askedAt (ev_recordedAt e));
          e' = e\<lparr>ev_fences := remaining_fences fence now (ev_fences e),
                 ev_unsaved := nextUnsavedObservations (ev_unsaved e) (ev_lastStatus e) (ev_recordedAt e) status askedAt now\<rparr>
      in (replaces,
          if replaces then e'\<lparr>ev_lastStatus := status, ev_lastStatusAt := Some observedAt, ev_recordedAt := Some now\<rparr>
          else e'))"

definition recordStatus ::
  "js \<Rightarrow> int \<Rightarrow> string option \<Rightarrow> int \<Rightarrow> drain_row option \<Rightarrow> bool \<times> drain_row option"
where
  "recordStatus status observedAt fence now row =
     (let r = row_or_fresh row; (replaces, e) = received status observedAt fence now (dr_evidence r) in
      (replaces, Some (r\<lparr>dr_evidence := e, dr_version := dr_version r + 1,
         dr_removal := (if rm_state (dr_removal r) = Some Deleting then NO_DELETION else dr_removal r)\<rparr>)))"

definition attestCompletion :: "completion \<Rightarrow> drain_row option \<Rightarrow> drain_row option" where
  "attestCompletion c row =
     (case row of
        None \<Rightarrow> Some (fresh_row\<lparr>dr_evidence := (dr_evidence fresh_row)\<lparr>ev_completion := Some c\<rparr>\<rparr>)
      | Some r \<Rightarrow> Some (r\<lparr>dr_evidence := (dr_evidence r)\<lparr>ev_completion := Some c\<rparr>, dr_version := dr_version r + 1\<rparr>))"

section \<open>Removing the executor\<close>

definition deletionEvidenceCurrent :: "drain_row \<Rightarrow> bool" where
  "deletionEvidenceCurrent r \<longleftrightarrow>
     rm_evidenceVersion (dr_removal r) = Some (dr_version r) \<and> ev_fences (dr_evidence r) = []"

definition settleRequest :: "removal_request list \<Rightarrow> string \<Rightarrow> request_outcome \<Rightarrow> removal_request list" where
  "settleRequest requests token outcome =
     map (\<lambda>q. if rq_id q = token \<and> rq_outcome q = Rq_unknown then q\<lparr>rq_outcome := outcome\<rparr> else q) requests"

datatype authorize_reply = Authorized | Changed | Held | Unresolved | Recovering | Was_deleted

definition authorizeDeletion ::
  "int \<Rightarrow> string \<Rightarrow> int \<Rightarrow> string option \<Rightarrow> int \<Rightarrow> drain_row option \<Rightarrow> authorize_reply \<times> drain_row option"
where
  "authorizeDeletion version token leaseMs recoveryToken now row =
     (case row of
        None \<Rightarrow> (Changed, None)
      | Some r \<Rightarrow>
          let rm = dr_removal r in
          if rm_state rm = Some Deleted then (Was_deleted, row)
          else if rm_state rm = Some Deleting_issued then (if removal_live now r then Held else Unresolved, row)
          else if claim_live now r \<and> dr_claimToken r \<noteq> recoveryToken then (Recovering, row)
          else if rm_state rm = Some Deleting \<and> removal_live now r \<and> rm_token rm \<noteq> Some token then (Held, row)
          else if dr_version r \<noteq> version \<or> ev_fences (dr_evidence r) \<noteq> [] then (Changed, row)
          else (Authorized, Some (r\<lparr>dr_removal :=
            \<lparr>rm_state = Some Deleting, rm_token = Some token, rm_evidenceVersion = Some version,
             rm_authorizedAt = Some now, rm_expiresAt = Some (leaseExpiry now leaseMs), rm_issuedAt = None,
             rm_requests = []\<rparr>\<rparr>)))"

definition confirmDeletion :: "string \<Rightarrow> int \<Rightarrow> int \<Rightarrow> drain_row option \<Rightarrow> bool \<times> drain_row option" where
  "confirmDeletion token leaseMs now row =
     (case row of
        None \<Rightarrow> (False, None)
      | Some r \<Rightarrow>
          let rm = dr_removal r in
          if rm_token rm \<noteq> Some token then (False, row)
          else if rm_state rm \<noteq> Some Deleting_issued \<and> \<not> (rm_state rm = Some Deleting \<and> deletionEvidenceCurrent r)
          then (False, row)
          else (True, Some (r\<lparr>dr_removal := rm\<lparr>rm_expiresAt := Some (leaseExpiry now leaseMs)\<rparr>\<rparr>)))"

definition issueDeletion :: "string \<Rightarrow> int \<Rightarrow> int \<Rightarrow> drain_row option \<Rightarrow> bool \<times> drain_row option" where
  "issueDeletion token leaseMs now row =
     (case row of
        None \<Rightarrow> (False, None)
      | Some r \<Rightarrow>
          let rm = dr_removal r in
          if rm_token rm \<noteq> Some token then (False, row)
          else if rm_state rm \<noteq> Some Deleting \<and> rm_state rm \<noteq> Some Deleting_issued then (False, row)
          else if \<not> deletionEvidenceCurrent r then
            (False, if rm_state rm = Some Deleting_issued
                    then Some (r\<lparr>dr_removal := rm\<lparr>rm_expiresAt := Some now\<rparr>\<rparr>) else row)
          else if list_ex (\<lambda>q. rq_id q = token) (rm_requests rm) then (False, row)
          else (True, Some (r\<lparr>dr_removal := rm\<lparr>
            rm_state := Some Deleting_issued, rm_expiresAt := Some (leaseExpiry now leaseMs), rm_issuedAt := Some now,
            rm_requests := rm_requests rm @ [\<lparr>rq_id = token, rq_issuedAt = now, rq_outcome = Rq_unknown\<rparr>]\<rparr>\<rparr>)))"

text \<open>The runtime's bound on a removal request has passed since the removal was last issued and since
  every request of unknown outcome was sent.\<close>

definition fence_passed :: "int option \<Rightarrow> int \<Rightarrow> removal \<Rightarrow> bool" where
  "fence_passed fenceMs now rm =
     (case fenceMs of
        None \<Rightarrow> False
      | Some ms \<Rightarrow>
          (case rm_issuedAt rm of Some t \<Rightarrow> leaseExpiry t ms \<le> now | None \<Rightarrow> False) \<and>
          \<not> list_ex (\<lambda>q. rq_outcome q = Rq_unknown \<and> leaseExpiry (rq_issuedAt q) ms > now) (rm_requests rm))"

datatype reconcile_reply = Rc_deleted | Rc_reissue | Rc_released | Rc_outstanding | Rc_held | Rc_none

definition reconcileIssuedDeletion ::
  "bool \<Rightarrow> string \<Rightarrow> int \<Rightarrow> int option \<Rightarrow> int \<Rightarrow> drain_row option \<Rightarrow> reconcile_reply \<times> drain_row option"
where
  "reconcileIssuedDeletion gone token leaseMs fenceMs now row =
     (case row of
        None \<Rightarrow> (Rc_none, None)
      | Some r \<Rightarrow>
          let rm = dr_removal r in
          if rm_state rm = Some Deleted then (Rc_deleted, row)
          else if rm_state rm \<noteq> Some Deleting_issued then (Rc_none, row)
          else if removal_live now r then (Rc_held, row)
          else if gone then
            (Rc_deleted, Some (r\<lparr>dr_removal := rm\<lparr>rm_state := Some Deleted, rm_expiresAt := None\<rparr>, dr_version := dr_version r + 1\<rparr>))
          else if deletionEvidenceCurrent r then
            (Rc_reissue, Some (r\<lparr>dr_removal := rm\<lparr>rm_token := Some token, rm_expiresAt := Some (leaseExpiry now leaseMs)\<rparr>\<rparr>))
          else if \<not> fence_passed fenceMs now rm then (Rc_outstanding, row)
          else (Rc_released, Some (r\<lparr>
            dr_removal := NO_DELETION\<lparr>rm_requests := map (\<lambda>q. if rq_outcome q = Rq_unknown
              then q\<lparr>rq_outcome := Rq_fenced\<rparr> else q) (rm_requests rm)\<rparr>,
            dr_version := dr_version r + 1\<rparr>)))"

definition completeDeletion :: "string \<Rightarrow> drain_row option \<Rightarrow> bool \<times> drain_row option" where
  "completeDeletion token row =
     (case row of
        None \<Rightarrow> (False, None)
      | Some r \<Rightarrow>
          let rm = dr_removal r in
          ((rm_state rm = Some Deleting \<or> rm_state rm = Some Deleting_issued) \<and> rm_token rm = Some token,
           Some (r\<lparr>dr_removal := rm\<lparr>rm_state := Some Deleted, rm_token := Some token, rm_expiresAt := None,
               rm_requests := settleRequest (rm_requests rm) token Rq_done\<rparr>,
             dr_version := dr_version r + 1\<rparr>)))"

definition releaseDeletion :: "string \<Rightarrow> int \<Rightarrow> drain_row option \<Rightarrow> drain_row option" where
  "releaseDeletion token now row =
     map_option (\<lambda>r.
       let rm = dr_removal r; requests = settleRequest (rm_requests rm) token Rq_refused in
       if rm_state rm \<noteq> Some Deleting \<and> rm_state rm \<noteq> Some Deleting_issued then r
       else if rm_token rm \<noteq> Some token then
         (if list_ex (\<lambda>q. rq_id q = token \<and> rq_outcome q = Rq_unknown) (rm_requests rm)
          then r\<lparr>dr_removal := rm\<lparr>rm_requests := requests\<rparr>\<rparr> else r)
       else if list_ex (\<lambda>q. rq_outcome q = Rq_unknown) requests then
         r\<lparr>dr_removal := rm\<lparr>rm_requests := requests, rm_expiresAt := Some now\<rparr>\<rparr>
       else r\<lparr>dr_removal := NO_DELETION\<lparr>rm_requests := requests\<rparr>\<rparr>) row"

definition lapseIssuedDeletion :: "string \<Rightarrow> int \<Rightarrow> drain_row option \<Rightarrow> drain_row option" where
  "lapseIssuedDeletion token now row =
     map_option (\<lambda>r. let rm = dr_removal r in
       if rm_state rm = Some Deleting_issued \<and> rm_token rm = Some token
       then r\<lparr>dr_removal := rm\<lparr>rm_expiresAt := Some now\<rparr>\<rparr> else r) row"

section \<open>Retention and recovery\<close>

datatype admit_reply = Admit_ok | Admit_deleting | Admit_deleted | Admit_unclaimed

definition admitRecovery :: "string \<Rightarrow> int \<Rightarrow> drain_row option \<Rightarrow> admit_reply \<times> drain_row option" where
  "admitRecovery recoveryToken now row =
     (case row of
        None \<Rightarrow> (Admit_unclaimed, None)
      | Some r \<Rightarrow>
          let st = rm_state (dr_removal r) in
          if st = Some Deleted then (Admit_deleted, row)
          else if st = Some Deleting_issued \<or> (st = Some Deleting \<and> removal_live now r) then (Admit_deleting, row)
          else if \<not> claim_live now r \<or> dr_claimToken r \<noteq> Some recoveryToken then (Admit_unclaimed, row)
          else if st = None then (Admit_ok, row)
          else (Admit_ok, Some (r\<lparr>dr_removal := NO_DELETION, dr_version := dr_version r + 1\<rparr>)))"

text \<open>\<open>custody_contract\<close> is null on the rows of these operations: the retention episode the source
  adds under contract 3 belongs to another ledger.\<close>

definition markRetained :: "string \<Rightarrow> int \<Rightarrow> drain_row option \<Rightarrow> drain_row option" where
  "markRetained reason now row =
     (let r = row_or_fresh row; rt = dr_retention r in
      Some (r\<lparr>
        dr_retention := rt\<lparr>rt_retainedAt := Some (given (rt_retainedAt rt) now), rt_reason := Some reason,
          rt_nextAt := Some (given (rt_nextAt rt) now)\<rparr>,
        dr_progress := (dr_progress r)\<lparr>dp_state := Some Ds_kept,
          dp_detail := Some (''not saved '' @ [char_of (194::nat), char_of (183::nat)] @ '' retained '' @ [char_of (194::nat), char_of (183::nat)] @ '' '' @ reason),
          dp_observedAt := Some now\<rparr>\<rparr>))"

definition claimRecovery :: "string \<Rightarrow> int \<Rightarrow> int \<Rightarrow> drain_row option \<Rightarrow> bool \<times> drain_row option" where
  "claimRecovery token leaseMs now row =
     (case row of
        Some r \<Rightarrow>
          if rt_retainedAt (dr_retention r) \<noteq> None \<and> (\<not> in_future now (dr_claimUntil r) \<or> dr_claimToken r = Some token)
          then (True, Some (r\<lparr>dr_claimToken := Some token, dr_claimUntil := Some (leaseExpiry now leaseMs),
            dr_retention := (dr_retention r)\<lparr>rt_nextAt :=
              Some (max (given (rt_nextAt (dr_retention r)) now) (leaseExpiry now leaseMs))\<rparr>\<rparr>))
          else (False, row)
      | None \<Rightarrow> (False, None))"

definition releaseRecovery :: "string \<Rightarrow> int \<Rightarrow> drain_row option \<Rightarrow> drain_row option" where
  "releaseRecovery token now row =
     map_option (\<lambda>r.
       if dr_claimToken r = Some token
       then r\<lparr>dr_claimToken := None, dr_claimUntil := None,
         dr_retention := (dr_retention r)\<lparr>rt_nextAt :=
           (if rt_nextAt (dr_retention r) \<noteq> None \<and> rt_nextAt (dr_retention r) = dr_claimUntil r
            then Some now else rt_nextAt (dr_retention r))\<rparr>\<rparr>
       else r) row"

definition recordRecoveryAttempt :: "string option \<Rightarrow> int \<Rightarrow> drain_row option \<Rightarrow> drain_row option" where
  "recordRecoveryAttempt err nextRecoveryAt row =
     map_option (\<lambda>r. let rt = dr_retention r in
       if rt_retainedAt rt \<noteq> None
       then r\<lparr>dr_retention := rt\<lparr>rt_attempts := rt_attempts rt + 1, rt_lastError := err, rt_nextAt := Some nextRecoveryAt\<rparr>\<rparr>
       else r) row"

definition storeCaptureToken :: "string \<Rightarrow> drain_row option \<Rightarrow> drain_row option" where
  "storeCaptureToken sealed row = Some ((row_or_fresh row)\<lparr>dr_captureToken := Some sealed\<rparr>)"

definition requestRecovery :: "int \<Rightarrow> drain_row option \<Rightarrow> drain_row option \<times> drain_row option" where
  "requestRecovery now row =
     (case row of
        Some r \<Rightarrow>
          if rt_retainedAt (dr_retention r) = None then (None, row)
          else let contract3 = (dr_custodyContract r = Some 3);
                   r' = r\<lparr>
            dr_retention := (dr_retention r)\<lparr>rt_nextAt := Some (case dr_claimUntil r of Some u \<Rightarrow> max now u | None \<Rightarrow> now)\<rparr>,
            dr_desired := (if contract3 \<and> dr_discardRequestedAt r = None then Recover else dr_desired r),
            dr_custodyRevision := dr_custodyRevision r + (if contract3 then 1 else 0)\<rparr>
          in (Some r', Some r')
      | None \<Rightarrow> (None, None))"

definition requestDiscard :: "string \<Rightarrow> int \<Rightarrow> drain_row option \<Rightarrow> drain_row \<times> drain_row option" where
  "requestDiscard by now row =
     (let r' = (case row of
        None \<Rightarrow> fresh_row\<lparr>dr_discardRequestedAt := Some now, dr_discardRequestedBy := Some by\<rparr>
      | Some r \<Rightarrow> r\<lparr>
          dr_discardRequestedAt := Some (given (dr_discardRequestedAt r) now),
          dr_discardRequestedBy := Some (given (dr_discardRequestedBy r) by),
          dr_desired := (if dr_custodyContract r = Some 3 then Discard else dr_desired r),
          dr_custodyRevision := dr_custodyRevision r + (if dr_custodyContract r = Some 3 then 1 else 0)\<rparr>)
      in (r', Some r'))"

record schedule_input =
  si_startsAt :: "int option"
  si_bytesPerSecond :: "js option"
  si_sampleBytes :: "js option"
  si_sampledAt :: "int option option"
  si_samplePendingBytes :: "js option"

definition recordSchedule :: "schedule_input \<Rightarrow> drain_row option \<Rightarrow> drain_row option" where
  "recordSchedule s row =
     (let r = row_or_fresh row; old = dr_schedule r in
      Some (r\<lparr>dr_schedule :=
        \<lparr>sc_startsAt = si_startsAt s,
         sc_bytesPerSecond = given (si_bytesPerSecond s) (sc_bytesPerSecond old),
         sc_sampleBytes = given (si_sampleBytes s) (sc_sampleBytes old),
         sc_sampledAt = given (si_sampledAt s) (sc_sampledAt old),
         sc_samplePendingBytes = given (si_samplePendingBytes s) (sc_samplePendingBytes old)\<rparr>\<rparr>))"

section \<open>Sequences of operations\<close>

datatype ledger_op =
    Claim_lease string int
  | Record_progress string int progress_input
  | Release_lease string
  | Record_observation drain_state "string option" int
  | Open_observation string int
  | Close_observation string
  | End_observation string
  | Record_status js int "string option"
  | Attest_completion completion
  | Authorize_deletion int string int "string option"
  | Confirm_deletion string int
  | Issue_deletion string int
  | Reconcile_issued bool string int "int option"
  | Complete_deletion string
  | Release_deletion string
  | Lapse_issued string
  | Admit_recovery string
  | Mark_retained string
  | Claim_recovery string int
  | Release_recovery string
  | Record_attempt "string option" int
  | Store_token string
  | Request_recovery
  | Request_discard string
  | Record_schedule schedule_input

fun apply_op :: "int \<Rightarrow> ledger_op \<Rightarrow> drain_row option \<Rightarrow> drain_row option" where
  "apply_op now (Claim_lease owner ms) row = snd (claimLease owner ms now row)"
| "apply_op now (Record_progress owner ms p) row = snd (recordProgress owner ms p now row)"
| "apply_op now (Release_lease owner) row = releaseLease owner row"
| "apply_op now (Record_observation st detail at) row = recordObservation st detail at row"
| "apply_op now (Open_observation token ttl) row = snd (openObservation token ttl now row)"
| "apply_op now (Close_observation token) row = closeObservation token row"
| "apply_op now (End_observation token) row = endObservation token now row"
| "apply_op now (Record_status status at fence) row = snd (recordStatus status at fence now row)"
| "apply_op now (Attest_completion c) row = attestCompletion c row"
| "apply_op now (Authorize_deletion v token ms rec) row = snd (authorizeDeletion v token ms rec now row)"
| "apply_op now (Confirm_deletion token ms) row = snd (confirmDeletion token ms now row)"
| "apply_op now (Issue_deletion token ms) row = snd (issueDeletion token ms now row)"
| "apply_op now (Reconcile_issued gone token ms fenceMs) row = snd (reconcileIssuedDeletion gone token ms fenceMs now row)"
| "apply_op now (Complete_deletion token) row = snd (completeDeletion token row)"
| "apply_op now (Release_deletion token) row = releaseDeletion token now row"
| "apply_op now (Lapse_issued token) row = lapseIssuedDeletion token now row"
| "apply_op now (Admit_recovery token) row = snd (admitRecovery token now row)"
| "apply_op now (Mark_retained reason) row = markRetained reason now row"
| "apply_op now (Claim_recovery token ms) row = snd (claimRecovery token ms now row)"
| "apply_op now (Release_recovery token) row = releaseRecovery token now row"
| "apply_op now (Record_attempt err at) row = recordRecoveryAttempt err at row"
| "apply_op now (Store_token sealed) row = storeCaptureToken sealed row"
| "apply_op now Request_recovery row = snd (requestRecovery now row)"
| "apply_op now (Request_discard by) row = snd (requestDiscard by now row)"
| "apply_op now (Record_schedule s) row = recordSchedule s row"

definition run_ledger :: "(int \<times> ledger_op) list \<Rightarrow> drain_row option \<Rightarrow> drain_row option" where
  "run_ledger ops = fold (\<lambda>(now, op). apply_op now op) ops"

end
