(* ===== verification/Capture_Status.thy ===== *)
theory Capture_Status
  imports Capture_Ledger
begin

text \<open>
  What a worker reads of a run's row: the stored statuses checked against their schema
  (\<open>captureStatusFromStored\<close> and \<open>entryFromRow\<close> of \<open>packages/workspaces/src/worker/capture-drain-ledger.ts\<close>)
  and what they say of the executor's work (\<open>capture-drain.ts\<close>). A capture report is the object the
  schema lets through, with exactly the fields the schema names.
\<close>

section \<open>The schema of a stored status\<close>

datatype shape = S_number | S_string | S_nonempty | S_boolean | S_enum "string list" | S_array shape | S_object fields
and fields = F_end | F_required string shape fields | F_optional string shape fields | F_default string js shape fields

text \<open>zod's \<open>safeParse\<close>, which is no code of the repository, as documented for the constructors the
  schema uses: a value of the shape, keys the shape does not name left out.\<close>

fun parse_shape :: "shape \<Rightarrow> js \<Rightarrow> js option"
and parse_fields :: "fields \<Rightarrow> js \<Rightarrow> (string \<times> js) list option"
where
  "parse_shape S_number v = (case v of Num n \<Rightarrow> Some v | _ \<Rightarrow> None)"
| "parse_shape S_string v = (case v of Str s \<Rightarrow> Some v | _ \<Rightarrow> None)"
| "parse_shape S_nonempty v = (case v of Str s \<Rightarrow> if s = [] then None else Some v | _ \<Rightarrow> None)"
| "parse_shape S_boolean v = (case v of Bool b \<Rightarrow> Some v | _ \<Rightarrow> None)"
| "parse_shape (S_enum names) v = (case v of Str s \<Rightarrow> if s \<in> set names then Some v else None | _ \<Rightarrow> None)"
| "parse_shape (S_array sh) v = (case v of Arr vs \<Rightarrow> map_option Arr (those (map (parse_shape sh) vs)) | _ \<Rightarrow> None)"
| "parse_shape (S_object fs) v = (case v of Obj kvs \<Rightarrow> map_option Obj (parse_fields fs v) | _ \<Rightarrow> None)"
| "parse_fields F_end v = Some []"
| "parse_fields (F_required k sh fs) v =
     (case parse_shape sh (get v k) of None \<Rightarrow> None | Some x \<Rightarrow> map_option (Cons (k, x)) (parse_fields fs v))"
| "parse_fields (F_optional k sh fs) v =
     (if get v k = Undef then parse_fields fs v
      else case parse_shape sh (get v k) of None \<Rightarrow> None | Some x \<Rightarrow> map_option (Cons (k, x)) (parse_fields fs v))"
| "parse_fields (F_default k d sh fs) v =
     (case (if get v k = Undef then Some d else parse_shape sh (get v k)) of
        None \<Rightarrow> None | Some x \<Rightarrow> map_option (Cons (k, x)) (parse_fields fs v))"

definition originShape :: fields where
  "originShape =
     F_required ''epoch'' S_number (F_required ''launch'' S_nonempty (F_required ''bootId'' S_nonempty
     (F_required ''bootGeneration'' S_number (F_required ''observation'' S_number (F_optional ''headN'' S_number F_end)))))"

definition snapShape :: fields where
  "snapShape =
     F_required ''class'' (S_enum [''small'', ''bulk'']) (F_required ''snapsFailed'' S_number
     (F_optional ''lastSnapError'' S_string (F_optional ''snapFailingSinceUnixMs'' S_number F_end)))"

definition overdueShape :: fields where
  "overdueShape =
     F_required ''step'' S_nonempty (F_required ''startedUnixMs'' S_number (F_required ''runningMs'' S_number
     (F_required ''boundMs'' S_number F_end)))"

definition storedStatusFields :: fields where
  "storedStatusFields =
    F_required ''epoch'' S_number (F_required ''worktreeId'' S_string (F_optional ''headN'' S_number
    (F_required ''pending'' S_number (F_required ''stagedBytes'' S_number (F_required ''uploadedObjects'' S_number
    (F_required ''uploadedBytes'' S_number (F_required ''registered'' S_number (F_required ''fenced'' S_boolean
    (F_required ''paused'' S_boolean (F_optional ''lastSnapUnixMs'' S_number
    (F_default ''refused'' (Arr []) (S_array (S_enum [''small'', ''bulk'']))
    (F_optional ''complete'' S_boolean (F_optional ''incompleteReason'' S_string (F_optional ''pendingBytes'' S_number
    (F_optional ''pendingBulk'' S_number (F_optional ''unreadable'' S_number (F_optional ''carried'' S_number
    (F_optional ''unreadablePaths'' (S_array S_string) (F_optional ''registerRefused'' S_string
    (F_optional ''registerRefusedN'' S_number (F_optional ''registerMissing'' (S_array S_string)
    (F_optional ''registerRefusals'' S_number (F_optional ''repairing'' S_boolean (F_optional ''bulkBuilding'' S_boolean
    (F_optional ''snaps'' (S_array (S_object snapShape)) (F_optional ''lastSnapError'' S_string
    (F_optional ''snapFailingSinceUnixMs'' S_number (F_optional ''snapsFailed'' S_number
    (F_optional ''origin'' (S_object originShape) (F_optional ''overdue'' (S_object overdueShape)
    F_end))))))))))))))))))))))))))))))"

definition storedStatusSchema :: shape where
  "storedStatusSchema = S_object storedStatusFields"

definition captureStatusFromStored :: "js \<Rightarrow> js option" where
  "captureStatusFromStored stored = parse_shape storedStatusSchema stored"

section \<open>What a report says\<close>

definition reportsComplete :: "js option \<Rightarrow> bool" where
  "reportsComplete status =
     (case status of None \<Rightarrow> False
      | Some s \<Rightarrow> get s ''complete'' = Bool True \<and> get s ''incompleteReason'' = Undef)"

definition finalInProgress :: "js \<Rightarrow> bool" where
  "finalInProgress status \<longleftrightarrow> get status ''incompleteReason'' = Str ''in-progress''"

definition number_in :: "js \<Rightarrow> string \<Rightarrow> int" where
  "number_in status k = asNumber (get status k)"

definition captureProgressed :: "js option \<Rightarrow> js \<Rightarrow> bool" where
  "captureProgressed previous next =
     (case previous of
        None \<Rightarrow> True
      | Some prev \<Rightarrow>
          number_in next ''pending'' < number_in prev ''pending'' \<or>
          number_in next ''uploadedBytes'' > number_in prev ''uploadedBytes'' \<or>
          number_in next ''uploadedObjects'' > number_in prev ''uploadedObjects'' \<or>
          number_in next ''registered'' > number_in prev ''registered'' \<or>
          (reportsComplete (Some next) \<and> \<not> reportsComplete (Some prev)))"

section \<open>The entry of a run\<close>

text \<open>Milliseconds of a \<open>Date\<close>, from the microseconds of a column.\<close>

definition millis :: "int \<Rightarrow> int" where
  "millis t = t div 1000"

record attested =
  at_attestation :: completion_attestation
  at_atMs :: int
  at_by :: string

record retained_entry =
  re_atMs :: int
  re_reason :: string
  re_attempts :: int
  re_nextAtMs :: "int option"
  re_lastError :: "string option"

record drain_entry =
  en_preservationManaged :: bool
  en_lastProgressAt :: "int option"
  en_last :: "js option"
  en_lastAtMs :: "int option"
  en_lastUnreadable :: bool
  en_unsaved :: "js list"
  en_unsavedUnreadable :: bool
  en_evidenceVersion :: int
  en_inFlight :: nat
  en_removalIssued :: bool
  en_unreachableSince :: "int option"
  en_keptLogged :: bool
  en_silentLogged :: bool
  en_discardRequested :: "(int \<times> string) option"
  en_attested :: "attested option"
  en_retained :: "retained_entry option"

definition unsavedFromRow :: "drain_row \<Rightarrow> js list \<times> bool" where
  "unsavedFromRow r =
     (let members = map (\<lambda>m. captureStatusFromStored (ob_status m)) (ev_unsaved (dr_evidence r));
          unsaved = List.map_filter id members
      in (unsaved, length unsaved < length members))"

definition attestedFromRow :: "completion \<Rightarrow> attested" where
  "attestedFromRow c =
     \<lparr>at_attestation = \<lparr>ca_executorId = cm_executorId c, ca_epoch = cm_epoch c, ca_captureN = cm_captureN c,
        ca_sealedAtMs = map_option millis (cm_sealedAt c), ca_origin = executorOriginFromStored (cm_origin c)\<rparr>,
      at_atMs = millis (cm_attestedAt c), at_by = cm_attestedBy c\<rparr>"

definition retainedFromRow :: "retention \<Rightarrow> retained_entry option" where
  "retainedFromRow rt = map_option (\<lambda>at.
     \<lparr>re_atMs = millis at, re_reason = given (rt_reason rt) ''not recorded'', re_attempts = rt_attempts rt,
      re_nextAtMs = map_option millis (rt_nextAt rt), re_lastError = rt_lastError rt\<rparr>) (rt_retainedAt rt)"

definition entryFromRow :: "drain_row \<Rightarrow> drain_entry" where
  "entryFromRow r =
     (let e = dr_evidence r; seen = captureStatusFromStored (ev_lastStatus e) in
      \<lparr>en_preservationManaged = (dr_custodyContract r = Some 3),
       en_lastProgressAt = map_option millis (dp_lastProgressAt (dr_progress r)),
       en_last = seen,
       en_lastAtMs = map_option millis (ev_lastStatusAt e),
       en_lastUnreadable = (ev_lastStatus e \<noteq> Null \<and> seen = None),
       en_unsaved = fst (unsavedFromRow r),
       en_unsavedUnreadable = snd (unsavedFromRow r),
       en_evidenceVersion = dr_version r,
       en_inFlight = length (ev_fences e),
       en_removalIssued = (rm_state (dr_removal r) = Some Deleting_issued),
       en_unreachableSince = map_option millis (dp_unreachableSince (dr_progress r)),
       en_keptLogged = dp_keptLogged (dr_progress r),
       en_silentLogged = dp_silentLogged (dr_progress r),
       en_discardRequested = map_option (\<lambda>at. (millis at, given (dr_discardRequestedBy r) ''unknown'')) (dr_discardRequestedAt r),
       en_attested = map_option attestedFromRow (ev_completion e),
       en_retained = retainedFromRow (dr_retention r)\<rparr>)"

section \<open>Whether the executor's work is saved\<close>

text \<open>Whether an unsaved answer that no later one covers is on record (\<open>unsavedOnRecord\<close> answers with
  a line about it).\<close>

definition unsavedOnRecord :: "drain_entry option \<Rightarrow> bool" where
  "unsavedOnRecord entry = (case entry of None \<Rightarrow> False | Some e \<Rightarrow> en_unsavedUnreadable e \<or> en_unsaved e \<noteq> [])"

definition observedComplete :: "drain_entry option \<Rightarrow> bool" where
  "observedComplete entry \<longleftrightarrow> reportsComplete (Option.bind entry en_last) \<and> \<not> unsavedOnRecord entry"

definition observedCaptureOfStatus :: "js \<Rightarrow> int option \<Rightarrow> observed_capture" where
  "observedCaptureOfStatus status atMs = Readable
     \<lparr>cr_epoch = number_in status ''epoch'',
      cr_headN = (case get status ''headN'' of Num n \<Rightarrow> Some n | _ \<Rightarrow> None),
      cr_complete = reportsComplete (Some status),
      cr_incompleteReason = asString (get status ''incompleteReason''),
      cr_atMs = atMs,
      cr_origin = executorOriginFromStored (get status ''origin'')\<rparr>"

definition observedCaptureOf :: "drain_entry option \<Rightarrow> observed_capture option" where
  "observedCaptureOf entry =
     (case entry of
        None \<Rightarrow> None
      | Some e \<Rightarrow>
          (case en_last e of
             None \<Rightarrow> if en_lastUnreadable e then Some Unreadable else None
           | Some seen \<Rightarrow> Some (observedCaptureOfStatus seen (en_lastAtMs e))))"

definition attestedCompleteFor :: "drain_entry option \<Rightarrow> executor_identity \<Rightarrow> bool" where
  "attestedCompleteFor entry x =
     (case entry of
        None \<Rightarrow> False
      | Some e \<Rightarrow>
          (case en_attested e of
             None \<Rightarrow> False
           | Some a \<Rightarrow> \<not> en_unsavedUnreadable e \<and>
               attestationCoversObservations (at_attestation a) x (observedCaptureOf entry)
                 (map (\<lambda>s. Some (observedCaptureOfStatus s None)) (en_unsaved e)) = Covers))"

text \<open>What a read of the row found; a row that could not be read is not a row that is absent.\<close>

datatype drain_read = Read_ok "drain_entry option" | Read_failed

record recorded_evidence =
  rd_observedComplete :: bool
  rd_attestedComplete :: bool
  rd_discarded :: bool
  rd_ledgerUnreadable :: bool

definition recordedDeletionEvidence :: "drain_read \<Rightarrow> executor_identity \<Rightarrow> recorded_evidence" where
  "recordedDeletionEvidence rd x =
     (case rd of
        Read_failed \<Rightarrow> \<lparr>rd_observedComplete = False, rd_attestedComplete = False, rd_discarded = False, rd_ledgerUnreadable = True\<rparr>
      | Read_ok entry \<Rightarrow>
          let current = (case entry of None \<Rightarrow> True | Some e \<Rightarrow> en_inFlight e = 0) in
          \<lparr>rd_observedComplete = (current \<and> observedComplete entry),
           rd_attestedComplete = (current \<and> attestedCompleteFor entry x),
           rd_discarded = (case entry of None \<Rightarrow> False | Some e \<Rightarrow> en_discardRequested e \<noteq> None),
           rd_ledgerUnreadable = False\<rparr>)"

section \<open>Saved, on the row\<close>

text \<open>What the evidence of a row must be for its work to read saved: the last answer is a complete
  final flush, and no answer that says otherwise is left.\<close>

definition reads_saved :: "evidence \<Rightarrow> bool" where
  "reads_saved e \<longleftrightarrow> storedStatusComplete (ev_lastStatus e) \<and> ev_unsaved e = []"

definition reads_sealed :: "evidence \<Rightarrow> executor_identity \<Rightarrow> bool" where
  "reads_sealed e x \<longleftrightarrow>
     (\<exists>c. ev_completion e = Some c \<and> attestationCoversObservations (at_attestation (attestedFromRow c)) x
        (if ev_lastStatus e = Null then None
         else case captureStatusFromStored (ev_lastStatus e) of
             None \<Rightarrow> Some Unreadable
           | Some seen \<Rightarrow> Some (observedCaptureOfStatus seen (map_option millis (ev_lastStatusAt e))))
        (map (\<lambda>m. map_option (\<lambda>s. observedCaptureOfStatus s None) (captureStatusFromStored (ob_status m))) (ev_unsaved e)) = Covers \<and>
      (\<forall>m \<in> set (ev_unsaved e). captureStatusFromStored (ob_status m) \<noteq> None))"

section \<open>The schema keeps what it reads\<close>

fun field_names :: "fields \<Rightarrow> string list" where
  "field_names F_end = []"
| "field_names (F_required k sh fs) = k # field_names fs"
| "field_names (F_default k d sh fs) = k # field_names fs"
| "field_names (F_optional k sh fs) = k # field_names fs"

text \<open>The one field of that name is optional and of a shape that lets a value through as it is.\<close>

fun optional_scalar :: "string \<Rightarrow> fields \<Rightarrow> bool" where
  "optional_scalar k F_end = False"
| "optional_scalar k (F_required k' sh fs) = (k \<noteq> k' \<and> optional_scalar k fs)"
| "optional_scalar k (F_default k' d sh fs) = (k \<noteq> k' \<and> optional_scalar k fs)"
| "optional_scalar k (F_optional k' sh fs) =
     (if k = k' then sh \<in> {S_number, S_string, S_nonempty, S_boolean} \<and> k \<notin> set (field_names fs) else optional_scalar k fs)"

lemma parse_scalar:
  "sh \<in> {S_number, S_string, S_nonempty, S_boolean} \<Longrightarrow> parse_shape sh v = Some x \<Longrightarrow> x = v"
  by (auto split: js.splits if_splits)

lemma parse_fields_names: "parse_fields fs v = Some kvs \<Longrightarrow> fst ` set kvs \<subseteq> set (field_names fs)"
proof (induction fs arbitrary: kvs rule: field_names.induct)
  case (4 k sh fs)
  then show ?case by (fastforce split: if_splits option.splits)
qed (fastforce split: option.splits if_splits)+

lemma parse_keeps_scalar:
  "parse_fields fs v = Some kvs \<Longrightarrow> optional_scalar k fs \<Longrightarrow>
     get (Obj kvs) k = get v k"
proof (induction fs arbitrary: kvs rule: field_names.induct)
  case (4 k' sh fs)
  show ?case
  proof (cases "k = k'")
    case True
    then have scalar: "sh \<in> {S_number, S_string, S_nonempty, S_boolean}" using 4 by simp
    show ?thesis
    proof (cases "get v k = Undef")
      case absent: True
      then have "parse_fields fs v = Some kvs" using 4 True by simp
      then have "k \<notin> fst ` set kvs" using parse_fields_names 4 True by fastforce
      then show ?thesis using absent by (simp add: map_of_eq_None_iff[THEN iffD2])
    next
      case False
      then show ?thesis using 4 True parse_scalar[OF scalar] by (auto split: option.splits)
    qed
  next
    case False
    then show ?thesis using 4 by (fastforce split: if_splits option.splits)
  qed
qed (fastforce split: option.splits if_splits)+

lemma read_fields_kept:
  "optional_scalar ''complete'' storedStatusFields" "optional_scalar ''incompleteReason'' storedStatusFields"
  "optional_scalar ''headN'' storedStatusFields"
  by code_simp+

lemma stored_status_fields:
  assumes "captureStatusFromStored v = Some s" "k \<in> {''complete'', ''incompleteReason'', ''headN''}"
  shows "get s k = get v k"
proof -
  have "optional_scalar k storedStatusFields" using assms(2) read_fields_kept by auto
  then show ?thesis
    using assms(1) parse_keeps_scalar[of storedStatusFields v _ k]
    by (auto simp: captureStatusFromStored_def storedStatusSchema_def split: js.splits)
qed

lemma stored_status_record: "captureStatusFromStored v = Some s \<Longrightarrow> is_plain_record v"
  by (auto simp: captureStatusFromStored_def storedStatusSchema_def is_plain_record_def isRecord_def split: js.splits)

text \<open>A stored status reads complete to the worker exactly when it does to the database's order.\<close>

lemma reports_stored_complete:
  "captureStatusFromStored v = Some s \<Longrightarrow> reportsComplete (Some s) \<longleftrightarrow> storedStatusComplete v"
  using stored_status_fields[of v s] stored_status_record[of v s]
  by (simp add: reportsComplete_def storedStatusComplete_def)

lemma map_filter_id_le: "length (List.map_filter id (map f xs)) \<le> length xs"
  by (metis length_filter_le length_map map_filter_def)

lemma map_filter_id_all:
  "\<not> length (List.map_filter id (map f xs)) < length xs \<Longrightarrow>
     List.map_filter id (map f xs) = map (\<lambda>x. the (f x)) xs \<and> (\<forall>x \<in> set xs. f x \<noteq> None)"
proof (induction xs)
  case (Cons x xs)
  then show ?case using map_filter_id_le[of f xs] by (cases "f x") (auto simp: List.map_filter_simps)
qed (simp add: List.map_filter_simps)

lemma unsaved_none:
  "fst (unsavedFromRow r) = [] \<and> \<not> snd (unsavedFromRow r) \<longleftrightarrow> ev_unsaved (dr_evidence r) = []"
  by (cases "ev_unsaved (dr_evidence r)") (auto simp: unsavedFromRow_def Let_def List.map_filter_simps split: option.splits)

lemma observed_complete_row:
  "observedComplete (Some (entryFromRow r)) \<Longrightarrow> reads_saved (dr_evidence r)"
  using unsaved_none[of r] reports_stored_complete
  by (auto simp: observedComplete_def entryFromRow_def unsavedOnRecord_def reads_saved_def reportsComplete_def Let_def
      split: option.splits)

lemma attested_complete_row:
  assumes "attestedCompleteFor (Some (entryFromRow r)) x"
  shows "reads_sealed (dr_evidence r) x"
proof -
  let ?u = "ev_unsaved (dr_evidence r)"
  let ?f = "\<lambda>m. captureStatusFromStored (ob_status m)"
  obtain c where c: "ev_completion (dr_evidence r) = Some c" and readable: "\<not> snd (unsavedFromRow r)"
    and covers: "attestationCoversObservations (at_attestation (attestedFromRow c)) x
      (observedCaptureOf (Some (entryFromRow r)))
      (map (\<lambda>s. Some (observedCaptureOfStatus s None)) (fst (unsavedFromRow r))) = Covers"
    using assms by (auto simp: attestedCompleteFor_def entryFromRow_def Let_def split: option.splits)
  have all: "fst (unsavedFromRow r) = map (\<lambda>m. the (?f m)) ?u" "\<forall>m \<in> set ?u. ?f m \<noteq> None"
    using readable map_filter_id_all[of ?f ?u] by (auto simp: unsavedFromRow_def Let_def)
  then have "map (\<lambda>s. Some (observedCaptureOfStatus s None)) (fst (unsavedFromRow r)) =
      map (\<lambda>m. map_option (\<lambda>s. observedCaptureOfStatus s None) (?f m)) ?u"
    by auto
  moreover have "observedCaptureOf (Some (entryFromRow r)) =
      (if ev_lastStatus (dr_evidence r) = Null then None
       else case captureStatusFromStored (ev_lastStatus (dr_evidence r)) of
           None \<Rightarrow> Some Unreadable
         | Some seen \<Rightarrow> Some (observedCaptureOfStatus seen (map_option millis (ev_lastStatusAt (dr_evidence r)))))"
    by (auto simp: observedCaptureOf_def entryFromRow_def captureStatusFromStored_def storedStatusSchema_def Let_def
        split: option.splits)
  ultimately show ?thesis using c covers all(2) by (auto simp: reads_sealed_def)
qed

section \<open>The type of a stored status\<close>

text \<open>A value of a shape: an object has exactly fields the shape names, in its order, the required ones
  and those with a default among them.\<close>

fun conforms :: "shape \<Rightarrow> js \<Rightarrow> bool"
and conforms_fields :: "fields \<Rightarrow> (string \<times> js) list \<Rightarrow> bool"
where
  "conforms S_number v = (case v of Num n \<Rightarrow> True | _ \<Rightarrow> False)"
| "conforms S_string v = (case v of Str s \<Rightarrow> True | _ \<Rightarrow> False)"
| "conforms S_nonempty v = (case v of Str s \<Rightarrow> s \<noteq> [] | _ \<Rightarrow> False)"
| "conforms S_boolean v = (case v of Bool b \<Rightarrow> True | _ \<Rightarrow> False)"
| "conforms (S_enum names) v = (case v of Str s \<Rightarrow> s \<in> set names | _ \<Rightarrow> False)"
| "conforms (S_array sh) v = (case v of Arr vs \<Rightarrow> list_all (conforms sh) vs | _ \<Rightarrow> False)"
| "conforms (S_object fs) v = (case v of Obj kvs \<Rightarrow> conforms_fields fs kvs | _ \<Rightarrow> False)"
| "conforms_fields F_end kvs = (kvs = [])"
| "conforms_fields (F_required k sh fs) kvs =
     (case kvs of [] \<Rightarrow> False | (k', x) # rest \<Rightarrow> k' = k \<and> conforms sh x \<and> conforms_fields fs rest)"
| "conforms_fields (F_default k d sh fs) kvs =
     (case kvs of [] \<Rightarrow> False | (k', x) # rest \<Rightarrow> k' = k \<and> conforms sh x \<and> conforms_fields fs rest)"
| "conforms_fields (F_optional k sh fs) kvs =
     (case kvs of
        [] \<Rightarrow> conforms_fields fs []
      | (k', x) # rest \<Rightarrow> if k' = k then conforms sh x \<and> conforms_fields fs rest else conforms_fields fs kvs)"

text \<open>No object of the shape names a field twice, and every default has the shape of its field.\<close>

fun well_shaped :: "shape \<Rightarrow> bool"
and well_shaped_fields :: "fields \<Rightarrow> bool"
where
  "well_shaped (S_array sh) = well_shaped sh"
| "well_shaped (S_object fs) = well_shaped_fields fs"
| "well_shaped _ = True"
| "well_shaped_fields F_end = True"
| "well_shaped_fields (F_required k sh fs) = (k \<notin> set (field_names fs) \<and> well_shaped sh \<and> well_shaped_fields fs)"
| "well_shaped_fields (F_default k d sh fs) =
     (k \<notin> set (field_names fs) \<and> conforms sh d \<and> well_shaped sh \<and> well_shaped_fields fs)"
| "well_shaped_fields (F_optional k sh fs) = (k \<notin> set (field_names fs) \<and> well_shaped sh \<and> well_shaped_fields fs)"

lemma those_Some: "those xs = Some ys \<longleftrightarrow> xs = map Some ys"
  by (induction xs arbitrary: ys) (auto split: option.splits simp: Cons_eq_map_conv)

lemma parsed_conforms:
  "well_shaped sh \<Longrightarrow> parse_shape sh v = Some x \<Longrightarrow> conforms sh x"
  "well_shaped_fields fs \<Longrightarrow> parse_fields fs v = Some kvs \<Longrightarrow> conforms_fields fs kvs"
proof (induction sh v and fs v arbitrary: x and kvs rule: parse_shape_parse_fields.induct)
  case (6 sh v)
  show ?case
  proof (cases v)
    case (Arr vs)
    then obtain ys where ys: "map (parse_shape sh) vs = map Some ys" "x = Arr ys"
      using 6 by (auto simp: those_Some)
    have "conforms sh y" if "y \<in> set ys" for y
    proof -
      have "Some y \<in> set (map (parse_shape sh) vs)" using ys(1) that by simp
      then obtain w where "w \<in> set vs" "parse_shape sh w = Some y" by auto
      then show ?thesis using 6 Arr by simp
    qed
    then show ?thesis using ys(2) by (simp add: list_all_iff)
  qed (use 6 in auto)
next
  case (10 k sh fs v)
  show ?case
  proof (cases "get v k = Undef")
    case True
    then have "conforms_fields fs kvs" "parse_fields fs v = Some kvs" using 10 by auto
    moreover have "fst ` set kvs \<subseteq> set (field_names fs)" using parse_fields_names calculation(2) .
    ultimately show ?thesis using 10(4) by (cases kvs) auto
  next
    case False
    then show ?thesis using 10 by (auto split: option.splits)
  qed
next
  case (11 k d sh fs v)
  then show ?case by (auto split: option.splits if_splits)
qed (auto split: js.splits option.splits if_splits)

lemma conforms_names: "conforms_fields fs kvs \<Longrightarrow> fst ` set kvs \<subseteq> set (field_names fs)"
  by (induction fs arbitrary: kvs rule: field_names.induct) (fastforce split: list.splits prod.splits if_splits)+

lemma conforms_defined: "conforms sh v \<Longrightarrow> v \<noteq> Undef"
  by (cases sh) auto

lemma head_field:
  assumes "\<forall>k' \<in> set (k # field_names fs). get w k' = get (Obj ((k, x) # rest)) k'" "k \<notin> set (field_names fs)"
  shows "get w k = x \<and> (\<forall>k' \<in> set (field_names fs). get w k' = get (Obj rest) k')"
  using assms by auto

lemma absent_field: "conforms_fields fs kvs \<Longrightarrow> k \<notin> set (field_names fs) \<Longrightarrow> get (Obj kvs) k = Undef"
  using conforms_names[of fs kvs] by (force split: option.splits dest: map_of_SomeD)

lemma conforming_parses:
  "well_shaped sh \<Longrightarrow> conforms sh v \<Longrightarrow> parse_shape sh v = Some v"
  "well_shaped_fields fs \<Longrightarrow> conforms_fields fs kvs \<Longrightarrow> \<forall>k \<in> set (field_names fs). get w k = get (Obj kvs) k \<Longrightarrow>
     parse_fields fs w = Some kvs"
proof (induction sh v and fs kvs arbitrary: and w rule: conforms_conforms_fields.induct)
  case (6 sh v)
  then show ?case by (auto simp: those_Some list_all_iff split: js.splits)
next
  case (9 k sh fs kvs)
  then obtain x rest where kvs: "kvs = (k, x) # rest" "conforms sh x" "conforms_fields fs rest"
    by (auto split: list.splits)
  have w: "get w k = x \<and> (\<forall>k' \<in> set (field_names fs). get w k' = get (Obj rest) k')"
    using 9(3,5) by (intro head_field) (auto simp: kvs(1))
  show ?case using 9(1)[OF kvs(1) refl] 9(2)[OF kvs(1) refl] 9(3) kvs w by simp
next
  case (10 k d sh fs kvs)
  then obtain x rest where kvs: "kvs = (k, x) # rest" "conforms sh x" "conforms_fields fs rest"
    by (auto split: list.splits)
  have w: "get w k = x \<and> (\<forall>k' \<in> set (field_names fs). get w k' = get (Obj rest) k')"
    using 10(3,5) by (intro head_field) (auto simp: kvs(1))
  show ?case using 10(1)[OF kvs(1) refl] 10(2)[OF kvs(1) refl] 10(3) kvs w conforms_defined[OF kvs(2)] by simp
next
  case (11 k sh fs kvs)
  show ?case
  proof (cases "\<exists>x rest. kvs = (k, x) # rest")
    case True
    then obtain x rest where kvs: "kvs = (k, x) # rest" "conforms sh x" "conforms_fields fs rest"
      using 11(6) by auto
    have w: "get w k = x \<and> (\<forall>k' \<in> set (field_names fs). get w k' = get (Obj rest) k')"
      using 11(5,7) by (intro head_field) (auto simp: kvs(1))
    show ?thesis using 11(2)[OF kvs(1) refl refl] 11(3)[OF kvs(1) refl refl] 11(5) kvs w conforms_defined[OF kvs(2)] by simp
  next
    case False
    then have rest: "conforms_fields fs kvs" using 11(6) by (auto split: list.splits)
    have "get w k = Undef" using absent_field[OF rest] 11(5,7) by simp
    moreover have "parse_fields fs w = Some kvs"
      using 11(1,4,5,7) rest False by (cases kvs) auto
    ultimately show ?thesis by simp
  qed
qed (auto split: js.splits option.splits if_splits)

lemma schema_well_shaped: "well_shaped storedStatusSchema"
  by code_simp

text \<open>What a worker takes for a stored status has the type the schema declares. Of any stored value the
  parse lets through only an object whose fields have the declared shapes, none of them twice and none
  undeclared, the absent default filled in; and such an object parses as itself, so writing it back and
  reading it again changes nothing.\<close>

lemma stored_status_is_typed:
  assumes "captureStatusFromStored v = Some s"
  shows "conforms storedStatusSchema s \<and> captureStatusFromStored s = Some s"
proof -
  have "conforms storedStatusSchema s"
    using parsed_conforms(1)[OF schema_well_shaped] assms by (simp add: captureStatusFromStored_def)
  moreover from this have "captureStatusFromStored s = Some s"
    unfolding captureStatusFromStored_def by (rule conforming_parses(1)[OF schema_well_shaped])
  ultimately show ?thesis ..
qed

definition full_status :: "bool \<Rightarrow> js" where
  "full_status complete = Obj [(''epoch'', Num 1), (''worktreeId'', Str ''w''), (''pending'', Num 0), (''stagedBytes'', Num 0),
     (''uploadedObjects'', Num 3), (''uploadedBytes'', Num 900), (''registered'', Num 1), (''fenced'', Bool False),
     (''paused'', Bool False), (''complete'', Bool complete), (''unknown'', Null)]"

end
