(* ===== verification/Capture_Ledger_Proofs.thy ===== *)
theory Capture_Ledger_Proofs
  imports Capture_Ledger
begin

text \<open>
  What holds of a run's row under every sequence of operations: the evidence version identifies the
  evidence, a removal request is sent only on the evidence its removal was authorized on, a request
  of unknown outcome keeps everything else off the executor, a recovery attempt keeps every other
  deleter off it, and an issued removal can always be settled.
\<close>

lemmas ledger_defs =
  claimLease_def recordProgress_def releaseLease_def recordObservation_def openObservation_def closeObservation_def
  endObservation_def recordStatus_def attestCompletion_def authorizeDeletion_def confirmDeletion_def issueDeletion_def
  reconcileIssuedDeletion_def completeDeletion_def releaseDeletion_def lapseIssuedDeletion_def admitRecovery_def
  markRetained_def claimRecovery_def releaseRecovery_def recordRecoveryAttempt_def storeCaptureToken_def
  requestRecovery_def requestDiscard_def recordSchedule_def

lemmas ledger_splits = if_splits option.splits prod.splits

section \<open>The version identifies the evidence\<close>

definition evidence_grows :: "drain_row \<Rightarrow> drain_row \<Rightarrow> bool" where
  "evidence_grows r r' \<longleftrightarrow> dr_version r \<le> dr_version r' \<and> (dr_version r' = dr_version r \<longrightarrow> dr_evidence r' = dr_evidence r)"

lemma evidence_grows_refl [simp]: "evidence_grows r r"
  by (simp add: evidence_grows_def)

lemma evidence_grows_trans: "evidence_grows a b \<Longrightarrow> evidence_grows b c \<Longrightarrow> evidence_grows a c"
  by (auto simp: evidence_grows_def)

lemma row_or_fresh_Some [simp]: "row_or_fresh (Some r) = r"
  by (simp add: row_or_fresh_def)

lemma step_exists: "\<exists>r'. apply_op now op (Some r) = Some r'"
  by (cases op) (auto simp: ledger_defs Let_def split: ledger_splits)

lemma step_evidence: "apply_op now op (Some r) = Some r' \<Longrightarrow> evidence_grows r r'"
  by (cases op) (auto simp: ledger_defs evidence_grows_def Let_def split: ledger_splits)

lemma run_ledger_Nil [simp]: "run_ledger [] row = row"
  by (simp add: run_ledger_def)

lemma run_ledger_Cons [simp]: "run_ledger ((now, op) # ops) row = run_ledger ops (apply_op now op row)"
  by (simp add: run_ledger_def)

lemma run_ledger_append [simp]: "run_ledger (xs @ ys) row = run_ledger ys (run_ledger xs row)"
  by (simp add: run_ledger_def)

lemma run_exists: "\<exists>r'. run_ledger ops (Some r) = Some r'"
proof (induction ops arbitrary: r)
  case (Cons x ops)
  obtain now op where "x = (now, op)" by force
  then show ?case using step_exists[of now op r] Cons.IH by auto
qed simp

text \<open>What every allowed operation keeps between a row and the next, a sequence of them keeps.\<close>

locale row_history =
  fixes allowed :: "int \<Rightarrow> ledger_op \<Rightarrow> bool"
    and related :: "drain_row \<Rightarrow> drain_row \<Rightarrow> bool"
  assumes stays: "related r r"
    and carries: "related a b \<Longrightarrow> related b c \<Longrightarrow> related a c"
    and step: "allowed now op \<Longrightarrow> apply_op now op (Some r) = Some r' \<Longrightarrow> related r r'"
begin

lemma run:
  assumes "run_ledger ops (Some r) = Some r'" "\<forall>(now, op) \<in> set ops. allowed now op"
  shows "related r r'"
  using assms
proof (induction ops arbitrary: r)
  case Nil
  then show ?case using stays by simp
next
  case (Cons x ops)
  obtain now op where x: "x = (now, op)" by force
  obtain r1 where r1: "apply_op now op (Some r) = Some r1" using step_exists by blast
  have "related r r1" using step[OF _ r1] Cons.prems(2) x by simp
  moreover have "related r1 r'" using Cons.IH[of r1] Cons.prems r1 x by simp
  ultimately show ?case by (rule carries)
qed

end

text \<open>The evidence of a row is what it was when its version was last this one, whatever happened since.\<close>

interpretation growing: row_history "\<lambda>_ _. True" evidence_grows
  by unfold_locales (simp, erule evidence_grows_trans, assumption, erule step_evidence)

lemma run_evidence: "run_ledger ops (Some r) = Some r' \<Longrightarrow> evidence_grows r r'"
  by (erule growing.run) simp

section \<open>A request is sent only on the evidence its removal was authorized on\<close>

text \<open>A removal is under way: authorized and not given up, or issued.\<close>

definition under_way :: "drain_row \<Rightarrow> bool" where
  "under_way r \<longleftrightarrow> rm_state (dr_removal r) = Some Deleting \<or> rm_state (dr_removal r) = Some Deleting_issued"

definition authorizes :: "int \<Rightarrow> ledger_op \<Rightarrow> drain_row option \<Rightarrow> int \<Rightarrow> bool" where
  "authorizes now op row v =
     (case op of
        Authorize_deletion version token ms rec \<Rightarrow>
          version = v \<and> fst (authorizeDeletion version token ms rec now row) = Authorized
      | _ \<Rightarrow> False)"

lemma authorizes_current:
  "authorizes now op row v \<Longrightarrow> \<exists>r. row = Some r \<and> dr_version r = v \<and> ev_fences (dr_evidence r) = []"
  by (auto simp: authorizes_def authorizeDeletion_def Let_def split: ledger_op.splits ledger_splits)

lemma authorized_row:
  "authorizes now op (Some r) v \<Longrightarrow> apply_op now op (Some r) = Some r' \<Longrightarrow> rm_evidenceVersion (dr_removal r') = Some v"
  by (auto simp: authorizes_def authorizeDeletion_def Let_def split: ledger_op.splits ledger_splits)

lemma step_under_way:
  assumes "apply_op now op (Some r) = Some r'" "under_way r'"
  shows "(\<exists>v. authorizes now op (Some r) v) \<or>
    (under_way r \<and> rm_evidenceVersion (dr_removal r') = rm_evidenceVersion (dr_removal r))"
  using assms
  by (cases op) (auto simp: authorizes_def ledger_defs under_way_def NO_DELETION_def Let_def split: ledger_splits)

lemma fresh_not_under_way: "apply_op now op None = Some r \<Longrightarrow> \<not> under_way r"
  by (cases op)
    (auto simp: ledger_defs under_way_def fresh_row_def row_or_fresh_def NO_DELETION_def Let_def split: ledger_splits)

text \<open>Somewhere in the history the removal was authorized, on the evidence of then.\<close>

definition authorized_on ::
  "(int \<times> ledger_op) list \<Rightarrow> int \<Rightarrow> evidence \<Rightarrow> drain_row \<Rightarrow> bool"
where
  "authorized_on ops v e r \<longleftrightarrow>
     (\<exists>before now op after r0. ops = before @ (now, op) # after \<and> run_ledger before None = Some r0 \<and>
        authorizes now op (Some r0) v \<and> dr_evidence r0 = e \<and> evidence_grows r0 r)"

lemma authorized_on_snoc:
  "authorized_on ops v e r \<Longrightarrow> evidence_grows r r' \<Longrightarrow> authorized_on (ops @ [x]) v e r'"
  unfolding authorized_on_def by (fastforce intro: evidence_grows_trans)

lemma under_way_authorized:
  "run_ledger ops None = Some r \<Longrightarrow> under_way r \<Longrightarrow>
     \<exists>v e. rm_evidenceVersion (dr_removal r) = Some v \<and> authorized_on ops v e r"
proof (induction ops arbitrary: r rule: rev_induct)
  case (snoc x ops)
  obtain now op where x: "x = (now, op)" by force
  have step: "apply_op now op (run_ledger ops None) = Some r" using snoc.prems(1) by (simp add: x)
  show ?case
  proof (cases "run_ledger ops None")
    case None
    then show ?thesis using fresh_not_under_way step snoc.prems(2) by simp
  next
    case (Some r0)
    then have step: "apply_op now op (Some r0) = Some r" using step by simp
    have grows: "evidence_grows r0 r" by (rule step_evidence[OF step])
    from step_under_way[OF step snoc.prems(2)] show ?thesis
    proof
      assume "\<exists>v. authorizes now op (Some r0) v"
      then obtain v where v: "authorizes now op (Some r0) v" by blast
      have "authorized_on (ops @ [x]) v (dr_evidence r0) r"
        unfolding authorized_on_def using Some v grows x by blast
      then show ?thesis using authorized_row[OF v step] by blast
    next
      assume old: "under_way r0 \<and> rm_evidenceVersion (dr_removal r) = rm_evidenceVersion (dr_removal r0)"
      then obtain v e where "rm_evidenceVersion (dr_removal r0) = Some v" "authorized_on ops v e r0"
        using snoc.IH[OF Some] by blast
      then show ?thesis using old authorized_on_snoc[OF _ grows, where x = x] by auto
    qed
  qed
qed simp

lemma issued_current:
  "fst (issueDeletion token ms now (Some r)) \<Longrightarrow>
     under_way r \<and> rm_evidenceVersion (dr_removal r) = Some (dr_version r) \<and> ev_fences (dr_evidence r) = []"
  by (auto simp: issueDeletion_def deletionEvidenceCurrent_def under_way_def Let_def split: if_splits)

text \<open>C10: a request to remove an executor is only ever sent on the evidence its removal was authorized
  on. Whatever operations the workers interleave, and whoever took the removal over, when an issue
  lets the runtime be called, some earlier operation authorized the removal on exactly the version
  that is current, with the statuses, the unsaved answers and the attestation that are still on
  record, and no observation is in flight.\<close>

theorem request_sent_on_authorized_evidence:
  assumes "run_ledger ops None = Some r" "fst (issueDeletion token ms now (Some r))"
  shows "\<exists>before at op after r0. ops = before @ (at, op) # after \<and> run_ledger before None = Some r0 \<and>
    authorizes at op (Some r0) (dr_version r) \<and> dr_evidence r0 = dr_evidence r \<and> ev_fences (dr_evidence r) = []"
proof -
  have now: "under_way r" "rm_evidenceVersion (dr_removal r) = Some (dr_version r)" "ev_fences (dr_evidence r) = []"
    using issued_current[OF assms(2)] by auto
  obtain e where "authorized_on ops (dr_version r) e r"
    using under_way_authorized[OF assms(1) now(1)] now(2) by auto
  then obtain before at op after r0 where hist: "ops = before @ (at, op) # after" "run_ledger before None = Some r0"
      "authorizes at op (Some r0) (dr_version r)" "evidence_grows r0 r"
    unfolding authorized_on_def by blast
  then have "dr_evidence r0 = dr_evidence r"
    using authorizes_current[OF hist(3)] by (auto simp: evidence_grows_def)
  then show ?thesis using hist now(3) by blast
qed


section \<open>A request of unknown outcome keeps everything off the executor\<close>

text \<open>A request was sent and nobody knows its outcome.\<close>

definition outstanding :: "removal_request \<Rightarrow> drain_row \<Rightarrow> bool" where
  "outstanding q r \<longleftrightarrow>
     rm_state (dr_removal r) = Some Deleting_issued \<and> q \<in> set (rm_requests (dr_removal r)) \<and> rq_outcome q = Rq_unknown"

text \<open>What makes its outcome known, or irrelevant: the runtime removed the executor or no longer has
  it, the runtime refused this very request, or the runtime's bound on it has passed.\<close>

fun settles :: "int \<Rightarrow> ledger_op \<Rightarrow> removal_request \<Rightarrow> bool" where
  "settles now (Complete_deletion _) q = True"
| "settles now (Reconcile_issued gone _ _ fenceMs) q =
     (gone \<or> (case fenceMs of Some ms \<Rightarrow> leaseExpiry (rq_issuedAt q) ms \<le> now | None \<Rightarrow> False))"
| "settles now (Release_deletion token) q = (token = rq_id q)"
| "settles now _ q = False"

definition open_tokens :: "drain_row \<Rightarrow> string set" where
  "open_tokens r = fst ` set (ev_fences (dr_evidence r))"

lemma fst_in: "(k, f) \<in> set xs \<Longrightarrow> k \<in> fst ` set xs"
  by (rule image_eqI[where x = "(k, f)"]) simp_all

lemma open_tokens_delete: "kf \<in> set (AList.delete k xs) \<Longrightarrow> fst kf \<in> fst ` set xs"
  by (auto simp: AList.delete_eq)

lemma open_tokens_update: "map_of xs k = Some v \<Longrightarrow> kf \<in> set (AList.update k w xs) \<Longrightarrow> fst kf \<in> fst ` set xs"
  by (induction xs) (auto split: if_splits)

lemma open_tokens_remaining: "kf \<in> set (remaining_fences fence now xs) \<Longrightarrow> fst kf \<in> fst ` set xs"
  by (auto simp: remaining_fences_def split: option.splits)

lemma received_fences: "ev_fences (snd (received status at fence now e)) = remaining_fences fence now (ev_fences e)"
  by (auto simp: received_def Let_def)

lemma settleRequest_keeps:
  "q \<in> set requests \<Longrightarrow> rq_id q \<noteq> token \<Longrightarrow> q \<in> set (settleRequest requests token outcome)"
  by (force simp: settleRequest_def)

lemma kept_unknown:
  "q \<in> set requests \<Longrightarrow> rq_outcome q = Rq_unknown \<Longrightarrow> rq_id q \<noteq> token \<Longrightarrow>
     list_ex (\<lambda>q. rq_outcome q = Rq_unknown) (settleRequest requests token outcome)"
  by (meson list_ex_iff settleRequest_keeps)

lemma fence_passed_settles:
  "fence_passed fenceMs now rm \<Longrightarrow> q \<in> set (rm_requests rm) \<Longrightarrow> rq_outcome q = Rq_unknown \<Longrightarrow>
     settles now (Reconcile_issued gone token ms fenceMs) q"
  by (force simp: fence_passed_def list_ex_iff split: option.splits)

lemma release_outstanding:
  "outstanding q r \<Longrightarrow> token \<noteq> rq_id q \<Longrightarrow> releaseDeletion token now (Some r) = Some r' \<Longrightarrow> outstanding q r'"
  using settleRequest_keeps[of q "rm_requests (dr_removal r)" token] kept_unknown[of q "rm_requests (dr_removal r)" token]
  by (auto simp: releaseDeletion_def outstanding_def Let_def split: if_splits)

lemma reconcile_outstanding:
  "outstanding q r \<Longrightarrow> \<not> settles now (Reconcile_issued gone token ms fenceMs) q \<Longrightarrow>
     snd (reconcileIssuedDeletion gone token ms fenceMs now (Some r)) = Some r' \<Longrightarrow> outstanding q r'"
  using fence_passed_settles[of fenceMs now "dr_removal r" q gone token ms]
  by (auto simp: reconcileIssuedDeletion_def outstanding_def Let_def simp del: settles.simps split: if_splits)
    simp_all

lemma step_outstanding:
  assumes "outstanding q r" "\<not> settles now op q" "apply_op now op (Some r) = Some r'"
  shows "outstanding q r'"
proof (cases "\<exists>token. op = Release_deletion token")
  case True
  then show ?thesis using assms release_outstanding by auto
next
  case False
  show ?thesis
  proof (cases "\<exists>gone token ms fenceMs. op = Reconcile_issued gone token ms fenceMs")
    case True
    then show ?thesis using assms reconcile_outstanding by (auto simp del: settles.simps)
  next
    case False': False
    show ?thesis
      using assms False False'
      by (cases op) (auto simp: ledger_defs outstanding_def Let_def split: ledger_splits)
  qed
qed

lemma step_opens_nothing:
  assumes "rm_state (dr_removal r) = Some Deleting_issued" "apply_op now op (Some r) = Some r'"
  shows "open_tokens r' \<subseteq> open_tokens r"
  using assms
  by (cases op; auto simp: ledger_defs open_tokens_def Let_def received_fences case_prod_beta
      dest!: open_tokens_delete open_tokens_update open_tokens_remaining split: ledger_splits; meson fst_in)

interpretation unsettled: row_history "\<lambda>now op. \<not> settles now op q"
    "\<lambda>r r'. outstanding q r \<longrightarrow> outstanding q r' \<and> open_tokens r' \<subseteq> open_tokens r" for q
  using step_outstanding step_opens_nothing
  by unfold_locales (blast, blast, metis outstanding_def)

lemma run_outstanding:
  assumes "outstanding q r" "\<forall>(now, op) \<in> set ops. \<not> settles now op q" "run_ledger ops (Some r) = Some r'"
  shows "outstanding q r' \<and> open_tokens r' \<subseteq> open_tokens r"
  using unsettled.run[OF assms(3,2)] assms(1) by blast

text \<open>C11: a removal request whose outcome nobody knows keeps everything else off the executor. From the
  moment it is sent, whatever the workers do and however their holds lapse, no observation is opened,
  no recovery is admitted and no other removal is authorized, until the runtime removed the executor
  or lost it, refused this very request, or its bound on this very request has passed.\<close>

theorem outstanding_request_excludes:
  assumes "outstanding q r" "\<forall>(now, op) \<in> set ops. \<not> settles now op q" "run_ledger ops (Some r) = Some r'"
  shows "outstanding q r' \<and> open_tokens r' \<subseteq> open_tokens r \<and>
    fst (openObservation token ttl now (Some r')) = Open_deleting \<and>
    fst (admitRecovery claim now (Some r')) = Admit_deleting \<and>
    fst (authorizeDeletion v token ms recovery now (Some r')) \<in> {Held, Unresolved}"
  using run_outstanding[OF assms]
  by (auto simp: outstanding_def openObservation_def admitRecovery_def authorizeDeletion_def Let_def)

section \<open>The guard of the table\<close>

text \<open>The trigger \<open>workspace_capture_drains_invariants\<close> refuses a write that ends an issued removal, other
  than as deleted, while a request of unknown outcome is not recorded as settled.\<close>

definition guard_refuses :: "drain_row \<Rightarrow> drain_row \<Rightarrow> bool" where
  "guard_refuses old new \<longleftrightarrow>
     rm_state (dr_removal old) = Some Deleting_issued \<and> rm_state (dr_removal new) \<noteq> Some Deleting_issued \<and>
     rm_state (dr_removal new) \<noteq> Some Deleted \<and>
     list_ex (\<lambda>q. rq_outcome q = Rq_unknown \<and>
         \<not> list_ex (\<lambda>s. rq_id s = rq_id q \<and> rq_outcome s \<in> {Rq_refused, Rq_done, Rq_fenced}) (rm_requests (dr_removal new)))
       (rm_requests (dr_removal old))"

lemma settled_recorded:
  assumes "q \<in> set requests" "\<not> list_ex (\<lambda>q. rq_outcome q = Rq_unknown) (settleRequest requests token Rq_refused)"
    and "rq_outcome q = Rq_unknown"
  shows "\<exists>s \<in> set (settleRequest requests token Rq_refused). rq_id s = rq_id q \<and> rq_outcome s = Rq_refused"
proof -
  have "rq_id q = token" using assms kept_unknown by blast
  then have "q\<lparr>rq_outcome := Rq_refused\<rparr> \<in> set (settleRequest requests token Rq_refused)"
    using assms(1,3) by (force simp: settleRequest_def)
  then show ?thesis by (rule bexI[rotated]) simp
qed

lemma release_guarded: "releaseDeletion token now (Some r) = Some r' \<Longrightarrow> \<not> guard_refuses r r'"
  using settled_recorded[of _ "rm_requests (dr_removal r)" token]
  by (fastforce simp: releaseDeletion_def guard_refuses_def list_ex_iff NO_DELETION_def Let_def split: if_splits)

lemma fenced_recorded:
  "q \<in> set requests \<Longrightarrow> rq_outcome q = Rq_unknown \<Longrightarrow>
     \<exists>s \<in> set (map (\<lambda>q. if rq_outcome q = Rq_unknown then q\<lparr>rq_outcome := Rq_fenced\<rparr> else q) requests).
       rq_id s = rq_id q \<and> rq_outcome s = Rq_fenced"
  by (rule bexI[where x = "q\<lparr>rq_outcome := Rq_fenced\<rparr>"]) (auto simp: image_iff)

lemma reconcile_guarded:
  assumes "snd (reconcileIssuedDeletion gone token ms fenceMs now (Some r)) = Some r'"
  shows "\<not> guard_refuses r r'"
proof
  assume refused: "guard_refuses r r'"
  then have "rm_requests (dr_removal r') =
      map (\<lambda>q. if rq_outcome q = Rq_unknown then q\<lparr>rq_outcome := Rq_fenced\<rparr> else q) (rm_requests (dr_removal r))"
    using assms by (auto simp: reconcileIssuedDeletion_def guard_refuses_def NO_DELETION_def Let_def split: if_splits)
  then show False
    using refused fenced_recorded[of _ "rm_requests (dr_removal r)"] unfolding guard_refuses_def list_ex_iff by (auto simp del: set_map)
qed

lemma guard_never_refuses:
  assumes "apply_op now op (Some r) = Some r'"
  shows "\<not> guard_refuses r r'"
proof (cases "(\<exists>token. op = Release_deletion token) \<or> (\<exists>gone token ms fenceMs. op = Reconcile_issued gone token ms fenceMs)")
  case True
  then show ?thesis using assms release_guarded reconcile_guarded by auto
next
  case False
  then show ?thesis
    using assms by (cases op) (auto simp: ledger_defs guard_refuses_def Let_def split: ledger_splits)
qed


section \<open>A recovery attempt keeps every other deleter off\<close>

text \<open>The operation presents the recovery claim \<open>c\<close>.\<close>

fun presents :: "string \<Rightarrow> ledger_op \<Rightarrow> bool" where
  "presents c (Authorize_deletion _ _ _ rec) = (rec = Some c)"
| "presents c (Claim_recovery token _) = (token = c)"
| "presents c (Release_recovery token) = (token = c)"
| "presents c _ = False"

text \<open>The claim is held until \<open>u\<close> and no removal is under way.\<close>

definition kept_for :: "string \<Rightarrow> int \<Rightarrow> drain_row \<Rightarrow> bool" where
  "kept_for c u r \<longleftrightarrow> dr_claimToken r = Some c \<and> dr_claimUntil r = Some u \<and> \<not> under_way r"

lemma step_kept_for:
  assumes "kept_for c u r" "now < u" "\<not> presents c op" "apply_op now op (Some r) = Some r'"
  shows "kept_for c u r'"
  using assms
  by (cases op)
    (auto simp: ledger_defs kept_for_def under_way_def claim_live_def in_future_def NO_DELETION_def Let_def
      split: ledger_splits)

interpretation claimed: row_history "\<lambda>now op. now < u \<and> \<not> presents c op" "\<lambda>r r'. kept_for c u r \<longrightarrow> kept_for c u r'" for c u
  using step_kept_for by unfold_locales blast+

lemma admitted_kept_for:
  "fst (admitRecovery c now (Some r)) = Admit_ok \<Longrightarrow>
     \<exists>u r'. snd (admitRecovery c now (Some r)) = Some r' \<and> dr_claimUntil r = Some u \<and> now < u \<and> kept_for c u r'"
  by (cases "rm_state (dr_removal r)"; cases "the (rm_state (dr_removal r))")
    (auto simp: admitRecovery_def kept_for_def claim_live_def in_future_def under_way_def NO_DELETION_def Let_def
      split: ledger_splits)

lemma removal_state_cases:
  "st = None \<or> st = Some Deleting \<or> st = Some Deleting_issued \<or> st = Some Deleted"
  by (cases st; cases "the st") auto

text \<open>C12: what a recovery attempt starts, no one else removes until its claim ends. Once a recovery is
  admitted, then until its claim lapses, whatever the other workers do, nobody who does not present
  that claim is authorized to remove the executor or lets the runtime be asked to.\<close>

theorem recovery_keeps_deleters_off:
  assumes "admitRecovery c now0 (Some r) = (Admit_ok, Some r0)" "dr_claimUntil r = Some u"
    and "\<forall>(now, op) \<in> set ops. now < u \<and> \<not> presents c op" "run_ledger ops (Some r0) = Some r'"
    and "now < u" "recovery \<noteq> Some c"
  shows "\<not> fst (issueDeletion token ms now (Some r')) \<and>
    fst (authorizeDeletion v token ms recovery now (Some r')) \<in> {Recovering, Was_deleted} \<and>
    fst (admitRecovery c now (Some r')) \<in> {Admit_ok, Admit_deleted}"
proof -
  have "kept_for c u r0" using admitted_kept_for[of c now0 r] assms(1,2) by auto
  then have r': "kept_for c u r'" using claimed.run[OF assms(4,3)] by blast
  then have "\<not> fst (issueDeletion token ms now (Some r'))"
    using issued_current by (auto simp: kept_for_def)
  moreover have "rm_state (dr_removal r') = None \<or> rm_state (dr_removal r') = Some Deleted"
    using r' removal_state_cases[of "rm_state (dr_removal r')"] by (simp add: kept_for_def under_way_def)
  ultimately show ?thesis
    using r' assms(5,6)
    by (auto simp: kept_for_def authorizeDeletion_def admitRecovery_def claim_live_def in_future_def Let_def)
qed

section \<open>An issued removal is settled\<close>

definition issued_known :: "drain_row \<Rightarrow> bool" where
  "issued_known r \<longleftrightarrow> (rm_state (dr_removal r) = Some Deleting_issued \<longrightarrow> rm_issuedAt (dr_removal r) \<noteq> None)"

lemma step_issued_known:
  "issued_known r \<Longrightarrow> apply_op now op (Some r) = Some r' \<Longrightarrow> issued_known r'"
  by (cases op) (auto simp: ledger_defs issued_known_def NO_DELETION_def Let_def split: ledger_splits)

lemma fresh_issued_known: "apply_op now op None = Some r \<Longrightarrow> issued_known r"
  using fresh_not_under_way[of now op r] by (auto simp: issued_known_def under_way_def)

lemma reachable_issued_known: "run_ledger ops None = Some r \<Longrightarrow> issued_known r"
proof (induction ops arbitrary: r rule: rev_induct)
  case (snoc x ops)
  obtain now op where x: "x = (now, op)" by force
  have step: "apply_op now op (run_ledger ops None) = Some r" using snoc.prems by (simp add: x)
  show ?case
  proof (cases "run_ledger ops None")
    case None
    then show ?thesis using fresh_issued_known step by simp
  next
    case (Some r0)
    then show ?thesis using step_issued_known[OF snoc.IH[OF Some]] step by simp
  qed
qed simp

text \<open>The instants the row names are those of issues of its history.\<close>

definition issued_at :: "(int \<times> ledger_op) list \<Rightarrow> int \<Rightarrow> bool" where
  "issued_at ops t \<longleftrightarrow> (\<exists>token ms. (t, Issue_deletion token ms) \<in> set ops)"

definition issues_of :: "(int \<times> ledger_op) list \<Rightarrow> drain_row \<Rightarrow> bool" where
  "issues_of ops r \<longleftrightarrow> (\<forall>t. rm_issuedAt (dr_removal r) = Some t \<longrightarrow> issued_at ops t) \<and>
     (\<forall>q \<in> set (rm_requests (dr_removal r)). issued_at ops (rq_issuedAt q))"

lemma issued_at_snoc: "issued_at (ops @ [(now, op)]) t \<longleftrightarrow>
    issued_at ops t \<or> (t = now \<and> (\<exists>token ms. op = Issue_deletion token ms))"
  by (auto simp: issued_at_def)

lemma step_issues_of:
  "issues_of ops r \<Longrightarrow> apply_op now op (Some r) = Some r' \<Longrightarrow> issues_of (ops @ [(now, op)]) r'"
  by (cases op) (auto simp: ledger_defs issues_of_def issued_at_snoc NO_DELETION_def settleRequest_def Let_def
      split: ledger_splits)

lemma fresh_issues_of: "apply_op now op None = Some r \<Longrightarrow> issues_of ops r"
  by (cases op) (auto simp: ledger_defs issues_of_def fresh_row_def row_or_fresh_def NO_DELETION_def Let_def
      split: ledger_splits)

lemma reachable_issues_of: "run_ledger ops None = Some r \<Longrightarrow> issues_of ops r"
proof (induction ops arbitrary: r rule: rev_induct)
  case (snoc x ops)
  obtain now op where x: "x = (now, op)" by force
  have step: "apply_op now op (run_ledger ops None) = Some r" using snoc.prems by (simp add: x)
  show ?case
  proof (cases "run_ledger ops None")
    case None
    then show ?thesis using fresh_issues_of step by simp
  next
    case (Some r0)
    then show ?thesis using step_issues_of[OF snoc.IH[OF Some]] step x by simp
  qed
qed simp

text \<open>How a settlement leaves the row: removed for good, free for new observations, or taken over by
  \<open>token\<close> to send a request of its own.\<close>

definition settled_row :: "string \<Rightarrow> int \<Rightarrow> reconcile_reply \<times> drain_row option \<Rightarrow> bool" where
  "settled_row token now reply \<longleftrightarrow>
     (case reply of
        (Rc_deleted, Some r) \<Rightarrow> rm_state (dr_removal r) = Some Deleted
      | (Rc_released, Some r) \<Rightarrow> fst (openObservation token 0 now (Some r)) = Opened now
      | (Rc_reissue, Some r) \<Rightarrow> fst (issueDeletion token 0 now (Some r))
      | _ \<Rightarrow> False)"

text \<open>C13: what settles an issued removal. Whatever the operations that led to the row, asking about a
  removal that was issued settles it (recorded as deleted; taken over and sent again; or given up, the
  executor free to be observed again) exactly when its lease is over and the executor is gone, or its
  evidence still stands, or the runtime's bound has passed since the last issue and since every request
  of unknown outcome; it settles as deleted when the executor is gone, and until it settles the row is
  left as it is. In particular it settles once the bound has passed since every issue of the history.\<close>

theorem issued_removal_is_settled:
  assumes "run_ledger ops None = Some r" "rm_state (dr_removal r) = Some Deleting_issued"
    and "\<forall>q \<in> set (rm_requests (dr_removal r)). rq_id q \<noteq> token"
    and "reply = reconcileIssuedDeletion gone token ms (Some fenceMs) now (Some r)"
  shows "(settled_row token now reply \<longleftrightarrow> \<not> removal_live now r \<and>
      (gone \<or> deletionEvidenceCurrent r \<or>
       (\<exists>t. rm_issuedAt (dr_removal r) = Some t \<and> t + max 0 fenceMs * 1000 \<le> now \<and>
          (\<forall>q \<in> set (rm_requests (dr_removal r)).
             rq_outcome q = Rq_unknown \<longrightarrow> rq_issuedAt q + max 0 fenceMs * 1000 \<le> now)))) \<and>
    (settled_row token now reply \<and> gone \<longrightarrow> fst reply = Rc_deleted) \<and>
    (settled_row token now reply \<or> snd reply = Some r) \<and>
    (\<not> removal_live now r \<and> (\<forall>t. issued_at ops t \<longrightarrow> t + max 0 fenceMs * 1000 \<le> now) \<longrightarrow>
       settled_row token now reply)"
proof -
  obtain t where t: "rm_issuedAt (dr_removal r) = Some t"
    using reachable_issued_known[OF assms(1)] assms(2) by (auto simp: issued_known_def)
  have fence: "fence_passed (Some fenceMs) now (dr_removal r) \<longleftrightarrow> t + max 0 fenceMs * 1000 \<le> now \<and>
      (\<forall>q \<in> set (rm_requests (dr_removal r)). rq_outcome q = Rq_unknown \<longrightarrow> rq_issuedAt q + max 0 fenceMs * 1000 \<le> now)"
    using t by (auto simp: fence_passed_def leaseExpiry_def list_ex_iff not_less)
  have settled: "settled_row token now reply \<longleftrightarrow> \<not> removal_live now r \<and>
      (gone \<or> deletionEvidenceCurrent r \<or> fence_passed (Some fenceMs) now (dr_removal r))"
    and "settled_row token now reply \<and> gone \<longrightarrow> fst reply = Rc_deleted"
    and "settled_row token now reply \<or> snd reply = Some r"
    using assms(2,3) unfolding assms(4)
    by (auto simp: reconcileIssuedDeletion_def settled_row_def deletionEvidenceCurrent_def issueDeletion_def
        openObservation_def NO_DELETION_def list_ex_iff Let_def)
  moreover have "issued_at ops t" "\<forall>q \<in> set (rm_requests (dr_removal r)). issued_at ops (rq_issuedAt q)"
    using reachable_issues_of[OF assms(1)] t by (auto simp: issues_of_def)
  ultimately show ?thesis using t unfolding settled fence by auto
qed

section \<open>An unsaved answer stays until one covers it\<close>

text \<open>The operation records an answer that covers the observation \<open>m\<close>, given the fences of the row.\<close>

definition covering :: "int \<Rightarrow> ledger_op \<Rightarrow> drain_row \<Rightarrow> observation \<Rightarrow> bool" where
  "covering now op r m \<longleftrightarrow>
     (case op of
        Record_status status at fence \<Rightarrow>
          answerCovers status (asked_at fence now (ev_fences (dr_evidence r))) (ob_status m) (ob_recordedAt m)
      | _ \<Rightarrow> False)"

lemma received_unsaved:
  "ev_unsaved (snd (received status at fence now e)) =
     nextUnsavedObservations (ev_unsaved e) (ev_lastStatus e) (ev_recordedAt e) status (asked_at fence now (ev_fences e)) now"
  by (auto simp: received_def Let_def)

lemma next_unsaved_keeps:
  "m \<in> set unsaved \<Longrightarrow> \<not> answerCovers status askedAt (ob_status m) (ob_recordedAt m) \<Longrightarrow>
     m \<in> set (nextUnsavedObservations unsaved stored storedAt status askedAt now)"
  by (auto simp: nextUnsavedObservations_def Let_def)

lemma step_keeps_unsaved:
  assumes "m \<in> set (ev_unsaved (dr_evidence r))" "\<not> covering now op r m" "apply_op now op (Some r) = Some r'"
  shows "m \<in> set (ev_unsaved (dr_evidence r'))"
  using assms
  by (cases op)
    (auto simp: ledger_defs covering_def received_unsaved case_prod_beta Let_def intro: next_unsaved_keeps split: ledger_splits)

lemma run_keeps_unsaved:
  "m \<in> set (ev_unsaved (dr_evidence r)) \<Longrightarrow> run_ledger ops (Some r) = Some r' \<Longrightarrow>
     m \<in> set (ev_unsaved (dr_evidence r')) \<or>
     (\<exists>before now op after r1. ops = before @ (now, op) # after \<and> run_ledger before (Some r) = Some r1 \<and> covering now op r1 m)"
proof (induction ops arbitrary: r)
  case (Cons x ops)
  obtain now op where x: "x = (now, op)" by force
  obtain r1 where r1: "apply_op now op (Some r) = Some r1" using step_exists by blast
  then have rest: "run_ledger ops (Some r1) = Some r'" using Cons.prems(2) x by simp
  show ?case
  proof (cases "covering now op r m")
    case True
    then show ?thesis using x by (intro disjI2 exI[of _ "[]"]) auto
  next
    case False
    then have "m \<in> set (ev_unsaved (dr_evidence r1))" using step_keeps_unsaved Cons.prems(1) r1 by blast
    then consider "m \<in> set (ev_unsaved (dr_evidence r'))"
      | before now' op' after r2 where "ops = before @ (now', op') # after" "run_ledger before (Some r1) = Some r2"
          "covering now' op' r2 m"
      using Cons.IH rest by blast
    then show ?thesis
    proof cases
      case 2
      then have "x # ops = (x # before) @ (now', op') # after" "run_ledger (x # before) (Some r) = Some r2"
        using r1 x by simp_all
      then show ?thesis using 2(3) by blast
    qed simp
  qed
qed simp

text \<open>C14: an answer that says the work is not saved stands against the executor until an answer that
  covers it is recorded. Whatever else happens to the row after it was recorded, if the record reads
  saved at the end then some answer recorded in between is later in the executor's own history, or
  was asked for after this one was recorded and nothing orders the two.\<close>

theorem unsaved_answer_stands:
  assumes "recordStatus status at fence now (Some r) = (replaced, Some r1)" "\<not> storedStatusComplete status"
    and "\<not> is_stale ((if is_plain_record (ev_lastStatus (dr_evidence r))
        then [\<lparr>ob_status = ev_lastStatus (dr_evidence r), ob_recordedAt = ev_recordedAt (dr_evidence r)\<rparr>] else []) @
      ev_unsaved (dr_evidence r)) status (asked_at fence now (ev_fences (dr_evidence r)))"
    and "run_ledger ops (Some r1) = Some r'" "ev_unsaved (dr_evidence r') = []"
  shows "\<exists>before now' op after r2. ops = before @ (now', op) # after \<and> run_ledger before (Some r1) = Some r2 \<and>
    covering now' op r2 \<lparr>ob_status = status, ob_recordedAt = Some now\<rparr>"
proof -
  have "ev_unsaved (dr_evidence r1) = ev_unsaved (snd (received status at fence now (dr_evidence r)))"
    using assms(1) by (auto simp: recordStatus_def Let_def split: prod.splits)
  then have "\<lparr>ob_status = status, ob_recordedAt = Some now\<rparr> \<in> set (ev_unsaved (dr_evidence r1))"
    using assms(2,3) by (simp add: received_unsaved nextUnsavedObservations_def Let_def)
  then show ?thesis using run_keeps_unsaved[OF _ assms(4)] assms(5) by fastforce
qed

section \<open>The theorems on a history\<close>

definition issuing_history :: "(int \<times> ledger_op) list" where
  "issuing_history = [(1, Open_observation ''f'' 1000), (2, Record_status Null 2 (Some ''f'')),
     (3, Authorize_deletion 2 ''t'' 1000 None), (4, Issue_deletion ''t'' 1000)]"

definition row_of :: "(int \<times> ledger_op) list \<Rightarrow> drain_row" where
  "row_of ops = the (run_ledger ops None)"

lemma row_of_run: "run_ledger ops None \<noteq> None \<Longrightarrow> run_ledger ops None = Some (row_of ops)"
  by (auto simp: row_of_def)

definition request_t :: removal_request where
  "request_t = \<lparr>rq_id = ''t'', rq_issuedAt = 4, rq_outcome = Rq_unknown\<rparr>"

lemma issued_sample:
  "run_ledger (take 3 issuing_history) None = Some (row_of (take 3 issuing_history))"
  "run_ledger issuing_history None = Some (row_of issuing_history)"
  "fst (issueDeletion ''t'' 1000 4 (Some (row_of (take 3 issuing_history))))"
  "rm_state (dr_removal (row_of issuing_history)) = Some Deleting_issued"
  "rm_requests (dr_removal (row_of issuing_history)) = [request_t]"
  "dr_version (row_of (take 3 issuing_history)) = 2"
  by code_simp+

theorem request_sent_on_authorized_evidence_witness:
  "\<exists>before at op after r0. take 3 issuing_history = before @ (at, op) # after \<and> run_ledger before None = Some r0 \<and>
     authorizes at op (Some r0) 2"
  using request_sent_on_authorized_evidence[OF issued_sample(1,3)] issued_sample(6) by metis

theorem outstanding_request_excludes_witness:
  "\<exists>r'. run_ledger [(5, Lapse_issued ''t''), (6, Open_observation ''g'' 1000)] (Some (row_of issuing_history)) = Some r' \<and>
     fst (admitRecovery ''c'' 7 (Some r')) = Admit_deleting"
proof -
  obtain r' where r': "run_ledger [(5, Lapse_issued ''t''), (6, Open_observation ''g'' 1000)] (Some (row_of issuing_history)) = Some r'"
    using run_exists by blast
  have "outstanding request_t (row_of issuing_history)"
    using issued_sample by (simp add: outstanding_def request_t_def)
  from outstanding_request_excludes[OF this _ r'] r' show ?thesis by simp
qed

definition recovering_row :: drain_row where
  "recovering_row = row_of [(1, Mark_retained ''exited''), (2, Claim_recovery ''c'' 1000)]"

lemma recovering_sample: "admitRecovery ''c'' 3 (Some recovering_row) = (Admit_ok, Some recovering_row)"
    "dr_claimUntil recovering_row = Some 1000002"
  by code_simp+

theorem recovery_keeps_deleters_off_witness:
  "\<exists>r'. run_ledger [(4, Authorize_deletion 0 ''t'' 1000 None)] (Some recovering_row) = Some r' \<and>
     \<not> fst (issueDeletion ''t'' 1000 5 (Some r'))"
proof -
  obtain r' where r': "run_ledger [(4, Authorize_deletion 0 ''t'' 1000 None)] (Some recovering_row) = Some r'"
    using run_exists by blast
  from recovery_keeps_deleters_off[OF recovering_sample _ r', where now = 5 and recovery = None] r' show ?thesis by simp
qed

text \<open>Issued at 4 with a bound of one second: at two seconds the removal is settled, unless someone
  has just taken it over.\<close>

theorem issued_removal_is_settled_witness:
  "settled_row ''u'' 2000000 (reconcileIssuedDeletion False ''u'' 1000 (Some 1000) 2000000 (Some (row_of issuing_history))) \<and>
   \<not> settled_row ''u'' 5 (reconcileIssuedDeletion False ''u'' 1000 (Some 1000) 5 (Some (row_of issuing_history)))"
proof -
  let ?reply = "\<lambda>now. reconcileIssuedDeletion False ''u'' 1000 (Some 1000) now (Some (row_of issuing_history))"
  have fresh: "\<forall>q \<in> set (rm_requests (dr_removal (row_of issuing_history))). rq_id q \<noteq> ''u''"
    using issued_sample(5) by (simp add: request_t_def)
  have "removal_live 5 (row_of issuing_history) \<and> \<not> removal_live 2000000 (row_of issuing_history)" by code_simp
  moreover have "issued_at issuing_history t \<Longrightarrow> t = 4" for t
    by (auto simp: issued_at_def issuing_history_def)
  ultimately show ?thesis
    using issued_removal_is_settled[OF issued_sample(2,4) fresh refl, where gone = False and ms = 1000 and fenceMs = 1000 and now = 5]
      issued_removal_is_settled[OF issued_sample(2,4) fresh refl, where gone = False and ms = 1000 and fenceMs = 1000 and now = 2000000] by fastforce
qed

definition answered_history :: "(int \<times> ledger_op) list" where
  "answered_history = [(5, Record_status (status_at 5 ''b1'' True) 5 None)]"

lemma answered_sample:
  "recordStatus (status_at 4 ''b1'' False) 3 None 3 (Some fresh_row) =
     (True, Some (row_of [(3, Record_status (status_at 4 ''b1'' False) 3 None)]))"
  "run_ledger answered_history (Some (row_of [(3, Record_status (status_at 4 ''b1'' False) 3 None)])) =
     Some (row_of ((3, Record_status (status_at 4 ''b1'' False) 3 None) # answered_history))"
  "ev_unsaved (dr_evidence (row_of ((3, Record_status (status_at 4 ''b1'' False) 3 None) # answered_history))) = []"
  "\<not> storedStatusComplete (status_at 4 ''b1'' False)"
  "\<not> is_stale ((if is_plain_record (ev_lastStatus (dr_evidence fresh_row))
        then [\<lparr>ob_status = ev_lastStatus (dr_evidence fresh_row), ob_recordedAt = ev_recordedAt (dr_evidence fresh_row)\<rparr>] else []) @
      ev_unsaved (dr_evidence fresh_row)) (status_at 4 ''b1'' False) (asked_at None 3 (ev_fences (dr_evidence fresh_row)))"
  by code_simp+

theorem unsaved_answer_stands_witness:
  "\<exists>before now' op after r2. answered_history = before @ (now', op) # after \<and>
     run_ledger before (Some (row_of [(3, Record_status (status_at 4 ''b1'' False) 3 None)])) = Some r2 \<and>
     covering now' op r2 \<lparr>ob_status = status_at 4 ''b1'' False, ob_recordedAt = Some 3\<rparr>"
  by (rule unsaved_answer_stands[OF answered_sample(1,4,5,2,3)])

end
