(* ===== verification/Capture_Removal.thy ===== *)
theory Capture_Removal
  imports Capture_Status Capture_Ledger_Proofs
begin

text \<open>
  How a worker removes an executor on recorded evidence (\<open>authorizedDeletion\<close>, \<open>removeUnderDeletion\<close> and
  \<open>deleteOnEvidence\<close> of \<open>packages/workspaces/src/worker/capture-drain.ts\<close>), over the ledger of
  \<open>capture-drain-ledger.ts\<close>. Before each of the worker's calls to the ledger any operations of other
  connections happen, and a call may fail before or after it took effect; what other connections do,
  the clock, the failures and the fresh tokens are the \<open>schedule\<close>, by the number of the call.
\<close>

section \<open>Calling the ledger\<close>

datatype fault = No_fault | Lost_before | Lost_after

record schedule =
  sd_clock :: "nat \<Rightarrow> int"
  sd_others :: "nat \<Rightarrow> (int \<times> ledger_op) list"
  sd_fault :: "nat \<Rightarrow> fault"
  sd_token :: "nat \<Rightarrow> string"

text \<open>A request to the runtime, with the row at the instant it is made.\<close>

record removal_call =
  rc_row :: "drain_row option"
  rc_basis :: deletion_basis
  rc_ticket :: "string option"

record worker =
  wk_row :: "drain_row option"
  wk_calls :: nat
  wk_asked :: "removal_call list"

text \<open>The others run, then the operation; a call that failed answers nothing.\<close>

definition ledger_call ::
  "schedule \<Rightarrow> (int \<Rightarrow> drain_row option \<Rightarrow> 'a \<times> drain_row option) \<Rightarrow> worker \<Rightarrow> 'a option \<times> worker"
where
  "ledger_call sd f w =
     (let k = wk_calls w; row = run_ledger (sd_others sd k) (wk_row w); (a, row') = f (sd_clock sd k) row in
      case sd_fault sd k of
        No_fault \<Rightarrow> (Some a, w\<lparr>wk_row := row', wk_calls := Suc k\<rparr>)
      | Lost_before \<Rightarrow> (None, w\<lparr>wk_row := row, wk_calls := Suc k\<rparr>)
      | Lost_after \<Rightarrow> (None, w\<lparr>wk_row := row', wk_calls := Suc k\<rparr>))"

definition DELETION_HOLD_MS :: int where "DELETION_HOLD_MS = 120000"

definition read_call :: "schedule \<Rightarrow> worker \<Rightarrow> drain_read \<times> worker" where
  "read_call sd w =
     (case ledger_call sd (\<lambda>now row. (row, row)) w of
        (Some row, w') \<Rightarrow> (Read_ok (map_option entryFromRow row), w')
      | (None, w') \<Rightarrow> (Read_failed, w'))"

text \<open>The reply, and the ticket when it is \<open>authorized\<close>; a failed call reads as changed.\<close>

definition authorize_call ::
  "schedule \<Rightarrow> int \<Rightarrow> string option \<Rightarrow> worker \<Rightarrow> (authorize_reply \<times> string) \<times> worker"
where
  "authorize_call sd version recovery w =
     (let token = sd_token sd (wk_calls w) in
      case ledger_call sd (authorizeDeletion version token DELETION_HOLD_MS recovery) w of
        (Some reply, w') \<Rightarrow> ((reply, token), w')
      | (None, w') \<Rightarrow> ((Changed, token), w'))"

definition issue_call :: "schedule \<Rightarrow> string \<Rightarrow> worker \<Rightarrow> bool \<times> worker" where
  "issue_call sd ticket w =
     (case ledger_call sd (issueDeletion ticket DELETION_HOLD_MS) w of
        (Some ok, w') \<Rightarrow> (ok, w') | (None, w') \<Rightarrow> (False, w'))"

definition confirm_call :: "schedule \<Rightarrow> string \<Rightarrow> worker \<Rightarrow> worker" where
  "confirm_call sd ticket w = snd (ledger_call sd (confirmDeletion ticket DELETION_HOLD_MS) w)"

definition complete_call :: "schedule \<Rightarrow> string \<Rightarrow> worker \<Rightarrow> worker" where
  "complete_call sd ticket w = snd (ledger_call sd (\<lambda>_. completeDeletion ticket) w)"

definition release_call :: "schedule \<Rightarrow> string \<Rightarrow> worker \<Rightarrow> worker" where
  "release_call sd ticket w = snd (ledger_call sd (\<lambda>now row. ((), releaseDeletion ticket now row)) w)"

definition lapse_call :: "schedule \<Rightarrow> string \<Rightarrow> worker \<Rightarrow> worker" where
  "lapse_call sd ticket w = snd (ledger_call sd (\<lambda>now row. ((), lapseIssuedDeletion ticket now row)) w)"

text \<open>Nothing is settled by a call that failed: \<^const>\<open>None\<close> is \<open>unknown\<close>.\<close>

definition reconcile_call ::
  "schedule \<Rightarrow> bool \<Rightarrow> int option \<Rightarrow> worker \<Rightarrow> (reconcile_reply option \<times> string) \<times> worker"
where
  "reconcile_call sd gone fenceMs w =
     (let token = sd_token sd (wk_calls w);
          (reply, w') = ledger_call sd (reconcileIssuedDeletion gone token DELETION_HOLD_MS fenceMs) w
      in ((reply, token), w'))"

section \<open>Deciding\<close>

text \<open>Who removes: whether it has a ledger, its decision on what the record says, what the runtime last
  said of the executor, the runtime's bound on a removal request and the recovery claim it holds.\<close>

record deleter =
  dl_hasLedger :: bool
  dl_decide :: "drain_read \<Rightarrow> deletion_decision"
  dl_runtime :: "runtime_state option"
  dl_removalFenceMs :: "int option"
  dl_recovery :: "string option"

text \<open>The decision every caller takes; \<open>drainedNow\<close> is a drain it has just run.\<close>

definition decide_on_record ::
  "bool \<Rightarrow> runtime_state \<Rightarrow> bool \<Rightarrow> executor_identity \<Rightarrow> drain_read \<Rightarrow> deletion_decision"
where
  "decide_on_record captureSourced runtime drainedNow x rd =
     (let evidence = recordedDeletionEvidence rd x in
      decideExecutorDeletion
        \<lparr>de_captureSourced = captureSourced, de_runtime = runtime,
         de_observedComplete = rd_observedComplete evidence, de_attestedComplete = rd_attestedComplete evidence,
         de_drainedNow = (drainedNow \<and> rd_observedComplete evidence),
         de_discarded = rd_discarded evidence, de_ledgerUnreadable = rd_ledgerUnreadable evidence\<rparr>)"

definition basisRestsOnEvidence :: "deletion_basis \<Rightarrow> bool" where
  "basisRestsOnEvidence b \<longleftrightarrow> b = Observed_complete \<or> b = Attested_complete \<or> b = Issued_before"

datatype settled = Settled_reissue string | Settled_kept string | Settled_done

definition settled_by :: "reconcile_reply option \<Rightarrow> string \<Rightarrow> settled" where
  "settled_by reply token =
     (case reply of
        Some Rc_deleted \<Rightarrow> Settled_done
      | Some Rc_reissue \<Rightarrow> Settled_reissue token
      | Some Rc_outstanding \<Rightarrow> Settled_kept ''a removal of this executor was issued and may still act on the runtime, and the evidence changed since it was authorized; it is kept until the outcome is known''
      | Some Rc_released \<Rightarrow> Settled_done
      | Some Rc_none \<Rightarrow> Settled_done
      | Some Rc_held \<Rightarrow> Settled_kept ''the removal of this executor was issued and its issuer is still waiting on it''
      | None \<Rightarrow> Settled_kept ''the runtime was asked to remove this executor and its outcome could not be settled; it is kept'')"

definition settleIssuedRemoval :: "schedule \<Rightarrow> deleter \<Rightarrow> worker \<Rightarrow> settled \<times> worker" where
  "settleIssuedRemoval sd d w =
     (if dl_runtime d = None \<or> dl_runtime d = Some Rt_unknown then
        (Settled_kept ''the runtime was asked to remove this executor and nothing recorded how that went; it is kept until the runtime says whether it still has it'', w)
      else
        let ((reply, token), w') = reconcile_call sd (dl_runtime d = Some Rt_missing) (dl_removalFenceMs d) w
        in (settled_by reply token, w'))"

record authorized =
  az_decision :: deletion_decision
  az_record :: drain_read
  az_ticket :: "string option"
  az_heldElsewhere :: bool

definition kept_elsewhere :: "string \<Rightarrow> drain_read \<Rightarrow> authorized" where
  "kept_elsewhere why rd = \<lparr>az_decision = Keep why, az_record = rd, az_ticket = None, az_heldElsewhere = True\<rparr>"

definition decided :: "deletion_decision \<Rightarrow> drain_read \<Rightarrow> string option \<Rightarrow> authorized" where
  "decided decision rd ticket = \<lparr>az_decision = decision, az_record = rd, az_ticket = ticket, az_heldElsewhere = False\<rparr>"

definition in_entry :: "(drain_entry \<Rightarrow> bool) \<Rightarrow> drain_read \<Rightarrow> bool" where
  "in_entry p rd = (case rd of Read_ok (Some e) \<Rightarrow> p e | _ \<Rightarrow> False)"

text \<open>\<open>record.entry?.evidenceVersion ?? 0\<close>, when there is a ledger and the record is readable.\<close>

definition version_read :: "deleter \<Rightarrow> drain_read \<Rightarrow> int option" where
  "version_read d rd =
     (if \<not> dl_hasLedger d then None
      else case rd of Read_failed \<Rightarrow> None | Read_ok None \<Rightarrow> Some 0 | Read_ok (Some e) \<Rightarrow> Some (en_evidenceVersion e))"

text \<open>One attempt from the record on: \<^const>\<open>None\<close> decides again. \<open>more\<close>: an attempt is left after it.\<close>

definition decide_step :: "schedule \<Rightarrow> deleter \<Rightarrow> bool \<Rightarrow> drain_read \<Rightarrow> worker \<Rightarrow> authorized option \<times> worker" where
  "decide_step sd d again rd w =
     (let decision = dl_decide d rd in
      case decision of
        Keep why \<Rightarrow> (if in_entry (\<lambda>e. en_inFlight e > 0) rd \<and> again then None else Some (decided decision rd None), w)
      | Delete basis \<Rightarrow>
          if \<not> basisRestsOnEvidence basis then (Some (decided decision rd None), w)
          else case version_read d rd of
            None \<Rightarrow> (None, w)
          | Some version \<Rightarrow>
              let ((reply, token), w') = authorize_call sd version (dl_recovery d) w in
              (case reply of
                 Authorized \<Rightarrow> Some (decided decision rd (Some token))
               | Was_deleted \<Rightarrow> Some (decided decision rd None)
               | Held \<Rightarrow> Some (kept_elsewhere ''another path holds the removal of this executor right now'' rd)
               | Recovering \<Rightarrow> Some (kept_elsewhere ''a recovery of this executor is under way; only that recovery removes it'' rd)
               | _ \<Rightarrow> None, w'))"

definition attempt_deletion :: "schedule \<Rightarrow> deleter \<Rightarrow> bool \<Rightarrow> worker \<Rightarrow> authorized option \<times> drain_read \<times> worker" where
  "attempt_deletion sd d again w =
     (let (rd, w1) = (if dl_hasLedger d then read_call sd w else (Read_failed, w)) in
      if in_entry en_preservationManaged rd then
        (Some (kept_elsewhere ''Boat custody requires the canonical incarnation executor, which is unavailable'' rd), rd, w1)
      else if dl_hasLedger d \<and> in_entry en_removalIssued rd then
        (case settleIssuedRemoval sd d w1 of
           (Settled_reissue token, w2) \<Rightarrow> (Some (decided (Delete Issued_before) rd (Some token)), rd, w2)
         | (Settled_kept why, w2) \<Rightarrow> (Some (kept_elsewhere why rd), rd, w2)
         | (Settled_done, w2) \<Rightarrow>
             let (rd', w3) = read_call sd w2; (result, w4) = decide_step sd d again rd' w3 in (result, rd', w4))
      else let (result, w2) = decide_step sd d again rd w1 in (result, rd, w2))"

definition DELETION_AUTHORIZATION_ATTEMPTS :: nat where "DELETION_AUTHORIZATION_ATTEMPTS = 4"

fun authorize_loop :: "schedule \<Rightarrow> deleter \<Rightarrow> nat \<Rightarrow> drain_read \<Rightarrow> worker \<Rightarrow> authorized \<times> worker" where
  "authorize_loop sd d 0 rd w =
     (decided (Keep ''the evidence about the executor kept changing while its removal was decided (an observation in flight or newly recorded)'') rd None, w)"
| "authorize_loop sd d (Suc n) rd w =
     (case attempt_deletion sd d (n > 0) w of
        (Some result, _, w') \<Rightarrow> (result, w')
      | (None, rd', w') \<Rightarrow> authorize_loop sd d n rd' w')"

definition authorizedDeletion :: "schedule \<Rightarrow> deleter \<Rightarrow> worker \<Rightarrow> authorized \<times> worker" where
  "authorizedDeletion sd d w = authorize_loop sd d DELETION_AUTHORIZATION_ATTEMPTS Read_failed w"

section \<open>Removing\<close>

text \<open>How the runtime call ends: it removed the executor, it definitively refused, or nobody knows.\<close>

datatype call_exit = Exit_removed | Exit_refused | Exit_unknown

text \<open>The runtime, by the number of the request: how the call ends and how often its hold is renewed
  while it runs.\<close>

record runtime =
  rn_exit :: "nat \<Rightarrow> call_exit"
  rn_renewals :: "nat \<Rightarrow> nat"

datatype removal_result = Removed | Voided | Failed_call

definition ask_runtime :: "deletion_basis \<Rightarrow> string option \<Rightarrow> worker \<Rightarrow> worker" where
  "ask_runtime basis ticket w =
     w\<lparr>wk_asked := wk_asked w @ [\<lparr>rc_row = wk_row w, rc_basis = basis, rc_ticket = ticket\<rparr>]\<rparr>"

definition removeUnderDeletion ::
  "schedule \<Rightarrow> runtime \<Rightarrow> bool \<Rightarrow> deletion_basis \<Rightarrow> string option \<Rightarrow> worker \<Rightarrow> removal_result \<times> worker"
where
  "removeUnderDeletion sd rn hasLedger basis ticket w =
     (let i = length (wk_asked w) in
      case (if hasLedger then ticket else None) of
        None \<Rightarrow>
          let (rd, w1) = (if hasLedger then read_call sd w else (Read_ok None, w)) in
          if rd = Read_failed \<or> in_entry en_preservationManaged rd then (Voided, w1)
          else (if rn_exit rn i = Exit_removed then Removed else Failed_call, ask_runtime basis None w1)
      | Some t \<Rightarrow>
          let (issued, w1) = issue_call sd t w in
          if \<not> issued then (Voided, w1)
          else
            let w2 = (confirm_call sd t ^^ rn_renewals rn i) (ask_runtime basis (Some t) w1) in
            case rn_exit rn i of
              Exit_removed \<Rightarrow> (Removed, complete_call sd t w2)
            | Exit_refused \<Rightarrow> (Failed_call, release_call sd t w2)
            | Exit_unknown \<Rightarrow> (Failed_call, lapse_call sd t w2))"

datatype deletion_result = Was_removed deletion_basis | Was_kept string drain_read bool | Threw

fun delete_loop :: "schedule \<Rightarrow> runtime \<Rightarrow> deleter \<Rightarrow> nat \<Rightarrow> drain_read \<Rightarrow> worker \<Rightarrow> deletion_result \<times> worker" where
  "delete_loop sd rn d 0 rd w =
     (Was_kept ''its removal was voided by newer evidence each time it was about to be made'' rd False, w)"
| "delete_loop sd rn d (Suc n) rd w =
     (let (az, w1) = authorizedDeletion sd d w in
      case az_decision az of
        Keep why \<Rightarrow> (Was_kept why (az_record az) (az_heldElsewhere az), w1)
      | Delete basis \<Rightarrow>
          (case removeUnderDeletion sd rn (dl_hasLedger d) basis (az_ticket az) w1 of
             (Removed, w2) \<Rightarrow> (Was_removed basis, w2)
           | (Voided, w2) \<Rightarrow> delete_loop sd rn d n (az_record az) w2
           | (Failed_call, w2) \<Rightarrow> (Threw, w2)))"

text \<open>\<open>deleteOnEvidence\<close> is given neither what the runtime says of the executor, nor its bound, nor a claim.\<close>

definition deleteOnEvidence :: "schedule \<Rightarrow> runtime \<Rightarrow> deleter \<Rightarrow> worker \<Rightarrow> deletion_result \<times> worker" where
  "deleteOnEvidence sd rn d w =
     delete_loop sd rn (d\<lparr>dl_runtime := None, dl_removalFenceMs := None, dl_recovery := None\<rparr>)
       DELETION_AUTHORIZATION_ATTEMPTS Read_failed w"

end
