(* ===== verification/Capture_Removal_Proofs.thy ===== *)
theory Capture_Removal_Proofs
  imports Capture_Removal
begin

text \<open>
  An executor is removed only on evidence that stands at the instant the runtime is asked: the
  composition of the policy, the ledger and the worker, under every interleaving with the operations
  of other connections and every failure of the worker's own calls.
\<close>

section \<open>Where a call leaves the row\<close>

text \<open>The row after a call is what the others and perhaps the operation made of it.\<close>

lemma ledger_call_answer:
  assumes "ledger_call sd f w = (Some a, w')"
  shows "f (sd_clock sd (wk_calls w)) (run_ledger (sd_others sd (wk_calls w)) (wk_row w)) = (a, wk_row w') \<and>
    wk_asked w' = wk_asked w"
  using assms by (auto simp: ledger_call_def Let_def split: prod.splits fault.splits)

lemma ledger_call_asked: "ledger_call sd f w = (a, w') \<Longrightarrow> wk_asked w' = wk_asked w"
  by (auto simp: ledger_call_def Let_def split: prod.splits fault.splits)

definition reaches :: "drain_row option \<Rightarrow> drain_row option \<Rightarrow> bool" where
  "reaches row row' \<longleftrightarrow> (\<exists>ops. row' = run_ledger ops row)"

lemma reaches_refl [simp, intro]: "reaches row row"
  by (auto simp: reaches_def intro: exI[of _ "[]"])

lemma reaches_trans: "reaches a b \<Longrightarrow> reaches b c \<Longrightarrow> reaches a c"
  unfolding reaches_def by (metis run_ledger_append)

lemma reaches_op: "reaches row (apply_op now op (run_ledger ops row))"
  unfolding reaches_def by (rule exI[of _ "ops @ [(now, op)]"]) (simp add: run_ledger_def)

lemma ledger_call_reaches:
  assumes "\<And>now row. snd (f now row) = row \<or> (\<exists>op. snd (f now row) = apply_op now op row)"
  shows "reaches (wk_row w) (wk_row (snd (ledger_call sd f w)))"
proof -
  let ?row = "run_ledger (sd_others sd (wk_calls w)) (wk_row w)"
  have "wk_row (snd (ledger_call sd f w)) \<in> {?row, snd (f (sd_clock sd (wk_calls w)) ?row)}"
    by (auto simp: ledger_call_def Let_def split: prod.splits fault.splits)
  then show ?thesis
    using assms[of "sd_clock sd (wk_calls w)" ?row] reaches_op by (auto simp: reaches_def)
qed

lemma ledger_call_op:
  "(\<And>now row. snd (f now row) = apply_op now op row) \<Longrightarrow> reaches (wk_row w) (wk_row (snd (ledger_call sd f w)))"
  by (intro ledger_call_reaches) blast

lemma calls_snd:
  "snd (read_call sd w) = snd (ledger_call sd (\<lambda>now row. (row, row)) w)"
  "snd (authorize_call sd v recovery w) =
     snd (ledger_call sd (authorizeDeletion v (sd_token sd (wk_calls w)) DELETION_HOLD_MS recovery) w)"
  "snd (issue_call sd t w) = snd (ledger_call sd (issueDeletion t DELETION_HOLD_MS) w)"
  "snd (reconcile_call sd gone ms w) =
     snd (ledger_call sd (reconcileIssuedDeletion gone (sd_token sd (wk_calls w)) DELETION_HOLD_MS ms) w)"
  by (simp_all add: read_call_def authorize_call_def issue_call_def reconcile_call_def Let_def
      split: prod.splits option.splits)

lemma calls_reach:
  "reaches (wk_row w) (wk_row (snd (read_call sd w)))"
  "reaches (wk_row w) (wk_row (snd (authorize_call sd v recovery w)))"
  "reaches (wk_row w) (wk_row (snd (issue_call sd t w)))"
  "reaches (wk_row w) (wk_row (snd (reconcile_call sd gone ms w)))"
  "reaches (wk_row w) (wk_row (confirm_call sd t w))"
  "reaches (wk_row w) (wk_row (complete_call sd t w))"
  "reaches (wk_row w) (wk_row (release_call sd t w))"
  "reaches (wk_row w) (wk_row (lapse_call sd t w))"
  unfolding calls_snd confirm_call_def complete_call_def release_call_def lapse_call_def
  by (rule ledger_call_reaches, simp)
    (rule ledger_call_op[where op = "Authorize_deletion v (sd_token sd (wk_calls w)) DELETION_HOLD_MS recovery"]
      ledger_call_op[where op = "Issue_deletion t DELETION_HOLD_MS"]
      ledger_call_op[where op = "Reconcile_issued gone (sd_token sd (wk_calls w)) DELETION_HOLD_MS ms"]
      ledger_call_op[where op = "Confirm_deletion t DELETION_HOLD_MS"] ledger_call_op[where op = "Complete_deletion t"]
      ledger_call_op[where op = "Release_deletion t"] ledger_call_op[where op = "Lapse_issued t"], simp; fail)+

lemma asks_nothing: "wk_asked (snd (ledger_call sd f w)) = wk_asked w"
  by (simp add: ledger_call_def Let_def split: prod.splits fault.splits)

lemma calls_ask_nothing:
  "wk_asked (snd (read_call sd w)) = wk_asked w"
  "wk_asked (snd (authorize_call sd v recovery w)) = wk_asked w"
  "wk_asked (snd (issue_call sd t w)) = wk_asked w"
  "wk_asked (snd (reconcile_call sd gone ms w)) = wk_asked w"
  "wk_asked (confirm_call sd t w) = wk_asked w"
  "wk_asked (complete_call sd t w) = wk_asked w"
  "wk_asked (release_call sd t w) = wk_asked w"
  "wk_asked (lapse_call sd t w) = wk_asked w"
  by (simp_all add: calls_snd confirm_call_def complete_call_def release_call_def lapse_call_def asks_nothing)

section \<open>What only grows\<close>

definition is_deleted :: "drain_row option \<Rightarrow> bool" where
  "is_deleted row = (case row of Some r \<Rightarrow> rm_state (dr_removal r) = Some Deleted | None \<Rightarrow> False)"

definition is_discarded :: "drain_row option \<Rightarrow> bool" where
  "is_discarded row = (case row of Some r \<Rightarrow> dr_discardRequestedAt r \<noteq> None | None \<Rightarrow> False)"

lemma step_stays_deleted:
  "apply_op now op (Some r) = Some r' \<Longrightarrow> rm_state (dr_removal r) = Some Deleted \<Longrightarrow> rm_state (dr_removal r') = Some Deleted"
  by (cases op) (auto simp: ledger_defs Let_def split: ledger_splits)

lemma step_stays_discarded:
  "apply_op now op (Some r) = Some r' \<Longrightarrow> dr_discardRequestedAt r = Some at \<Longrightarrow> dr_discardRequestedAt r' = Some at"
  by (cases op) (auto simp: ledger_defs given_def Let_def split: ledger_splits)

interpretation deleted: row_history "\<lambda>_ _. True"
    "\<lambda>r r'. rm_state (dr_removal r) = Some Deleted \<longrightarrow> rm_state (dr_removal r') = Some Deleted"
  using step_stays_deleted by unfold_locales blast+

interpretation discarded: row_history "\<lambda>_ _. True"
    "\<lambda>r r'. dr_discardRequestedAt r \<noteq> None \<longrightarrow> dr_discardRequestedAt r' = dr_discardRequestedAt r"
  using step_stays_discarded by unfold_locales (simp, metis, metis not_None_eq)

lemma reaches_Some: "reaches (Some r) row' \<Longrightarrow> \<exists>ops r'. row' = Some r' \<and> run_ledger ops (Some r) = Some r'"
  unfolding reaches_def using run_exists by metis

lemma reaches_stays:
  assumes "reaches row row'"
  shows "is_deleted row \<Longrightarrow> is_deleted row'" "is_discarded row \<Longrightarrow> is_discarded row'"
proof -
  show "is_deleted row'" if "is_deleted row"
    using that assms reaches_Some deleted.run by (cases row) (fastforce simp: is_deleted_def)+
  show "is_discarded row'" if "is_discarded row"
    using that assms reaches_Some discarded.run by (cases row) (fastforce simp: is_discarded_def)+
qed

section \<open>A ticket\<close>

text \<open>The operation takes the removal under the token \<open>t\<close>.\<close>

fun takes :: "string \<Rightarrow> ledger_op \<Rightarrow> bool" where
  "takes t (Authorize_deletion _ token _ _) = (token = t)"
| "takes t (Reconcile_issued _ token _ _) = (token = t)"
| "takes t _ = False"

definition held_under :: "string \<Rightarrow> drain_row \<Rightarrow> bool" where
  "held_under t r \<longleftrightarrow> under_way r \<and> rm_token (dr_removal r) = Some t"

lemma step_held_before:
  assumes "apply_op now op (Some r) = Some r'" "\<not> takes t op" "held_under t r'"
  shows "held_under t r \<and> rm_evidenceVersion (dr_removal r') = rm_evidenceVersion (dr_removal r)"
proof -
  have "under_way r'" "rm_token (dr_removal r') = Some t" using assms(3) by (auto simp: held_under_def)
  from step_under_way[OF assms(1) this(1)] show ?thesis
  proof
    assume "\<exists>v. authorizes now op (Some r) v"
    then have "rm_token (dr_removal r') \<noteq> Some t"
      using assms(1,2) by (cases op) (auto simp: authorizes_def authorizeDeletion_def Let_def split: if_splits)
    then show ?thesis using \<open>rm_token (dr_removal r') = Some t\<close> by contradiction
  next
    assume "under_way r \<and> rm_evidenceVersion (dr_removal r') = rm_evidenceVersion (dr_removal r)"
    moreover have "rm_token (dr_removal r) = Some t"
      using assms(1,2) \<open>under_way r'\<close> \<open>rm_token (dr_removal r') = Some t\<close>
      by (cases op) (auto simp: ledger_defs under_way_def NO_DELETION_def Let_def split: ledger_splits)
    ultimately show ?thesis by (simp add: held_under_def)
  qed
qed
interpretation untaken: row_history "\<lambda>_ op. \<not> takes t op"
    "\<lambda>r r'. held_under t r' \<longrightarrow> held_under t r \<and> rm_evidenceVersion (dr_removal r') = rm_evidenceVersion (dr_removal r)" for t
  using step_held_before by unfold_locales (blast, metis, blast)

text \<open>Held, and authorized on exactly the evidence of the row, none in flight.\<close>

definition holds_current :: "string \<Rightarrow> drain_row \<Rightarrow> bool" where
  "holds_current t r \<longleftrightarrow> held_under t r \<and> deletionEvidenceCurrent r"

lemma authorized_row_current:
  "authorizeDeletion v t ms recovery now row = (Authorized, row') \<Longrightarrow>
     \<exists>r0 r1. row = Some r0 \<and> row' = Some r1 \<and> holds_current t r1 \<and> dr_version r1 = v \<and>
       dr_version r1 = dr_version r0 \<and> dr_evidence r1 = dr_evidence r0"
  by (cases row)
    (auto simp: authorizeDeletion_def holds_current_def held_under_def under_way_def deletionEvidenceCurrent_def Let_def
      split: if_splits)

lemma was_deleted_row:
  "authorizeDeletion v t ms recovery now row = (Was_deleted, row') \<Longrightarrow> is_deleted row'"
  by (cases row) (auto simp: authorizeDeletion_def is_deleted_def Let_def split: if_splits)

lemma reissued_row_current:
  "reconcileIssuedDeletion gone t ms fenceMs now row = (Rc_reissue, row') \<Longrightarrow> \<exists>r1. row' = Some r1 \<and> holds_current t r1"
  by (cases row)
    (auto simp: reconcileIssuedDeletion_def holds_current_def held_under_def under_way_def deletionEvidenceCurrent_def
      Let_def split: if_splits)

lemma issued_row:
  "issueDeletion t ms now (Some r0) = (True, row') \<Longrightarrow>
     \<exists>r1. row' = Some r1 \<and> held_under t r0 \<and> rm_evidenceVersion (dr_removal r0) = Some (dr_version r0) \<and>
       rm_state (dr_removal r1) = Some Deleting_issued \<and> rm_token (dr_removal r1) = Some t \<and>
       dr_version r1 = dr_version r0 \<and> dr_evidence r1 = dr_evidence r0"
  by (auto simp: issueDeletion_def held_under_def under_way_def deletionEvidenceCurrent_def Let_def split: if_splits)

lemma authorize_answer:
  assumes "authorize_call sd v recovery w = ((Authorized, t), w')"
  shows "\<exists>r1. wk_row w' = Some r1 \<and> holds_current t r1 \<and> dr_version r1 = v \<and> t = sd_token sd (wk_calls w) \<and>
    (\<forall>r. wk_row w = Some r \<longrightarrow> evidence_grows r r1)"
proof -
  let ?t = "sd_token sd (wk_calls w)" and ?ops = "sd_others sd (wk_calls w)"
  have call: "ledger_call sd (authorizeDeletion v ?t DELETION_HOLD_MS recovery) w = (Some Authorized, w')" and t: "t = ?t"
    using assms by (auto simp: authorize_call_def Let_def split: prod.splits option.splits)
  obtain r0 r1 where r: "run_ledger ?ops (wk_row w) = Some r0" "wk_row w' = Some r1" "holds_current ?t r1"
      "dr_version r1 = v" "dr_version r1 = dr_version r0" "dr_evidence r1 = dr_evidence r0"
    using authorized_row_current ledger_call_answer[OF call] by blast
  have "evidence_grows r r1" if "wk_row w = Some r" for r
    using run_evidence[of ?ops r r0] r that by (simp add: evidence_grows_def)
  then show ?thesis using r t by blast
qed

lemma deleted_answer:
  assumes "authorize_call sd v recovery w = ((Was_deleted, t), w')"
  shows "is_deleted (wk_row w')"
proof -
  let ?t = "sd_token sd (wk_calls w)"
  have "ledger_call sd (authorizeDeletion v ?t DELETION_HOLD_MS recovery) w = (Some Was_deleted, w')"
    using assms by (auto simp: authorize_call_def Let_def split: prod.splits option.splits)
  from ledger_call_answer[OF this] show ?thesis using was_deleted_row by blast
qed

lemma reissue_answer:
  assumes "reconcile_call sd gone ms w = ((Some Rc_reissue, t), w')"
  shows "\<exists>r1. wk_row w' = Some r1 \<and> holds_current t r1 \<and> t = sd_token sd (wk_calls w)"
proof -
  let ?t = "sd_token sd (wk_calls w)"
  have "ledger_call sd (reconcileIssuedDeletion gone ?t DELETION_HOLD_MS ms) w = (Some Rc_reissue, w')"
    and t: "t = ?t"
    using assms by (auto simp: reconcile_call_def Let_def split: prod.splits)
  from ledger_call_answer[OF this(1)] show ?thesis using reissued_row_current t by blast
qed

text \<open>An issue that goes through: the row it leaves was held on the evidence of the row before it.\<close>

lemma issue_answer:
  assumes "issue_call sd t w = (True, w')" "wk_row w = Some r" "holds_current t r"
    and "\<forall>(now, op) \<in> set (sd_others sd (wk_calls w)). \<not> takes t op"
  shows "\<exists>now r0 r1. reaches (wk_row w) (Some r0) \<and> wk_row w' = Some r1 \<and> fst (issueDeletion t DELETION_HOLD_MS now (Some r0)) \<and>
    rm_state (dr_removal r1) = Some Deleting_issued \<and> rm_token (dr_removal r1) = Some t \<and>
    dr_version r1 = dr_version r0 \<and> dr_evidence r1 = dr_evidence r0 \<and> dr_evidence r0 = dr_evidence r"
proof -
  let ?ops = "sd_others sd (wk_calls w)" and ?now = "sd_clock sd (wk_calls w)"
  have call: "ledger_call sd (issueDeletion t DELETION_HOLD_MS) w = (Some True, w')"
    using assms(1) by (auto simp: issue_call_def split: prod.splits option.splits)
  obtain r0 where r0: "run_ledger ?ops (Some r) = Some r0" using run_exists by blast
  have ans: "issueDeletion t DELETION_HOLD_MS ?now (Some r0) = (True, wk_row w')"
    using ledger_call_answer[OF call] r0 assms(2) by simp
  obtain r1 where r1: "wk_row w' = Some r1" "held_under t r0" "rm_evidenceVersion (dr_removal r0) = Some (dr_version r0)"
      "rm_state (dr_removal r1) = Some Deleting_issued" "rm_token (dr_removal r1) = Some t"
      "dr_version r1 = dr_version r0" "dr_evidence r1 = dr_evidence r0"
    using issued_row[OF ans] by blast
  have "rm_evidenceVersion (dr_removal r0) = rm_evidenceVersion (dr_removal r)"
    using untaken.run[OF r0 assms(4)] r1(2) by simp
  then have "dr_version r0 = dr_version r"
    using r1(3) assms(3) by (simp add: holds_current_def deletionEvidenceCurrent_def)
  then have "dr_evidence r0 = dr_evidence r" using run_evidence[OF r0] by (simp add: evidence_grows_def)
  moreover have "reaches (wk_row w) (Some r0)" unfolding reaches_def using r0 assms(2) by metis
  moreover have "fst (issueDeletion t DELETION_HOLD_MS ?now (Some r0))" using ans by simp
  ultimately show ?thesis using r1 by blast
qed

section \<open>What a decision to delete rests on\<close>

lemma decide_rests_on_record:
  assumes "decide_on_record True rt dn x rd = Delete b"
  shows "(b = Missing \<and> rt = Rt_missing) \<or> (b = Discarded \<and> in_entry (\<lambda>e. en_discardRequested e \<noteq> None) rd) \<or>
    (b = Observed_complete \<and> in_entry (\<lambda>e. observedComplete (Some e)) rd) \<or>
    (b = Attested_complete \<and> in_entry (\<lambda>e. attestedCompleteFor (Some e) x) rd)"
proof (cases rd)
  case (Read_ok entry)
  then show ?thesis
    using assms
    by (cases entry)
      (auto simp: decide_on_record_def decideExecutorDeletion_def recordedDeletionEvidence_def in_entry_def
        observedComplete_def reportsComplete_def attestedCompleteFor_def Let_def split: if_splits)
next
  case Read_failed
  then show ?thesis
    using assms
    by (auto simp: decide_on_record_def decideExecutorDeletion_def recordedDeletionEvidence_def Let_def split: if_splits)
qed

definition grounds :: "executor_identity \<Rightarrow> deletion_basis \<Rightarrow> evidence \<Rightarrow> bool" where
  "grounds x b e \<longleftrightarrow> (b = Observed_complete \<longrightarrow> reads_saved e) \<and> (b = Attested_complete \<longrightarrow> reads_sealed e x)"

text \<open>What was read is the row there was, or nothing.\<close>

definition read_of :: "drain_row option \<Rightarrow> drain_read \<Rightarrow> bool" where
  "read_of row rd \<longleftrightarrow> rd = Read_failed \<or> rd = Read_ok (map_option entryFromRow row)"

lemma decide_grounds:
  assumes "decide_on_record True rt dn x rd = Delete b" "read_of row rd" "basisRestsOnEvidence b"
  shows "\<exists>r. row = Some r \<and> rd = Read_ok (Some (entryFromRow r)) \<and> grounds x b (dr_evidence r)"
  using decide_rests_on_record[OF assms(1)] assms(2,3) observed_complete_row attested_complete_row
  by (cases row) (auto simp: read_of_def in_entry_def basisRestsOnEvidence_def grounds_def)

lemma decide_without_evidence:
  assumes "decide_on_record True rt dn x rd = Delete b" "read_of row rd" "\<not> basisRestsOnEvidence b"
  shows "(b = Missing \<and> rt = Rt_missing) \<or> (b = Discarded \<and> is_discarded row)"
  using decide_rests_on_record[OF assms(1)] assms(2,3)
  by (cases row) (auto simp: read_of_def in_entry_def basisRestsOnEvidence_def is_discarded_def entryFromRow_def Let_def)

lemma read_answer: "read_call sd w = (rd, w') \<Longrightarrow> read_of (wk_row w') rd"
  by (auto simp: read_call_def read_of_def dest!: ledger_call_answer split: prod.splits option.splits)

section \<open>What an authorization grants\<close>

text \<open>A decision to delete, and what it rests on in the row of that moment: the removal is held under the
  ticket on evidence that supports the basis, or the basis needs no evidence, or the executor is gone.\<close>

definition granted :: "executor_identity \<Rightarrow> runtime_state \<Rightarrow> authorized \<Rightarrow> drain_row option \<Rightarrow> bool" where
  "granted x rt az row \<longleftrightarrow>
     (\<forall>b. az_decision az = Delete b \<longrightarrow>
       (case az_ticket az of
          Some t \<Rightarrow> basisRestsOnEvidence b \<and> (\<exists>r. row = Some r \<and> holds_current t r \<and> grounds x b (dr_evidence r))
        | None \<Rightarrow> (b = Missing \<and> rt = Rt_missing) \<or> (b = Discarded \<and> is_discarded row) \<or>
            (basisRestsOnEvidence b \<and> is_deleted row)))"

lemma granted_kept [simp]: "granted x rt (kept_elsewhere why rd) row" "granted x rt (decided (Keep why) rd ticket) row"
  by (simp_all add: granted_def kept_elsewhere_def decided_def)

text \<open>A worker that got from one point to another: the row was only ever changed by ledger operations, the
  runtime was not asked, and a ticket it got is one of its own.\<close>

definition goes :: "worker \<Rightarrow> worker \<Rightarrow> bool" where
  "goes w w' \<longleftrightarrow> reaches (wk_row w) (wk_row w') \<and> wk_asked w' = wk_asked w"

lemma goes_refl [simp]: "goes w w"
  by (simp add: goes_def)

lemma goes_trans: "goes a b \<Longrightarrow> goes b c \<Longrightarrow> goes a c"
  by (auto simp: goes_def intro: reaches_trans)

lemma goes_read: "read_call sd w = (rd, w') \<Longrightarrow> goes w w'"
  using calls_reach(1)[of w sd] calls_ask_nothing(1)[of sd w] by (simp add: goes_def)

lemma goes_authorize: "authorize_call sd v recovery w = (a, w') \<Longrightarrow> goes w w'"
  using calls_reach(2)[of w sd v recovery] calls_ask_nothing(2)[of sd v recovery w] by (simp add: goes_def)

lemma goes_issue: "issue_call sd t w = (a, w') \<Longrightarrow> goes w w'"
  using calls_reach(3)[of w sd t] calls_ask_nothing(3)[of sd t w] by (simp add: goes_def)

lemma goes_reconcile: "reconcile_call sd gone ms w = (a, w') \<Longrightarrow> goes w w'"
  using calls_reach(4)[of w sd gone ms] calls_ask_nothing(4)[of sd gone ms w] by (simp add: goes_def)

lemma goes_ending:
  "goes w (confirm_call sd t w)" "goes w (complete_call sd t w)" "goes w (release_call sd t w)" "goes w (lapse_call sd t w)"
  using calls_reach(5-8) calls_ask_nothing(5-8) by (simp_all add: goes_def)

definition own_ticket :: "schedule \<Rightarrow> deleter \<Rightarrow> authorized \<Rightarrow> bool" where
  "own_ticket sd d az \<longleftrightarrow> (\<forall>t. az_ticket az = Some t \<longrightarrow> t \<in> range (sd_token sd) \<and> dl_hasLedger d)"

lemma version_read_row:
  "version_read d (Read_ok (Some (entryFromRow r))) = (if dl_hasLedger d then Some (dr_version r) else None)"
  by (simp add: version_read_def entryFromRow_def Let_def)

lemma decide_step_grants:
  assumes "decide_step sd d again rd w = (Some az, w')" "read_of (wk_row w) rd"
    and "dl_decide d = decide_on_record True rt dn x"
  shows "granted x rt az (wk_row w') \<and> goes w w' \<and> own_ticket sd d az"
proof (cases "dl_decide d rd")
  case (Keep why)
  then show ?thesis
    using assms(1) by (auto simp: decide_step_def granted_def decided_def own_ticket_def split: if_splits)
next
  case (Delete b)
  show ?thesis
  proof (cases "basisRestsOnEvidence b")
    case False
    then show ?thesis
      using assms(1) Delete decide_without_evidence[OF _ assms(2) False, of rt dn x] assms(3)
      by (auto simp: decide_step_def granted_def decided_def own_ticket_def)
  next
    case True
    obtain r where r: "wk_row w = Some r" "rd = Read_ok (Some (entryFromRow r))" "grounds x b (dr_evidence r)"
      using decide_grounds[OF _ assms(2) True] Delete assms(3) by metis
    have v: "version_read d rd = Some (dr_version r)" "dl_hasLedger d"
      using assms(1) Delete True version_read_row[of d r] unfolding r(2)
      by (cases "dl_hasLedger d"; simp add: decide_step_def)+
    obtain reply token w1 where call: "authorize_call sd (dr_version r) (dl_recovery d) w = ((reply, token), w1)"
      by (metis prod.exhaust)
    have w1: "w1 = w'" "goes w w'"
      using assms(1) Delete True v call goes_authorize[OF call] by (auto simp: decide_step_def Let_def)
    show ?thesis
    proof (cases reply)
      case Authorized
      then have az: "az = decided (Delete b) rd (Some token)"
        using assms(1) Delete True v call by (auto simp: decide_step_def Let_def)
      obtain r1 where r1: "wk_row w' = Some r1" "holds_current token r1" "dr_version r1 = dr_version r"
          "token = sd_token sd (wk_calls w)" "evidence_grows r r1"
        using authorize_answer call Authorized w1(1) r(1) by blast
      then have "dr_evidence r1 = dr_evidence r" by (simp add: evidence_grows_def)
      then show ?thesis using az r1 r(3) True w1 v(2) by (auto simp: granted_def decided_def own_ticket_def)
    next
      case Was_deleted
      then have "az = decided (Delete b) rd None" "is_deleted (wk_row w')"
        using assms(1) Delete True v call deleted_answer w1(1) by (auto simp: decide_step_def Let_def)
      then show ?thesis using True w1 by (auto simp: granted_def decided_def own_ticket_def)
    qed (use assms(1) Delete True v call w1 in
        \<open>auto simp: decide_step_def Let_def own_ticket_def kept_elsewhere_def granted_def\<close>)
  qed
qed

lemma settled_by_reissue: "settled_by reply token = Settled_reissue t \<Longrightarrow> reply = Some Rc_reissue \<and> t = token"
  by (cases reply; cases "the reply") (simp_all add: settled_by_def)

lemma settle_grants:
  assumes "settleIssuedRemoval sd d w = (s, w')"
  shows "goes w w' \<and> (\<forall>t. s = Settled_reissue t \<longrightarrow>
    t \<in> range (sd_token sd) \<and> (\<exists>r1. wk_row w' = Some r1 \<and> holds_current t r1))"
proof (cases "dl_runtime d = None \<or> dl_runtime d = Some Rt_unknown")
  case True
  then show ?thesis using assms unfolding settleIssuedRemoval_def if_P[OF True] by (metis goes_refl prod.inject settled.distinct(1))
next
  case False
  define gone where "gone \<longleftrightarrow> dl_runtime d = Some Rt_missing"
  obtain reply token w1 where call: "reconcile_call sd gone (dl_removalFenceMs d) w = ((reply, token), w1)"
    by (metis prod.exhaust)
  have settle: "w1 = w'" "s = settled_by reply token"
    using assms unfolding settleIssuedRemoval_def if_not_P[OF False] gone_def[symmetric] call by simp_all
  have "t \<in> range (sd_token sd) \<and> (\<exists>r1. wk_row w' = Some r1 \<and> holds_current t r1)" if "s = Settled_reissue t" for t
  proof -
    have "reply = Some Rc_reissue" "t = token" using settled_by_reissue that settle(2) by auto
    then show ?thesis using reissue_answer[of sd gone _ w t w'] call settle(1) by auto
  qed
  then show ?thesis using goes_reconcile[OF call] settle(1) by blast
qed

lemma attempt_grants:
  assumes "attempt_deletion sd d again w = (Some az, rd, w')" "dl_decide d = decide_on_record True rt dn x"
  shows "granted x rt az (wk_row w') \<and> goes w w' \<and> own_ticket sd d az"
proof -
  obtain rd1 w1 where read: "(if dl_hasLedger d then read_call sd w else (Read_failed, w)) = (rd1, w1)"
    by (metis prod.exhaust)
  have w1: "goes w w1" "read_of (wk_row w1) rd1"
    using read goes_read read_answer by (auto simp: read_of_def split: if_splits)
  consider (managed) "in_entry en_preservationManaged rd1"
    | (issued) "\<not> in_entry en_preservationManaged rd1" "dl_hasLedger d \<and> in_entry en_removalIssued rd1"
    | (plain) "\<not> in_entry en_preservationManaged rd1" "\<not> (dl_hasLedger d \<and> in_entry en_removalIssued rd1)"
    by blast
  then show ?thesis
  proof cases
    case managed
    then show ?thesis
      using assms(1) read w1(1) by (auto simp: attempt_deletion_def own_ticket_def kept_elsewhere_def granted_def)
  next
    case plain
    obtain res w2 where step: "decide_step sd d again rd1 w1 = (res, w2)" by (metis prod.exhaust)
    then have "res = Some az" "w2 = w'" using assms(1) read plain by (auto simp: attempt_deletion_def)
    then show ?thesis using decide_step_grants[OF _ w1(2) assms(2)] step goes_trans[OF w1(1)] by blast
  next
    case issued
    obtain s w2 where settle: "settleIssuedRemoval sd d w1 = (s, w2)" by (metis prod.exhaust)
    have w2: "goes w w2" using settle_grants[OF settle] goes_trans[OF w1(1)] by blast
    show ?thesis
    proof (cases s)
      case (Settled_reissue t)
      then have "az = decided (Delete Issued_before) rd1 (Some t)" "w2 = w'"
        using assms(1) read issued settle by (auto simp: attempt_deletion_def)
      then show ?thesis
        using settle_grants[OF settle] Settled_reissue w2 issued
        by (auto simp: granted_def decided_def own_ticket_def basisRestsOnEvidence_def grounds_def)
    next
      case (Settled_kept why)
      then show ?thesis
        using assms(1) read issued settle w2
        by (auto simp: attempt_deletion_def granted_def kept_elsewhere_def own_ticket_def)
    next
      case Settled_done
      obtain rd2 w3 where read2: "read_call sd w2 = (rd2, w3)" by (metis prod.exhaust)
      obtain res w4 where step: "decide_step sd d again rd2 w3 = (res, w4)" by (metis prod.exhaust)
      have "res = Some az" "w4 = w'"
        using assms(1) read issued settle Settled_done read2 step by (auto simp: attempt_deletion_def)
      then show ?thesis
        using decide_step_grants[OF _ read_answer[OF read2] assms(2)] step goes_trans[OF w2 goes_read[OF read2]] goes_trans
        by blast
    qed
  qed
qed

lemma decide_step_goes: "decide_step sd d again rd w = (res, w') \<Longrightarrow> goes w w'"
  by (auto simp: decide_step_def Let_def dest: goes_authorize split: deletion_decision.splits option.splits prod.splits if_splits)

lemma attempt_goes: "attempt_deletion sd d again w = (res, rd, w') \<Longrightarrow> goes w w'"
  by (auto simp: attempt_deletion_def Let_def split: if_splits prod.splits settled.splits
      dest!: goes_read settle_grants decide_step_goes intro: goes_trans)

lemma authorize_loop_grants:
  assumes "authorize_loop sd d n rd w = (az, w')" "dl_decide d = decide_on_record True rt dn x"
  shows "granted x rt az (wk_row w') \<and> goes w w' \<and> own_ticket sd d az"
  using assms(1)
proof (induction n arbitrary: rd w)
  case 0
  then show ?case by (auto simp: granted_def decided_def own_ticket_def)
next
  case (Suc n)
  obtain res rd1 w1 where att: "attempt_deletion sd d (n > 0) w = (res, rd1, w1)" by (metis prod.exhaust)
  show ?case
  proof (cases res)
    case (Some a)
    then show ?thesis using Suc.prems att attempt_grants[OF _ assms(2)] by auto
  next
    case None
    then have "authorize_loop sd d n rd1 w1 = (az, w')" using Suc.prems att by simp
    then show ?thesis using Suc.IH attempt_goes[OF att] goes_trans by blast
  qed
qed

section \<open>A request to the runtime\<close>

text \<open>A request is sound when, at the instant it is made: under a ticket, the removal is issued, no
  observation is in flight, the evidence supports the basis and the removal was authorized on that
  very evidence; without one, nothing is left to save: the runtime has no executor, its owner
  discarded the work, or it was removed already.\<close>

definition sound_request :: "executor_identity \<Rightarrow> runtime_state \<Rightarrow> removal_call \<Rightarrow> bool" where
  "sound_request x rt c \<longleftrightarrow>
     (case rc_ticket c of
        Some t \<Rightarrow> basisRestsOnEvidence (rc_basis c) \<and>
          (\<exists>r. rc_row c = Some r \<and> rm_state (dr_removal r) = Some Deleting_issued \<and> rm_token (dr_removal r) = Some t \<and>
             ev_fences (dr_evidence r) = [] \<and> grounds x (rc_basis c) (dr_evidence r) \<and>
             (\<exists>before at op r0. run_ledger before None = Some r0 \<and> authorizes at op (Some r0) (dr_version r) \<and>
                dr_evidence r0 = dr_evidence r))
      | None \<Rightarrow> (rc_basis c = Missing \<and> rt = Rt_missing) \<or> (rc_basis c = Discarded \<and> is_discarded (rc_row c)) \<or>
          (basisRestsOnEvidence (rc_basis c) \<and> is_deleted (rc_row c)))"

text \<open>Other connections never take a removal under a token of this worker.\<close>

definition own_tokens :: "schedule \<Rightarrow> bool" where
  "own_tokens sd \<longleftrightarrow> (\<forall>k j. \<forall>(now, op) \<in> set (sd_others sd k). \<not> takes (sd_token sd j) op)"

lemma issued_sound:
  assumes "issue_call sd t w = (True, w')" "reaches None (wk_row w)" "own_tokens sd" "t \<in> range (sd_token sd)"
    and "wk_row w = Some r" "holds_current t r" "grounds x b (dr_evidence r)" "basisRestsOnEvidence b"
  shows "sound_request x rt \<lparr>rc_row = wk_row w', rc_basis = b, rc_ticket = Some t\<rparr>"
proof -
  have "\<forall>(now, op) \<in> set (sd_others sd (wk_calls w)). \<not> takes t op"
    using assms(3,4) by (fastforce simp: own_tokens_def)
  then obtain now r0 r1 where r: "reaches (wk_row w) (Some r0)" "wk_row w' = Some r1"
      "fst (issueDeletion t DELETION_HOLD_MS now (Some r0))" "rm_state (dr_removal r1) = Some Deleting_issued"
      "rm_token (dr_removal r1) = Some t" "dr_version r1 = dr_version r0" "dr_evidence r1 = dr_evidence r0"
      "dr_evidence r0 = dr_evidence r"
    using issue_answer[OF assms(1,5,6)] by blast
  obtain ops where ops: "run_ledger ops None = Some r0"
    using reaches_trans[OF assms(2) r(1)] by (auto simp: reaches_def)
  obtain before at op r2 where "run_ledger before None = Some r2" "authorizes at op (Some r2) (dr_version r0)"
      "dr_evidence r2 = dr_evidence r0" "ev_fences (dr_evidence r0) = []"
    using request_sent_on_authorized_evidence[OF ops r(3)] by blast
  then show ?thesis using r assms(7,8) by (auto simp: sound_request_def)
qed

lemma confirms_go: "goes w ((confirm_call sd t ^^ n) w)"
  by (induction n) (auto intro: goes_trans goes_ending)

text \<open>The removal asks for at most one request, and it is sound.\<close>

lemma removal_sound:
  assumes "removeUnderDeletion sd rn (dl_hasLedger d) b (az_ticket az) w = (res, w')" "granted x rt az (wk_row w)"
    and "az_decision az = Delete b" "reaches None (wk_row w)" "own_tokens sd" "own_ticket sd d az"
  shows "reaches None (wk_row w') \<and> (\<exists>cs. wk_asked w' = wk_asked w @ cs \<and> (\<forall>c \<in> set cs. sound_request x rt c) \<and>
    (if res = Voided then cs = [] else length cs = 1))"
proof (cases "az_ticket az")
  case None
  obtain rd w1 where read: "(if dl_hasLedger d then read_call sd w else (Read_ok None, w)) = (rd, w1)"
    by (metis prod.exhaust)
  have w1: "goes w w1" using read goes_read by (auto split: if_splits)
  have sound: "sound_request x rt \<lparr>rc_row = wk_row w1, rc_basis = b, rc_ticket = None\<rparr>"
    using assms(2,3) None reaches_stays[of "wk_row w" "wk_row w1"] w1
    by (auto simp: granted_def sound_request_def goes_def)
  show ?thesis
  proof (cases "rd = Read_failed \<or> in_entry en_preservationManaged rd")
    case True
    then have "w' = w1" "res = Voided" using assms(1) None read by (auto simp: removeUnderDeletion_def split: if_splits)
    then show ?thesis using w1 assms(4) reaches_trans by (auto simp: goes_def)
  next
    case False
    then have "w' = ask_runtime b None w1" "res \<noteq> Voided"
      using assms(1) None read by (auto simp: removeUnderDeletion_def split: if_splits)
    then show ?thesis using w1 assms(4) reaches_trans sound by (auto simp: goes_def ask_runtime_def)
  qed
next
  case (Some t)
  then have ledger: "dl_hasLedger d" using assms(6) by (simp add: own_ticket_def)
  obtain ok w1 where issue: "issue_call sd t w = (ok, w1)" by (metis prod.exhaust)
  have w1: "goes w w1" by (rule goes_issue[OF issue])
  obtain r where r: "wk_row w = Some r" "holds_current t r" "grounds x b (dr_evidence r)" "basisRestsOnEvidence b"
    using assms(2,3) Some by (auto simp: granted_def)
  show ?thesis
  proof (cases ok)
    case False
    then have "w' = w1" "res = Voided" using assms(1) Some ledger issue by (auto simp: removeUnderDeletion_def)
    then show ?thesis using w1 assms(4) reaches_trans by (auto simp: goes_def)
  next
    case True
    let ?asked = "ask_runtime b (Some t) w1"
    define w2 where "w2 = (confirm_call sd t ^^ rn_renewals rn (length (wk_asked w))) ?asked"
    have w2: "goes ?asked w2" unfolding w2_def by (rule confirms_go)
    have "w' \<in> {complete_call sd t w2, release_call sd t w2, lapse_call sd t w2}" "res \<noteq> Voided"
      using assms(1) Some ledger issue True
      by (auto simp: removeUnderDeletion_def w2_def Let_def split: call_exit.splits)
    then have w': "goes ?asked w'" "res \<noteq> Voided" using goes_trans[OF w2] goes_ending by auto
    have "sound_request x rt \<lparr>rc_row = wk_row w1, rc_basis = b, rc_ticket = Some t\<rparr>"
      using issued_sound issue True assms(4,5,6) Some r by (auto simp: own_ticket_def)
    moreover have "wk_asked w' = wk_asked w @ [\<lparr>rc_row = wk_row w1, rc_basis = b, rc_ticket = Some t\<rparr>]"
      using w'(1) w1 by (simp add: goes_def ask_runtime_def)
    moreover have "reaches None (wk_row w')"
      using w'(1) w1 assms(4) reaches_trans by (auto simp: goes_def ask_runtime_def)
    ultimately show ?thesis using w'(2) by simp
  qed
qed

lemma delete_loop_sound:
  assumes "dl_decide d = decide_on_record True rt dn x" "own_tokens sd"
    and "delete_loop sd rn d n rd w = (res, w')" "reaches None (wk_row w)"
  shows "\<exists>cs. wk_asked w' = wk_asked w @ cs \<and> (\<forall>c \<in> set cs. sound_request x rt c) \<and> length cs \<le> 1 \<and>
    (\<forall>b. res = Was_removed b \<longrightarrow> (\<exists>c. cs = [c])) \<and> (res = Threw \<longrightarrow> cs \<noteq> [])"
  using assms(3,4)
proof (induction n arbitrary: rd w)
  case (Suc n)
  obtain az w1 where az: "authorizedDeletion sd d w = (az, w1)" by (metis prod.exhaust)
  have az': "granted x rt az (wk_row w1)" "goes w w1" "own_ticket sd d az"
    using authorize_loop_grants[OF az[unfolded authorizedDeletion_def] assms(1)] by auto
  have w1: "reaches None (wk_row w1)" "wk_asked w1 = wk_asked w"
    using az'(2) Suc.prems(2) reaches_trans by (auto simp: goes_def)
  show ?case
  proof (cases "az_decision az")
    case (Keep why)
    then show ?thesis using Suc.prems(1) az w1 by auto
  next
    case (Delete b)
    obtain r w2 where rm: "removeUnderDeletion sd rn (dl_hasLedger d) b (az_ticket az) w1 = (r, w2)"
      by (metis prod.exhaust)
    obtain cs where cs: "reaches None (wk_row w2)" "wk_asked w2 = wk_asked w1 @ cs" "\<forall>c \<in> set cs. sound_request x rt c"
        "if r = Voided then cs = [] else length cs = 1"
      using removal_sound[OF rm az'(1) Delete w1(1) assms(2) az'(3)] by blast
    show ?thesis
    proof (cases r)
      case Voided
      then show ?thesis using Suc.IH[of "az_record az" w2] Suc.prems(1) az Delete rm cs w1(2) by auto
    qed (use Suc.prems(1) az Delete rm cs w1(2) in \<open>auto simp: length_Suc_conv\<close>)
  qed
qed (cases res; auto)

text \<open>An executor that holds captures is removed only on evidence that stands at the instant the
  runtime is asked. However the operations of other connections interleave with the worker's, whichever
  of its own calls to the ledger fail before or after taking effect, and however the runtime answers,
  the worker asks the runtime at most once, and then: under a ticket, the removal is recorded as
  issued, no observation is in flight, the record reads saved (or the attestation covers everything
  Core observed), and the removal was authorized on exactly this evidence; without a ticket, the
  runtime has no executor, the owner discarded the work, or the executor was removed already.\<close>

lemma removal_rests_on_current_evidence:
  assumes "dl_decide d = decide_on_record True rt drainedNow x" "own_tokens sd"
    and "wk_row w = run_ledger past None" "wk_asked w = []"
    and "deleteOnEvidence sd rn d w = (res, w')"
  shows "length (wk_asked w') \<le> 1 \<and> (\<forall>c \<in> set (wk_asked w'). sound_request x rt c) \<and>
    (\<forall>b. res = Was_removed b \<longrightarrow> wk_asked w' \<noteq> [])"
proof -
  have start: "reaches None (wk_row w)" using assms(3) by (auto simp: reaches_def)
  have "dl_decide (d\<lparr>dl_runtime := None, dl_removalFenceMs := None, dl_recovery := None\<rparr>) = decide_on_record True rt drainedNow x"
    using assms(1) by simp
  from delete_loop_sound[OF this assms(2) assms(5)[unfolded deleteOnEvidence_def] start] show ?thesis
    using assms(4) by auto
qed

section \<open>A sample run\<close>

definition quiet_schedule :: schedule where
  "quiet_schedule = \<lparr>sd_clock = (\<lambda>k. int k + 10), sd_others = (\<lambda>_. []), sd_fault = (\<lambda>_. No_fault), sd_token = (\<lambda>_. ''t'')\<rparr>"

definition saved_history :: "(int \<times> ledger_op) list" where
  "saved_history = [(1, Open_observation ''f'' 1000), (2, Record_status (full_status True) 2 (Some ''f''))]"

end
