(* ===== verification/Capture_Drain.thy ===== *)
theory Capture_Drain
  imports Capture_Status
begin

text \<open>
  The drain of an executor before it is stopped (\<open>drainCaptureBeforeStop\<close> of
  \<open>packages/workspaces/src/worker/capture-drain.ts\<close>): a FINAL flush, then polls until the daemon reports
  it complete, the budget is spent, the queue stalls or empties without confirmation, or the daemon
  stays silent. What each round trip brings back, how long it takes, what the runtime says, whether a
  save kept the claim and what is read back at the end are arguments; so are the status lines.
\<close>

section \<open>The FINAL flush\<close>

record drain_settings =
  st_pollIntervalMs :: int
  st_stallWindowMs :: int
  st_unreachableWindowMs :: int
  st_requestTimeoutMs :: int
  st_finalFlushDeadlineMs :: "int option"
  st_finalFlushGraceMs :: "int option"

definition DEFAULT_FINAL_FLUSH_GRACE_MS :: int where "DEFAULT_FINAL_FLUSH_GRACE_MS = 30000"

definition finalFlushDeadlineMargin :: "int \<Rightarrow> int" where
  "finalFlushDeadlineMargin requestTimeoutMs = min 5000 (requestTimeoutMs div 10)"

record flush_request =
  fr_deadlineMs :: int
  fr_graceMs :: int

definition finalFlushRequest :: "drain_settings \<Rightarrow> flush_request" where
  "finalFlushRequest st =
     (let cap = max 1 (st_requestTimeoutMs st - finalFlushDeadlineMargin (st_requestTimeoutMs st));
          deadlineMs = min (given (st_finalFlushDeadlineMs st) cap) cap;
          graceMs = min (given (st_finalFlushGraceMs st) DEFAULT_FINAL_FLUSH_GRACE_MS) deadlineMs
      in \<lparr>fr_deadlineMs = deadlineMs, fr_graceMs = graceMs\<rparr>)"

lemma flush_inside_round_trip:
  "fr_graceMs (finalFlushRequest st) \<le> fr_deadlineMs (finalFlushRequest st) \<and>
   (10 \<le> st_requestTimeoutMs st \<longrightarrow> fr_deadlineMs (finalFlushRequest st) < st_requestTimeoutMs st)"
proof -
  let ?t = "st_requestTimeoutMs st"
  let ?cap = "max 1 (?t - finalFlushDeadlineMargin ?t)"
  have "?cap < ?t" if "10 \<le> ?t" using that by (simp add: finalFlushDeadlineMargin_def)
  moreover have "fr_deadlineMs (finalFlushRequest st) \<le> ?cap"
    unfolding finalFlushRequest_def Let_def flush_request.simps by (rule min.cobounded2)
  moreover have "fr_graceMs (finalFlushRequest st) \<le> fr_deadlineMs (finalFlushRequest st)"
    unfolding finalFlushRequest_def Let_def flush_request.simps by (rule min.cobounded2)
  ultimately show ?thesis by linarith
qed

section \<open>One round of the drain\<close>

datatype drain_outcome =
    Drained js
  | Pending "js option"
  | Unconfirmed js string
  | Stalled "js option" int "string option"
  | Silent int string
  | Gone int string
  | Busy

fun drainPermitsStop :: "drain_outcome \<Rightarrow> bool" where
  "drainPermitsStop (Drained _) = True"
| "drainPermitsStop (Gone _ _) = True"
| "drainPermitsStop _ = False"

text \<open>What a round trip brought back: a status, and whether it was recorded.\<close>

datatype sample =
    Sample_status js bool
  | Sample_refused string
  | Sample_unrecorded string
  | Sample_unreachable string

text \<open>The status lines: a whole status, and its failing snaps.\<close>

record status_text =
  tx_describe :: "js \<Rightarrow> string"
  tx_snapFailure :: "js \<Rightarrow> string option"

definition separator :: string where
  "separator = '' '' @ [char_of (194::nat), char_of (183::nat)] @ '' ''"

definition joinDetail :: "string option list \<Rightarrow> string option" where
  "joinDetail parts =
     (let present = List.map_filter id parts in if present = [] then None else Some (join separator present))"

definition refused_classes :: "js \<Rightarrow> string list" where
  "refused_classes status = (case get status ''refused'' of Arr vs \<Rightarrow> map js_string vs | _ \<Rightarrow> [])"

datatype command = Flush | Poll_status

record drain_local =
  lc_command :: command
  lc_flushesLeft :: int
  lc_entry :: drain_entry

datatype round_result = Finish drain_outcome drain_entry | Again drain_local | Wait drain_local

text \<open>The daemon did not answer: \<open>rt\<close> is what the runtime says now.\<close>

definition unreachable_round ::
  "drain_settings \<Rightarrow> runtime_state \<Rightarrow> string \<Rightarrow> int \<Rightarrow> drain_local \<Rightarrow> round_result"
where
  "unreachable_round st rt detail now l =
     (let unreachableSince = given (en_unreachableSince (lc_entry l)) now;
          e = (lc_entry l)\<lparr>en_unreachableSince := Some unreachableSince\<rparr>;
          unreachableForMs = now - unreachableSince
      in if rt \<noteq> Rt_running \<and> reportsComplete (en_last e) then Finish (Drained (the (en_last e))) e
         else if rt = Rt_exited then
           Finish (Silent unreachableForMs
             (''the executor ended without a final flush confirmed complete; its disk keeps the staged captures ('' @ detail @ '')''))
             (e\<lparr>en_silentLogged := True\<rparr>)
         else if unreachableForMs \<ge> st_unreachableWindowMs st then
           (if rt = Rt_missing then Finish (Gone unreachableForMs detail) e
            else Finish (Silent unreachableForMs detail) (e\<lparr>en_silentLogged := True\<rparr>))
         else Wait (l\<lparr>lc_entry := e\<rparr>))"

text \<open>The daemon answered, one way or another: has the queue stalled?\<close>

definition stall_check ::
  "drain_settings \<Rightarrow> status_text \<Rightarrow> string option \<Rightarrow> int \<Rightarrow> drain_local \<Rightarrow> round_result"
where
  "stall_check st tx refusedDetail now l =
     (let e = lc_entry l; stalledForMs = now - given (en_lastProgressAt e) now in
      if stalledForMs \<ge> st_stallWindowMs st then
        Finish (Stalled (en_last e) stalledForMs (joinDetail [refusedDetail, Option.bind (en_last e) (tx_snapFailure tx)]))
          (e\<lparr>en_keptLogged := True\<rparr>)
      else Wait l)"

definition unconfirmed_detail :: "status_text \<Rightarrow> js \<Rightarrow> string" where
  "unconfirmed_detail tx status = join separator
     ((if get status ''complete'' \<noteq> Undef
       then ''the daemon reports its final flush incomplete'' @
         (if get status ''incompleteReason'' = Undef then '''' else '' ('' @ js_string (get status ''incompleteReason'') @ '')'')
       else ''the daemon does not report whether its final flush completed (sealantd predates capture.flush FINAL); an empty queue is not proof'') #
      (case tx_snapFailure tx status of None \<Rightarrow> [] | Some why \<Rightarrow> [why]))"

definition status_round ::
  "drain_settings \<Rightarrow> status_text \<Rightarrow> js \<Rightarrow> int \<Rightarrow> drain_local \<Rightarrow> round_result"
where
  "status_round st tx status now l =
     (let moved = captureProgressed (en_last (lc_entry l)) status;
          e = (if moved then (lc_entry l)\<lparr>en_lastProgressAt := Some now\<rparr> else lc_entry l);
          seen = e\<lparr>en_last := Some status, en_lastAtMs := Some now\<rparr>
      in if refused_classes status \<noteq> [] then
           Finish (Stalled (Some status) (now - given (en_lastProgressAt e) now)
               (joinDetail [Some (''refused '' @ join '', '' (refused_classes status)), tx_snapFailure tx status]))
             (seen\<lparr>en_keptLogged := True\<rparr>)
         else if reportsComplete (Some status) then Finish (Drained status) (seen\<lparr>en_keptLogged := False\<rparr>)
         else if get status ''pending'' = Num 0 then
           (if lc_flushesLeft l > 0 then Again (l\<lparr>lc_command := Flush, lc_entry := seen\<rparr>)
            else Finish (Unconfirmed status (unconfirmed_detail tx status)) (seen\<lparr>en_keptLogged := True\<rparr>))
         else stall_check st tx None now (l\<lparr>lc_entry := (if moved then seen\<lparr>en_keptLogged := False\<rparr> else seen)\<rparr>))"

definition drain_round ::
  "drain_settings \<Rightarrow> status_text \<Rightarrow> runtime_state \<Rightarrow> sample \<Rightarrow> int \<Rightarrow> drain_local \<Rightarrow> round_result"
where
  "drain_round st tx rt sample now l =
     (let answered = l\<lparr>lc_command := Poll_status,
          lc_entry := (lc_entry l)\<lparr>en_unreachableSince := None, en_silentLogged := False,
            en_lastProgressAt := Some (given (en_lastProgressAt (lc_entry l)) now)\<rparr>\<rparr>
      in case sample of
           Sample_unrecorded detail \<Rightarrow> Finish (Pending (en_last (lc_entry l))) (lc_entry l)
         | Sample_unreachable detail \<Rightarrow> unreachable_round st rt detail now l
         | Sample_refused detail \<Rightarrow> stall_check st tx (Some detail) now answered
         | Sample_status status recorded \<Rightarrow>
             if \<not> recorded then Finish (Pending (Some status)) (lc_entry l)
             else status_round st tx status now answered)"

section \<open>The end of a drain\<close>

text \<open>A newer reading that says the work is not saved, or that nothing newer is known.\<close>

definition contradiction :: "status_text \<Rightarrow> drain_read \<Rightarrow> string option" where
  "contradiction tx rd =
     (case rd of
        Read_failed \<Rightarrow> Some ''its drain record could not be read back to confirm no newer observation contradicts it''
      | Read_ok None \<Rightarrow> None
      | Read_ok (Some e) \<Rightarrow>
          if en_inFlight e > 0 then
            Some ''another observation of the executor is in flight or could not be recorded, so what it said is not known''
          else if en_lastUnreadable e then Some ''a newer observation of the executor is on record that cannot be read''
          else if en_last e \<noteq> None \<and> \<not> reportsComplete (en_last e) then
            Some (''a newer observation of the executor says its work is not saved ('' @ tx_describe tx (the (en_last e)) @ '')'')
          else if en_unsavedUnreadable e then
            Some ''an answer of the executor that says its work is not saved is on record and cannot be read''
          else (case en_unsaved e of
              [] \<Rightarrow> None
            | first # _ \<Rightarrow> Some (''an answer of the executor that no later one covers says its work is not saved ('' @ tx_describe tx first @ '')'')))"

definition newest_last :: "drain_read \<Rightarrow> js option" where
  "newest_last rd = (case rd of Read_ok (Some e) \<Rightarrow> en_last e | _ \<Rightarrow> None)"

text \<open>\<open>kept1\<close> and \<open>kept2\<close>: whether the saves of the outcome, and of what it became, kept the claim.\<close>

definition finish_drain :: "status_text \<Rightarrow> bool \<Rightarrow> bool \<Rightarrow> drain_read \<Rightarrow> drain_outcome \<Rightarrow> drain_outcome" where
  "finish_drain tx kept1 kept2 readBack outcome =
     (if \<not> kept1 then Busy
      else case outcome of
        Drained status \<Rightarrow>
          (case contradiction tx readBack of
             None \<Rightarrow> outcome
           | Some why \<Rightarrow> if kept2 then Unconfirmed (given (newest_last readBack) status) why else Busy)
      | _ \<Rightarrow> outcome)"

section \<open>The drain\<close>

text \<open>What a call meets, by the number of the round; \<open>dv_took\<close> is the duration of a round trip.\<close>

record drain_env =
  dv_sample :: "nat \<Rightarrow> command \<Rightarrow> sample"
  dv_took :: "nat \<Rightarrow> nat"
  dv_runtime :: "nat \<Rightarrow> runtime_state"
  dv_kept :: "nat \<Rightarrow> bool"
  dv_keptAgain :: "nat \<Rightarrow> bool"
  dv_readBack :: "nat \<Rightarrow> drain_read"

record drain_call =
  dc_settings :: drain_settings
  dc_text :: status_text
  dc_budgetMs :: int
  dc_startedAt :: int

text \<open>One pass of the loop, the \<open>i\<close>-th, begun at instant \<open>t\<close>: what the call returns, or the instant and the
  locals the next pass begins with.\<close>

datatype after_round = Return drain_outcome | Go_on int drain_local

definition drain_pass :: "drain_call \<Rightarrow> drain_env \<Rightarrow> nat \<Rightarrow> int \<Rightarrow> drain_local \<Rightarrow> after_round" where
  "drain_pass c v i t l =
     (let l1 = (if lc_command l = Flush then l\<lparr>lc_flushesLeft := lc_flushesLeft l - 1\<rparr> else l);
          now = t + int (dv_took v i);
          finish = finish_drain (dc_text c) (dv_kept v i) (dv_keptAgain v i) (dv_readBack v i)
      in case drain_round (dc_settings c) (dc_text c) (dv_runtime v i) (dv_sample v i (lc_command l)) now l1 of
           Finish outcome e \<Rightarrow> Return (finish outcome)
         | Again l2 \<Rightarrow> Go_on now l2
         | Wait l2 \<Rightarrow>
             if now - dc_startedAt c + st_pollIntervalMs (dc_settings c) > dc_budgetMs c
             then Return (finish (Pending (en_last (lc_entry l2))))
             else if \<not> dv_kept v i then Return Busy
             else Go_on (now + st_pollIntervalMs (dc_settings c)) l2)"

text \<open>The passes from the \<open>i\<close>-th on; \<open>sent\<close> is the commands sent before.\<close>

partial_function (option) drain_loop ::
  "drain_call \<Rightarrow> drain_env \<Rightarrow> nat \<Rightarrow> int \<Rightarrow> drain_local \<Rightarrow> command list \<Rightarrow> (drain_outcome \<times> command list) option"
where
  "drain_loop c v i t l sent =
     (case drain_pass c v i t l of
        Return outcome \<Rightarrow> Some (outcome, sent @ [lc_command l])
      | Go_on t2 l2 \<Rightarrow> drain_loop c v (Suc i) t2 l2 (sent @ [lc_command l]))"

text \<open>\<open>claimed\<close>: the entry of the claim held or taken; \<^const>\<open>None\<close> when another drain holds the run.\<close>

definition drainCaptureBeforeStop ::
  "drain_call \<Rightarrow> drain_env \<Rightarrow> bool \<Rightarrow> drain_entry option \<Rightarrow> (drain_outcome \<times> command list) option"
where
  "drainCaptureBeforeStop c v opensWithStatus claimed =
     (case claimed of
        None \<Rightarrow> Some (Busy, [])
      | Some entry \<Rightarrow> drain_loop c v 0 (dc_startedAt c)
          \<lparr>lc_command = (if opensWithStatus then Poll_status else Flush), lc_flushesLeft = 2, lc_entry = entry\<rparr> [])"

declare drain_loop.simps [code]

section \<open>What a drain concludes\<close>

text \<open>Nothing newer contradicts a complete reading.\<close>

definition read_back_saved :: "drain_read \<Rightarrow> bool" where
  "read_back_saved rd \<longleftrightarrow>
     (case rd of
        Read_failed \<Rightarrow> False
      | Read_ok None \<Rightarrow> True
      | Read_ok (Some e) \<Rightarrow> en_inFlight e = 0 \<and> \<not> en_lastUnreadable e \<and> (en_last e \<noteq> None \<longrightarrow> reportsComplete (en_last e)) \<and>
          \<not> en_unsavedUnreadable e \<and> en_unsaved e = [])"

lemma contradiction_none: "contradiction tx rd = None \<longleftrightarrow> read_back_saved rd"
  by (auto simp: contradiction_def read_back_saved_def split: drain_read.splits option.splits list.splits)

text \<open>What lets a stop proceed: a complete final flush the record confirms, or a runtime that has nothing
  of an executor whose daemon was silent for the window.\<close>

definition stop_supported :: "drain_call \<Rightarrow> drain_env \<Rightarrow> nat \<Rightarrow> drain_outcome \<Rightarrow> bool" where
  "stop_supported c v k outcome \<longleftrightarrow>
     (case outcome of
        Drained status \<Rightarrow> reportsComplete (Some status) \<and> read_back_saved (dv_readBack v k) \<and> dv_kept v k
      | Gone silentForMs _ \<Rightarrow> dv_runtime v k = Rt_missing \<and> st_unreachableWindowMs (dc_settings c) \<le> silentForMs \<and> dv_kept v k
      | _ \<Rightarrow> True)"

lemma unreachable_concludes:
  assumes "unreachable_round st rt detail now l = Finish outcome e"
  shows "(\<forall>s. outcome = Drained s \<longrightarrow> reportsComplete (Some s)) \<and>
    (\<forall>ms d. outcome = Gone ms d \<longrightarrow> rt = Rt_missing \<and> st_unreachableWindowMs st \<le> ms)"
  using assms
  by (auto simp: unreachable_round_def reportsComplete_def Let_def split: if_splits option.splits)

lemma stall_concludes: "stall_check st tx why now l = Finish outcome e \<Longrightarrow> \<not> drainPermitsStop outcome"
  by (auto simp: stall_check_def Let_def split: if_splits)

lemma status_concludes:
  assumes "status_round st tx status now l = Finish outcome e"
  shows "(\<forall>s. outcome = Drained s \<longrightarrow> reportsComplete (Some s)) \<and> (\<forall>ms d. outcome \<noteq> Gone ms d)"
proof -
  have "reportsComplete (Some s)" if "outcome = Drained s" for s
    using assms that stall_concludes[of st tx None now _ outcome e]
    by (auto simp: status_round_def Let_def split: if_splits)
  moreover have "outcome \<noteq> Gone ms d" for ms d
    using assms stall_concludes[of st tx None now _ outcome e]
    by (auto simp: status_round_def Let_def split: if_splits)
  ultimately show ?thesis by blast
qed

lemma round_concludes:
  assumes "drain_round st tx rt sample now l = Finish outcome e"
  shows "(\<forall>s. outcome = Drained s \<longrightarrow> reportsComplete (Some s)) \<and>
    (\<forall>ms d. outcome = Gone ms d \<longrightarrow> rt = Rt_missing \<and> st_unreachableWindowMs st \<le> ms)"
proof (cases sample)
  case (Sample_status status recorded)
  then show ?thesis using assms status_concludes by (fastforce simp: drain_round_def Let_def split: if_splits)
next
  case (Sample_unreachable detail)
  then show ?thesis using assms unreachable_concludes by (fastforce simp: drain_round_def Let_def)
next
  case (Sample_refused detail)
  then have "\<not> drainPermitsStop outcome" using assms stall_concludes by (auto simp: drain_round_def Let_def)
  then show ?thesis by auto
qed (use assms in \<open>auto simp: drain_round_def Let_def\<close>)

lemma finish_supported:
  assumes "(\<forall>s. outcome = Drained s \<longrightarrow> reportsComplete (Some s)) \<and>
    (\<forall>ms d. outcome = Gone ms d \<longrightarrow> dv_runtime v k = Rt_missing \<and> st_unreachableWindowMs (dc_settings c) \<le> ms)"
  shows "stop_supported c v k (finish_drain tx (dv_kept v k) again (dv_readBack v k) outcome)"
  using assms contradiction_none[of tx "dv_readBack v k"]
  by (cases outcome) (auto simp: finish_drain_def stop_supported_def split: option.splits)

lemma pass_supported:
  assumes "drain_pass c v i t l = Return outcome"
  shows "stop_supported c v i outcome"
proof -
  let ?l1 = "if lc_command l = Flush then l\<lparr>lc_flushesLeft := lc_flushesLeft l - 1\<rparr> else l"
  let ?round = "drain_round (dc_settings c) (dc_text c) (dv_runtime v i) (dv_sample v i (lc_command l)) (t + int (dv_took v i)) ?l1"
  show ?thesis
  proof (cases ?round)
    case (Finish out e)
    then show ?thesis
      using assms finish_supported[OF round_concludes[OF Finish], of "dc_text c" "dv_keptAgain v i"]
      by (simp add: drain_pass_def Let_def)
  next
    case (Again l2)
    then show ?thesis using assms by (simp add: drain_pass_def Let_def)
  next
    case (Wait l2)
    have "stop_supported c v i (finish_drain (dc_text c) (dv_kept v i) (dv_keptAgain v i) (dv_readBack v i) (Pending s))" for s
      by (rule finish_supported) simp
    moreover have "stop_supported c v i Busy" by (simp add: stop_supported_def)
    ultimately show ?thesis using assms Wait by (auto simp: drain_pass_def Let_def split: if_splits)
  qed
qed

text \<open>What every pass keeps holds of the pass that returns.\<close>

lemma loop_invariant:
  assumes "drain_loop c v i t l sent = Some y" "J i t l sent"
    and "\<And>i t l sent t2 l2. J i t l sent \<Longrightarrow> drain_pass c v i t l = Go_on t2 l2 \<Longrightarrow> J (Suc i) t2 l2 (sent @ [lc_command l])"
  shows "\<exists>i t l sent outcome. J i t l sent \<and> drain_pass c v i t l = Return outcome \<and> y = (outcome, sent @ [lc_command l])"
proof -
  let ?P = "\<lambda>i t l sent y. J i t l sent \<longrightarrow>
    (\<exists>i t l sent outcome. J i t l sent \<and> drain_pass c v i t l = Return outcome \<and> y = (outcome, sent @ [lc_command l]))"
  have "c = c \<longrightarrow> v = v \<longrightarrow> ?P i t l sent y"
  proof (rule drain_loop.raw_induct[where P = "\<lambda>c' v' i t l sent y. c' = c \<longrightarrow> v' = v \<longrightarrow> ?P i t l sent y",
        OF _ assms(1)], goal_cases)
    case (1 loop c' v' i t l sent y)
    show ?case
    proof (intro impI)
      assume here: "c' = c" "v' = v" "J i t l sent"
      show "\<exists>i t l sent outcome. J i t l sent \<and> drain_pass c v i t l = Return outcome \<and> y = (outcome, sent @ [lc_command l])"
      proof (cases "drain_pass c v i t l")
        case (Return outcome)
        then show ?thesis using 1(2) here
          by (intro exI[of _ i] exI[of _ t] exI[of _ l] exI[of _ sent] exI[of _ outcome]) auto
      next
        case (Go_on t2 l2)
        with 1(2) here have "loop c' v' (Suc i) t2 l2 (sent @ [lc_command l]) = Some y" by simp
        from 1(1)[OF this] assms(3)[OF here(3) Go_on] here show ?thesis by simp
      qed
    qed
  qed
  then show ?thesis using assms(2) by simp
qed

lemma loop_supported:
  assumes "drain_loop c v i t l sent = Some y" "i = length sent"
  shows "\<exists>k. length (snd y) = Suc k \<and> stop_supported c v k (fst y)"
  using loop_invariant[where J = "\<lambda>i t l sent. i = length sent", OF assms(1,2)] pass_supported by fastforce

text \<open>C15: a drain lets a stop proceed only on proof. Whatever the daemon answers and however often it is
  asked, the drain reports the work saved only when a status said the final flush is complete, the
  drain still held its claim and the record read back after it holds nothing that says otherwise; and
  gone only when the runtime positively has nothing of the executor after a silent window. An empty
  queue is never taken for proof.\<close>

theorem drain_permits_stop_only_on_proof:
  assumes "drainCaptureBeforeStop c v opensWithStatus claimed = Some (outcome, sent)" "drainPermitsStop outcome"
  shows "\<exists>k. length sent = Suc k \<and> stop_supported c v k outcome"
  using assms loop_supported[of c v 0 "dc_startedAt c" _ "[]" "(outcome, sent)"]
  by (cases claimed) (auto simp: drainCaptureBeforeStop_def)

section \<open>FINAL flushes\<close>

text \<open>The daemon said something: a status, or a refusal.\<close>

fun answered :: "sample \<Rightarrow> bool" where
  "answered (Sample_status _ _) = True"
| "answered (Sample_refused _) = True"
| "answered (Sample_unrecorded _) = False"
| "answered (Sample_unreachable _) = False"

definition flushes_answered :: "drain_env \<Rightarrow> command list \<Rightarrow> int" where
  "flushes_answered v sent = int (length (filter (\<lambda>i. sent ! i = Flush \<and> answered (dv_sample v i Flush)) [0..<length sent]))"

lemma flushes_answered_snoc:
  "flushes_answered v (sent @ [k]) =
     flushes_answered v sent + (if k = Flush \<and> answered (dv_sample v (length sent) Flush) then 1 else 0)"
proof -
  have "filter (\<lambda>i. (sent @ [k]) ! i = Flush \<and> answered (dv_sample v i Flush)) [0..<length sent] =
      filter (\<lambda>i. sent ! i = Flush \<and> answered (dv_sample v i Flush)) [0..<length sent]"
    by (rule filter_cong) (auto simp: nth_append)
  then show ?thesis by (simp add: flushes_answered_def)
qed

text \<open>The FINAL flushes a call can still have answered.\<close>

definition flushes_ahead :: "drain_local \<Rightarrow> int" where
  "flushes_ahead l = (if lc_command l = Flush then max 1 (lc_flushesLeft l) else max 0 (lc_flushesLeft l))"

lemma round_command:
  assumes "drain_round st tx rt sample now l = Wait l2"
  shows "lc_flushesLeft l2 = lc_flushesLeft l \<and>
    lc_command l2 = (if answered sample then Poll_status else lc_command l)"
  using assms
  by (auto simp: drain_round_def status_round_def stall_check_def unreachable_round_def Let_def
      split: sample.splits if_splits)

lemma round_again:
  assumes "drain_round st tx rt sample now l = Again l2"
  shows "lc_command l2 = Flush \<and> lc_flushesLeft l2 = lc_flushesLeft l \<and> 0 < lc_flushesLeft l \<and> answered sample"
  using assms
  by (auto simp: drain_round_def status_round_def stall_check_def unreachable_round_def Let_def
      split: sample.splits if_splits)

lemma flush_spent:
  assumes "drain_pass c v i t l = Go_on t2 l2"
  shows "flushes_ahead l2 + (if lc_command l = Flush \<and> answered (dv_sample v i Flush) then 1 else 0) \<le> flushes_ahead l"
proof -
  let ?l1 = "if lc_command l = Flush then l\<lparr>lc_flushesLeft := lc_flushesLeft l - 1\<rparr> else l"
  let ?round = "drain_round (dc_settings c) (dc_text c) (dv_runtime v i) (dv_sample v i (lc_command l)) (t + int (dv_took v i)) ?l1"
  consider (again) "?round = Again l2" | (wait) "?round = Wait l2"
    using assms by (cases ?round) (auto simp: drain_pass_def Let_def split: if_splits)
  then show ?thesis
  proof cases
    case again
    then show ?thesis
      using round_again[OF again] by (cases "lc_command l") (auto simp: flushes_ahead_def split: if_splits)
  next
    case wait
    then show ?thesis
      using round_command[OF wait] by (cases "lc_command l") (auto simp: flushes_ahead_def split: if_splits)
  qed
qed

lemma ahead_nonneg: "0 \<le> flushes_ahead l" "lc_command l = Flush \<Longrightarrow> 1 \<le> flushes_ahead l"
  by (auto simp: flushes_ahead_def)

text \<open>The daemon answers at most two FINAL flushes in one call of the drain, however long the call
  polls: the one that opens it and the one asked when the queue empties unconfirmed. A FINAL that
  reached no daemon is asked again, and is not counted.\<close>

lemma two_flushes_answered:
  assumes "drainCaptureBeforeStop c v opensWithStatus claimed = Some (outcome, sent)"
  shows "flushes_answered v sent \<le> 2"
proof (cases claimed)
  case None
  then show ?thesis using assms by (simp add: drainCaptureBeforeStop_def flushes_answered_def)
next
  case (Some entry)
  let ?J = "\<lambda>i t l sent. i = length sent \<and> flushes_answered v sent + flushes_ahead l \<le> 2"
  obtain t l where loop: "drain_loop c v 0 t l [] = Some (outcome, sent)" and start: "?J 0 t l []"
    using assms Some by (auto simp: drainCaptureBeforeStop_def flushes_answered_def flushes_ahead_def)
  have keeps: "?J (Suc i) t2 l2 (sent @ [lc_command l])"
    if "?J i t l sent" "drain_pass c v i t l = Go_on t2 l2" for i t l sent t2 l2
    using that flush_spent[OF that(2)] by (auto simp: flushes_answered_snoc)
  have "\<exists>i t l before out. ?J i t l before \<and> drain_pass c v i t l = Return out \<and>
      (outcome, sent) = (out, before @ [lc_command l])"
    by (rule loop_invariant[where J = ?J, OF loop start]) (rule keeps)
  then obtain i t l before where at: "?J i t l before" and sent: "sent = before @ [lc_command l]" by auto
  show ?thesis
    using at ahead_nonneg[of l] by (cases "lc_command l") (simp_all add: sent flushes_answered_snoc)
qed

section \<open>A drain ends\<close>

definition rank :: "drain_local \<Rightarrow> nat" where
  "rank l = nat (lc_flushesLeft l + (if lc_command l = Poll_status then 1 else 0))"

text \<open>A pass that goes on has spent a FINAL flush, or a poll interval of the budget.\<close>

lemma pass_goes_on:
  assumes "drain_pass c v i t l = Go_on t2 l2"
  shows "(t2 = t + int (dv_took v i) \<and> rank l2 < rank l) \<or>
    (t2 = t + int (dv_took v i) + st_pollIntervalMs (dc_settings c) \<and> t2 \<le> dc_startedAt c + dc_budgetMs c)"
proof -
  let ?l1 = "if lc_command l = Flush then l\<lparr>lc_flushesLeft := lc_flushesLeft l - 1\<rparr> else l"
  let ?round = "drain_round (dc_settings c) (dc_text c) (dv_runtime v i) (dv_sample v i (lc_command l)) (t + int (dv_took v i)) ?l1"
  have "rank l3 < rank l" if "?round = Again l3" for l3
    using round_again[OF that] by (cases "lc_command l") (auto simp: rank_def split: if_splits)
  then show ?thesis using assms by (cases ?round) (auto simp: drain_pass_def Let_def split: if_splits)
qed

lemma loop_returns:
  assumes "0 < st_pollIntervalMs (dc_settings c)"
  shows "\<exists>y. drain_loop c v i t l sent = Some y"
proof (induction "(nat (dc_startedAt c + dc_budgetMs c - t), rank l)" arbitrary: i t l sent
    rule: wf_induct_rule[OF wf_lex_prod[OF wf_less wf_less]])
  case (1 t l i sent)
  show ?case
  proof (cases "drain_pass c v i t l")
    case (Return outcome)
    then show ?thesis by (simp add: drain_loop.simps[of c v i])
  next
    case (Go_on t2 l2)
    let ?left = "\<lambda>t. nat (dc_startedAt c + dc_budgetMs c - t)"
    have "?left t2 < ?left t \<or> (?left t2 = ?left t \<and> rank l2 < rank l)"
      using pass_goes_on[OF Go_on] assms by linarith
    then show ?thesis
      using 1[of t2 l2 "Suc i" "sent @ [lc_command l]"] Go_on by (auto simp: drain_loop.simps[of c v i])
  qed
qed

text \<open>A drain ends. With a poll interval above zero a call returns an outcome, whatever the daemon
  answers, however long the round trips take and whatever the runtime says: each wait spends the
  budget, and a round that asks again at once spends one of the FINAL flushes the call has left.\<close>

lemma drain_returns:
  assumes "0 < st_pollIntervalMs (dc_settings c)"
  shows "\<exists>outcome sent. drainCaptureBeforeStop c v opensWithStatus claimed = Some (outcome, sent)"
  using loop_returns[OF assms] by (cases claimed) (auto simp: drainCaptureBeforeStop_def)

section \<open>The theorems on a drain\<close>

definition some_settings :: drain_settings where
  "some_settings = \<lparr>st_pollIntervalMs = 1000, st_stallWindowMs = 60000, st_unreachableWindowMs = 30000,
     st_requestTimeoutMs = 10000, st_finalFlushDeadlineMs = None, st_finalFlushGraceMs = None\<rparr>"

definition some_drain :: drain_call where
  "some_drain = \<lparr>dc_settings = some_settings, dc_text = \<lparr>tx_describe = (\<lambda>_. ''''), tx_snapFailure = (\<lambda>_. None)\<rparr>,
     dc_budgetMs = 20000, dc_startedAt = 100\<rparr>"

text \<open>A daemon whose first answered flush is incomplete, silent for the first \<open>n\<close> round trips.\<close>

definition slow_daemon :: "nat \<Rightarrow> drain_env" where
  "slow_daemon n = \<lparr>dv_sample = (\<lambda>i _. if i < n then Sample_unreachable ''timeout'' else Sample_status (full_status (i > n)) True),
     dv_took = (\<lambda>_. 5), dv_runtime = (\<lambda>_. Rt_running), dv_kept = (\<lambda>_. True), dv_keptAgain = (\<lambda>_. True),
     dv_readBack = (\<lambda>_. Read_ok None)\<rparr>"

definition untouched_entry :: drain_entry where
  "untouched_entry = entryFromRow fresh_row"

lemma drained_sample:
  "drainCaptureBeforeStop some_drain (slow_daemon 0) False (Some untouched_entry) = Some (Drained (full_status True), [Flush, Flush])"
  by code_simp

text \<open>A flush that reached no daemon counts against the second one the call would otherwise ask for.\<close>

lemma silent_start_forgoes_a_flush:
  "drainCaptureBeforeStop some_drain (slow_daemon 1) False (Some untouched_entry) =
     Some (Unconfirmed (full_status False) ''the daemon reports its final flush incomplete'', [Flush, Flush])"
  "flushes_answered (slow_daemon 1) [Flush, Flush] = 1"
  by code_simp+

theorem drain_permits_stop_only_on_proof_witness:
  "\<exists>k. length [Flush, Flush] = Suc k \<and> stop_supported some_drain (slow_daemon 0) k (Drained (full_status True))"
  by (rule drain_permits_stop_only_on_proof[OF drained_sample]) simp

lemma two_flushes_answered_example:
  "flushes_answered (slow_daemon 0) [Flush, Flush] \<le> 2 \<and> flushes_answered (slow_daemon 0) [Flush, Flush] = 2"
  using two_flushes_answered[OF drained_sample] by (intro conjI) (simp, code_simp)

end
