(* ===== verification/Runtime_Instances.thy ===== *)
theory Runtime_Instances
  imports Capture_Ledger
begin

text \<open>
  The row of a run's executor (\<open>workspace_runtime_instances\<close>) and the operations of its repository
  (\<open>packages/db/src/repositories/workspace-runtime-instances.ts\<close>): the launch and its ownership, a stop,
  an exit, a removal. An operation takes the run's row, \<^const>\<open>None\<close> when there is none, at the instant
  \<open>now\<close> of the database's clock and \<open>at\<close> of the process's, both in microseconds.
\<close>

section \<open>The row\<close>

datatype instance_status = Inst_pending | Inst_running | Inst_ready | Inst_failed | Inst_stopped

datatype stop_reason = By_user | By_expiry | By_failure

record runtime_instance =
  ri_status :: instance_status
  ri_adapter :: "string option"
  ri_resourceId :: "string option"
  ri_injections :: js
  ri_imageScope :: "js option"
  ri_publicationId :: "string option"
  ri_publication :: "js option"
  ri_reference :: "string option"
  ri_endpoint :: "string option"
  ri_errorCode :: "string option"
  ri_errorMessage :: "string option"
  ri_stopReason :: "stop_reason option"
  ri_launchedAt :: "int option"
  ri_finishedAt :: "int option"
  ri_removedAt :: "int option"
  ri_deadlineAt :: "int option"
  ri_sourceKind :: "string option"
  ri_launchOwner :: "string option"
  ri_launchLeaseExpiresAt :: "int option"
  ri_daemonImage :: "string option"
  ri_daemonRecoveryBoot :: "bool option"
  ri_updatedAt :: int

definition fresh_instance :: "int \<Rightarrow> runtime_instance" where
  "fresh_instance at =
     \<lparr>ri_status = Inst_pending, ri_adapter = None, ri_resourceId = None, ri_injections = Null, ri_imageScope = None,
      ri_publicationId = None, ri_publication = None, ri_reference = None, ri_endpoint = None, ri_errorCode = None,
      ri_errorMessage = None, ri_stopReason = None, ri_launchedAt = None, ri_finishedAt = None, ri_removedAt = None,
      ri_deadlineAt = None, ri_sourceKind = None, ri_launchOwner = None, ri_launchLeaseExpiresAt = None,
      ri_daemonImage = None, ri_daemonRecoveryBoot = None, ri_updatedAt = at\<rparr>"

text \<open>What an upsert is given; a publication is the schema's value, with its identity.\<close>

record upsert_input =
  up_status :: instance_status
  up_publication :: "(js \<times> string) option"
  up_imageScope :: "js option"
  up_adapter :: "string option"
  up_resourceId :: "string option"
  up_reference :: "string option"
  up_endpoint :: "string option"
  up_errorCode :: "string option"
  up_errorMessage :: "string option"
  up_injections :: "js option"
  up_launchedAt :: "int option"
  up_finishedAt :: "int option"
  up_deadlineAt :: "int option"
  up_sourceKind :: "string option"
  up_launchOwner :: "string option"
  up_launchLeaseMs :: "int option"
  up_fenceLaunchOwner :: "string option"
  up_releaseLaunch :: bool
  up_daemonImage :: "string option"
  up_daemonRecoveryBoot :: "bool option option"

text \<open>A column takes the value given, if one is.\<close>

definition or_old :: "'a option \<Rightarrow> 'a option \<Rightarrow> 'a option" where
  "or_old new old = (if new = None then old else new)"

section \<open>Launching\<close>

definition launch_owner_of :: "upsert_input \<Rightarrow> string option" where
  "launch_owner_of u = or_old (up_launchOwner u) (up_fenceLaunchOwner u)"

definition mutableColumns :: "upsert_input \<Rightarrow> int \<Rightarrow> int \<Rightarrow> runtime_instance \<Rightarrow> runtime_instance" where
  "mutableColumns u at now old =
     old\<lparr>ri_status := up_status u,
         ri_publication := or_old (map_option fst (up_publication u)) (ri_publication old),
         ri_publicationId := or_old (map_option snd (up_publication u)) (ri_publicationId old),
         ri_imageScope := or_old (up_imageScope u) (ri_imageScope old),
         ri_adapter := or_old (up_adapter u) (ri_adapter old),
         ri_resourceId := or_old (up_resourceId u) (ri_resourceId old),
         ri_reference := or_old (up_reference u) (ri_reference old),
         ri_endpoint := or_old (up_endpoint u) (ri_endpoint old),
         ri_errorCode := or_old (up_errorCode u) (ri_errorCode old),
         ri_errorMessage := or_old (up_errorMessage u) (ri_errorMessage old),
         ri_injections := given (up_injections u) (ri_injections old),
         ri_launchedAt := or_old (up_launchedAt u) (ri_launchedAt old),
         ri_finishedAt := or_old (up_finishedAt u) (ri_finishedAt old),
         ri_deadlineAt := or_old (up_deadlineAt u) (ri_deadlineAt old),
         ri_sourceKind := or_old (up_sourceKind u) (ri_sourceKind old),
         ri_launchOwner := (if up_releaseLaunch u then None else or_old (launch_owner_of u) (ri_launchOwner old)),
         ri_launchLeaseExpiresAt :=
           (if up_releaseLaunch u then None
            else if launch_owner_of u \<noteq> None then Some (leaseExpiry now (given (up_launchLeaseMs u) 0))
            else ri_launchLeaseExpiresAt old),
         ri_daemonImage := or_old (up_daemonImage u) (ri_daemonImage old),
         ri_daemonRecoveryBoot := given (up_daemonRecoveryBoot u) (ri_daemonRecoveryBoot old),
         ri_updatedAt := at\<rparr>"

text \<open>The row was not published otherwise, nor for another scope.\<close>

definition binding :: "upsert_input \<Rightarrow> runtime_instance \<Rightarrow> bool" where
  "binding u r \<longleftrightarrow>
     (case up_publication u of None \<Rightarrow> True | Some (p, _) \<Rightarrow> ri_publication r = None \<or> ri_publication r = Some p) \<and>
     (case up_imageScope u of None \<Rightarrow> True | Some s \<Rightarrow> ri_imageScope r = None \<or> ri_imageScope r = Some s)"

datatype upsert_reply = Upserted runtime_instance | Ownership_lost | Upsert_failed

definition upsertRuntimeInstance ::
  "upsert_input \<Rightarrow> int \<Rightarrow> int \<Rightarrow> runtime_instance option \<Rightarrow> upsert_reply \<times> runtime_instance option"
where
  "upsertRuntimeInstance u at now row =
     (case up_fenceLaunchOwner u of
        Some owner \<Rightarrow>
          (case row of
             Some r \<Rightarrow>
               if ri_status r = Inst_pending \<and> ri_launchOwner r = Some owner \<and> binding u r
               then let r' = mutableColumns u at now r in (Upserted r', Some r')
               else (Ownership_lost, row)
           | None \<Rightarrow> (Ownership_lost, None))
      | None \<Rightarrow>
          (case row of
             None \<Rightarrow> let r' = mutableColumns u at now (fresh_instance at) in (Upserted r', Some r')
           | Some r \<Rightarrow>
               if binding u r \<and> (up_status u = Inst_failed \<longrightarrow> ri_status r \<noteq> Inst_ready)
               then let r' = mutableColumns u at now r in (Upserted r', Some r')
               else if up_status u = Inst_failed \<and> binding u r \<and>
                 (case up_publication u of None \<Rightarrow> True | Some (_, i) \<Rightarrow> ri_publicationId r = Some i)
               then (Upserted r, row)
               else (Upsert_failed, row)))"

text \<open>An instant \<open>ms\<close> milliseconds ago.\<close>

definition ago :: "int \<Rightarrow> int \<Rightarrow> int" where
  "ago now ms = now - max 0 ms * 1000"

definition launchOwnershipLapsed :: "int \<Rightarrow> int \<Rightarrow> int \<Rightarrow> runtime_instance \<Rightarrow> bool" where
  "launchOwnershipLapsed unownedGraceMs lapsedForMs now r \<longleftrightarrow>
     (case ri_launchOwner r of
        Some _ \<Rightarrow> (case ri_launchLeaseExpiresAt r of None \<Rightarrow> True | Some t \<Rightarrow> t \<le> ago now lapsedForMs)
      | None \<Rightarrow> ri_updatedAt r \<le> ago now (unownedGraceMs + lapsedForMs))"

definition strandedUnidentified :: "int \<Rightarrow> int \<Rightarrow> int \<Rightarrow> runtime_instance \<Rightarrow> bool" where
  "strandedUnidentified unownedGraceMs lapsedForMs now r \<longleftrightarrow>
     ri_status r = Inst_pending \<and> ri_resourceId r = None \<and> launchOwnershipLapsed unownedGraceMs lapsedForMs now r"

definition stranded :: "int \<Rightarrow> int \<Rightarrow> runtime_instance \<Rightarrow> bool" where
  "stranded unownedGraceMs now r \<longleftrightarrow>
     ri_status r = Inst_pending \<and> ri_resourceId r \<noteq> None \<and> launchOwnershipLapsed unownedGraceMs 0 now r"

text \<open>An update of the run's row when it satisfies the condition; the row updated, if it was.\<close>

definition update_where ::
  "(runtime_instance \<Rightarrow> bool) \<Rightarrow> (runtime_instance \<Rightarrow> runtime_instance) \<Rightarrow> int \<Rightarrow> runtime_instance option \<Rightarrow>
     runtime_instance option \<times> runtime_instance option"
where
  "update_where P f at row =
     (case row of
        None \<Rightarrow> (None, None)
      | Some r \<Rightarrow> if P r then let r' = (f r)\<lparr>ri_updatedAt := at\<rparr> in (Some r', Some r') else (None, row))"

definition retained_code :: string where "retained_code = ''launch-retained''"
definition lost_code :: string where "lost_code = ''launch-lost''"
definition exited_code :: string where "exited_code = ''runtime-exited''"

definition retain :: "string \<Rightarrow> runtime_instance \<Rightarrow> runtime_instance" where
  "retain why r = r\<lparr>ri_status := Inst_failed, ri_errorCode := Some retained_code, ri_errorMessage := Some why,
     ri_launchOwner := None, ri_launchLeaseExpiresAt := None\<rparr>"

definition adoptStrandedLaunch ::
  "string \<Rightarrow> int \<Rightarrow> int \<Rightarrow> int \<Rightarrow> runtime_instance option \<Rightarrow> runtime_instance option \<times> runtime_instance option"
where
  "adoptStrandedLaunch why unownedGraceMs at now = update_where (stranded unownedGraceMs now) (retain why) at"

definition preemptLaunch ::
  "string \<Rightarrow> int \<Rightarrow> runtime_instance option \<Rightarrow> runtime_instance option \<times> runtime_instance option"
where
  "preemptLaunch why at = update_where (\<lambda>r. ri_status r = Inst_pending \<and> ri_resourceId r \<noteq> None) (retain why) at"

record located =
  lo_adapter :: string
  lo_resourceId :: string
  lo_reference :: string
  lo_endpoint :: "string option"

definition identifyStrandedLaunch ::
  "located \<Rightarrow> int \<Rightarrow> int \<Rightarrow> int \<Rightarrow> runtime_instance option \<Rightarrow> runtime_instance option \<times> runtime_instance option"
where
  "identifyStrandedLaunch l unownedGraceMs at now =
     update_where (strandedUnidentified unownedGraceMs 0 now)
       (\<lambda>r. r\<lparr>ri_adapter := Some (lo_adapter l), ri_resourceId := Some (lo_resourceId l),
              ri_reference := Some (lo_reference l), ri_endpoint := or_old (lo_endpoint l) (ri_endpoint r)\<rparr>) at"

definition failLostLaunch ::
  "string \<Rightarrow> int \<Rightarrow> int \<Rightarrow> int \<Rightarrow> int \<Rightarrow> runtime_instance option \<Rightarrow> runtime_instance option \<times> runtime_instance option"
where
  "failLostLaunch why unownedGraceMs lostGraceMs at now =
     update_where (strandedUnidentified unownedGraceMs lostGraceMs now)
       (\<lambda>r. r\<lparr>ri_status := Inst_failed, ri_errorCode := Some lost_code, ri_errorMessage := Some why,
              ri_launchOwner := None, ri_launchLeaseExpiresAt := None, ri_finishedAt := Some at\<rparr>) at"

definition renewLaunchLease ::
  "string \<Rightarrow> int \<Rightarrow> int \<Rightarrow> int \<Rightarrow> runtime_instance option \<Rightarrow> runtime_instance option \<times> runtime_instance option"
where
  "renewLaunchLease owner leaseMs at now =
     update_where (\<lambda>r. ri_status r = Inst_pending \<and> ri_launchOwner r = Some owner)
       (\<lambda>r. r\<lparr>ri_launchLeaseExpiresAt := Some (leaseExpiry now leaseMs)\<rparr>) at"

section \<open>The end of an executor\<close>

definition markExited ::
  "string \<Rightarrow> string \<Rightarrow> int option \<Rightarrow> int \<Rightarrow> runtime_instance option \<Rightarrow> runtime_instance option \<times> runtime_instance option"
where
  "markExited resourceId why finishedAt at =
     update_where (\<lambda>r. ri_status r = Inst_ready \<and> ri_resourceId r = Some resourceId \<and> ri_stopReason r = None)
       (\<lambda>r. r\<lparr>ri_status := Inst_failed, ri_errorCode := Some exited_code, ri_errorMessage := Some why,
              ri_finishedAt := Some (given finishedAt at)\<rparr>) at"

definition markStopRequested :: "stop_reason \<Rightarrow> int \<Rightarrow> runtime_instance option \<Rightarrow> runtime_instance option" where
  "markStopRequested reason at row =
     snd (update_where (\<lambda>r. ri_status r \<noteq> Inst_stopped \<and> ri_stopReason r = None)
       (\<lambda>r. r\<lparr>ri_stopReason := Some reason\<rparr>) at row)"

text \<open>\<^const>\<open>None\<close>: there is no row of the run, an invariant error.\<close>

definition markStopped ::
  "stop_reason \<Rightarrow> int option \<Rightarrow> int \<Rightarrow> runtime_instance option \<Rightarrow> runtime_instance option \<times> runtime_instance option"
where
  "markStopped reason finishedAt at row =
     (let (updated, row') = update_where (\<lambda>r. ri_status r \<noteq> Inst_stopped)
        (\<lambda>r. r\<lparr>ri_status := Inst_stopped, ri_stopReason := Some reason, ri_finishedAt := Some (given finishedAt at)\<rparr>) at row
      in (or_old updated row', row'))"

definition markRemoved :: "string \<Rightarrow> int \<Rightarrow> runtime_instance option \<Rightarrow> runtime_instance option" where
  "markRemoved resourceId at row =
     snd (update_where (\<lambda>r. ri_resourceId r = Some resourceId \<and> ri_removedAt r = None)
       (\<lambda>r. r\<lparr>ri_removedAt := Some at\<rparr>) at row)"

section \<open>The rows the sweeps read\<close>

definition runningInstance :: "runtime_instance \<Rightarrow> bool" where
  "runningInstance r \<longleftrightarrow> ri_status r = Inst_ready"

definition retainedLaunch :: "runtime_instance \<Rightarrow> bool" where
  "retainedLaunch r \<longleftrightarrow> ri_status r = Inst_failed \<and> ri_errorCode r = Some retained_code"

definition preservationCandidate :: "int \<Rightarrow> runtime_instance \<Rightarrow> bool" where
  "preservationCandidate now r \<longleftrightarrow>
     ri_deadlineAt r \<noteq> None \<and> ri_resourceId r \<noteq> None \<and>
     (ri_status r = Inst_ready \<or> ri_status r = Inst_pending \<or> (ri_status r = Inst_failed \<and> in_future now (ri_deadlineAt r)))"

definition captureOrUnknown :: "runtime_instance \<Rightarrow> bool" where
  "captureOrUnknown r \<longleftrightarrow> ri_sourceKind r = None \<or> ri_sourceKind r = Some ''capture''"

definition not_retained :: "drain_row option \<Rightarrow> bool" where
  "not_retained drain \<longleftrightarrow> (case drain of None \<Rightarrow> True | Some d \<Rightarrow> rt_retainedAt (dr_retention d) = None)"

definition unsettledCaptureExecutor :: "runtime_instance \<Rightarrow> drain_row option \<Rightarrow> bool" where
  "unsettledCaptureExecutor r drain \<longleftrightarrow>
     ri_resourceId r \<noteq> None \<and> ri_adapter r \<noteq> None \<and> (ri_status r = Inst_failed \<or> ri_status r = Inst_stopped) \<and>
     ri_errorCode r \<noteq> Some retained_code \<and> captureOrUnknown r \<and> not_retained drain \<and>
     (case drain of None \<Rightarrow> True
      | Some d \<Rightarrow> (case dp_state (dr_progress d) of None \<Rightarrow> True | Some st \<Rightarrow> \<not> ends_retention st))"

definition stoppedWithRemains :: "string list \<Rightarrow> int \<Rightarrow> int \<Rightarrow> runtime_instance \<Rightarrow> drain_row option \<Rightarrow> bool" where
  "stoppedWithRemains adapters olderThanMs now r drain \<longleftrightarrow>
     ri_status r = Inst_stopped \<and> ri_removedAt r = None \<and> ri_resourceId r \<noteq> None \<and>
     (case ri_adapter r of None \<Rightarrow> False | Some a \<Rightarrow> a \<in> set adapters) \<and>
     (case ri_finishedAt r of None \<Rightarrow> False | Some t \<Rightarrow> t \<le> ago now olderThanMs) \<and>
     not_retained drain \<and>
     (\<not> captureOrUnknown r \<or>
      (case drain of None \<Rightarrow> False
       | Some d \<Rightarrow> rm_state (dr_removal d) = Some Deleted \<or> dr_discardRequestedAt d \<noteq> None))"

section \<open>Sequences of operations\<close>

datatype instance_op =
    Upsert_instance upsert_input
  | Mark_exited string string "int option"
  | Mark_stop_requested stop_reason
  | Mark_stopped stop_reason "int option"
  | Mark_removed string
  | Adopt_stranded string int
  | Identify_stranded located int
  | Fail_lost string int int
  | Preempt_launch string
  | Renew_launch string int

fun apply_instance_op :: "int \<times> int \<times> instance_op \<Rightarrow> runtime_instance option \<Rightarrow> runtime_instance option" where
  "apply_instance_op (at, now, Upsert_instance u) row = snd (upsertRuntimeInstance u at now row)"
| "apply_instance_op (at, now, Mark_exited rid why t) row = snd (markExited rid why t at row)"
| "apply_instance_op (at, now, Mark_stop_requested reason) row = markStopRequested reason at row"
| "apply_instance_op (at, now, Mark_stopped reason t) row = snd (markStopped reason t at row)"
| "apply_instance_op (at, now, Mark_removed rid) row = markRemoved rid at row"
| "apply_instance_op (at, now, Adopt_stranded why grace) row = snd (adoptStrandedLaunch why grace at now row)"
| "apply_instance_op (at, now, Identify_stranded l grace) row = snd (identifyStrandedLaunch l grace at now row)"
| "apply_instance_op (at, now, Fail_lost why grace lost) row = snd (failLostLaunch why grace lost at now row)"
| "apply_instance_op (at, now, Preempt_launch why) row = snd (preemptLaunch why at row)"
| "apply_instance_op (at, now, Renew_launch owner ms) row = snd (renewLaunchLease owner ms at now row)"

definition run_instance :: "(int \<times> int \<times> instance_op) list \<Rightarrow> runtime_instance option \<Rightarrow> runtime_instance option" where
  "run_instance = fold apply_instance_op"

end
