(* ===== verification/Runtime_Instances_Proofs.thy ===== *)
theory Runtime_Instances_Proofs
  imports Runtime_Instances
begin

text \<open>
  What holds of an executor's row under every sequence of operations: a launch taken from its worker
  stays lost to it, a recorded stop is final and an exit is never recorded over a stop under way.
\<close>

lemmas instance_defs =
  markExited_def markStopRequested_def markStopped_def markRemoved_def
  adoptStrandedLaunch_def identifyStrandedLaunch_def failLostLaunch_def preemptLaunch_def renewLaunchLease_def
  update_where_def retain_def

lemma run_instance_Nil [simp]: "run_instance [] row = row"
  by (simp add: run_instance_def)

lemma run_instance_Cons [simp]: "run_instance (op # ops) row = run_instance ops (apply_instance_op op row)"
  by (simp add: run_instance_def)

lemma run_instance_append [simp]: "run_instance (xs @ ys) row = run_instance ys (run_instance xs row)"
  by (simp add: run_instance_def)

lemma instance_step_exists: "\<exists>r'. apply_instance_op op (Some r) = Some r'"
proof -
  obtain at now what where op: "op = (at, now, what)" by (cases op)
  show ?thesis
    by (cases what) (auto simp: op upsertRuntimeInstance_def instance_defs or_old_def Let_def split: option.splits if_splits)
qed

lemma kept_columns [simp]:
  "ri_stopReason (mutableColumns u at now r) = ri_stopReason r"
  "ri_launchOwner (mutableColumns u at now r) = (if up_releaseLaunch u then None else or_old (launch_owner_of u) (ri_launchOwner r))"
  by (simp_all add: mutableColumns_def)

text \<open>An upsert leaves the row, or writes its columns: fenced, only the launch of the owner it names.\<close>

lemma upsert_row:
  assumes "snd (upsertRuntimeInstance u at now (Some r)) = Some r'"
  shows "r' = r \<or> (r' = mutableColumns u at now r \<and>
    (\<forall>owner. up_fenceLaunchOwner u = Some owner \<longrightarrow> ri_status r = Inst_pending \<and> ri_launchOwner r = Some owner))"
  using assms by (auto simp: upsertRuntimeInstance_def Let_def split: option.splits if_splits prod.splits)

text \<open>What every allowed operation keeps between a row and the next, a sequence of them keeps.\<close>

locale instance_history =
  fixes allowed :: "instance_op \<Rightarrow> bool"
    and related :: "runtime_instance \<Rightarrow> runtime_instance \<Rightarrow> bool"
  assumes stays: "related r r"
    and carries: "related a b \<Longrightarrow> related b c \<Longrightarrow> related a c"
    and step: "allowed op \<Longrightarrow> apply_instance_op (at, now, op) (Some r) = Some r' \<Longrightarrow> related r r'"
begin

lemma run:
  assumes "run_instance ops (Some r) = Some r'" "\<forall>(at, now, op) \<in> set ops. allowed op"
  shows "related r r'"
  using assms
proof (induction ops arbitrary: r)
  case Nil
  then show ?case using stays by simp
next
  case (Cons x ops)
  obtain at now op where x: "x = (at, now, op)" by (cases x)
  obtain r1 where r1: "apply_instance_op x (Some r) = Some r1" using instance_step_exists by blast
  have "related r r1" using step r1 Cons.prems(2) x by auto
  moreover have "related r1 r'" using Cons.IH[of r1] Cons.prems r1 by simp
  ultimately show ?case by (rule carries)
qed

end

section \<open>A launch and its owner\<close>

text \<open>The operation gives the launch to \<open>owner\<close>.\<close>

fun gives_launch :: "string \<Rightarrow> instance_op \<Rightarrow> bool" where
  "gives_launch owner (Upsert_instance u) =
     (launch_owner_of u = Some owner \<and> \<not> up_releaseLaunch u \<and> up_fenceLaunchOwner u \<noteq> Some owner)"
| "gives_launch owner _ = False"

interpretation unowned: instance_history "\<lambda>op. \<not> gives_launch owner op"
    "\<lambda>r r'. ri_launchOwner r \<noteq> Some owner \<longrightarrow> ri_launchOwner r' \<noteq> Some owner" for owner
proof
  show "ri_launchOwner r \<noteq> Some owner \<longrightarrow> ri_launchOwner r' \<noteq> Some owner"
    if "\<not> gives_launch owner op" "apply_instance_op (at, now, op) (Some r) = Some r'" for op at now r r'
  proof (cases op)
    case (Upsert_instance u)
    then show ?thesis
      using that upsert_row[of u at now r r'] by (auto simp: launch_owner_of_def or_old_def split: if_splits)
  qed (use that in \<open>auto simp: instance_defs Let_def split: if_splits\<close>)
qed simp_all

lemma not_owner:
  assumes "ri_launchOwner r \<noteq> Some owner"
  shows "up_fenceLaunchOwner u = Some owner \<Longrightarrow> upsertRuntimeInstance u at now (Some r) = (Ownership_lost, Some r)"
    and "renewLaunchLease owner ms at now (Some r) = (None, Some r)"
  using assms by (simp_all add: upsertRuntimeInstance_def renewLaunchLease_def update_where_def)

text \<open>C20: a launch taken from its worker stays lost to it. Once the stranded-launch sweep adopted the
  launch, or the deadline preempted it, then whatever else is written, unless the launch is given to
  that worker again, every write it fences on its ownership is refused and changes nothing, and it
  cannot renew; and the row still names the executor it launched.\<close>

theorem lost_launch_stays_lost:
  assumes "fst (adoptStrandedLaunch why grace at0 now0 (Some r)) = Some r0 \<or> fst (preemptLaunch why at0 (Some r)) = Some r0"
    and "run_instance ops (Some r0) = Some r'" "\<forall>(at, now, op) \<in> set ops. \<not> gives_launch owner op"
    and "up_fenceLaunchOwner u = Some owner"
  shows "upsertRuntimeInstance u at now (Some r') = (Ownership_lost, Some r') \<and>
    renewLaunchLease owner ms at now (Some r') = (None, Some r') \<and>
    retainedLaunch r0 \<and> ri_resourceId r0 = ri_resourceId r \<and> ri_resourceId r \<noteq> None"
proof -
  have taken: "ri_launchOwner r0 = None \<and> retainedLaunch r0 \<and> ri_resourceId r0 = ri_resourceId r \<and> ri_resourceId r \<noteq> None"
    using assms(1) by (auto simp: instance_defs retainedLaunch_def stranded_def Let_def split: if_splits)
  then have "ri_launchOwner r' \<noteq> Some owner" using unowned.run[OF assms(2,3)] by simp
  then show ?thesis using taken not_owner(1)[OF _ assms(4)] not_owner(2) by simp
qed

section \<open>A stop\<close>

text \<open>The operation begins a launch, or ends one without owning it.\<close>

fun launches :: "instance_op \<Rightarrow> bool" where
  "launches (Upsert_instance u) = (up_fenceLaunchOwner u = None)"
| "launches _ = False"

definition same_stop :: "runtime_instance \<Rightarrow> runtime_instance \<Rightarrow> bool" where
  "same_stop r r' \<longleftrightarrow>
     ri_status r' = Inst_stopped \<and> ri_stopReason r' = ri_stopReason r \<and> ri_finishedAt r' = ri_finishedAt r \<and>
     ri_errorCode r' = ri_errorCode r \<and> ri_resourceId r' = ri_resourceId r \<and>
     (ri_removedAt r \<noteq> None \<longrightarrow> ri_removedAt r' = ri_removedAt r)"

interpretation stopped: instance_history "\<lambda>op. \<not> launches op" "\<lambda>r r'. ri_status r = Inst_stopped \<longrightarrow> same_stop r r'"
proof
  show "ri_status r = Inst_stopped \<longrightarrow> same_stop r r'"
    if "\<not> launches op" "apply_instance_op (at, now, op) (Some r) = Some r'" for op at now r r'
  proof (cases op)
    case (Upsert_instance u)
    then show ?thesis using that upsert_row[of u at now r r'] by (auto simp: same_stop_def)
  qed (use that in \<open>auto simp: instance_defs same_stop_def strandedUnidentified_def stranded_def Let_def split: if_splits\<close>)
qed (auto simp: same_stop_def)

interpretation requested: instance_history "\<lambda>_. True" "\<lambda>r r'. ri_stopReason r \<noteq> None \<longrightarrow> ri_stopReason r' \<noteq> None"
proof
  show "ri_stopReason r \<noteq> None \<longrightarrow> ri_stopReason r' \<noteq> None"
    if "apply_instance_op (at, now, op) (Some r) = Some r'" for op at now r r'
  proof (cases op)
    case (Upsert_instance u)
    then show ?thesis using that upsert_row[of u at now r r'] by auto
  qed (use that in \<open>auto simp: instance_defs Let_def split: if_splits\<close>)
qed simp_all

text \<open>C21: an executor's stop is recorded once and never as a crash. From the request of a stop on, whatever
  is written, an exit the runtime reports changes nothing; and once the stop is recorded, its reason,
  its instant and the executor it names stay as they are, whatever is written but a new launch.\<close>

theorem stop_is_recorded_once:
  assumes "markStopRequested reason at0 (Some r) = Some r0"
    and "run_instance ops (Some r0) = Some r1" "\<forall>(at, now, op) \<in> set ops. \<not> launches op"
    and "markStopped reason' t at1 (Some r1) = (Some r2, Some r2)"
    and "run_instance ops' (Some r2) = Some r'" "\<forall>(at, now, op) \<in> set ops'. \<not> launches op"
  shows "markExited rid why t' at (Some r1) = (None, Some r1) \<and> markExited rid why t' at (Some r') = (None, Some r') \<and>
    same_stop r2 r' \<and> markStopped reason'' t'' at (Some r') = (Some r', Some r')"
proof -
  have "ri_stopReason r0 \<noteq> None \<or> ri_status r0 = Inst_stopped"
    using assms(1) by (auto simp: instance_defs Let_def split: if_splits)
  then have r1: "ri_stopReason r1 \<noteq> None \<or> ri_status r1 = Inst_stopped"
    using requested.run[OF assms(2)] stopped.run[OF assms(2,3)] by (auto simp: same_stop_def)
  have "ri_status r2 = Inst_stopped"
    using assms(4) by (auto simp: instance_defs or_old_def Let_def split: if_splits)
  then have "same_stop r2 r'" using stopped.run[OF assms(5,6)] by simp
  then show ?thesis using r1 by (auto simp: instance_defs same_stop_def or_old_def Let_def)
qed

section \<open>The theorems on a row\<close>

text \<open>An executor being launched by the worker \<open>w\<close>, whose lease is over at instant 10.\<close>

definition launching :: runtime_instance where
  "launching = (fresh_instance 0)\<lparr>ri_adapter := Some ''docker'', ri_resourceId := Some ''c'', ri_launchOwner := Some ''w'',
     ri_launchLeaseExpiresAt := Some 5\<rparr>"

definition launched_by :: "string \<Rightarrow> upsert_input" where
  "launched_by owner = \<lparr>up_status = Inst_ready, up_publication = None, up_imageScope = None, up_adapter = None, up_resourceId = None,
     up_reference = None, up_endpoint = None, up_errorCode = None, up_errorMessage = None, up_injections = None,
     up_launchedAt = None, up_finishedAt = None, up_deadlineAt = None, up_sourceKind = None, up_launchOwner = None,
     up_launchLeaseMs = None, up_fenceLaunchOwner = Some owner, up_releaseLaunch = True, up_daemonImage = None,
     up_daemonRecoveryBoot = None\<rparr>"

definition adopted :: runtime_instance where
  "adopted = the (fst (adoptStrandedLaunch ''stranded'' 0 10 10 (Some launching)))"

definition adopted_later :: runtime_instance where
  "adopted_later = the (run_instance [(11, 11, Mark_stop_requested By_user)] (Some adopted))"

lemma adopted_samples:
  "fst (adoptStrandedLaunch ''stranded'' 0 10 10 (Some launching)) = Some adopted"
  "run_instance [(11, 11, Mark_stop_requested By_user)] (Some adopted) = Some adopted_later"
  "up_fenceLaunchOwner (launched_by ''w'') = Some ''w''"
  by code_simp+

theorem lost_launch_stays_lost_witness:
  "upsertRuntimeInstance (launched_by ''w'') 12 12 (Some adopted_later) = (Ownership_lost, Some adopted_later) \<and>
   renewLaunchLease ''w'' 9 12 12 (Some adopted_later) = (None, Some adopted_later)"
  using lost_launch_stays_lost[OF disjI1[OF adopted_samples(1)] adopted_samples(2) _ adopted_samples(3)] by simp

definition asked_to_stop :: runtime_instance where
  "asked_to_stop = the (markStopRequested By_user 1 (Some launching))"

definition stopped_row :: runtime_instance where
  "stopped_row = the (fst (markStopped By_user None 2 (Some asked_to_stop)))"

lemma stopped_samples:
  "markStopRequested By_user 1 (Some launching) = Some asked_to_stop"
  "run_instance [] (Some asked_to_stop) = Some asked_to_stop"
  "markStopped By_user None 2 (Some asked_to_stop) = (Some stopped_row, Some stopped_row)"
  "run_instance [(3, 3, Mark_exited ''c'' ''crash'' None)] (Some stopped_row) = Some stopped_row"
  by code_simp+

theorem stop_is_recorded_once_witness:
  "same_stop stopped_row stopped_row \<and> markExited ''c'' ''crash'' None 9 (Some stopped_row) = (None, Some stopped_row)"
  using stop_is_recorded_once[OF stopped_samples(1,2) _ stopped_samples(3,4)] by simp

end
