(* ===== verification/Workspace_Stop.thy ===== *)
theory Workspace_Stop
  imports Capture_Removal_Proofs Capture_Drain Runtime_Instances_Proofs
begin

text \<open>
  One stop of a run's executor (\<open>processWorkspaceStopEffect\<close> of
  \<open>packages/workspaces/src/worker/process-workspace-stop.ts\<close>): the claim, the drain, the removal decided
  and authorized on the record, and what is written of it to the run's rows. Before each call of the
  stop to a table the operations of other connections happen, and the call may fail; what the drain
  writes, and the renewals of the stop's claim, are among them. What the runtime answers, what the
  drain hears and the reading of the attempt's snapshot are arguments.
\<close>

section \<open>The stop's own calls to the ledger\<close>

definition claimLeaseOwner :: "string \<Rightarrow> string \<Rightarrow> string" where
  "claimLeaseOwner owner token = owner @ ''#'' @ token"

definition claim_call :: "schedule \<Rightarrow> string \<Rightarrow> int \<Rightarrow> worker \<Rightarrow> (drain_entry \<times> string) option \<times> worker" where
  "claim_call sd owner leaseMs w =
     (let token = sd_token sd (wk_calls w);
          (reply, w') = ledger_call sd (claimLease (claimLeaseOwner owner token) leaseMs) w
      in (case reply of Some (Some r) \<Rightarrow> Some (entryFromRow r, token) | _ \<Rightarrow> None, w'))"

definition unclaim_call :: "schedule \<Rightarrow> string \<Rightarrow> string \<Rightarrow> worker \<Rightarrow> worker" where
  "unclaim_call sd owner token w =
     snd (ledger_call sd (\<lambda>now row. ((), releaseLease (claimLeaseOwner owner token) row)) w)"

definition observe_call :: "schedule \<Rightarrow> drain_state \<Rightarrow> string option \<Rightarrow> worker \<Rightarrow> worker" where
  "observe_call sd st detail w = snd (ledger_call sd (\<lambda>now row. ((), recordObservation st detail now row)) w)"

definition retain_call :: "schedule \<Rightarrow> string \<Rightarrow> worker \<Rightarrow> worker" where
  "retain_call sd reason w = snd (ledger_call sd (\<lambda>now row. ((), markRetained reason now row)) w)"

definition describeDeletionBasis :: "deletion_basis \<Rightarrow> string" where
  "describeDeletionBasis basis =
     (case basis of
        Not_capture \<Rightarrow> ''the executor holds no captures''
      | Missing \<Rightarrow> ''nothing of the executor was left''
      | Observed_complete \<Rightarrow> ''its daemon reported the final flush complete''
      | Attested_complete \<Rightarrow> ''the control plane attested a sealed final capture of this executor''
      | Discarded \<Rightarrow> ''the owner discarded its unsaved captures''
      | Nothing_to_save \<Rightarrow> ''its recovery boot found nothing to save: it never materialized a capture, so no user code ran on it''
      | Issued_before \<Rightarrow> ''its removal was issued earlier on evidence that still stands, and the runtime still had it'')"

section \<open>What a stop is given\<close>

record adapter =
  ad_id :: string
  ad_keepsRemains :: bool
  ad_removalFenceMs :: "int option"
  ad_inspects :: bool

record stop_drain =
  sn_owner :: string
  sn_leaseMs :: int
  sn_call :: drain_call
  sn_opensWithStatus :: bool

record stop_options =
  so_workspaceId :: "string option"
  so_runId :: string
  so_reason :: stop_reason
  so_adapters :: "adapter list"
  so_reachable :: "runtime_instance \<Rightarrow> bool"
  so_drain :: "stop_drain option"

text \<open>What a stop meets. \<open>se_snapshot\<close>: the attempt's blueprint, if it could be read and there is one;
  \<open>se_end\<close> and \<open>se_remove\<close>: the runtime's answer to the request, and to the removal of what remains;
  \<open>se_error\<close> and \<open>se_instant\<close>: the text of a failure and of an instant.\<close>

record workspace_row =
  wr_status :: string
  wr_latestRunId :: "string option"

record stop_env =
  se_ledger :: schedule
  se_renewals :: "nat \<Rightarrow> nat"
  se_instanceOthers :: "nat \<Rightarrow> (int \<times> int \<times> instance_op) list"
  se_instanceClock :: "nat \<Rightarrow> int \<times> int"
  se_instanceFault :: "nat \<Rightarrow> fault"
  se_inspect :: "nat \<Rightarrow> runtime_state option"
  se_snapshot :: "js option option"
  se_end :: "nat \<Rightarrow> call_exit"
  se_remove :: bool
  se_error :: "nat \<Rightarrow> string"
  se_instant :: "int \<Rightarrow> string"
  se_drained :: drain_env
  se_settles :: bool
  se_between :: "workspace_row option \<Rightarrow> workspace_row option"

record stop_state =
  ss_worker :: worker
  ss_instance :: "runtime_instance option"
  ss_instanceCalls :: nat
  ss_inspects :: nat
  ss_workspace :: "workspace_row option"

definition with_worker :: "(worker \<Rightarrow> 'a \<times> worker) \<Rightarrow> stop_state \<Rightarrow> 'a \<times> stop_state" where
  "with_worker f s = (let (a, w) = f (ss_worker s) in (a, s\<lparr>ss_worker := w\<rparr>))"

definition on_worker :: "(worker \<Rightarrow> worker) \<Rightarrow> stop_state \<Rightarrow> stop_state" where
  "on_worker f s = s\<lparr>ss_worker := f (ss_worker s)\<rparr>"

text \<open>A call to the table of the instances: the others' operations, then the call's.\<close>

definition instance_call ::
  "stop_env \<Rightarrow> (int \<Rightarrow> runtime_instance option \<Rightarrow> 'a \<times> runtime_instance option) \<Rightarrow> stop_state \<Rightarrow> 'a option \<times> stop_state"
where
  "instance_call e f s =
     (let k = ss_instanceCalls s;
          row = run_instance (se_instanceOthers e k) (ss_instance s);
          (a, row') = f (fst (se_instanceClock e k)) row
      in case se_instanceFault e k of
           No_fault \<Rightarrow> (Some a, s\<lparr>ss_instance := row', ss_instanceCalls := Suc k\<rparr>)
         | Lost_before \<Rightarrow> (None, s\<lparr>ss_instance := row, ss_instanceCalls := Suc k\<rparr>)
         | Lost_after \<Rightarrow> (None, s\<lparr>ss_instance := row', ss_instanceCalls := Suc k\<rparr>))"

text \<open>No way to inspect, or a failed read, counts as running.\<close>

definition runtimeState :: "stop_env \<Rightarrow> adapter \<Rightarrow> stop_state \<Rightarrow> runtime_state \<times> stop_state" where
  "runtimeState e ad s =
     (if \<not> ad_inspects ad then (Rt_running, s)
      else (given (se_inspect e (ss_inspects s)) Rt_running, s\<lparr>ss_inspects := Suc (ss_inspects s)\<rparr>))"

section \<open>The source of the run\<close>

definition blueprintSourceKind :: "js \<Rightarrow> string option" where
  "blueprintSourceKind payload = asString (get (get (get payload ''sources'') ''workspace'') ''kind'')"

text \<open>\<open>snapshot\<close>: \<^const>\<open>None\<close> when reading it failed. \<^const>\<open>None\<close>: the stop is given up.\<close>

definition runIsCaptureSourced :: "string option \<Rightarrow> js option option \<Rightarrow> bool option" where
  "runIsCaptureSourced sourceKind snapshot =
     (case sourceKind of
        Some kind \<Rightarrow> Some (kind = ''capture'')
      | None \<Rightarrow> map_option (\<lambda>payload. case Option.bind payload blueprintSourceKind of
          None \<Rightarrow> True | Some kind \<Rightarrow> kind = ''capture'') snapshot)"

section \<open>Removing the runtime\<close>

text \<open>The workspace's row is read, then written: others come between the two.\<close>

definition settleWorkspaceRow :: "stop_env \<Rightarrow> stop_options \<Rightarrow> stop_state \<Rightarrow> stop_state" where
  "settleWorkspaceRow e opt s =
     (if so_workspaceId opt = None \<or> \<not> se_settles e then s
      else case ss_workspace s of
        None \<Rightarrow> s
      | Some ws \<Rightarrow>
          if wr_latestRunId ws \<noteq> Some (so_runId opt) then s
          else s\<lparr>ss_workspace := map_option (\<lambda>ws. ws\<lparr>wr_status := ''stopped''\<rparr>) (se_between e (ss_workspace s))\<rparr>)"

datatype stop_run = Run_stopped | Run_voided | Run_threw

text \<open>The removal as an effect: the runtime's end of the executor, then the record of the stop.\<close>

definition record_stopped :: "stop_env \<Rightarrow> stop_options \<Rightarrow> stop_state \<Rightarrow> bool \<times> stop_state" where
  "record_stopped e opt s =
     (let (reply, s') = instance_call e (\<lambda>at. markStopped (so_reason opt) None at) s
      in (case reply of Some (Some r) \<Rightarrow> True | _ \<Rightarrow> False, s'))"

definition stop_exit :: "stop_env \<Rightarrow> stop_options \<Rightarrow> stop_state \<Rightarrow> nat \<Rightarrow> call_exit" where
  "stop_exit e opt s i =
     (if se_end e i = Exit_removed
      then (if fst (record_stopped e opt s) then Exit_removed else Exit_unknown)
      else se_end e i)"

definition record_removal :: "stop_env \<Rightarrow> stop_options \<Rightarrow> adapter \<Rightarrow> string \<Rightarrow> nat \<Rightarrow> stop_state \<Rightarrow> stop_state" where
  "record_removal e opt ad rid i s =
     (if se_end e i \<noteq> Exit_removed then s
      else
        let (recorded, s') = record_stopped e opt s in
        if recorded \<and> (\<not> ad_keepsRemains ad \<or> se_remove e)
        then snd (instance_call e (\<lambda>at row. ((), markRemoved rid at row)) s')
        else s')"

definition failed_stop :: "stop_env \<Rightarrow> bool \<Rightarrow> stop_state \<Rightarrow> stop_state" where
  "failed_stop e observed s =
     (if observed then on_worker (observe_call (se_ledger e) Ds_stop_failed (Some (''removing the runtime failed: '' @ se_error e (wk_calls (ss_worker s)) @ ''; every sweep retries the stop''))) s else s)"

definition stopRuntime ::
  "stop_env \<Rightarrow> stop_options \<Rightarrow> adapter \<Rightarrow> string \<Rightarrow> deletion_basis \<Rightarrow> bool \<Rightarrow> string option \<Rightarrow> stop_state \<Rightarrow> stop_run \<times> stop_state"
where
  "stopRuntime e opt ad rid basis observed ticket s =
     (case instance_call e (\<lambda>at row. ((), markStopRequested (so_reason opt) at row)) s of
        (None, s1) \<Rightarrow> (Run_threw, failed_stop e observed s1)
      | (Some _, s1) \<Rightarrow>
          let i = length (wk_asked (ss_worker s1));
              (removal, w) = removeUnderDeletion (se_ledger e)
                \<lparr>rn_exit = stop_exit e opt s1, rn_renewals = se_renewals e\<rparr> (so_drain opt \<noteq> None) basis ticket (ss_worker s1);
              s2 = s1\<lparr>ss_worker := w\<rparr>
          in case removal of
               Voided \<Rightarrow> (Run_voided, s2)
             | Removed \<Rightarrow> (Run_stopped, record_removal e opt ad rid i s2)
             | Failed_call \<Rightarrow> (Run_threw, failed_stop e observed (record_removal e opt ad rid i s2)))"

datatype stop_outcome = Was_stopped | Still_draining | Left_kept | Left_busy | Stop_threw

datatype decided_removal = Runtime_removed | Runtime_kept string drain_read bool | Removal_threw

definition REMOVAL_DECISION_ATTEMPTS :: nat where "REMOVAL_DECISION_ATTEMPTS = 3"

text \<open>What every decision of one stop shares.\<close>

record stop_target =
  tg_adapter :: adapter
  tg_resourceId :: string
  tg_executor :: executor_identity
  tg_captureSourced :: bool

definition stop_deleter :: "stop_options \<Rightarrow> stop_target \<Rightarrow> runtime_state \<Rightarrow> bool \<Rightarrow> deleter" where
  "stop_deleter opt tg rt drainedNow =
     \<lparr>dl_hasLedger = (so_drain opt \<noteq> None), dl_decide = decide_on_record (tg_captureSourced tg) rt drainedNow (tg_executor tg),
      dl_runtime = Some rt, dl_removalFenceMs = ad_removalFenceMs (tg_adapter tg), dl_recovery = None\<rparr>"

definition observes :: "stop_options \<Rightarrow> stop_target \<Rightarrow> bool" where
  "observes opt tg \<longleftrightarrow> so_drain opt \<noteq> None \<and> tg_captureSourced tg"

definition finish_removed :: "stop_env \<Rightarrow> stop_options \<Rightarrow> stop_target \<Rightarrow> deletion_basis \<Rightarrow> stop_state \<Rightarrow> stop_state" where
  "finish_removed e opt tg basis s =
     (let s' = settleWorkspaceRow e opt s in
      if observes opt tg then on_worker (observe_call (se_ledger e) Ds_stopped (Some (''the runtime was removed: '' @ describeDeletionBasis basis))) s' else s')"

fun decideAndRemove ::
  "stop_env \<Rightarrow> stop_options \<Rightarrow> stop_target \<Rightarrow> runtime_state \<Rightarrow> bool \<Rightarrow> nat \<Rightarrow> drain_read \<Rightarrow> stop_state \<Rightarrow> decided_removal \<times> stop_state"
where
  "decideAndRemove e opt tg rt drainedNow 0 rd s =
     (Runtime_kept ''its removal was voided by newer evidence each time it was about to be made'' rd False, s)"
| "decideAndRemove e opt tg rt drainedNow (Suc n) rd s =
     (let (az, s1) = with_worker (authorizedDeletion (se_ledger e) (stop_deleter opt tg rt drainedNow)) s in
      case az_decision az of
        Keep why \<Rightarrow> (Runtime_kept why (az_record az) (az_heldElsewhere az), s1)
      | Delete basis \<Rightarrow>
          (case stopRuntime e opt (tg_adapter tg) (tg_resourceId tg) basis (observes opt tg) (az_ticket az) s1 of
             (Run_voided, s2) \<Rightarrow> decideAndRemove e opt tg rt drainedNow n (az_record az) s2
           | (Run_stopped, s2) \<Rightarrow> (Runtime_removed, finish_removed e opt tg basis s2)
           | (Run_threw, s2) \<Rightarrow> (Removal_threw, s2)))"

section \<open>The stop\<close>

definition read_record :: "stop_env \<Rightarrow> stop_options \<Rightarrow> stop_state \<Rightarrow> drain_read \<times> stop_state" where
  "read_record e opt s = (if so_drain opt = None then (Read_failed, s) else with_worker (read_call (se_ledger e)) s)"

text \<open>An executor that has ended, or of which nothing is left.\<close>

definition stop_ended :: "stop_env \<Rightarrow> stop_options \<Rightarrow> stop_target \<Rightarrow> runtime_state \<Rightarrow> stop_state \<Rightarrow> stop_outcome \<times> stop_state" where
  "stop_ended e opt tg rt s =
     (case decideAndRemove e opt tg rt False REMOVAL_DECISION_ATTEMPTS Read_failed s of
        (Runtime_removed, s1) \<Rightarrow> (Was_stopped, s1)
      | (Removal_threw, s1) \<Rightarrow> (Stop_threw, s1)
      | (Runtime_kept why rd held, s1) \<Rightarrow>
          if held then (Left_busy, s1)
          else if so_drain opt \<noteq> None \<and> \<not> in_entry (\<lambda>en. en_retained en \<noteq> None) rd
          then (Left_kept, on_worker (retain_call (se_ledger e) (''executor exited'' @ separator @ why)) s1)
          else (Left_kept, s1))"

text \<open>A capture-sourced executor that runs: drained, then removed if the drain lets it go.\<close>

definition drain_and_remove ::
  "stop_env \<Rightarrow> stop_options \<Rightarrow> stop_target \<Rightarrow> stop_drain \<Rightarrow> drain_entry \<Rightarrow> stop_state \<Rightarrow> (stop_outcome \<times> stop_state) option"
where
  "drain_and_remove e opt tg dr entry s =
     (case drainCaptureBeforeStop (sn_call dr) (se_drained e) (sn_opensWithStatus dr) (Some entry) of
        None \<Rightarrow> None
      | Some (outcome, _) \<Rightarrow>
          Some (if \<not> drainPermitsStop outcome then
            (case outcome of
               Silent _ detail \<Rightarrow>
                 let (ended, s1) = runtimeState e (tg_adapter tg) s in
                 (Left_kept, if ended = Rt_exited then on_worker (retain_call (se_ledger e) (''executor exited'' @ separator @ detail)) s1 else s1)
             | Stalled _ _ _ \<Rightarrow> (Left_kept, s)
             | Unconfirmed _ _ \<Rightarrow> (Left_kept, s)
             | Busy \<Rightarrow> (Left_busy, s)
             | _ \<Rightarrow> (Still_draining, s))
          else
            let drained = (case outcome of Drained _ \<Rightarrow> True | _ \<Rightarrow> False) in
            (case decideAndRemove e opt tg (if drained then Rt_running else Rt_missing) drained
                    REMOVAL_DECISION_ATTEMPTS Read_failed s of
               (Runtime_removed, s1) \<Rightarrow> (Was_stopped, s1)
             | (Removal_threw, s1) \<Rightarrow> (Stop_threw, s1)
             | (Runtime_kept why rd held, s1) \<Rightarrow> (if held then Left_busy else Left_kept, s1))))"

definition stop_running ::
  "stop_env \<Rightarrow> stop_options \<Rightarrow> stop_target \<Rightarrow> bool \<Rightarrow> drain_entry option \<Rightarrow> stop_state \<Rightarrow> (stop_outcome \<times> stop_state) option"
where
  "stop_running e opt tg reachable claimed s =
     (if \<not> tg_captureSourced tg then
        Some (case decideAndRemove e opt tg Rt_running False REMOVAL_DECISION_ATTEMPTS Read_failed s of
          (Runtime_removed, s1) \<Rightarrow> (Was_stopped, s1)
        | (Removal_threw, s1) \<Rightarrow> (Stop_threw, s1)
        | (Runtime_kept _ _ _, s1) \<Rightarrow> (Left_kept, s1))
      else case (so_drain opt, claimed) of
        (Some dr, Some entry) \<Rightarrow> if reachable then drain_and_remove e opt tg dr entry s else Some (Left_kept, s)
      | _ \<Rightarrow> Some (Left_kept, s))"

text \<open>Under the claim: the record is read again, and the runtime is asked about the executor.\<close>

definition stop_claimed ::
  "stop_env \<Rightarrow> stop_options \<Rightarrow> stop_target \<Rightarrow> bool \<Rightarrow> drain_entry option \<Rightarrow> stop_state \<Rightarrow> (stop_outcome \<times> stop_state) option"
where
  "stop_claimed e opt tg reachable claimed s =
     (let (rd, s1) = read_record e opt s; (rt, s2) = runtimeState e (tg_adapter tg) s1 in
      if rt \<noteq> Rt_running then Some (stop_ended e opt tg rt s2)
      else if tg_captureSourced tg \<and> so_drain opt \<noteq> None \<and> in_entry en_removalIssued rd then
        (case decideAndRemove e opt tg Rt_running False REMOVAL_DECISION_ATTEMPTS Read_failed s2 of
           (Runtime_removed, s3) \<Rightarrow> Some (Was_stopped, s3)
         | (Removal_threw, s3) \<Rightarrow> Some (Stop_threw, s3)
         | (Runtime_kept why rd' held, s3) \<Rightarrow>
             if held then Some (Left_busy, s3) else stop_running e opt tg reachable claimed s3)
      else stop_running e opt tg reachable claimed s2)"

definition stop_sourced ::
  "stop_env \<Rightarrow> stop_options \<Rightarrow> stop_target \<Rightarrow> bool \<Rightarrow> stop_state \<Rightarrow> (stop_outcome \<times> stop_state) option"
where
  "stop_sourced e opt tg reachable s =
     (case (so_drain opt, tg_captureSourced tg) of
        (Some dr, True) \<Rightarrow>
          (case with_worker (claim_call (se_ledger e) (sn_owner dr) (sn_leaseMs dr)) s of
             (None, s1) \<Rightarrow> Some (Left_busy, s1)
           | (Some (entry, token), s1) \<Rightarrow>
               map_option (\<lambda>(outcome, s2). (outcome, on_worker (unclaim_call (se_ledger e) (sn_owner dr) token) s2))
                 (stop_claimed e opt tg reachable (Some entry) s1))
      | _ \<Rightarrow> stop_claimed e opt tg reachable None s)"

text \<open>The owner discarded the run's unsaved work: nothing is drained and nothing is kept.\<close>

definition discard_detail :: "stop_env \<Rightarrow> drain_read \<Rightarrow> string" where
  "discard_detail e rd =
     (case rd of
        Read_ok (Some en) \<Rightarrow>
          (case en_discardRequested en of
             Some (atMs, by) \<Rightarrow> ''unsaved captures discarded at the owner's request (by '' @ by @ '', requested '' @ se_instant e atMs @
               ''); the runtime was terminated without a drain''
           | None \<Rightarrow> [])
      | _ \<Rightarrow> [])"

definition stop_discarded :: "stop_env \<Rightarrow> stop_options \<Rightarrow> adapter \<Rightarrow> string \<Rightarrow> drain_read \<Rightarrow> stop_state \<Rightarrow> stop_outcome \<times> stop_state" where
  "stop_discarded e opt ad rid rd s =
     (case stopRuntime e opt ad rid Discarded True None s of
        (Run_threw, s1) \<Rightarrow> (Stop_threw, s1)
      | (_, s1) \<Rightarrow>
          (Was_stopped, settleWorkspaceRow e opt
             (on_worker (observe_call (se_ledger e) Ds_discarded (Some (discard_detail e rd))) s1)))"

definition stop_addressable ::
  "stop_env \<Rightarrow> stop_options \<Rightarrow> runtime_instance \<Rightarrow> string \<Rightarrow> string \<Rightarrow> stop_state \<Rightarrow> (stop_outcome \<times> stop_state) option"
where
  "stop_addressable e opt r adapterId rid s =
     (case find (\<lambda>ad. ad_id ad = adapterId) (so_adapters opt) of
        None \<Rightarrow> Some (Stop_threw, s)
      | Some ad \<Rightarrow>
          let (rd, s1) = read_record e opt s in
          if so_drain opt \<noteq> None \<and> in_entry (\<lambda>en. en_discardRequested en \<noteq> None) rd
          then Some (stop_discarded e opt ad rid rd s1)
          else case runIsCaptureSourced (ri_sourceKind r) (se_snapshot e) of
            None \<Rightarrow> Some (Stop_threw, s1)
          | Some captureSourced \<Rightarrow>
              stop_sourced e opt
                \<lparr>tg_adapter = ad, tg_resourceId = rid,
                 tg_executor = \<lparr>xi_runId = so_runId opt, xi_resourceId = Some rid, xi_reference = ri_reference r\<rparr>,
                 tg_captureSourced = captureSourced\<rparr> (so_reachable opt r) s1)"

definition processWorkspaceStop :: "stop_env \<Rightarrow> stop_options \<Rightarrow> stop_state \<Rightarrow> (stop_outcome \<times> stop_state) option" where
  "processWorkspaceStop e opt s =
     (case instance_call e (\<lambda>at row. (row, row)) s of
        (None, s1) \<Rightarrow> Some (Stop_threw, s1)
      | (Some None, s1) \<Rightarrow> Some (Was_stopped, settleWorkspaceRow e opt s1)
      | (Some (Some r), s1) \<Rightarrow>
          (case (ri_status r = Inst_stopped, ri_adapter r, ri_resourceId r) of
             (False, Some adapterId, Some rid) \<Rightarrow> stop_addressable e opt r adapterId rid s1
           | _ \<Rightarrow>
               let (recorded, s2) = record_stopped e opt s1 in
               Some (if recorded then (Was_stopped, settleWorkspaceRow e opt s2) else (Stop_threw, s2))))"

end
