(* ===== verification/Workspace_Stop_Proofs.thy ===== *)
theory Workspace_Stop_Proofs
  imports Workspace_Stop
begin

text \<open>
  What a stop does to an executor that may hold unsaved work: it asks the runtime at most once, on
  evidence that stands at that instant, it ends, and it reports stopped what the runtime removed. The
  exceptions the code has are stated and shown by the runs that reach them.
\<close>

section \<open>What leaves the runtime alone\<close>

abbreviation goes_state :: "stop_state \<Rightarrow> stop_state \<Rightarrow> bool" where
  "goes_state s s' \<equiv> goes (ss_worker s) (ss_worker s')"

lemma instance_call_worker: "instance_call e f s = (a, s') \<Longrightarrow> ss_worker s' = ss_worker s"
  by (auto simp: instance_call_def Let_def split: prod.splits fault.splits)

lemma record_stopped_worker: "record_stopped e opt s = (a, s') \<Longrightarrow> ss_worker s' = ss_worker s"
  by (auto simp: record_stopped_def Let_def split: prod.splits dest: instance_call_worker)

lemma runtimeState_worker: "runtimeState e ad s = (rt, s') \<Longrightarrow> ss_worker s' = ss_worker s"
  by (auto simp: runtimeState_def split: if_splits)

lemma settle_worker [simp]: "ss_worker (settleWorkspaceRow e opt s) = ss_worker s"
  by (simp add: settleWorkspaceRow_def split: option.splits)

lemma instance_call_snd_worker [simp]: "ss_worker (snd (instance_call e f s)) = ss_worker s"
  using instance_call_worker by (metis prod.collapse)

lemma record_stopped_snd_worker [simp]: "ss_worker (snd (record_stopped e opt s)) = ss_worker s"
  using record_stopped_worker by (metis prod.collapse)

lemma record_removal_worker [simp]: "ss_worker (record_removal e opt ad rid i s) = ss_worker s"
  unfolding record_removal_def Let_def case_prod_beta by simp

lemma ledger_call_goes:
  assumes "\<And>now row. snd (f now row) = apply_op now (op now) row"
  shows "goes w (snd (ledger_call sd f w))"
proof -
  have "snd (f now row) = row \<or> (\<exists>op. snd (f now row) = apply_op now op row)" for now row
    using assms by blast
  from ledger_call_reaches[OF this] show ?thesis by (simp add: goes_def asks_nothing)
qed

lemma stop_calls_go:
  "goes w (snd (claim_call sd owner ms w))" "goes w (unclaim_call sd owner token w)"
  "goes w (observe_call sd st detail w)" "goes w (retain_call sd reason w)"
proof -
  show "goes w (snd (claim_call sd owner ms w))"
    unfolding claim_call_def Let_def case_prod_beta snd_conv
    by (rule ledger_call_goes[where op = "\<lambda>_. Claim_lease (claimLeaseOwner owner (sd_token sd (wk_calls w))) ms"]) simp
  show "goes w (unclaim_call sd owner token w)" unfolding unclaim_call_def
    by (rule ledger_call_goes[where op = "\<lambda>_. Release_lease (claimLeaseOwner owner token)"]) simp
  show "goes w (observe_call sd st detail w)" unfolding observe_call_def
    by (rule ledger_call_goes[where op = "\<lambda>now. Record_observation st detail now"]) simp
  show "goes w (retain_call sd reason w)" unfolding retain_call_def
    by (rule ledger_call_goes[where op = "\<lambda>_. Mark_retained reason"]) simp
qed

lemma goes_failed: "goes_state s (failed_stop e observed s)"
  by (simp add: failed_stop_def on_worker_def stop_calls_go)

lemma goes_finished: "goes_state s (finish_removed e opt tg b s)"
  by (simp add: finish_removed_def on_worker_def stop_calls_go Let_def)

lemma read_record_goes: "read_record e opt s = (rd, s') \<Longrightarrow> goes_state s s'"
  by (auto simp: read_record_def with_worker_def goes_read split: if_splits prod.splits)

section \<open>The requests of a stop\<close>

text \<open>What a part of a stop does: it leaves a reachable row, and asks the runtime at most once, soundly.\<close>

definition asks_soundly ::
  "executor_identity \<Rightarrow> runtime_state \<Rightarrow> stop_state \<Rightarrow> stop_state \<Rightarrow> nat \<Rightarrow> bool"
where
  "asks_soundly x rt s s' n \<longleftrightarrow>
     reaches None (wk_row (ss_worker s')) \<and>
     (\<exists>cs. wk_asked (ss_worker s') = wk_asked (ss_worker s) @ cs \<and> length cs = n \<and> (\<forall>c \<in> set cs. sound_request x rt c))"

lemma asks_nothing_goes: "goes_state s s' \<Longrightarrow> reaches None (wk_row (ss_worker s)) \<Longrightarrow> asks_soundly x rt s s' 0"
  using reaches_trans by (auto simp: asks_soundly_def goes_def)

lemma asks_then_goes: "asks_soundly x rt s s1 n \<Longrightarrow> goes_state s1 s' \<Longrightarrow> asks_soundly x rt s s' n"
  using reaches_trans by (auto simp: asks_soundly_def goes_def)

lemma goes_then_asks: "goes_state s s1 \<Longrightarrow> asks_soundly x rt s1 s' n \<Longrightarrow> asks_soundly x rt s s' n"
  by (auto simp: asks_soundly_def goes_def)

lemma asks_nothing_then: "asks_soundly x rt' s s1 0 \<Longrightarrow> asks_soundly x rt s1 s' n \<Longrightarrow> asks_soundly x rt s s' n"
  by (auto simp: asks_soundly_def)

text \<open>The runtime answers the next request that the executor is removed.\<close>

definition removes_next :: "stop_env \<Rightarrow> stop_state \<Rightarrow> bool" where
  "removes_next e s \<longleftrightarrow> se_end e (length (wk_asked (ss_worker s))) = Exit_removed"

lemma removed_was_answered:
  assumes "removeUnderDeletion sd rn hasLedger b ticket w = (Removed, w')"
  shows "rn_exit rn (length (wk_asked w)) = Exit_removed"
  using assms
  by (auto simp: removeUnderDeletion_def Let_def split: option.splits if_splits prod.splits call_exit.splits)

lemma stop_exit_removed: "stop_exit e opt s i = Exit_removed \<Longrightarrow> se_end e i = Exit_removed"
  by (auto simp: stop_exit_def split: if_splits)

lemma asks_nothing_same: "asks_soundly x rt s s1 0 \<Longrightarrow> removes_next e s1 = removes_next e s"
  by (simp add: asks_soundly_def removes_next_def)

lemma goes_same: "goes_state s s1 \<Longrightarrow> removes_next e s1 = removes_next e s"
  by (simp add: goes_def removes_next_def)

lemma asks_reaches: "asks_soundly x rt s s' n \<Longrightarrow> reaches None (wk_row (ss_worker s'))"
  by (simp add: asks_soundly_def)

lemma stopRuntime_sound:
  assumes "stopRuntime e opt ad rid b observed (az_ticket az) s = (res, s')"
    and "granted x rt az (wk_row (ss_worker s))" "az_decision az = Delete b"
    and "reaches None (wk_row (ss_worker s))" "own_tokens (se_ledger e)" "own_ticket (se_ledger e) d az"
    and "dl_hasLedger d = (so_drain opt \<noteq> None)"
  shows "\<exists>n. asks_soundly x rt s s' n \<and> n \<le> 1 \<and> (res = Run_voided \<longrightarrow> n = 0) \<and>
    (res = Run_stopped \<longrightarrow> n = 1 \<and> removes_next e s)"
proof -
  obtain a s1 where call: "instance_call e (\<lambda>at row. ((), markStopRequested (so_reason opt) at row)) s = (a, s1)"
    by (metis prod.exhaust)
  have s1: "ss_worker s1 = ss_worker s" by (rule instance_call_worker[OF call])
  show ?thesis
  proof (cases a)
    case None
    then have "s' = failed_stop e observed s1" "res = Run_threw" using assms(1) call by (auto simp: stopRuntime_def)
    then have "goes_state s s'" using goes_failed[of s1] s1 by simp
    then show ?thesis using asks_nothing_goes[OF _ assms(4)] \<open>res = Run_threw\<close> by fastforce
  next
    case (Some u)
    let ?rn = "\<lparr>rn_exit = stop_exit e opt s1, rn_renewals = se_renewals e\<rparr>"
    obtain r w where rm: "removeUnderDeletion (se_ledger e) ?rn (so_drain opt \<noteq> None) b (az_ticket az) (ss_worker s) = (r, w)"
      by (metis prod.exhaust)
    obtain cs where cs: "reaches None (wk_row w)" "wk_asked w = wk_asked (ss_worker s) @ cs"
        "\<forall>c \<in> set cs. sound_request x rt c" "if r = Voided then cs = [] else length cs = 1"
      using removal_sound[of "se_ledger e" ?rn d b az "ss_worker s" r w x rt] rm assms(2-7) by auto
    have asked: "asks_soundly x rt s (s1\<lparr>ss_worker := w\<rparr>) (length cs)"
      using cs by (simp add: asks_soundly_def)
    define s2 where "s2 = record_removal e opt ad rid (length (wk_asked (ss_worker s1))) (s1\<lparr>ss_worker := w\<rparr>)"
    have s2: "goes_state (s1\<lparr>ss_worker := w\<rparr>) s2" "goes_state (s1\<lparr>ss_worker := w\<rparr>) (failed_stop e observed s2)"
      using goes_failed[of s2 e observed] by (simp_all add: s2_def)
    have "(res, s') = (case r of Voided \<Rightarrow> (Run_voided, s1\<lparr>ss_worker := w\<rparr>) | Removed \<Rightarrow> (Run_stopped, s2)
        | Failed_call \<Rightarrow> (Run_threw, failed_stop e observed s2))"
      using assms(1) call Some rm s1 by (simp add: stopRuntime_def s2_def Let_def split: removal_result.splits)
    moreover have "removes_next e s" if "r = Removed"
      using removed_was_answered[OF rm[unfolded that]] stop_exit_removed by (simp add: removes_next_def)
    ultimately show ?thesis
      using asked asks_then_goes[OF asked s2(1)] asks_then_goes[OF asked s2(2)] cs(4)
      by (cases r) (auto intro!: exI[of _ "length cs"])
  qed
qed

lemma decideAndRemove_sound:
  assumes "decideAndRemove e opt tg rt dn n rd s = (res, s')" "reaches None (wk_row (ss_worker s))"
    and "own_tokens (se_ledger e)" "tg_captureSourced tg"
  shows "\<exists>k. asks_soundly (tg_executor tg) rt s s' k \<and> k \<le> 1 \<and> (res = Runtime_removed \<longrightarrow> k = 1 \<and> removes_next e s) \<and>
    (\<forall>why rd held. res = Runtime_kept why rd held \<longrightarrow> k = 0)"
  using assms(1,2)
proof (induction n arbitrary: rd s)
  case 0
  then show ?case using asks_nothing_goes[of s s'] by auto
next
  case (Suc n)
  let ?d = "stop_deleter opt tg rt dn"
  obtain az w where az: "authorizedDeletion (se_ledger e) ?d (ss_worker s) = (az, w)" by (metis prod.exhaust)
  let ?s1 = "s\<lparr>ss_worker := w\<rparr>"
  have decide: "dl_decide ?d = decide_on_record True rt dn (tg_executor tg)"
    using assms(4) by (simp add: stop_deleter_def)
  have az': "granted (tg_executor tg) rt az (wk_row w)" "goes (ss_worker s) w" "own_ticket (se_ledger e) ?d az"
    using authorize_loop_grants[OF az[unfolded authorizedDeletion_def] decide] by auto
  have reach: "reaches None (wk_row (ss_worker ?s1))"
    using az'(2) Suc.prems(2) reaches_trans by (auto simp: goes_def)
  have s1: "goes_state s ?s1" using az'(2) by simp
  show ?case
  proof (cases "az_decision az")
    case (Keep why)
    then have "s' = ?s1" "res = Runtime_kept why (az_record az) (az_heldElsewhere az)"
      using Suc.prems(1) az by (auto simp: with_worker_def)
    then show ?thesis using asks_nothing_goes[OF s1 Suc.prems(2)] by auto
  next
    case (Delete b)
    obtain r s2 where run: "stopRuntime e opt (tg_adapter tg) (tg_resourceId tg) b (observes opt tg) (az_ticket az) ?s1 = (r, s2)"
      by (metis prod.exhaust)
    have "granted (tg_executor tg) rt az (wk_row (ss_worker ?s1))" using az'(1) by simp
    from stopRuntime_sound[OF run this Delete reach assms(3) az'(3)] obtain k where
      k: "asks_soundly (tg_executor tg) rt ?s1 s2 k" "k \<le> 1" "r = Run_voided \<longrightarrow> k = 0" "r = Run_stopped \<longrightarrow> k = 1 \<and> removes_next e ?s1"
      by (auto simp: stop_deleter_def)
    have k': "asks_soundly (tg_executor tg) rt s s2 k" by (rule goes_then_asks[OF s1 k(1)])
    have body: "(res, s') = (case r of Run_voided \<Rightarrow> decideAndRemove e opt tg rt dn n (az_record az) s2
        | Run_stopped \<Rightarrow> (Runtime_removed, finish_removed e opt tg b s2) | Run_threw \<Rightarrow> (Removal_threw, s2))"
      using Suc.prems(1) az Delete run by (simp add: with_worker_def split: stop_run.splits)
    show ?thesis
    proof (cases r)
      case Run_stopped
      then have "s' = finish_removed e opt tg b s2" "res = Runtime_removed" using body by auto
      then show ?thesis using asks_then_goes[OF k' goes_finished] Run_stopped k(4) goes_same[OF s1] by auto
    next
      case Run_voided
      then have rest: "decideAndRemove e opt tg rt dn n (az_record az) s2 = (res, s')" and "k = 0" using body k(3) by auto
      then have none: "asks_soundly (tg_executor tg) rt s s2 0" using k' by simp
      show ?thesis using Suc.IH[OF rest asks_reaches[OF none]] asks_nothing_then[OF none] asks_nothing_same[OF none] by metis
    next
      case Run_threw
      then show ?thesis using body k' k(2) by auto
    qed
  qed
qed

section \<open>The requests of the parts of a stop\<close>

text \<open>That the runtime has nothing of the executor was said by the runtime.\<close>

definition heard :: "stop_env \<Rightarrow> runtime_state \<Rightarrow> bool" where
  "heard e rt \<longleftrightarrow> (rt = Rt_missing \<longrightarrow>
     (\<exists>k. se_inspect e k = Some Rt_missing) \<or> (\<exists>k. dv_runtime (se_drained e) k = Rt_missing))"

definition stops :: "stop_env \<Rightarrow> executor_identity \<Rightarrow> stop_state \<Rightarrow> stop_outcome \<Rightarrow> stop_state \<Rightarrow> bool" where
  "stops e x s res s' \<longleftrightarrow> (\<exists>n rt. asks_soundly x rt s s' n \<and> n \<le> 1 \<and> heard e rt \<and>
     (res = Was_stopped \<longrightarrow> n = 1 \<and> removes_next e s))"

lemma stops_goes: "stops e x s res s1 \<Longrightarrow> goes_state s1 s' \<Longrightarrow> stops e x s res s'"
  unfolding stops_def using asks_then_goes by blast

lemma goes_stops: "goes_state s s1 \<Longrightarrow> stops e x s1 res s' \<Longrightarrow> stops e x s res s'"
  unfolding stops_def using goes_then_asks goes_same by metis

lemma heard_running [simp]: "heard e Rt_running"
  by (simp add: heard_def)

lemma stops_nothing:
  assumes "goes_state s s'" "reaches None (wk_row (ss_worker s))" "res \<noteq> Was_stopped"
  shows "stops e x s res s'"
  unfolding stops_def using asks_nothing_goes[OF assms(1,2), of x Rt_running] assms(3) by fastforce

lemma decided_stops:
  assumes "decideAndRemove e opt tg rt dn n rd s = (d, s1)" "reaches None (wk_row (ss_worker s))"
    and "own_tokens (se_ledger e)" "tg_captureSourced tg" "heard e rt" "goes_state s1 s'"
    and "res = Was_stopped \<longrightarrow> d = Runtime_removed"
  shows "stops e (tg_executor tg) s res s'"
  using decideAndRemove_sound[OF assms(1-4)] assms(5,7) asks_then_goes[OF _ assms(6)]
  unfolding stops_def by blast

lemma runtimeState_heard: "runtimeState e ad s = (rt, s') \<Longrightarrow> heard e rt"
  by (auto simp: runtimeState_def heard_def given_def split: if_splits option.splits)

lemma runtimeState_goes: "runtimeState e ad s = (rt, s') \<Longrightarrow> goes_state s s'"
  using runtimeState_worker by fastforce

lemma retain_goes: "goes_state s (on_worker (retain_call sd reason) s)"
  by (simp add: on_worker_def stop_calls_go)

lemma stop_ended_sound:
  assumes "stop_ended e opt tg rt s = (res, s')" "reaches None (wk_row (ss_worker s))"
    and "own_tokens (se_ledger e)" "tg_captureSourced tg" "heard e rt"
  shows "stops e (tg_executor tg) s res s'"
proof -
  obtain d s1 where d: "decideAndRemove e opt tg rt False REMOVAL_DECISION_ATTEMPTS Read_failed s = (d, s1)"
    by (metis prod.exhaust)
  have "goes_state s1 s'" "res = Was_stopped \<longrightarrow> d = Runtime_removed"
    using assms(1) d retain_goes by (auto simp: stop_ended_def split: decided_removal.splits if_splits)
  then show ?thesis by (rule decided_stops[OF d assms(2-5)])
qed

lemma permitted_drain_heard:
  assumes "drainCaptureBeforeStop c (se_drained e) b claimed = Some (outcome, sent)" "drainPermitsStop outcome"
  shows "(\<exists>status. outcome = Drained status) \<or> heard e Rt_missing"
proof (cases outcome)
  case (Gone ms detail)
  obtain entry where "claimed = Some entry" using assms by (cases claimed) (auto simp: drainCaptureBeforeStop_def)
  then obtain k where "stop_supported c (se_drained e) k outcome"
    using assms(1) loop_supported[of c "se_drained e" 0 "dc_startedAt c" _ "[]" "(outcome, sent)"]
    by (auto simp: drainCaptureBeforeStop_def)
  then show ?thesis using Gone by (auto simp: stop_supported_def heard_def)
qed (use assms(2) in auto)

lemma drain_and_remove_sound:
  assumes "drain_and_remove e opt tg dr entry s = Some (res, s')" "reaches None (wk_row (ss_worker s))"
    and "own_tokens (se_ledger e)" "tg_captureSourced tg"
  shows "stops e (tg_executor tg) s res s'"
proof -
  obtain outcome sent where dn: "drainCaptureBeforeStop (sn_call dr) (se_drained e) (sn_opensWithStatus dr) (Some entry) = Some (outcome, sent)"
    using assms(1) by (auto simp: drain_and_remove_def split: option.splits)
  show ?thesis
  proof (cases "drainPermitsStop outcome")
    case False
    then have "res \<noteq> Was_stopped \<and> goes_state s s'"
      using assms(1) dn goes_trans[OF runtimeState_goes retain_goes] runtimeState_goes
      by (cases outcome) (auto simp: drain_and_remove_def Let_def split: prod.splits if_splits)
    then show ?thesis using stops_nothing assms(2) by blast
  next
    case True
    let ?drained = "case outcome of Drained _ \<Rightarrow> True | _ \<Rightarrow> False"
    let ?rt = "if ?drained then Rt_running else Rt_missing"
    have rt: "heard e ?rt" using permitted_drain_heard[OF dn True] by auto
    obtain d s1 where d: "decideAndRemove e opt tg ?rt ?drained REMOVAL_DECISION_ATTEMPTS Read_failed s = (d, s1)"
      by (metis prod.exhaust)
    have "goes_state s1 s'" "res = Was_stopped \<longrightarrow> d = Runtime_removed"
      using assms(1) dn True d by (auto simp: drain_and_remove_def Let_def split: decided_removal.splits if_splits)
    then show ?thesis by (rule decided_stops[OF d assms(2,3,4) rt])
  qed
qed

lemma stop_running_sound:
  assumes "stop_running e opt tg reachable claimed s = Some (res, s')" "reaches None (wk_row (ss_worker s))"
    and "own_tokens (se_ledger e)" "tg_captureSourced tg"
  shows "stops e (tg_executor tg) s res s'"
proof -
  have "(res, s') = (Left_kept, s) \<or> (\<exists>dr entry. drain_and_remove e opt tg dr entry s = Some (res, s'))"
    using assms(1,4) by (cases "so_drain opt"; cases claimed) (auto simp: stop_running_def split: if_splits)
  then show ?thesis using stops_nothing[OF _ assms(2), of s] drain_and_remove_sound[OF _ assms(2-4)] by auto
qed

lemma reaches_goes: "goes_state s s1 \<Longrightarrow> reaches None (wk_row (ss_worker s)) \<Longrightarrow> reaches None (wk_row (ss_worker s1))"
  by (auto simp: goes_def intro: reaches_trans)

lemma kept_then_stops:
  assumes "decideAndRemove e opt tg rt dn n rd s = (Runtime_kept why rd' held, s1)" "reaches None (wk_row (ss_worker s))"
    and "own_tokens (se_ledger e)" "tg_captureSourced tg" "stops e (tg_executor tg) s1 res s'"
  shows "stops e (tg_executor tg) s res s'"
proof -
  obtain k where "asks_soundly (tg_executor tg) rt s s1 k" and k: "\<forall>w rd2 h. Runtime_kept why rd' held = Runtime_kept w rd2 h \<longrightarrow> k = 0"
    using decideAndRemove_sound[OF assms(1-4)] by (elim exE conjE)
  moreover have "k = 0" using k by simp
  ultimately have none: "asks_soundly (tg_executor tg) rt s s1 0" by simp
  show ?thesis using assms(5) asks_nothing_then[OF none] asks_nothing_same[OF none] unfolding stops_def by metis
qed

lemma stop_claimed_sound:
  assumes "stop_claimed e opt tg reachable claimed s = Some (res, s')" "reaches None (wk_row (ss_worker s))"
    and "own_tokens (se_ledger e)" "tg_captureSourced tg"
  shows "stops e (tg_executor tg) s res s'"
proof -
  obtain rd s1 where rd: "read_record e opt s = (rd, s1)" by (metis prod.exhaust)
  obtain rt s2 where rt: "runtimeState e (tg_adapter tg) s1 = (rt, s2)" by (metis prod.exhaust)
  have s2: "goes_state s s2" using goes_trans[OF read_record_goes[OF rd] runtimeState_goes[OF rt]] .
  have reach: "reaches None (wk_row (ss_worker s2))" by (rule reaches_goes[OF s2 assms(2)])
  obtain d s3 where d: "decideAndRemove e opt tg Rt_running False REMOVAL_DECISION_ATTEMPTS Read_failed s2 = (d, s3)"
    by (metis prod.exhaust)
  have "stops e (tg_executor tg) s2 res s'"
  proof (cases "rt \<noteq> Rt_running")
    case True
    then have "stop_ended e opt tg rt s2 = (res, s')" using assms(1) rd rt by (simp add: stop_claimed_def)
    then show ?thesis by (rule stop_ended_sound[OF _ reach assms(3,4) runtimeState_heard[OF rt]])
  next
    case running: False
    show ?thesis
    proof (cases "so_drain opt \<noteq> None \<and> in_entry en_removalIssued rd")
      case False
      then have "stop_running e opt tg reachable claimed s2 = Some (res, s')"
        using assms(1) rd rt running by (simp add: stop_claimed_def split: if_splits)
      then show ?thesis by (rule stop_running_sound[OF _ reach assms(3,4)])
    next
      case True
      then have body: "Some (res, s') = (case d of Runtime_removed \<Rightarrow> Some (Was_stopped, s3)
          | Removal_threw \<Rightarrow> Some (Stop_threw, s3)
          | Runtime_kept why rd' held \<Rightarrow> if held then Some (Left_busy, s3) else stop_running e opt tg reachable claimed s3)"
        using assms(1,4) rd rt running d by (simp add: stop_claimed_def split: decided_removal.splits)
      show ?thesis
      proof (cases "(\<exists>why rd'. d = Runtime_kept why rd' False)")
        case False
        then have "s' = s3" "res = Was_stopped \<longrightarrow> d = Runtime_removed"
          using body by (auto split: decided_removal.splits if_splits)
        then show ?thesis using decided_stops[OF d reach assms(3,4)] by simp
      next
        case True
        then obtain why rd' where kept: "d = Runtime_kept why rd' False" by blast
        then have go: "stop_running e opt tg reachable claimed s3 = Some (res, s')" using body by simp
        have "reaches None (wk_row (ss_worker s3))"
          using decideAndRemove_sound[OF d reach assms(3,4)] asks_reaches by blast
        then show ?thesis
          by (rule kept_then_stops[OF d[unfolded kept] reach assms(3,4) stop_running_sound[OF go _ assms(3,4)]])
      qed
    qed
  qed
  then show ?thesis by (rule goes_stops[OF s2])
qed

lemma stop_sourced_sound:
  assumes "stop_sourced e opt tg reachable s = Some (res, s')" "reaches None (wk_row (ss_worker s))"
    and "own_tokens (se_ledger e)" "tg_captureSourced tg"
  shows "stops e (tg_executor tg) s res s'"
proof (cases "so_drain opt")
  case None
  then have "stop_claimed e opt tg reachable None s = Some (res, s')" using assms(1) by (simp add: stop_sourced_def)
  then show ?thesis by (rule stop_claimed_sound[OF _ assms(2-4)])
next
  case (Some dr)
  obtain c w where cl: "claim_call (se_ledger e) (sn_owner dr) (sn_leaseMs dr) (ss_worker s) = (c, w)" by (metis prod.exhaust)
  let ?s1 = "s\<lparr>ss_worker := w\<rparr>"
  have s1: "goes_state s ?s1" using stop_calls_go(1)[of "ss_worker s" "se_ledger e" "sn_owner dr" "sn_leaseMs dr"] cl by simp
  show ?thesis
  proof (cases c)
    case None
    then have "res = Left_busy" "s' = ?s1" using assms(1,4) Some cl by (auto simp: stop_sourced_def with_worker_def)
    then show ?thesis using stops_nothing[OF s1 assms(2)] by simp
  next
    case (Some got)
    then obtain entry token where got: "c = Some (entry, token)" by (cases got) auto
    obtain s2 where in_claim: "stop_claimed e opt tg reachable (Some entry) ?s1 = Some (res, s2)"
        and rel: "s' = on_worker (unclaim_call (se_ledger e) (sn_owner dr) token) s2"
      using assms(1,4) \<open>so_drain opt = Some dr\<close> cl got by (auto simp: stop_sourced_def with_worker_def)
    have "stops e (tg_executor tg) ?s1 res s2"
      by (rule stop_claimed_sound[OF in_claim reaches_goes[OF s1 assms(2)] assms(3,4)])
    then show ?thesis using goes_stops[OF s1] stops_goes stop_calls_go(2) rel by (simp add: on_worker_def)
  qed
qed

section \<open>The requests of a stop\<close>

definition executor_of :: "stop_options \<Rightarrow> runtime_instance \<Rightarrow> executor_identity" where
  "executor_of opt r = \<lparr>xi_runId = so_runId opt, xi_resourceId = ri_resourceId r, xi_reference = ri_reference r\<rparr>"

definition addressable :: "runtime_instance \<Rightarrow> bool" where
  "addressable r \<longleftrightarrow> ri_status r \<noteq> Inst_stopped \<and> ri_adapter r \<noteq> None \<and> ri_resourceId r \<noteq> None"

text \<open>The drain record, as the first call of the stop to it finds it, says the owner discarded the work.\<close>

definition discard_found :: "stop_env \<Rightarrow> stop_state \<Rightarrow> bool" where
  "discard_found e s \<longleftrightarrow>
     is_discarded (run_ledger (sd_others (se_ledger e) (wk_calls (ss_worker s))) (wk_row (ss_worker s)))"

text \<open>The row of the instance, as the stop reads it.\<close>

definition instance_found :: "stop_env \<Rightarrow> stop_state \<Rightarrow> runtime_instance option" where
  "instance_found e s = run_instance (se_instanceOthers e (ss_instanceCalls s)) (ss_instance s)"

lemma read_discard:
  assumes "read_record e opt s = (rd, s1)" "in_entry (\<lambda>en. en_discardRequested en \<noteq> None) rd"
  shows "discard_found e s \<and> is_discarded (wk_row (ss_worker s1))"
  using assms
  by (auto simp: read_record_def with_worker_def read_call_def ledger_call_def in_entry_def discard_found_def
      is_discarded_def entryFromRow_def Let_def split: if_splits fault.splits option.splits prod.splits)

lemma stop_discarded_sound:
  assumes "stop_discarded e opt ad rid rd s = (res, s')" "reaches None (wk_row (ss_worker s))"
    and "own_tokens (se_ledger e)" "is_discarded (wk_row (ss_worker s))"
  shows "\<exists>n. asks_soundly x Rt_running s s' n \<and> n \<le> 1"
proof -
  obtain r s1 where run: "stopRuntime e opt ad rid Discarded True None s = (r, s1)" by (metis prod.exhaust)
  let ?az = "decided (Delete Discarded) Read_failed None"
  let ?d = "stop_deleter opt undefined Rt_running False"
  have "granted x Rt_running ?az (wk_row (ss_worker s))" "own_ticket (se_ledger e) ?d ?az"
    "az_decision ?az = Delete Discarded" "az_ticket ?az = None" "dl_hasLedger ?d = (so_drain opt \<noteq> None)"
    using assms(4) by (simp_all add: granted_def decided_def own_ticket_def stop_deleter_def)
  then obtain n where n: "asks_soundly x Rt_running s s1 n" "n \<le> 1"
    using stopRuntime_sound[of e opt ad rid Discarded True ?az s r s1 x Rt_running ?d] run assms(2,3) by auto
  have "goes_state s1 s'"
    using assms(1) run by (auto simp: stop_discarded_def on_worker_def stop_calls_go split: stop_run.splits)
  then show ?thesis using asks_then_goes[OF n(1)] n(2) by blast
qed

lemma instance_call_answer: "instance_call e (\<lambda>at row. (row, row)) s = (Some row, s1) \<Longrightarrow> row = instance_found e s"
  by (auto simp: instance_call_def instance_found_def Let_def split: fault.splits)

definition stop_sound :: "stop_env \<Rightarrow> stop_options \<Rightarrow> runtime_instance \<Rightarrow> stop_state \<Rightarrow> stop_outcome \<Rightarrow> stop_state \<Rightarrow> bool" where
  "stop_sound e opt r s res s' \<longleftrightarrow> (\<exists>n rt. asks_soundly (executor_of opt r) rt s s' n \<and> n \<le> 1 \<and> heard e rt \<and>
     (res = Was_stopped \<and> addressable r \<longrightarrow> n = 1 \<and> removes_next e s \<or> discard_found e s))"

lemma stops_sound: "stops e (executor_of opt r) s res s' \<Longrightarrow> stop_sound e opt r s res s'"
  unfolding stops_def stop_sound_def by blast

lemma stop_addressable_sound:
  assumes "stop_addressable e opt r adapterId rid s = Some (res, s')" "reaches None (wk_row (ss_worker s))"
    and "own_tokens (se_ledger e)" "runIsCaptureSourced (ri_sourceKind r) (se_snapshot e) \<noteq> Some False"
    and "ri_resourceId r = Some rid"
  shows "stop_sound e opt r s res s'"
proof (cases "find (\<lambda>ad. ad_id ad = adapterId) (so_adapters opt)")
  case None
  then have "res = Stop_threw" "s' = s" using assms(1) by (auto simp: stop_addressable_def)
  then show ?thesis using stops_sound stops_nothing[OF _ assms(2), of s] by simp
next
  case (Some ad)
  obtain rd s1 where rd: "read_record e opt s = (rd, s1)" by (metis prod.exhaust)
  have s1: "goes_state s s1" by (rule read_record_goes[OF rd])
  have reach: "reaches None (wk_row (ss_worker s1))" by (rule reaches_goes[OF s1 assms(2)])
  show ?thesis
  proof (cases "so_drain opt \<noteq> None \<and> in_entry (\<lambda>en. en_discardRequested en \<noteq> None) rd")
    case True
    then have "stop_discarded e opt ad rid rd s1 = (res, s')" using assms(1) Some rd by (simp add: stop_addressable_def)
    moreover have seen: "discard_found e s" "is_discarded (wk_row (ss_worker s1))" using read_discard[OF rd] True by auto
    ultimately obtain n where "asks_soundly (executor_of opt r) Rt_running s1 s' n" "n \<le> 1"
      using stop_discarded_sound[OF _ reach assms(3)] by blast
    then show ?thesis using goes_then_asks[OF s1] seen(1) heard_running unfolding stop_sound_def by blast
  next
    case False
    show ?thesis
    proof (cases "runIsCaptureSourced (ri_sourceKind r) (se_snapshot e)")
      case None
      then have "res = Stop_threw" "s' = s1" using assms(1) Some rd False by (auto simp: stop_addressable_def split: if_splits)
      then show ?thesis using stops_sound[OF stops_nothing[OF s1 assms(2)]] by simp
    next
      case source: (Some b)
      let ?tg = "\<lparr>tg_adapter = ad, tg_resourceId = rid, tg_executor = executor_of opt r, tg_captureSourced = True\<rparr>"
      have b using source assms(4) by simp
      then have "stop_sourced e opt ?tg (so_reachable opt r) s1 = Some (res, s')"
        using assms(1,5) Some rd False source by (auto simp: stop_addressable_def executor_of_def split: if_splits)
      from stop_sourced_sound[OF this reach assms(3)] have "stops e (executor_of opt r) s1 res s'" by simp
      then show ?thesis by (intro stops_sound goes_stops[OF s1])
    qed
  qed
qed

text \<open>C16: a stop of a run whose workspace is capture-sourced, or not known not to be, asks the runtime to
  remove the executor at most once, and on evidence that stands at that instant. However the operations of others on the drain record and on
  the row of the instance interleave with the stop, whichever of its calls to them fail, and whatever
  the daemon and the runtime answer: the request is sound in the sense of \<^const>\<open>sound_request\<close>, and
  nothing is taken for gone that the runtime did not report missing. For a row that is not stopped and
  has a runtime to address, a stop reported made is one the runtime carried out, except where the stop
  found the owner's discard of the work on record.\<close>

theorem stop_rests_on_evidence:
  assumes "processWorkspaceStop e opt s = Some (res, s')" "instance_found e s = Some r"
    and "runIsCaptureSourced (ri_sourceKind r) (se_snapshot e) \<noteq> Some False"
    and "wk_row (ss_worker s) = run_ledger past None" "wk_asked (ss_worker s) = []" "own_tokens (se_ledger e)"
  shows "length (wk_asked (ss_worker s')) \<le> 1 \<and>
    (\<exists>rt. heard e rt \<and> (\<forall>c \<in> set (wk_asked (ss_worker s')). sound_request (executor_of opt r) rt c)) \<and>
    (res = Was_stopped \<and> addressable r \<longrightarrow>
      length (wk_asked (ss_worker s')) = 1 \<and> se_end e 0 = Exit_removed \<or> discard_found e s)"
proof -
  have reach: "reaches None (wk_row (ss_worker s))" using assms(4) by (auto simp: reaches_def)
  obtain a s1 where call: "instance_call e (\<lambda>at row. (row, row)) s = (a, s1)" by (metis prod.exhaust)
  have s1: "ss_worker s1 = ss_worker s" by (rule instance_call_worker[OF call])
  have "stop_sound e opt r s res s'"
  proof (cases a)
    case None
    then have "res = Stop_threw" "s' = s1" using assms(1) call by (auto simp: processWorkspaceStop_def)
    then show ?thesis using stops_sound stops_nothing[OF _ reach, of s1] s1 by simp
  next
    case (Some row)
    then have a: "a = Some (Some r)" using instance_call_answer call assms(2) by fastforce
    show ?thesis
    proof (cases "addressable r")
      case False
      have "goes_state s s'"
        using assms(1) call a False s1
        by (auto simp: processWorkspaceStop_def addressable_def Let_def split: option.splits prod.splits bool.splits if_splits
            dest: record_stopped_worker)
      from asks_nothing_goes[OF this reach, of "executor_of opt r" Rt_running] show ?thesis
        using False heard_running unfolding stop_sound_def by (metis zero_le_one)
    next
      case True
      then obtain adapterId rid where "ri_adapter r = Some adapterId" "ri_resourceId r = Some rid" "ri_status r \<noteq> Inst_stopped"
        by (auto simp: addressable_def)
      then have "stop_addressable e opt r adapterId rid s1 = Some (res, s')" "ri_resourceId r = Some rid"
        using assms(1) call a by (auto simp: processWorkspaceStop_def)
      from stop_addressable_sound[OF this(1) _ assms(6,3) this(2)] have "stop_sound e opt r s1 res s'" using reach s1 by simp
      then show ?thesis using s1 by (simp add: stop_sound_def asks_soundly_def removes_next_def discard_found_def)
    qed
  qed
  then show ?thesis using assms(5) by (auto simp: stop_sound_def asks_soundly_def removes_next_def)
qed

section \<open>A stop ends\<close>

lemma stop_claimed_returns:
  assumes "\<And>dr. so_drain opt = Some dr \<Longrightarrow> 0 < st_pollIntervalMs (dc_settings (sn_call dr))"
  shows "\<exists>y. stop_claimed e opt tg reachable claimed s = Some y"
proof -
  have running: "\<exists>y. stop_running e opt tg reachable claimed s1 = Some y" for s1
  proof (cases "tg_captureSourced tg \<and> reachable \<and> so_drain opt \<noteq> None \<and> claimed \<noteq> None")
    case True
    then obtain dr entry where dr: "so_drain opt = Some dr" "claimed = Some entry" by auto
    obtain outcome sent where
      "drainCaptureBeforeStop (sn_call dr) (se_drained e) (sn_opensWithStatus dr) (Some entry) = Some (outcome, sent)"
      using loop_returns[OF assms[OF dr(1)]] by (fastforce simp: drainCaptureBeforeStop_def)
    then show ?thesis using True dr by (simp add: stop_running_def drain_and_remove_def)
  next
    case False
    then show ?thesis by (auto simp: stop_running_def split: option.splits)
  qed
  obtain rd s1 where rd: "read_record e opt s = (rd, s1)" by (metis prod.exhaust)
  obtain rt s2 where rt: "runtimeState e (tg_adapter tg) s1 = (rt, s2)" by (metis prod.exhaust)
  obtain d s3 where d: "decideAndRemove e opt tg Rt_running False REMOVAL_DECISION_ATTEMPTS Read_failed s2 = (d, s3)"
    by (metis prod.exhaust)
  show ?thesis using running[of s2] running[of s3] rd rt d
    by (cases d) (auto simp: stop_claimed_def)
qed

text \<open>C18: a stop ends. Whatever the daemon, the runtime and the record answer, and whichever calls fail, a
  stop whose drain waits a positive interval between its rounds reaches an outcome.\<close>

theorem stop_returns:
  assumes "\<And>dr. so_drain opt = Some dr \<Longrightarrow> 0 < st_pollIntervalMs (dc_settings (sn_call dr))"
  shows "\<exists>outcome s'. processWorkspaceStop e opt s = Some (outcome, s')"
proof -
  have claimed: "stop_claimed e opt tg reachable claimed s1 \<noteq> None" for tg reachable claimed s1
    using stop_claimed_returns[of opt e tg reachable claimed s1] assms by auto
  have sourced: "\<exists>y. stop_sourced e opt tg reachable s1 = Some y" for tg reachable s1
  proof (cases "so_drain opt")
    case None
    then show ?thesis using claimed by (auto simp: stop_sourced_def)
  next
    case (Some dr)
    obtain c s2 where c: "with_worker (claim_call (se_ledger e) (sn_owner dr) (sn_leaseMs dr)) s1 = (c, s2)"
      by (metis prod.exhaust)
    show ?thesis
      using Some c claimed by (cases c; cases "tg_captureSourced tg") (auto simp: stop_sourced_def split: prod.splits)
  qed
  have "\<exists>y. stop_addressable e opt r adapterId rid s1 = Some y" for r adapterId rid s1
    using sourced by (auto simp: stop_addressable_def split: option.splits prod.splits)
  then show ?thesis
    by (auto simp: processWorkspaceStop_def Let_def split: option.splits prod.splits bool.splits)
qed

section \<open>A discard whose removal is not made\<close>

text \<open>C19: a discarded run's stop is reported made though the runtime was never asked. When the record
  says the owner discarded the work but cannot be read again right before the removal, the removal is
  voided; the stop still answers stopped, records the drain discarded and stamps the workspace
  stopped, and the executor is left as it was, with no stop recorded on its row.\<close>

theorem discard_unread_reports_unmade_stop:
  assumes "instance_found e s = Some r" "ri_adapter r = Some (ad_id ad)" "so_adapters opt = [ad]" "addressable r"
    and "so_drain opt = Some dr" "discard_found e s" "sd_fault (se_ledger e) (wk_calls (ss_worker s)) = No_fault"
    and "sd_fault (se_ledger e) (Suc (wk_calls (ss_worker s))) \<noteq> No_fault"
    and "\<And>k. se_instanceFault e k = No_fault"
    and "so_workspaceId opt = Some w" "se_settles e" "ss_workspace s = Some ws" "wr_latestRunId ws = Some (so_runId opt)"
    and "\<And>row. se_between e row = row" "se_instanceOthers e (Suc (ss_instanceCalls s)) = []"
  shows "\<exists>s'. processWorkspaceStop e opt s = Some (Was_stopped, s') \<and> wk_asked (ss_worker s') = wk_asked (ss_worker s) \<and>
    map_option wr_status (ss_workspace s') = Some ''stopped'' \<and>
    (\<exists>r'. ss_instance s' = Some r' \<and> ri_status r' = ri_status r \<and> ri_removedAt r' = ri_removedAt r)"
proof -
  obtain rid where rid: "ri_resourceId r = Some rid" "ri_status r \<noteq> Inst_stopped" using assms(4) by (auto simp: addressable_def)
  define s1 where "s1 = s\<lparr>ss_instance := Some r, ss_instanceCalls := Suc (ss_instanceCalls s)\<rparr>"
  have call: "instance_call e (\<lambda>at row. (row, row)) s = (Some (Some r), s1)"
    using assms(1,9) by (simp add: instance_call_def instance_found_def s1_def Let_def)
  obtain rd s2 where rd: "read_record e opt s1 = (rd, s2)" by (metis prod.exhaust)
  have found: "in_entry (\<lambda>en. en_discardRequested en \<noteq> None) rd"
    using rd assms(5,6,7)
    by (auto simp: read_record_def with_worker_def read_call_def ledger_call_def in_entry_def discard_found_def s1_def
        is_discarded_def entryFromRow_def Let_def split: option.splits)
  have s2: "wk_asked (ss_worker s2) = wk_asked (ss_worker s)" "wk_calls (ss_worker s2) = Suc (wk_calls (ss_worker s))"
    "ss_instance s2 = Some r" "ss_instanceCalls s2 = Suc (ss_instanceCalls s)" "ss_workspace s2 = Some ws"
    using rd assms(5,7,12) by (auto simp: read_record_def with_worker_def read_call_def ledger_call_def Let_def s1_def)
  have fault: "sd_fault (se_ledger e) (wk_calls (ss_worker s2)) \<noteq> No_fault" using assms(8) s2(2) by simp
  obtain w1 where void: "removeUnderDeletion (se_ledger e) rn True Discarded None (ss_worker s2) = (Voided, w1)"
      "wk_asked w1 = wk_asked (ss_worker s2)" for rn
    using fault by (cases "sd_fault (se_ledger e) (wk_calls (ss_worker s2))")
      (auto simp: removeUnderDeletion_def read_call_def ledger_call_def Let_def)
  obtain s3 where run: "stopRuntime e opt ad rid Discarded True None s2 = (Run_voided, s3)"
      "wk_asked (ss_worker s3) = wk_asked (ss_worker s)" "ss_workspace s3 = Some ws"
      "ss_instance s3 = markStopRequested (so_reason opt) (fst (se_instanceClock e (Suc (ss_instanceCalls s)))) (Some r)"
    using void s2 assms(5,9,15) by (auto simp: stopRuntime_def instance_call_def Let_def)
  show ?thesis
    using assms(2,3,5,10,11,13,14) rid call rd found run
    by (auto simp: processWorkspaceStop_def stop_addressable_def stop_discarded_def settleWorkspaceRow_def on_worker_def
        observe_call_def asks_nothing markStopRequested_def update_where_def Let_def)
qed

section \<open>A stop reported made is recorded\<close>

definition stop_recorded :: "stop_state \<Rightarrow> bool" where
  "stop_recorded s \<longleftrightarrow> (\<exists>r. ss_instance s = Some r \<and> ri_status r = Inst_stopped)"

text \<open>Others launch nothing for the run while it is stopped.\<close>

definition launches_nothing :: "stop_env \<Rightarrow> bool" where
  "launches_nothing e \<longleftrightarrow> (\<forall>k. \<forall>(at, now, op) \<in> set (se_instanceOthers e k). \<not> launches op)"

lemma instance_unmoved [simp]:
  "ss_instance (on_worker f s) = ss_instance s" "ss_instance (settleWorkspaceRow e opt s) = ss_instance s"
  "ss_instance (failed_stop e observed s) = ss_instance s" "ss_instance (finish_removed e opt tg b s) = ss_instance s"
  by (simp_all add: on_worker_def settleWorkspaceRow_def failed_stop_def finish_removed_def Let_def split: option.splits)

lemma others_keep_stop:
  assumes "launches_nothing e" "ri_status r = Inst_stopped"
  shows "\<exists>r'. run_instance (se_instanceOthers e k) (Some r) = Some r' \<and> ri_status r' = Inst_stopped"
proof -
  have "\<exists>r'. run_instance ops (Some r) = Some r'" for ops
    by (induction ops arbitrary: r) (simp, metis run_instance_Cons instance_step_exists)
  then obtain r' where r': "run_instance (se_instanceOthers e k) (Some r) = Some r'" by blast
  have "\<forall>(at, now, op) \<in> set (se_instanceOthers e k). \<not> launches op" using assms(1) by (simp add: launches_nothing_def)
  then show ?thesis using stopped.run[OF r'] r' assms(2) by (simp add: same_stop_def)
qed

lemma record_stopped_row:
  assumes "fst (record_stopped e opt s)"
  shows "stop_recorded (snd (record_stopped e opt s))"
  using assms
  by (auto simp: record_stopped_def instance_call_def stop_recorded_def markStopped_def update_where_def or_old_def Let_def
      split: fault.splits option.splits prod.splits if_splits)

lemma removed_mark_row:
  assumes "launches_nothing e" "stop_recorded s"
  shows "stop_recorded (snd (instance_call e (\<lambda>at row. ((), markRemoved rid at row)) s))"
proof -
  obtain r where r: "ss_instance s = Some r" "ri_status r = Inst_stopped" using assms(2) by (auto simp: stop_recorded_def)
  obtain r' where "run_instance (se_instanceOthers e (ss_instanceCalls s)) (Some r) = Some r'" "ri_status r' = Inst_stopped"
    using others_keep_stop[OF assms(1) r(2)] by blast
  then show ?thesis using r
    by (auto simp: instance_call_def stop_recorded_def markRemoved_def update_where_def Let_def split: fault.splits)
qed

lemma record_removal_row:
  assumes "launches_nothing e" "stop_exit e opt s0 i = Exit_removed" "ss_instance s = ss_instance s0"
    and "ss_instanceCalls s = ss_instanceCalls s0"
  shows "stop_recorded (record_removal e opt ad rid i s)"
proof -
  have "se_end e i = Exit_removed" "fst (record_stopped e opt s0)" using assms(2) by (auto simp: stop_exit_def split: if_splits)
  moreover have "fst (record_stopped e opt s) = fst (record_stopped e opt s0)"
    using assms(3,4) by (simp add: record_stopped_def instance_call_def Let_def split: fault.splits prod.splits)
  ultimately show ?thesis
    using record_stopped_row[of e opt s] removed_mark_row[OF assms(1)]
    by (simp add: record_removal_def Let_def case_prod_beta)
qed

lemma stopRuntime_records:
  assumes "launches_nothing e" "stopRuntime e opt ad rid b observed ticket s = (Run_stopped, s')"
  shows "stop_recorded s'"
proof -
  obtain a s1 where call: "instance_call e (\<lambda>at row. ((), markStopRequested (so_reason opt) at row)) s = (a, s1)"
    by (metis prod.exhaust)
  let ?rn = "\<lparr>rn_exit = stop_exit e opt s1, rn_renewals = se_renewals e\<rparr>"
  obtain r w where rm: "removeUnderDeletion (se_ledger e) ?rn (so_drain opt \<noteq> None) b ticket (ss_worker s1) = (r, w)"
    by (metis prod.exhaust)
  have r: "r = Removed" and s': "s' = record_removal e opt ad rid (length (wk_asked (ss_worker s1))) (s1\<lparr>ss_worker := w\<rparr>)"
    using assms(2) call rm by (cases a; cases r; auto simp: stopRuntime_def Let_def)+
  have "stop_exit e opt s1 (length (wk_asked (ss_worker s1))) = Exit_removed"
    using removed_was_answered[OF rm[unfolded r]] by simp
  then show ?thesis unfolding s' by (rule record_removal_row[OF assms(1)]) simp_all
qed

lemma decideAndRemove_records:
  assumes "launches_nothing e" "decideAndRemove e opt tg rt dn n rd s = (Runtime_removed, s')"
  shows "stop_recorded s'"
  using assms(2)
proof (induction n arbitrary: rd s)
  case (Suc n)
  obtain az s1 where az: "with_worker (authorizedDeletion (se_ledger e) (stop_deleter opt tg rt dn)) s = (az, s1)"
    by (metis prod.exhaust)
  then obtain b where b: "az_decision az = Delete b" using Suc.prems by (cases "az_decision az") auto
  obtain r s2 where run: "stopRuntime e opt (tg_adapter tg) (tg_resourceId tg) b (observes opt tg) (az_ticket az) s1 = (r, s2)"
    by (metis prod.exhaust)
  show ?case
  proof (cases r)
    case Run_stopped
    then show ?thesis
      using Suc.prems az b run stopRuntime_records[OF assms(1)] by (auto simp: stop_recorded_def)
  qed (use Suc.prems Suc.IH az b run in auto)
qed simp

lemma stop_running_records:
  assumes "launches_nothing e" "stop_running e opt tg reachable claimed s = Some (Was_stopped, s')"
  shows "stop_recorded s'"
proof -
  have drained: "stop_recorded s'" if dr: "drain_and_remove e opt tg dr entry s = Some (Was_stopped, s')" for dr entry
  proof -
    obtain outcome sent where dn: "drainCaptureBeforeStop (sn_call dr) (se_drained e) (sn_opensWithStatus dr) (Some entry) = Some (outcome, sent)"
      using dr by (auto simp: drain_and_remove_def split: option.splits)
    let ?drained = "case outcome of Drained _ \<Rightarrow> True | _ \<Rightarrow> False"
    obtain d s1 where d: "decideAndRemove e opt tg (if ?drained then Rt_running else Rt_missing) ?drained
        REMOVAL_DECISION_ATTEMPTS Read_failed s = (d, s1)"
      by (metis prod.exhaust)
    have "drainPermitsStop outcome"
      using dr dn by (cases outcome) (auto simp: drain_and_remove_def Let_def split: prod.splits)
    then have "d = Runtime_removed" "s' = s1"
      using dr dn d by (cases d; auto simp: drain_and_remove_def Let_def split: if_splits)+
    then show ?thesis using decideAndRemove_records[OF assms(1)] d by blast
  qed
  obtain d s1 where d: "decideAndRemove e opt tg Rt_running False REMOVAL_DECISION_ATTEMPTS Read_failed s = (d, s1)"
    by (metis prod.exhaust)
  show ?thesis
  proof (cases "tg_captureSourced tg")
    case False
    then have "d = Runtime_removed" "s' = s1" using assms(2) d by (cases d; simp add: stop_running_def)+
    then show ?thesis using decideAndRemove_records[OF assms(1)] d by blast
  next
    case True
    then show ?thesis
      using assms(2) drained by (cases "so_drain opt"; cases claimed) (auto simp: stop_running_def split: if_splits)
  qed
qed

lemma stop_claimed_records:
  assumes "launches_nothing e" "stop_claimed e opt tg reachable claimed s = Some (Was_stopped, s')"
  shows "stop_recorded s'"
proof -
  obtain rd s1 where rd: "read_record e opt s = (rd, s1)" by (metis prod.exhaust)
  obtain rt s2 where rt: "runtimeState e (tg_adapter tg) s1 = (rt, s2)" by (metis prod.exhaust)
  obtain d s3 where d: "decideAndRemove e opt tg rt False REMOVAL_DECISION_ATTEMPTS Read_failed s2 = (d, s3)"
    by (metis prod.exhaust)
  have removed: "stop_recorded s3" if "d = Runtime_removed" using decideAndRemove_records[OF assms(1)] d that by blast
  show ?thesis
  proof (cases "rt = Rt_running \<and> \<not> (tg_captureSourced tg \<and> so_drain opt \<noteq> None \<and> in_entry en_removalIssued rd)")
    case True
    then have "stop_running e opt tg reachable claimed s2 = Some (Was_stopped, s')"
      using assms(2) rd rt by (auto simp: stop_claimed_def split: if_splits)
    then show ?thesis by (rule stop_running_records[OF assms(1)])
  next
    case False
    have "(d = Runtime_removed \<and> s' = s3) \<or> stop_running e opt tg reachable claimed s3 = Some (Was_stopped, s')"
    proof (cases "rt = Rt_running")
      case True
      then show ?thesis using assms(2) rd rt d False
        by (cases d) (auto simp: stop_claimed_def split: if_splits)
    next
      case ended: False
      then have "stop_ended e opt tg rt s2 = (Was_stopped, s')" using assms(2) rd rt by (simp add: stop_claimed_def)
      then show ?thesis using d by (cases d) (auto simp: stop_ended_def split: if_splits)
    qed
    then show ?thesis using removed stop_running_records[OF assms(1)] by blast
  qed
qed

text \<open>C17: a stop reported made is recorded, where the owner's discard of the work was not found and nothing
  launches the run anew meanwhile. Whichever calls fail and whatever else is interleaved: when such a
  stop answers stopped for a run that has a row, the row says stopped at the end; so no sweep that looks for
  executors still up finds it.\<close>

theorem stop_reported_is_recorded:
  assumes "processWorkspaceStop e opt s = Some (Was_stopped, s')" "instance_found e s = Some r"
    and "launches_nothing e" "\<not> discard_found e s"
  shows "\<exists>r'. ss_instance s' = Some r' \<and> ri_status r' = Inst_stopped"
proof -
  obtain a s1 where call: "instance_call e (\<lambda>at row. (row, row)) s = (a, s1)" by (metis prod.exhaust)
  have a: "a = Some (Some r)"
    using instance_call_answer call assms(1,2) by (cases a) (fastforce simp: processWorkspaceStop_def)+
  have "stop_recorded s'"
  proof (cases "addressable r")
    case False
    then have "fst (record_stopped e opt s1)" "ss_instance s' = ss_instance (snd (record_stopped e opt s1))"
      using assms(1) call a
      by (auto simp: processWorkspaceStop_def addressable_def Let_def case_prod_beta split: option.splits bool.splits if_splits)
    then show ?thesis using record_stopped_row by (simp add: stop_recorded_def)
  next
    case True
    then obtain adapterId rid where "ri_adapter r = Some adapterId" "ri_resourceId r = Some rid" "ri_status r \<noteq> Inst_stopped"
      by (auto simp: addressable_def)
    then have "stop_addressable e opt r adapterId rid s1 = Some (Was_stopped, s')"
      using assms(1) call a by (auto simp: processWorkspaceStop_def)
    moreover have "discard_found e s1 = discard_found e s"
      using instance_call_worker[OF call] by (simp add: discard_found_def)
    ultimately obtain tg reachable s2 where "stop_sourced e opt tg reachable s2 = Some (Was_stopped, s')"
      using assms(4) read_discard
      by (auto simp: stop_addressable_def split: option.splits prod.splits if_splits)
    then obtain claimed s3 s4 where "stop_claimed e opt tg reachable claimed s3 = Some (Was_stopped, s4)"
        "ss_instance s' = ss_instance s4"
      by (auto simp: stop_sourced_def split: option.splits prod.splits bool.splits)
    then show ?thesis using stop_claimed_records[OF assms(3)] by (simp add: stop_recorded_def)
  qed
  then show ?thesis by (simp add: stop_recorded_def)
qed

section \<open>The theorems on a stop\<close>

definition docker :: adapter where
  "docker = \<lparr>ad_id = ''docker'', ad_keepsRemains = True, ad_removalFenceMs = None, ad_inspects = True\<rparr>"

definition ready_row :: runtime_instance where
  "ready_row = (fresh_instance 0)\<lparr>ri_status := Inst_ready, ri_adapter := Some ''docker'', ri_resourceId := Some ''c1'',
     ri_sourceKind := Some ''capture''\<rparr>"

definition user_stop :: stop_options where
  "user_stop = \<lparr>so_workspaceId = Some ''w'', so_runId = ''r'', so_reason = By_user, so_adapters = [docker], so_reachable = (\<lambda>_. True),
     so_drain = Some \<lparr>sn_owner = ''o'', sn_leaseMs = 1000, sn_call = some_drain, sn_opensWithStatus = False\<rparr>\<rparr>"

text \<open>An executor that ended: the runtime removes it, and its remains or not. The ledger calls \<open>lost\<close> fail.\<close>

definition ended_stop :: "nat list \<Rightarrow> bool \<Rightarrow> stop_env" where
  "ended_stop lost removes =
     \<lparr>se_ledger = quiet_schedule\<lparr>sd_fault := (\<lambda>k. if k \<in> set lost then Lost_before else No_fault)\<rparr>, se_renewals = (\<lambda>_. 1),
      se_instanceOthers = (\<lambda>_. []), se_instanceClock = (\<lambda>k. (int k, int k)), se_instanceFault = (\<lambda>_. No_fault),
      se_inspect = (\<lambda>_. Some Rt_exited), se_snapshot = None, se_end = (\<lambda>_. Exit_removed), se_remove = removes,
      se_error = (\<lambda>_. ''e''), se_instant = (\<lambda>_. ''i''), se_drained = slow_daemon 0, se_settles = True,
      se_between = (\<lambda>row. row)\<rparr>"

definition before_stop :: "(int \<times> ledger_op) list \<Rightarrow> stop_state" where
  "before_stop past = \<lparr>ss_worker = \<lparr>wk_row = run_ledger past None, wk_calls = 0, wk_asked = []\<rparr>, ss_instance = Some ready_row,
     ss_instanceCalls = 0, ss_inspects = 0, ss_workspace = Some \<lparr>wr_status = ''ready'', wr_latestRunId = Some ''r''\<rparr>\<rparr>"

definition after_stop :: "nat list \<Rightarrow> bool \<Rightarrow> stop_state" where
  "after_stop lost removes = snd (the (processWorkspaceStop (ended_stop lost removes) user_stop (before_stop saved_history)))"

lemma stop_samples:
  "processWorkspaceStop (ended_stop [] True) user_stop (before_stop saved_history) = Some (Was_stopped, after_stop [] True)"
  "processWorkspaceStop (ended_stop [7] False) user_stop (before_stop saved_history) = Some (Was_stopped, after_stop [7] False)"
  by code_simp+

lemma sample_facts:
  "instance_found (ended_stop lost b) (before_stop past) = Some ready_row" "own_tokens (se_ledger (ended_stop lost b))"
  "runIsCaptureSourced (ri_sourceKind ready_row) None = Some True" "addressable ready_row"
  "wk_row (ss_worker (before_stop past)) = run_ledger past None" "wk_asked (ss_worker (before_stop past)) = []"
  "launches_nothing (ended_stop lost b)" "se_snapshot (ended_stop lost b) = None"
  by (simp_all add: instance_found_def ended_stop_def before_stop_def own_tokens_def quiet_schedule_def runIsCaptureSourced_def
      ready_row_def addressable_def launches_nothing_def fresh_instance_def)

lemma sample_not_discarded: "\<not> discard_found (ended_stop [] True) (before_stop saved_history)"
  by code_simp

theorem stop_rests_on_evidence_witness:
  "length (wk_asked (ss_worker (after_stop [] True))) = 1 \<and>
   (\<exists>rt. \<forall>c \<in> set (wk_asked (ss_worker (after_stop [] True))). sound_request (executor_of user_stop ready_row) rt c)"
  using stop_rests_on_evidence[OF stop_samples(1) sample_facts(1) _ sample_facts(5,6,2)] sample_facts(3,4,8) sample_not_discarded
  by auto

theorem stop_reported_is_recorded_witness: "\<exists>r'. ss_instance (after_stop [] True) = Some r' \<and> ri_status r' = Inst_stopped"
  by (rule stop_reported_is_recorded[OF stop_samples(1) sample_facts(1,7) sample_not_discarded])

theorem stop_returns_witness: "\<exists>outcome s'. processWorkspaceStop (ended_stop [] True) user_stop (before_stop []) = Some (outcome, s')"
  by (rule stop_returns) (simp add: user_stop_def some_drain_def some_settings_def)

lemma discard_sample: "discard_found (ended_stop [1] True) (before_stop [(1, Request_discard ''u'')])"
  by code_simp

theorem discard_unread_reports_unmade_stop_witness:
  "\<exists>s'. processWorkspaceStop (ended_stop [1] True) user_stop (before_stop [(1, Request_discard ''u'')]) = Some (Was_stopped, s') \<and>
     wk_asked (ss_worker s') = [] \<and> map_option wr_status (ss_workspace s') = Some ''stopped''"
proof -
  let ?e = "ended_stop [1] True" and ?s = "before_stop [(1, Request_discard ''u'')]"
  have "ri_adapter ready_row = Some (ad_id docker)" "so_adapters user_stop = [docker]"
    "so_drain user_stop = Some \<lparr>sn_owner = ''o'', sn_leaseMs = 1000, sn_call = some_drain, sn_opensWithStatus = False\<rparr>"
    "sd_fault (se_ledger ?e) (wk_calls (ss_worker ?s)) = No_fault" "sd_fault (se_ledger ?e) (Suc (wk_calls (ss_worker ?s))) \<noteq> No_fault"
    "\<And>k. se_instanceFault ?e k = No_fault" "so_workspaceId user_stop = Some ''w''" "se_settles ?e"
    "ss_workspace ?s = Some \<lparr>wr_status = ''ready'', wr_latestRunId = Some ''r''\<rparr>"
    "wr_latestRunId \<lparr>wr_status = ''ready'', wr_latestRunId = Some ''r''\<rparr> = Some (so_runId user_stop)"
    "\<And>row. se_between ?e row = row" "se_instanceOthers ?e (Suc (ss_instanceCalls ?s)) = []"
    by (simp_all add: ready_row_def docker_def user_stop_def ended_stop_def before_stop_def)
  from discard_unread_reports_unmade_stop[OF sample_facts(1) this(1,2) sample_facts(4) this(3) discard_sample this(4-12)]
  show ?thesis by (auto simp: sample_facts(6))
qed

section \<open>Remains that no sweep takes\<close>

text \<open>A stop can leave remains that no sweep takes; this is one such run, of a capture-sourced workspace on
  a runtime that keeps remains (those of other runs are listed): the executor was ended
  and its stop recorded, removing the remains failed, and the write that records the removal final was
  lost. The stop answers stopped and says so on the drain's record, with the removal still recorded as
  issued; then neither the sweep of remains nor that of unsettled executors ever lists the run.\<close>

lemma unrecorded_removal_is_swept_by_nobody:
  "\<exists>s' r d. processWorkspaceStop (ended_stop [7] False) user_stop (before_stop saved_history) = Some (Was_stopped, s') \<and>
     ss_instance s' = Some r \<and> wk_row (ss_worker s') = Some d \<and> ri_removedAt r = None \<and>
     \<not> unsettledCaptureExecutor r (Some d) \<and> (\<forall>adapters ms now. \<not> stoppedWithRemains adapters ms now r (Some d))"
proof -
  have row: "map_option (\<lambda>d. (dp_state (dr_progress d), rm_state (dr_removal d), dr_discardRequestedAt d)) (wk_row (ss_worker (after_stop [7] False))) =
      Some (Some Ds_stopped, Some Deleting_issued, None)"
    by code_simp
  have inst: "map_option (\<lambda>r. (ri_removedAt r, ri_sourceKind r)) (ss_instance (after_stop [7] False)) = Some (None, Some ''capture'')"
    by code_simp
  obtain d where d: "wk_row (ss_worker (after_stop [7] False)) = Some d" "dp_state (dr_progress d) = Some Ds_stopped"
      "rm_state (dr_removal d) = Some Deleting_issued" "dr_discardRequestedAt d = None"
    using row by auto
  obtain r where r: "ss_instance (after_stop [7] False) = Some r" "ri_removedAt r = None" "ri_sourceKind r = Some ''capture''"
    using inst by auto
  have "\<not> unsettledCaptureExecutor r (Some d)" using d(2) by (simp add: unsettledCaptureExecutor_def ends_retention_def)
  moreover have "\<not> stoppedWithRemains adapters ms now r (Some d)" for adapters ms now
    using d(3,4) r(3) by (simp add: stoppedWithRemains_def captureOrUnknown_def)
  ultimately show ?thesis using stop_samples(2) d(1) r(1,2) by blast
qed

end
