(* ===== verification/Build_Jobs.thy ===== *)
theory Build_Jobs
  imports Runtime_Instances
begin

text \<open>
  The jobs that build a workspace's image and launch it (\<open>oci_image_build_jobs\<close>) and the operations of
  their repository (\<open>packages/db/src/repositories/workspace-build-jobs.ts\<close>). An operation takes the
  table, a list in insertion order, at the instant \<open>now\<close> of the worker's clock, in milliseconds; what
  it answers is the row it wrote, \<^const>\<open>None\<close> when it wrote none. The parsing of the publication
  of a row that is read back is not modelled.
\<close>

section \<open>The table\<close>

datatype job_status = Job_queued | Job_running | Job_succeeded | Job_failed

text \<open>A publication: the schema's value, its identity, and its image when it is one of a registry.\<close>

record published_image =
  im_reference :: string
  im_digestReference :: string
  im_digest :: string

record publication =
  pb_value :: js
  pb_id :: string
  pb_image :: "published_image option"

record build_job =
  jb_id :: string
  jb_runId :: "string option"
  jb_status :: job_status
  jb_registryId :: string
  jb_repository :: string
  jb_tag :: string
  jb_imageScope :: "js option"
  jb_publicationId :: "string option"
  jb_publication :: "js option"
  jb_requestPayload :: js
  jb_secretEnvSealed :: "string option"
  jb_idempotencyKey :: "string option"
  jb_attemptCount :: int
  jb_maxAttempts :: int
  jb_availableAt :: int
  jb_claimedAt :: "int option"
  jb_leaseExpiresAt :: "int option"
  jb_workerId :: "string option"
  jb_startedAt :: "int option"
  jb_finishedAt :: "int option"
  jb_builderId :: "string option"
  jb_resultPayload :: "js option"
  jb_progress :: "js option"
  jb_publishedReference :: "string option"
  jb_publishedDigestReference :: "string option"
  jb_publishedDigest :: "string option"
  jb_errorCode :: "string option"
  jb_errorMessage :: "string option"
  jb_createdAt :: int
  jb_updatedAt :: int

record build_claim =
  cl_workerId :: string
  cl_attemptCount :: int

section \<open>Enqueueing\<close>

record enqueue_input =
  eq_id :: string
  eq_runId :: "string option"
  eq_registryId :: string
  eq_repository :: string
  eq_tag :: string
  eq_requestPayload :: js
  eq_imageScope :: "js option"
  eq_secretEnvSealed :: "string option"
  eq_idempotencyKey :: "string option"
  eq_availableAt :: "int option"
  eq_maxAttempts :: "int option"

definition queued_job :: "enqueue_input \<Rightarrow> int \<Rightarrow> build_job" where
  "queued_job q now =
     \<lparr>jb_id = eq_id q, jb_runId = eq_runId q, jb_status = Job_queued, jb_registryId = eq_registryId q,
      jb_repository = eq_repository q, jb_tag = eq_tag q, jb_imageScope = eq_imageScope q, jb_publicationId = None,
      jb_publication = None, jb_requestPayload = eq_requestPayload q, jb_secretEnvSealed = eq_secretEnvSealed q,
      jb_idempotencyKey = eq_idempotencyKey q, jb_attemptCount = 0, jb_maxAttempts = given (eq_maxAttempts q) 3,
      jb_availableAt = given (eq_availableAt q) now, jb_claimedAt = None, jb_leaseExpiresAt = None, jb_workerId = None,
      jb_startedAt = None, jb_finishedAt = None, jb_builderId = None, jb_resultPayload = None, jb_progress = None,
      jb_publishedReference = None, jb_publishedDigestReference = None, jb_publishedDigest = None, jb_errorCode = None,
      jb_errorMessage = None, jb_createdAt = now, jb_updatedAt = now\<rparr>"

text \<open>The primary key and the unique index on the idempotency key; a clash is an error.\<close>

definition job_clash :: "build_job \<Rightarrow> build_job \<Rightarrow> bool" where
  "job_clash a b \<longleftrightarrow> jb_id a = jb_id b \<or> (jb_idempotencyKey a \<noteq> None \<and> jb_idempotencyKey a = jb_idempotencyKey b)"

definition insertQueuedJob :: "enqueue_input \<Rightarrow> int \<Rightarrow> build_job list \<Rightarrow> build_job option \<times> build_job list" where
  "insertQueuedJob q now jobs =
     (let job = queued_job q now in
      if \<exists>other \<in> set jobs. job_clash other job then (None, jobs) else (Some job, jobs @ [job]))"

section \<open>Reading\<close>

definition getJobById :: "string \<Rightarrow> build_job list \<Rightarrow> build_job option" where
  "getJobById i jobs = find (\<lambda>j. jb_id j = i) jobs"

definition getJobByIdempotencyKey :: "string \<Rightarrow> build_job list \<Rightarrow> build_job option" where
  "getJobByIdempotencyKey key jobs = find (\<lambda>j. jb_idempotencyKey j = Some key) jobs"

text \<open>The rows in descending order of \<open>f\<close>.\<close>

definition newest_first :: "(build_job \<Rightarrow> int) \<Rightarrow> build_job list \<Rightarrow> build_job list" where
  "newest_first f = sort_key (\<lambda>j. - f j)"

definition first_row :: "'a list \<Rightarrow> 'a option" where
  "first_row rows = (case rows of [] \<Rightarrow> None | j # _ \<Rightarrow> Some j)"

definition getLatestJobByRunId :: "string \<Rightarrow> build_job list \<Rightarrow> build_job option" where
  "getLatestJobByRunId runId jobs = first_row (newest_first jb_createdAt (filter (\<lambda>j. jb_runId j = Some runId) jobs))"

definition add_latest :: "(string \<times> build_job) list \<Rightarrow> build_job \<Rightarrow> (string \<times> build_job) list" where
  "add_latest latest job =
     (case jb_runId job of
        None \<Rightarrow> latest
      | Some runId \<Rightarrow> if map_of latest runId \<noteq> None then latest else latest @ [(runId, job)])"

definition listLatestJobsByRunIds :: "string list \<Rightarrow> build_job list \<Rightarrow> (string \<times> build_job) list" where
  "listLatestJobsByRunIds runIds jobs =
     (if runIds = [] then []
      else fold (\<lambda>job latest. add_latest latest job)
        (newest_first jb_createdAt (filter (\<lambda>j. \<exists>i \<in> set runIds. jb_runId j = Some i) jobs)) [])"

text \<open>A job whose claim anyone may take.\<close>

definition claimable :: "int \<Rightarrow> build_job \<Rightarrow> bool" where
  "claimable now j \<longleftrightarrow>
     (jb_status j = Job_queued \<and> jb_availableAt j \<le> now) \<or>
     (jb_status j = Job_running \<and> (case jb_leaseExpiresAt j of None \<Rightarrow> False | Some t \<Rightarrow> t \<le> now))"

definition listJobsByStatus :: "job_status \<Rightarrow> nat \<Rightarrow> build_job list \<Rightarrow> build_job list" where
  "listJobsByStatus st limit jobs = take limit (sort_key jb_createdAt (filter (\<lambda>j. jb_status j = st) jobs))"

text \<open>\<open>rank\<close>: the place of an id in the collation of the database.\<close>

definition listRecoverableJobs :: "(string \<Rightarrow> int) \<Rightarrow> int \<Rightarrow> nat \<Rightarrow> build_job list \<Rightarrow> build_job list" where
  "listRecoverableJobs rank now limit jobs =
     take limit (sort_key jb_createdAt (sort_key (\<lambda>j. rank (jb_id j)) (filter (claimable now) jobs)))"

section \<open>Updates\<close>

text \<open>An update of the row \<open>i\<close> under a condition.\<close>

definition update_job ::
  "string \<Rightarrow> (build_job \<Rightarrow> bool) \<Rightarrow> (build_job \<Rightarrow> build_job) \<Rightarrow> int \<Rightarrow> build_job list \<Rightarrow> build_job option \<times> build_job list"
where
  "update_job i P f now jobs =
     (let write = (\<lambda>j. (f j)\<lparr>jb_updatedAt := now\<rparr>); hit = (\<lambda>j. jb_id j = i \<and> P j)
      in (map_option write (find hit jobs), map (\<lambda>j. if hit j then write j else j) jobs))"

definition claimed_by :: "string \<Rightarrow> int \<Rightarrow> int \<Rightarrow> build_job \<Rightarrow> build_job" where
  "claimed_by workerId leaseMs now j =
     j\<lparr>jb_status := Job_running, jb_workerId := Some workerId, jb_claimedAt := Some now,
       jb_leaseExpiresAt := Some (now + leaseMs), jb_startedAt := Some (given (jb_startedAt j) now),
       jb_attemptCount := jb_attemptCount j + 1, jb_progress := None\<rparr>"

definition claimJobById :: "string \<Rightarrow> string \<Rightarrow> int \<Rightarrow> int \<Rightarrow> build_job list \<Rightarrow> build_job option \<times> build_job list" where
  "claimJobById i workerId leaseMs now =
     update_job i (\<lambda>j. jb_status j = Job_queued \<or>
         (jb_status j = Job_running \<and> (case jb_leaseExpiresAt j of None \<Rightarrow> False | Some t \<Rightarrow> t \<le> now)))
       (claimed_by workerId leaseMs now) now"

text \<open>\<open>locked\<close>: the rows another transaction holds, which are skipped.\<close>

definition claimNextQueuedJob ::
  "string list \<Rightarrow> string \<Rightarrow> int \<Rightarrow> int \<Rightarrow> build_job list \<Rightarrow> build_job option \<times> build_job list"
where
  "claimNextQueuedJob locked workerId leaseMs now jobs =
     (case first_row (sort_key jb_availableAt (sort_key jb_createdAt
         (filter (\<lambda>j. claimable now j \<and> jb_id j \<notin> set locked) jobs))) of
        None \<Rightarrow> (None, jobs)
      | Some candidate \<Rightarrow> update_job (jb_id candidate) (claimable now) (claimed_by workerId leaseMs now) now jobs)"

definition markJobRunning :: "string \<Rightarrow> string \<Rightarrow> int \<Rightarrow> int \<Rightarrow> build_job list \<Rightarrow> build_job option \<times> build_job list" where
  "markJobRunning i workerId leaseMs now =
     update_job i (\<lambda>_. True)
       (\<lambda>j. j\<lparr>jb_status := Job_running, jb_workerId := Some workerId, jb_claimedAt := Some now, jb_startedAt := Some now,
          jb_leaseExpiresAt := Some (now + leaseMs)\<rparr>) now"

text \<open>The job runs under exactly this claim.\<close>

definition held_under_claim :: "build_claim \<Rightarrow> build_job \<Rightarrow> bool" where
  "held_under_claim c j \<longleftrightarrow>
     jb_status j = Job_running \<and> jb_workerId j = Some (cl_workerId c) \<and> jb_attemptCount j = cl_attemptCount c"

record success_input =
  su_builderId :: string
  su_resultPayload :: "js option"
  su_publication :: "publication option"
  su_publishedReference :: "string option"
  su_publishedDigestReference :: "string option"
  su_publishedDigest :: "string option"
  su_finishedAt :: "int option"

text \<open>What is written of the image: of the publication when one is given, of the input otherwise.\<close>

definition published :: "(published_image \<Rightarrow> string) \<Rightarrow> string option \<Rightarrow> success_input \<Rightarrow> string option" where
  "published f input su =
     (case su_publication su of None \<Rightarrow> input | Some p \<Rightarrow> map_option f (pb_image p))"

definition succeeded_with :: "success_input \<Rightarrow> int \<Rightarrow> build_job \<Rightarrow> build_job" where
  "succeeded_with su now j =
     j\<lparr>jb_status := Job_succeeded, jb_builderId := Some (su_builderId su),
       jb_resultPayload := or_old (su_resultPayload su) (jb_resultPayload j),
       jb_publication := or_old (map_option pb_value (su_publication su)) (jb_publication j),
       jb_publicationId := or_old (map_option pb_id (su_publication su)) (jb_publicationId j),
       jb_publishedReference := published im_reference (su_publishedReference su) su,
       jb_publishedDigestReference := published im_digestReference (su_publishedDigestReference su) su,
       jb_publishedDigest := published im_digest (su_publishedDigest su) su,
       jb_finishedAt := Some (given (su_finishedAt su) now), jb_leaseExpiresAt := None,
       jb_errorCode := None, jb_errorMessage := None\<rparr>"

definition markJobSucceeded ::
  "string \<Rightarrow> build_claim \<Rightarrow> success_input \<Rightarrow> int \<Rightarrow> build_job list \<Rightarrow> build_job option \<times> build_job list"
where
  "markJobSucceeded i c su now = update_job i (held_under_claim c) (succeeded_with su now) now"

record failure_input =
  fa_errorMessage :: string
  fa_errorCode :: "string option"
  fa_finishedAt :: "int option"

definition failed_with :: "failure_input \<Rightarrow> int \<Rightarrow> build_job \<Rightarrow> build_job" where
  "failed_with fa now j =
     j\<lparr>jb_status := Job_failed, jb_errorCode := or_old (fa_errorCode fa) (jb_errorCode j),
       jb_errorMessage := Some (fa_errorMessage fa), jb_finishedAt := Some (given (fa_finishedAt fa) now),
       jb_leaseExpiresAt := None\<rparr>"

definition markJobFailed ::
  "string \<Rightarrow> build_claim option \<Rightarrow> failure_input \<Rightarrow> int \<Rightarrow> build_job list \<Rightarrow> build_job option \<times> build_job list"
where
  "markJobFailed i claim fa now =
     update_job i (\<lambda>j. case claim of None \<Rightarrow> True | Some c \<Rightarrow> held_under_claim c j) (failed_with fa now) now"

definition recordJobProgress ::
  "string \<Rightarrow> build_claim \<Rightarrow> js option \<Rightarrow> int \<Rightarrow> int \<Rightarrow> build_job list \<Rightarrow> bool \<times> build_job list"
where
  "recordJobProgress i c progress leaseMs now jobs =
     (let (written, jobs') = update_job i (held_under_claim c)
        (\<lambda>j. j\<lparr>jb_progress := or_old progress (jb_progress j), jb_leaseExpiresAt := Some (now + leaseMs)\<rparr>) now jobs
      in (written \<noteq> None, jobs'))"

definition cancelUnbuiltJob ::
  "string \<Rightarrow> string \<Rightarrow> string \<Rightarrow> int \<Rightarrow> build_job list \<Rightarrow> build_job option \<times> build_job list"
where
  "cancelUnbuiltJob i errorMessage errorCode now =
     update_job i (\<lambda>j. jb_status j = Job_queued \<or> jb_status j = Job_running)
       (\<lambda>j. j\<lparr>jb_status := Job_failed, jb_errorCode := Some errorCode, jb_errorMessage := Some errorMessage,
          jb_finishedAt := Some now, jb_leaseExpiresAt := None\<rparr>) now"

definition clearSecretEnv :: "string \<Rightarrow> int \<Rightarrow> build_job list \<Rightarrow> build_job list" where
  "clearSecretEnv i now jobs = snd (update_job i (\<lambda>_. True) (\<lambda>j. j\<lparr>jb_secretEnvSealed := None\<rparr>) now jobs)"

section \<open>Sequences of operations\<close>

datatype job_op =
    Insert_queued enqueue_input
  | Claim_next "string list" string int
  | Claim_by_id string string int
  | Mark_job_running string string int
  | Mark_job_succeeded string build_claim success_input
  | Mark_job_failed string "build_claim option" failure_input
  | Record_job_progress string build_claim "js option" int
  | Cancel_unbuilt string string string
  | Clear_secret_env string

fun apply_job_op :: "int \<times> job_op \<Rightarrow> build_job list \<Rightarrow> build_job list" where
  "apply_job_op (now, Insert_queued q) jobs = snd (insertQueuedJob q now jobs)"
| "apply_job_op (now, Claim_next locked w ms) jobs = snd (claimNextQueuedJob locked w ms now jobs)"
| "apply_job_op (now, Claim_by_id i w ms) jobs = snd (claimJobById i w ms now jobs)"
| "apply_job_op (now, Mark_job_running i w ms) jobs = snd (markJobRunning i w ms now jobs)"
| "apply_job_op (now, Mark_job_succeeded i c su) jobs = snd (markJobSucceeded i c su now jobs)"
| "apply_job_op (now, Mark_job_failed i c fa) jobs = snd (markJobFailed i c fa now jobs)"
| "apply_job_op (now, Record_job_progress i c p ms) jobs = snd (recordJobProgress i c p ms now jobs)"
| "apply_job_op (now, Cancel_unbuilt i why code) jobs = snd (cancelUnbuiltJob i why code now jobs)"
| "apply_job_op (now, Clear_secret_env i) jobs = clearSecretEnv i now jobs"

definition run_jobs :: "(int \<times> job_op) list \<Rightarrow> build_job list \<Rightarrow> build_job list" where
  "run_jobs = fold apply_job_op"

end
