(* ===== verification/Build_Jobs_Proofs.thy ===== *)
theory Build_Jobs_Proofs
  imports Build_Jobs
begin

text \<open>
  What holds of a build job under every sequence of operations of every worker: its row has the shape
  of its status, a job is settled once, and a claim that was taken over writes nothing.
\<close>

section \<open>One row of the table\<close>

definition unique_ids :: "build_job list \<Rightarrow> bool" where
  "unique_ids jobs \<longleftrightarrow> distinct (map jb_id jobs)"

definition keeps_id :: "(build_job \<Rightarrow> build_job) \<Rightarrow> bool" where
  "keeps_id f \<longleftrightarrow> (\<forall>j. jb_id (f j) = jb_id j)"

lemma find_updated:
  assumes "\<And>j. jb_id (g j) = jb_id j"
  shows "find (\<lambda>j. jb_id j = k) (map g jobs) = map_option g (find (\<lambda>j. jb_id j = k) jobs)"
  by (induction jobs) (auto simp: assms)

lemma updated_row:
  assumes "keeps_id f"
  shows "getJobById k (snd (update_job i P f now jobs)) =
    map_option (\<lambda>j. if k = i \<and> P j then (f j)\<lparr>jb_updatedAt := now\<rparr> else j) (getJobById k jobs)"
proof -
  have "getJobById k (snd (update_job i P f now jobs)) =
      map_option (\<lambda>j. if jb_id j = i \<and> P j then (f j)\<lparr>jb_updatedAt := now\<rparr> else j) (getJobById k jobs)"
    unfolding getJobById_def update_job_def Let_def snd_conv
    by (rule find_updated) (use assms in \<open>simp add: keeps_id_def\<close>)
  moreover have "jb_id j = k" if "getJobById k jobs = Some j" for j
    using that by (auto simp: getJobById_def find_Some_iff)
  ultimately show ?thesis by (cases "getJobById k jobs") auto
qed

lemma find_none_of_row:
  assumes "unique_ids jobs" "getJobById i jobs = Some j"
  shows "find (\<lambda>j. jb_id j = i \<and> P j) jobs = (if P j then Some j else None)"
  using assms
  by (induction jobs) (auto simp: unique_ids_def getJobById_def find_None_iff image_iff split: if_splits)

lemma find_no_row: "getJobById i jobs = None \<Longrightarrow> find (\<lambda>j. jb_id j = i \<and> P j) jobs = None"
  by (auto simp: getJobById_def find_None_iff)

lemma update_answer:
  assumes "unique_ids jobs"
  shows "fst (update_job i P f now jobs) =
    (case getJobById i jobs of None \<Rightarrow> None | Some j \<Rightarrow> if P j then Some ((f j)\<lparr>jb_updatedAt := now\<rparr>) else None)"
  using find_none_of_row[OF assms, of i] find_no_row[of i jobs]
  by (auto simp: update_job_def Let_def split: option.splits)

lemma update_lands:
  assumes "unique_ids jobs" "fst (update_job i P f now jobs) = Some j'"
  obtains j where "getJobById i jobs = Some j" "P j" "j' = (f j)\<lparr>jb_updatedAt := now\<rparr>"
  using assms by (auto simp: update_answer split: option.splits if_splits)

lemma job_functions_keep_id [simp]:
  "keeps_id (claimed_by w ms now)" "keeps_id (succeeded_with su now)" "keeps_id (failed_with fa now)"
  "keeps_id (\<lambda>j. j\<lparr>jb_secretEnvSealed := None\<rparr>)"
  "keeps_id (\<lambda>j. j\<lparr>jb_progress := p j, jb_leaseExpiresAt := l\<rparr>)"
  "keeps_id (\<lambda>j. j\<lparr>jb_status := st, jb_errorCode := c, jb_errorMessage := m, jb_finishedAt := fi, jb_leaseExpiresAt := l\<rparr>)"
  "keeps_id (\<lambda>j. j\<lparr>jb_status := st, jb_workerId := w', jb_claimedAt := ca, jb_startedAt := sa, jb_leaseExpiresAt := l\<rparr>)"
  by (simp_all add: keeps_id_def claimed_by_def succeeded_with_def failed_with_def)

lemmas job_defs =
  claimJobById_def markJobRunning_def markJobSucceeded_def markJobFailed_def recordJobProgress_def
  cancelUnbuiltJob_def clearSecretEnv_def

lemma update_ids: "keeps_id f \<Longrightarrow> map jb_id (snd (update_job i P f now jobs)) = map jb_id jobs"
  by (auto simp: update_job_def Let_def keeps_id_def)

lemma op_keeps_unique: "unique_ids jobs \<Longrightarrow> unique_ids (apply_job_op op jobs)"
proof -
  assume u: "unique_ids jobs"
  obtain now what where op: "op = (now, what)" by (cases op)
  show ?thesis
  proof (cases what)
    case (Insert_queued q)
    then show ?thesis using u
      by (auto simp: op unique_ids_def insertQueuedJob_def Let_def job_clash_def queued_job_def)
  next
    case (Claim_next locked w ms)
    then show ?thesis using u
      by (auto simp: op unique_ids_def claimNextQueuedJob_def update_ids split: option.splits)
  qed (use u in \<open>simp_all add: op unique_ids_def job_defs update_ids Let_def case_prod_beta\<close>)
qed

lemma run_jobs_Nil [simp]: "run_jobs [] jobs = jobs"
  by (simp add: run_jobs_def)

lemma run_jobs_Cons [simp]: "run_jobs (op # ops) jobs = run_jobs ops (apply_job_op op jobs)"
  by (simp add: run_jobs_def)

lemma run_keeps_unique: "unique_ids jobs \<Longrightarrow> unique_ids (run_jobs ops jobs)"
  by (induction ops arbitrary: jobs) (simp_all add: op_keeps_unique)

section \<open>What an operation does to a row\<close>

lemma next_is_claimable:
  assumes "first_row (sort_key f (sort_key g (filter (\<lambda>j. claimable now j \<and> jb_id j \<notin> set locked) jobs))) = Some c"
  shows "c \<in> set jobs \<and> claimable now c"
  using assms by (cases "sort_key f (sort_key g (filter (\<lambda>j. claimable now j \<and> jb_id j \<notin> set locked) jobs))")
    (auto simp: first_row_def dest!: arg_cong[where f = set])

text \<open>The row after an operation: as it was, or written by it, under its condition.\<close>

fun writes_row :: "string \<Rightarrow> int \<Rightarrow> job_op \<Rightarrow> build_job \<Rightarrow> build_job \<Rightarrow> bool" where
  "writes_row i now (Insert_queued q) j j' = False"
| "writes_row i now (Claim_next locked w ms) j j' = (claimable now j \<and> j' = (claimed_by w ms now j)\<lparr>jb_updatedAt := now\<rparr>)"
| "writes_row i now (Claim_by_id k w ms) j j' =
     (k = i \<and> (jb_status j = Job_queued \<or> jb_status j = Job_running) \<and> j' = (claimed_by w ms now j)\<lparr>jb_updatedAt := now\<rparr>)"
| "writes_row i now (Mark_job_running k w ms) j j' =
     (k = i \<and> j' = j\<lparr>jb_status := Job_running, jb_workerId := Some w, jb_claimedAt := Some now, jb_startedAt := Some now,
          jb_leaseExpiresAt := Some (now + ms), jb_updatedAt := now\<rparr>)"
| "writes_row i now (Mark_job_succeeded k c su) j j' =
     (k = i \<and> held_under_claim c j \<and> j' = (succeeded_with su now j)\<lparr>jb_updatedAt := now\<rparr>)"
| "writes_row i now (Mark_job_failed k c fa) j j' =
     (k = i \<and> (case c of None \<Rightarrow> True | Some c \<Rightarrow> held_under_claim c j) \<and> j' = (failed_with fa now j)\<lparr>jb_updatedAt := now\<rparr>)"
| "writes_row i now (Record_job_progress k c p ms) j j' =
     (k = i \<and> held_under_claim c j \<and>
      j' = j\<lparr>jb_progress := or_old p (jb_progress j), jb_leaseExpiresAt := Some (now + ms), jb_updatedAt := now\<rparr>)"
| "writes_row i now (Cancel_unbuilt k why code) j j' =
     (k = i \<and> (jb_status j = Job_queued \<or> jb_status j = Job_running) \<and>
      j' = j\<lparr>jb_status := Job_failed, jb_errorCode := Some code, jb_errorMessage := Some why, jb_finishedAt := Some now,
          jb_leaseExpiresAt := None, jb_updatedAt := now\<rparr>)"
| "writes_row i now (Clear_secret_env k) j j' = (k = i \<and> j' = j\<lparr>jb_secretEnvSealed := None, jb_updatedAt := now\<rparr>)"

lemma op_row:
  assumes "getJobById i jobs = Some j"
  shows "\<exists>j'. getJobById i (apply_job_op (now, op) jobs) = Some j' \<and> (j' = j \<or> writes_row i now op j j')"
proof (cases op)
  case (Insert_queued q)
  have "find P (xs @ [y]) = (case find P xs of None \<Rightarrow> (if P y then Some y else None) | Some x \<Rightarrow> Some x)" for P xs and y :: build_job
    by (induction xs) auto
  then show ?thesis using assms Insert_queued by (simp add: insertQueuedJob_def Let_def getJobById_def)
next
  case (Claim_next locked w ms)
  show ?thesis
  proof (cases "first_row (sort_key jb_availableAt (sort_key jb_createdAt
      (filter (\<lambda>j. claimable now j \<and> jb_id j \<notin> set locked) jobs)))")
    case None
    then show ?thesis using assms Claim_next by (simp add: claimNextQueuedJob_def)
  next
    case (Some c)
    then show ?thesis using assms Claim_next by (simp add: claimNextQueuedJob_def updated_row)
  qed
qed (use assms in \<open>auto simp: job_defs updated_row Let_def case_prod_beta\<close>)

text \<open>What every allowed operation keeps between a row and the next, a sequence of them keeps.\<close>

locale job_history =
  fixes allowed :: "string \<Rightarrow> job_op \<Rightarrow> bool"
    and related :: "build_job \<Rightarrow> build_job \<Rightarrow> bool"
  assumes stays: "related j j"
    and carries: "related a b \<Longrightarrow> related b c \<Longrightarrow> related a c"
    and written: "allowed i op \<Longrightarrow> writes_row i now op j j' \<Longrightarrow> related j j'"
begin

lemma run:
  assumes "getJobById i jobs = Some j" "\<forall>(now, op) \<in> set ops. allowed i op"
  shows "\<exists>j'. getJobById i (run_jobs ops jobs) = Some j' \<and> related j j'"
  using assms
proof (induction ops arbitrary: jobs j)
  case Nil
  then show ?case using stays by auto
next
  case (Cons x ops)
  obtain now op where x: "x = (now, op)" by (cases x)
  obtain j1 where j1: "getJobById i (apply_job_op x jobs) = Some j1" "j1 = j \<or> writes_row i now op j j1"
    using op_row[OF Cons.prems(1)] x by blast
  have "related j j1" using j1(2) stays written Cons.prems(2) x by auto
  moreover obtain j' where "getJobById i (run_jobs ops (apply_job_op x jobs)) = Some j'" "related j1 j'"
    using Cons.IH[OF j1(1)] Cons.prems(2) by auto
  ultimately show ?case using carries by auto
qed

end

section \<open>The shape of a row\<close>






section \<open>Settled once\<close>

definition settled_job :: "build_job \<Rightarrow> bool" where
  "settled_job j \<longleftrightarrow> jb_status j = Job_succeeded \<or> jb_status j = Job_failed"

text \<open>The operation writes the job's status under no condition: nobody resets a job to running, and the
  API fails a job it never handed to a worker.\<close>

fun overrides :: "string \<Rightarrow> job_op \<Rightarrow> bool" where
  "overrides i (Mark_job_running k w ms) = (k = i)"
| "overrides i (Mark_job_failed k c fa) = (k = i \<and> c = None)"
| "overrides i _ = False"

definition same_end :: "build_job \<Rightarrow> build_job \<Rightarrow> bool" where
  "same_end j j' \<longleftrightarrow> jb_status j' = jb_status j \<and> jb_publication j' = jb_publication j \<and> jb_finishedAt j' = jb_finishedAt j \<and>
     jb_publishedDigest j' = jb_publishedDigest j \<and> jb_attemptCount j' = jb_attemptCount j \<and> jb_workerId j' = jb_workerId j"

interpretation settled: job_history "\<lambda>i op. \<not> overrides i op" "\<lambda>j j'. settled_job j \<longrightarrow> same_end j j'"
proof
  show "settled_job j \<longrightarrow> same_end j j'" if "\<not> overrides i op" "writes_row i now op j j'" for i op now j j'
    using that by (cases op) (auto simp: settled_job_def same_end_def held_under_claim_def claimable_def)
qed (auto simp: same_end_def settled_job_def)

interpretation attempts: job_history "\<lambda>_ _. True" "\<lambda>j j'. jb_attemptCount j \<le> jb_attemptCount j'"
proof
  show "jb_attemptCount j \<le> jb_attemptCount j'" if "writes_row i now op j j'" for i op now j j'
    using that by (cases op) (auto simp: claimed_by_def succeeded_with_def failed_with_def)
qed auto

fun clears_secret :: "string \<Rightarrow> job_op \<Rightarrow> bool" where
  "clears_secret i (Clear_secret_env k) = (k = i)"
| "clears_secret i _ = False"

interpretation sealed: job_history "\<lambda>i op. \<not> clears_secret i op" "\<lambda>j j'. jb_secretEnvSealed j' = jb_secretEnvSealed j"
proof
  show "jb_secretEnvSealed j' = jb_secretEnvSealed j" if "\<not> clears_secret i op" "writes_row i now op j j'" for i op now j j'
    using that by (cases op) (auto simp: claimed_by_def succeeded_with_def failed_with_def)
qed auto

lemma claim_next_answer:
  assumes "unique_ids jobs" "claimNextQueuedJob locked w ms now jobs = (Some j', jobs')"
  shows "\<exists>j. getJobById (jb_id j') jobs = Some j \<and> claimable now j \<and> j' = (claimed_by w ms now j)\<lparr>jb_updatedAt := now\<rparr> \<and>
    getJobById (jb_id j') jobs' = Some j'"
proof -
  have "\<exists>c :: build_job. update_job (jb_id c) (claimable now) (claimed_by w ms now) now jobs = (Some j', jobs')"
    using assms(2) by (auto simp: claimNextQueuedJob_def split: option.splits)
  then obtain c :: build_job where c: "update_job (jb_id c) (claimable now) (claimed_by w ms now) now jobs = (Some j', jobs')" by blast
  obtain j where j: "getJobById (jb_id c) jobs = Some j" "claimable now j" "j' = (claimed_by w ms now j)\<lparr>jb_updatedAt := now\<rparr>"
    using update_lands[OF assms(1)] c by (metis fst_conv)
  have "jb_id j' = jb_id c" using j by (auto simp: getJobById_def find_Some_iff claimed_by_def)
  then show ?thesis
    using j updated_row[OF job_functions_keep_id(1), of "jb_id c" "jb_id c" "claimable now" w ms now now jobs] c by simp
qed

lemma landed_row:
  assumes "unique_ids jobs" "keeps_id f" "update_job i P f now jobs = (Some j', jobs')"
  shows "\<exists>j. getJobById i jobs = Some j \<and> P j \<and> j' = (f j)\<lparr>jb_updatedAt := now\<rparr> \<and> getJobById i jobs' = Some j'"
proof -
  obtain j where j: "getJobById i jobs = Some j" "P j" "j' = (f j)\<lparr>jb_updatedAt := now\<rparr>"
    using update_lands[OF assms(1)] assms(3) by (metis fst_conv)
  then show ?thesis using updated_row[OF assms(2), of i i P now jobs] assms(3) by simp
qed

text \<open>The row lets no worker in: no claim, success, progress or cancellation lands, nor a failure under a claim.\<close>

definition closed_to_workers :: "string \<Rightarrow> build_job list \<Rightarrow> bool" where
  "closed_to_workers i jobs \<longleftrightarrow>
     (\<forall>w ms now. fst (claimJobById i w ms now jobs) = None) \<and>
     (\<forall>locked w ms now j. fst (claimNextQueuedJob locked w ms now jobs) = Some j \<longrightarrow> jb_id j \<noteq> i) \<and>
     (\<forall>c su now. fst (markJobSucceeded i c su now jobs) = None) \<and>
     (\<forall>c p ms now. \<not> fst (recordJobProgress i c p ms now jobs)) \<and>
     (\<forall>c fa now. fst (markJobFailed i (Some c) fa now jobs) = None) \<and>
     (\<forall>why code now. fst (cancelUnbuiltJob i why code now jobs) = None)"

lemma settled_is_closed:
  assumes "unique_ids jobs" "getJobById i jobs = Some j" "settled_job j"
  shows "closed_to_workers i jobs"
proof -
  have "jb_id j' \<noteq> i" if "fst (claimNextQueuedJob locked w ms now jobs) = Some j'" for locked w ms now j'
    using claim_next_answer[OF assms(1), of locked w ms now j'] that assms(2,3)
    by (metis claimable_def job_status.distinct option.inject prod.collapse settled_job_def)
  then show ?thesis
    using assms
    by (auto simp: closed_to_workers_def job_defs update_answer Let_def case_prod_beta settled_job_def held_under_claim_def)
qed

lemma settled_stays_closed:
  assumes "unique_ids jobs" "getJobById i jobs = Some j" "settled_job j" "\<forall>(t, op) \<in> set ops. \<not> overrides i op"
  shows "closed_to_workers i (run_jobs ops jobs) \<and> (\<exists>j'. getJobById i (run_jobs ops jobs) = Some j' \<and> same_end j j')"
proof -
  obtain j' where j': "getJobById i (run_jobs ops jobs) = Some j'" "same_end j j'"
    using settled.run[OF assms(2,4)] assms(3) by auto
  have "settled_job j'" using assms(3) j'(2) by (auto simp: settled_job_def same_end_def)
  then show ?thesis using settled_is_closed[OF run_keeps_unique[OF assms(1)] j'(1)] j' by blast
qed

lemma settling_lands:
  assumes "unique_ids jobs"
    and "markJobSucceeded i c su now jobs = (Some j, jobs1) \<or> markJobFailed i (Some c) fa now jobs = (Some j, jobs1) \<or>
      cancelUnbuiltJob i why code now jobs = (Some j, jobs1)"
  shows "getJobById i jobs1 = Some j \<and> settled_job j \<and> unique_ids jobs1"
proof -
  show ?thesis
    using assms(2)
  proof (elim disjE)
    assume s: "markJobSucceeded i c su now jobs = (Some j, jobs1)"
    show ?thesis
      using landed_row[OF assms(1) _ s[unfolded markJobSucceeded_def]] op_keeps_unique[OF assms(1), of "(now, Mark_job_succeeded i c su)"] s
      by (auto simp: settled_job_def succeeded_with_def)
  next
    assume s: "markJobFailed i (Some c) fa now jobs = (Some j, jobs1)"
    show ?thesis
      using landed_row[OF assms(1) _ s[unfolded markJobFailed_def]] op_keeps_unique[OF assms(1), of "(now, Mark_job_failed i (Some c) fa)"] s
      by (auto simp: settled_job_def failed_with_def)
  next
    assume s: "cancelUnbuiltJob i why code now jobs = (Some j, jobs1)"
    show ?thesis
      using landed_row[OF assms(1) _ s[unfolded cancelUnbuiltJob_def]] op_keeps_unique[OF assms(1), of "(now, Cancel_unbuilt i why code)"] s
      by (auto simp: settled_job_def)
  qed
qed

text \<open>C25: a build job is settled once. Once a success landed, or a failure under a claim, or the
  cancellation of the job, then whatever any worker does afterwards, its status, its publication and its
  end stay, and no claim, no second success, no failure, no progress and no cancellation lands; so at
  most one worker ever launches the run. Only a write that carries no claim overrides it.\<close>

theorem job_settles_once:
  assumes "unique_ids jobs"
    and "markJobSucceeded i c su now jobs = (Some j, jobs1) \<or> markJobFailed i (Some c) fa now jobs = (Some j, jobs1) \<or>
      cancelUnbuiltJob i why code now jobs = (Some j, jobs1)"
    and "\<forall>(t, op) \<in> set ops. \<not> overrides i op"
  shows "closed_to_workers i (run_jobs ops jobs1) \<and> (\<exists>j'. getJobById i (run_jobs ops jobs1) = Some j' \<and> same_end j j')"
  using settled_stays_closed[OF _ _ _ assms(3)] settling_lands[OF assms(1,2)] by blast

section \<open>Taken over\<close>

text \<open>A worker got a claim on the job, by its id or as the next one.\<close>

definition claims :: "string \<Rightarrow> build_job list \<Rightarrow> build_job \<Rightarrow> build_job list \<Rightarrow> bool" where
  "claims i jobs j jobs' \<longleftrightarrow> jb_id j = i \<and>
     (\<exists>w ms now. claimJobById i w ms now jobs = (Some j, jobs') \<or> (\<exists>locked. claimNextQueuedJob locked w ms now jobs = (Some j, jobs')))"

definition claim_of :: "build_job \<Rightarrow> build_claim" where
  "claim_of j = \<lparr>cl_workerId = given (jb_workerId j) [], cl_attemptCount = jb_attemptCount j\<rparr>"

lemma claims_row:
  assumes "unique_ids jobs" "claims i jobs j jobs'"
  shows "\<exists>j0. getJobById i jobs = Some j0 \<and> jb_attemptCount j = jb_attemptCount j0 + 1 \<and> getJobById i jobs' = Some j \<and>
    unique_ids jobs'"
proof -
  obtain w ms now where "claimJobById i w ms now jobs = (Some j, jobs') \<or> (\<exists>locked. claimNextQueuedJob locked w ms now jobs = (Some j, jobs'))"
      and i: "jb_id j = i"
    using assms(2) by (auto simp: claims_def)
  then show ?thesis
  proof (elim disjE exE)
    assume s: "claimJobById i w ms now jobs = (Some j, jobs')"
    show ?thesis
      using landed_row[OF assms(1) _ s[unfolded claimJobById_def]] op_keeps_unique[OF assms(1), of "(now, Claim_by_id i w ms)"] s
      by (auto simp: claimed_by_def)
  next
    fix locked assume s: "claimNextQueuedJob locked w ms now jobs = (Some j, jobs')"
    show ?thesis
      using claim_next_answer[OF assms(1) s] i op_keeps_unique[OF assms(1), of "(now, Claim_next locked w ms)"] s
      by (auto simp: claimed_by_def)
  qed
qed

text \<open>A claim that was taken over writes nothing. Every claim of a job has a number above all earlier
  ones; once a later claim was got, by whichever worker, even the same one, no success, no failure and
  no progress under the earlier one ever lands, whatever happens to the job.\<close>

lemma superseded_claim_writes_nothing:
  assumes "unique_ids jobs" "claims i jobs a jobs1" "claims i (run_jobs ops jobs1) b jobs2"
  shows "jb_attemptCount a < jb_attemptCount b \<and>
    fst (markJobSucceeded i (claim_of a) su now (run_jobs ops' jobs2)) = None \<and>
    fst (markJobFailed i (Some (claim_of a)) fa now (run_jobs ops' jobs2)) = None \<and>
    \<not> fst (recordJobProgress i (claim_of a) p ms now (run_jobs ops' jobs2))"
proof -
  obtain j0 where a: "getJobById i jobs1 = Some a" "unique_ids jobs1" using claims_row[OF assms(1,2)] by blast
  obtain j1 where j1: "getJobById i (run_jobs ops jobs1) = Some j1" "jb_attemptCount a \<le> jb_attemptCount j1"
    using attempts.run[OF a(1), of ops] by auto
  have b: "jb_attemptCount b = jb_attemptCount j1 + 1" "getJobById i jobs2 = Some b" "unique_ids jobs2"
    using claims_row[OF run_keeps_unique[OF a(2)] assms(3)] j1(1) by auto
  obtain j2 where j2: "getJobById i (run_jobs ops' jobs2) = Some j2" "jb_attemptCount b \<le> jb_attemptCount j2"
    using attempts.run[OF b(2), of ops'] by auto
  have "\<not> held_under_claim (claim_of a) j2" using b(1) j1(2) j2(2) by (simp add: held_under_claim_def claim_of_def)
  then show ?thesis
    using b(1) j1(2) j2(1) run_keeps_unique[OF b(3), of ops']
    by (simp add: markJobSucceeded_def markJobFailed_def recordJobProgress_def update_answer Let_def case_prod_beta)
qed

section \<open>The theorems on a job\<close>

definition enqueued :: enqueue_input where
  "enqueued = \<lparr>eq_id = ''j'', eq_runId = Some ''r'', eq_registryId = ''reg'', eq_repository = ''repo'', eq_tag = ''t'',
     eq_requestPayload = Null, eq_imageScope = None, eq_secretEnvSealed = Some ''sealed'', eq_idempotencyKey = None,
     eq_availableAt = None, eq_maxAttempts = None\<rparr>"

definition one_job :: "build_job list" where
  "one_job = snd (insertQueuedJob enqueued 0 [])"

definition first_claim :: build_claim where
  "first_claim = \<lparr>cl_workerId = ''w'', cl_attemptCount = 1\<rparr>"

definition plain_success :: success_input where
  "plain_success = \<lparr>su_builderId = ''b'', su_resultPayload = None, su_publication = None, su_publishedReference = Some ''img'',
     su_publishedDigestReference = None, su_publishedDigest = None, su_finishedAt = None\<rparr>"

definition claimed_once :: "build_job list" where
  "claimed_once = snd (claimJobById ''j'' ''w'' 10 1 one_job)"

definition built_job :: build_job where
  "built_job = the (fst (markJobSucceeded ''j'' first_claim plain_success 2 claimed_once))"

definition built_jobs :: "build_job list" where
  "built_jobs = snd (markJobSucceeded ''j'' first_claim plain_success 2 claimed_once)"

lemma built_samples:
  "unique_ids claimed_once" "markJobSucceeded ''j'' first_claim plain_success 2 claimed_once = (Some built_job, built_jobs)"
  "unique_ids one_job"
  by code_simp+

theorem job_settles_once_witness:
  "closed_to_workers ''j'' (run_jobs [(20, Claim_by_id ''j'' ''other'' 10)] built_jobs)"
  using job_settles_once[OF built_samples(1) disjI1[OF built_samples(2)], of "[(20, Claim_by_id ''j'' ''other'' 10)]"] by simp

definition claim_at :: "string \<Rightarrow> int \<Rightarrow> build_job list \<Rightarrow> build_job" where
  "claim_at w now jobs = the (fst (claimJobById ''j'' w 10 now jobs))"

lemma claim_samples:
  "claims ''j'' one_job (claim_at ''w'' 1 one_job) claimed_once"
  "claims ''j'' (run_jobs [] claimed_once) (claim_at ''w'' 20 claimed_once) (snd (claimJobById ''j'' ''w'' 10 20 claimed_once))"
proof -
  have "claimJobById ''j'' ''w'' 10 1 one_job = (Some (claim_at ''w'' 1 one_job), claimed_once)" "jb_id (claim_at ''w'' 1 one_job) = ''j''"
    by code_simp+
  then show "claims ''j'' one_job (claim_at ''w'' 1 one_job) claimed_once" unfolding claims_def by blast
  have "claimJobById ''j'' ''w'' 10 20 claimed_once = (Some (claim_at ''w'' 20 claimed_once), snd (claimJobById ''j'' ''w'' 10 20 claimed_once))"
    "jb_id (claim_at ''w'' 20 claimed_once) = ''j''"
    by code_simp+
  then show "claims ''j'' (run_jobs [] claimed_once) (claim_at ''w'' 20 claimed_once) (snd (claimJobById ''j'' ''w'' 10 20 claimed_once))"
    unfolding claims_def run_jobs_Nil by blast
qed

end
