(* ===== verification/Build_Process.thy ===== *)
theory Build_Process
  imports Build_Jobs_Proofs Runtime_Instances_Proofs Capture_Removal
begin

text \<open>
  One delivery of a build job to a worker (\<open>processWorkspaceBuildJobEffect\<close> of
  \<open>packages/workspaces/src/worker/process-workspace-build-job.ts\<close>): the claim, the build, the success
  committed under the claim, and the launch under an ownership of the run's row. Before each of its calls
  to a table the operations of others happen, its own renewals among them, and the call may fail before
  or after it took effect. What the build and the runtime answer is an argument. The attempts' table, the
  staged material and the logins placed in a home are not modelled.
\<close>

section \<open>What a delivery meets\<close>

record launch_identity =
  li_adapter :: string
  li_resourceId :: string
  li_reference :: string
  li_endpoint :: "string option"
  li_deadline :: "int option"

text \<open>A failure; \<open>be_retained\<close>: the executor it left started.\<close>

record build_error =
  be_message :: string
  be_code :: "string option"
  be_retained :: "launch_identity option"

datatype build_outcome = Build_failed build_error | Build_lost | Built success_input publication

datatype launch_answer = Launched instance_status launch_identity | Launch_error build_error | Launch_interrupted

text \<open>\<open>bp_refused\<close>: a refusal before the launch's first row; \<open>bp_prepared\<close>: a failure between it and the
  dispatch, and whether it was the credential of a recovery that could not be kept; \<open>bp_reports\<close>: the
  identities the runtime reported while launching.\<close>

record build_env =
  bp_jobOthers :: "nat \<Rightarrow> (int \<times> job_op) list"
  bp_jobClock :: "nat \<Rightarrow> int"
  bp_jobFault :: "nat \<Rightarrow> fault"
  bp_rowOthers :: "nat \<Rightarrow> (int \<times> int \<times> instance_op) list"
  bp_rowClock :: "nat \<Rightarrow> int \<times> int"
  bp_rowFault :: "nat \<Rightarrow> fault"
  bp_jobId :: string
  bp_workerId :: string
  bp_leaseMs :: int
  bp_built :: build_outcome
  bp_owner :: string
  bp_launchLeaseMs :: int
  bp_sourceKind :: string
  bp_scope :: "js option"
  bp_daemonImage :: "string option"
  bp_daemonRecoveryBoot :: "bool option"
  bp_injections :: js
  bp_refused :: "build_error option"
  bp_prepared :: "(build_error \<times> bool) option"
  bp_abandoned :: bool
  bp_reports :: "launch_identity list"
  bp_launch :: launch_answer
  bp_error :: "nat \<Rightarrow> string"

text \<open>The tables, the calls made to them, how often a launch was dispatched, and what the worker knows of
  its launch: whether it took the ownership, and lost it, the executor that started, and whether the
  sealed secret is kept.\<close>

record build_state =
  bs_jobs :: "build_job list"
  bs_jobCalls :: nat
  bs_row :: "runtime_instance option"
  bs_rowCalls :: nat
  bs_dispatched :: nat
  bs_owning :: bool
  bs_lost :: bool
  bs_started :: "launch_identity option"
  bs_keepSealed :: bool

definition job_call :: "build_env \<Rightarrow> (int \<Rightarrow> build_job list \<Rightarrow> 'a \<times> build_job list) \<Rightarrow> build_state \<Rightarrow> 'a option \<times> build_state" where
  "job_call e f s =
     (let k = bs_jobCalls s; jobs = run_jobs (bp_jobOthers e k) (bs_jobs s); (a, jobs') = f (bp_jobClock e k) jobs in
      case bp_jobFault e k of
        No_fault \<Rightarrow> (Some a, s\<lparr>bs_jobs := jobs', bs_jobCalls := Suc k\<rparr>)
      | Lost_before \<Rightarrow> (None, s\<lparr>bs_jobs := jobs, bs_jobCalls := Suc k\<rparr>)
      | Lost_after \<Rightarrow> (None, s\<lparr>bs_jobs := jobs', bs_jobCalls := Suc k\<rparr>))"

definition row_call ::
  "build_env \<Rightarrow> (int \<Rightarrow> int \<Rightarrow> runtime_instance option \<Rightarrow> 'a \<times> runtime_instance option) \<Rightarrow> build_state \<Rightarrow> 'a option \<times> build_state"
where
  "row_call e f s =
     (let k = bs_rowCalls s; row = run_instance (bp_rowOthers e k) (bs_row s);
          (a, row') = f (fst (bp_rowClock e k)) (snd (bp_rowClock e k)) row in
      case bp_rowFault e k of
        No_fault \<Rightarrow> (Some a, s\<lparr>bs_row := row', bs_rowCalls := Suc k\<rparr>)
      | Lost_before \<Rightarrow> (None, s\<lparr>bs_row := row, bs_rowCalls := Suc k\<rparr>)
      | Lost_after \<Rightarrow> (None, s\<lparr>bs_row := row', bs_rowCalls := Suc k\<rparr>))"

section \<open>The rows a delivery writes\<close>

definition blank_upsert :: "instance_status \<Rightarrow> upsert_input" where
  "blank_upsert st =
     \<lparr>up_status = st, up_publication = None, up_imageScope = None, up_adapter = None, up_resourceId = None, up_reference = None,
      up_endpoint = None, up_errorCode = None, up_errorMessage = None, up_injections = None, up_launchedAt = None,
      up_finishedAt = None, up_deadlineAt = None, up_sourceKind = None, up_launchOwner = None, up_launchLeaseMs = None,
      up_fenceLaunchOwner = None, up_releaseLaunch = False, up_daemonImage = None, up_daemonRecoveryBoot = None\<rparr>"

definition naming :: "launch_identity \<Rightarrow> upsert_input \<Rightarrow> upsert_input" where
  "naming i u = u\<lparr>up_adapter := Some (li_adapter i), up_resourceId := Some (li_resourceId i), up_reference := Some (li_reference i),
     up_endpoint := li_endpoint i, up_deadlineAt := li_deadline i\<rparr>"

definition pending_row :: "build_env \<Rightarrow> publication \<Rightarrow> upsert_input" where
  "pending_row e p =
     (blank_upsert Inst_pending)\<lparr>up_publication := Some (pb_value p, pb_id p), up_imageScope := bp_scope e,
       up_sourceKind := Some (bp_sourceKind e), up_launchOwner := Some (bp_owner e), up_launchLeaseMs := Some (bp_launchLeaseMs e),
       up_daemonImage := bp_daemonImage e, up_daemonRecoveryBoot := Some (bp_daemonRecoveryBoot e)\<rparr>"

definition identity_row :: "build_env \<Rightarrow> launch_identity \<Rightarrow> upsert_input" where
  "identity_row e i =
     naming i ((blank_upsert Inst_pending)\<lparr>up_fenceLaunchOwner := Some (bp_owner e), up_launchLeaseMs := Some (bp_launchLeaseMs e),
       up_sourceKind := Some (bp_sourceKind e)\<rparr>)"

definition terminal_row :: "build_env \<Rightarrow> instance_status \<Rightarrow> launch_identity \<Rightarrow> int \<Rightarrow> upsert_input" where
  "terminal_row e st i at =
     naming i ((blank_upsert st)\<lparr>up_injections := Some (bp_injections e), up_launchedAt := Some at,
       up_fenceLaunchOwner := Some (bp_owner e), up_releaseLaunch := True, up_sourceKind := Some (bp_sourceKind e)\<rparr>)"

text \<open>A failure that left a started executor keeps its identity, and has no end.\<close>

definition failedRuntimeRow :: "build_env \<Rightarrow> bool \<Rightarrow> build_error \<Rightarrow> int \<Rightarrow> upsert_input" where
  "failedRuntimeRow e owning err at =
     (let u = (blank_upsert Inst_failed)\<lparr>up_releaseLaunch := True, up_fenceLaunchOwner := (if owning then Some (bp_owner e) else None),
          up_errorCode := be_code err, up_errorMessage := Some (be_message err)\<rparr>
      in case be_retained err of None \<Rightarrow> u\<lparr>up_finishedAt := Some at\<rparr> | Some i \<Rightarrow> naming i u)"

section \<open>The build\<close>

datatype build_phase = Phase_failed | Phase_lost | Phase_built publication

text \<open>In one transaction: the job fails under the claim, and only then the run's row.\<close>

definition buildFailureCleanup :: "build_env \<Rightarrow> build_job \<Rightarrow> build_claim \<Rightarrow> build_error \<Rightarrow> build_state \<Rightarrow> build_state" where
  "buildFailureCleanup e job c err s =
     (let k = bs_jobCalls s; m = bs_rowCalls s;
          jobs = run_jobs (bp_jobOthers e k) (bs_jobs s); row = run_instance (bp_rowOthers e m) (bs_row s);
          others = s\<lparr>bs_jobs := jobs, bs_row := row, bs_jobCalls := Suc k, bs_rowCalls := Suc m\<rparr>;
          (failed, jobs') = markJobFailed (jb_id job) (Some c)
            \<lparr>fa_errorMessage = be_message err, fa_errorCode = be_code err, fa_finishedAt = None\<rparr> (bp_jobClock e k) jobs
      in if bp_jobFault e k = Lost_before \<or> failed = None then others
         else case jb_runId job of
           None \<Rightarrow> others\<lparr>bs_jobs := jobs'\<rparr>
         | Some _ \<Rightarrow>
             (case upsertRuntimeInstance (failedRuntimeRow e (bs_owning s) err (fst (bp_rowClock e m)))
                  (fst (bp_rowClock e m)) (snd (bp_rowClock e m)) row of
                (Upserted _, row') \<Rightarrow> others\<lparr>bs_jobs := jobs', bs_row := row'\<rparr>
              | _ \<Rightarrow> others))"

definition failure :: "build_env \<Rightarrow> build_state \<Rightarrow> build_error" where
  "failure e s = \<lparr>be_message = bp_error e (bs_rowCalls s), be_code = None, be_retained = None\<rparr>"

definition buildAndPublish :: "build_env \<Rightarrow> build_job \<Rightarrow> build_claim \<Rightarrow> build_state \<Rightarrow> build_phase \<times> build_state" where
  "buildAndPublish e job c s =
     (case bp_built e of
        Build_failed err \<Rightarrow> (Phase_failed, buildFailureCleanup e job c err s)
      | Build_lost \<Rightarrow> (Phase_lost, s)
      | Built su p \<Rightarrow>
          (case job_call e (markJobSucceeded (jb_id job) c (su\<lparr>su_publication := Some p\<rparr>)) s of
             (None, s1) \<Rightarrow> (Phase_failed, buildFailureCleanup e job c (failure e s1) s1)
           | (Some None, s1) \<Rightarrow> (Phase_lost, s1)
           | (Some (Some _), s1) \<Rightarrow> (Phase_built p, s1)))"

section \<open>The launch\<close>

datatype launch_result = Launch_done | Launch_failed build_error | Launch_stopped

text \<open>An upsert of the launch: \<^const>\<open>None\<close> when it landed, the failure otherwise.\<close>

definition launch_upsert :: "build_env \<Rightarrow> (int \<Rightarrow> upsert_input) \<Rightarrow> build_state \<Rightarrow> build_error option \<times> build_state" where
  "launch_upsert e u s =
     (case row_call e (\<lambda>at now. upsertRuntimeInstance (u at) at now) s of
        (Some (Upserted _), s1) \<Rightarrow> (None, s1)
      | (_, s1) \<Rightarrow> (Some (failure e s1), s1))"

text \<open>What the runtime reports is written as it comes; what a failed write does is in its answer.\<close>

fun record_reports :: "build_env \<Rightarrow> launch_identity list \<Rightarrow> build_state \<Rightarrow> build_state" where
  "record_reports e [] s = s"
| "record_reports e (i # is) s =
     record_reports e is (snd (launch_upsert e (\<lambda>_. identity_row e i) (s\<lparr>bs_started := Some i\<rparr>)))"

definition launchHoldsCaptures :: "build_env \<Rightarrow> bool" where
  "launchHoldsCaptures e \<longleftrightarrow> bp_sourceKind e = ''capture''"

definition retaining :: "launch_identity \<Rightarrow> string \<Rightarrow> build_error" where
  "retaining i message =
     \<lparr>be_message = ''The workspace launch failed after its executor started, and the executor was kept so no work is lost: '' @
        message @ '' It is drained and stopped by the retained-launch sweep once its work is confirmed saved.'',
      be_code = Some retained_code, be_retained = Some i\<rparr>"

text \<open>\<open>failLaunch\<close> of \<open>runtime/launch-retention.ts\<close>: the error an adapter throws when a step of a launch
  failed. The executor the launch knows of is kept, and named by the error, unless the preservation
  policy lets it go; the adapter's own cleanup is not modelled.\<close>

definition failLaunch :: "bool \<Rightarrow> launch_identity option \<Rightarrow> runtime_state \<Rightarrow> build_error \<Rightarrow> build_error" where
  "failLaunch captureSourced identity runtime err =
     (if be_retained err \<noteq> None then err
      else case identity of
        None \<Rightarrow> err
      | Some i \<Rightarrow>
          (case decideExecutorDeletion \<lparr>de_captureSourced = captureSourced, de_runtime = runtime, de_observedComplete = False,
               de_attestedComplete = False, de_drainedNow = False, de_discarded = False, de_ledgerUnreadable = False\<rparr> of
             Keep why \<Rightarrow> retaining i (be_message err)
           | Delete basis \<Rightarrow> err))"

text \<open>From the dispatch on.\<close>

definition dispatch :: "build_env \<Rightarrow> build_job \<Rightarrow> build_state \<Rightarrow> launch_result \<times> build_state" where
  "dispatch e job s =
     (let s1 = s\<lparr>bs_dispatched := Suc (bs_dispatched s)\<rparr>;
          s2 = (if jb_runId job = None then s1 else record_reports e (bp_reports e) s1)
      in case bp_launch e of
           Launch_error err \<Rightarrow> (Launch_failed err, s2)
         | Launch_interrupted \<Rightarrow> (Launch_stopped, s2)
         | Launched st i \<Rightarrow>
             if jb_runId job = None then (Launch_done, s2)
             else case launch_upsert e (terminal_row e st i) s2 of
               (None, s3) \<Rightarrow> (Launch_done, s3)
             | (Some err, s3) \<Rightarrow> (Launch_failed (if launchHoldsCaptures e then retaining i (be_message err) else err), s3))"

text \<open>The ownership is renewed once more before the dispatch; one lost abandons the launch.\<close>

definition hold_and_dispatch :: "build_env \<Rightarrow> build_job \<Rightarrow> build_state \<Rightarrow> launch_result \<times> build_state" where
  "hold_and_dispatch e job s =
     (if jb_runId job = None then dispatch e job s
      else case row_call e (\<lambda>at now. renewLaunchLease (bp_owner e) (bp_launchLeaseMs e) at now) s of
        (None, s1) \<Rightarrow> (Launch_failed (failure e s1), s1)
      | (Some None, s1) \<Rightarrow> (Launch_failed (failure e s1), s1\<lparr>bs_lost := True\<rparr>)
      | (Some (Some _), s1) \<Rightarrow> if bp_abandoned e then (Launch_failed (failure e s1), s1) else dispatch e job s1)"

definition launchAndRecord :: "build_env \<Rightarrow> build_job \<Rightarrow> publication \<Rightarrow> build_state \<Rightarrow> launch_result \<times> build_state" where
  "launchAndRecord e job p s =
     (case bp_refused e of
        Some err \<Rightarrow> (Launch_failed err, s)
      | None \<Rightarrow>
          (case (if jb_runId job = None then (None, s) else launch_upsert e (\<lambda>_. pending_row e p) s) of
             (Some err, s1) \<Rightarrow> (Launch_failed err, s1)
           | (None, s1) \<Rightarrow>
               let s2 = s1\<lparr>bs_owning := jb_runId job \<noteq> None\<rparr> in
               (case bp_prepared e of
                  Some (err, keepSealed) \<Rightarrow> (Launch_failed err, s2\<lparr>bs_keepSealed := keepSealed\<rparr>)
                | None \<Rightarrow> hold_and_dispatch e job s2)))"

definition launchFailureCleanup :: "build_env \<Rightarrow> build_job \<Rightarrow> build_error \<Rightarrow> build_state \<Rightarrow> build_state" where
  "launchFailureCleanup e job err s =
     (if jb_runId job = None then s
      else case row_call e (\<lambda>at now. upsertRuntimeInstance (failedRuntimeRow e (bs_owning s) err at) at now) s of
        (Some Ownership_lost, s1) \<Rightarrow> s1\<lparr>bs_lost := True\<rparr>
      | (_, s1) \<Rightarrow> s1)"

definition retainOnInterrupt :: "build_env \<Rightarrow> build_job \<Rightarrow> build_state \<Rightarrow> build_state" where
  "retainOnInterrupt e job s =
     (case bs_started s of
        None \<Rightarrow> s
      | Some i \<Rightarrow> launchFailureCleanup e job 
         (retaining i ''The worker launching it was interrupted before the launch finished.'') s)"

text \<open>The sealed secret of the job goes with the launch, unless nothing was launched for want of the
  credential that could recover it.\<close>

definition settle_secret :: "build_env \<Rightarrow> build_job \<Rightarrow> build_state \<Rightarrow> build_state" where
  "settle_secret e job s =
     (if jb_secretEnvSealed job = None \<or> bs_keepSealed s then s
      else snd (job_call e (\<lambda>now jobs. ((), clearSecretEnv (jb_id job) now jobs)) s))"

definition launch_phase :: "build_env \<Rightarrow> build_job \<Rightarrow> publication \<Rightarrow> build_state \<Rightarrow> launch_result \<times> build_state" where
  "launch_phase e job p s =
     (case launchAndRecord e job p s of
        (Launch_done, s1) \<Rightarrow> (Launch_done, settle_secret e job s1)
      | (Launch_failed err, s1) \<Rightarrow> (Launch_failed err, settle_secret e job (launchFailureCleanup e job err s1))
      | (Launch_stopped, s1) \<Rightarrow> (Launch_stopped, settle_secret e job (retainOnInterrupt e job s1)))"

section \<open>One delivery\<close>

datatype delivery = Not_claimed | Claim_failed | Build_not_done | Not_held | Delivered launch_result

definition processWorkspaceBuildJob :: "build_env \<Rightarrow> build_state \<Rightarrow> delivery \<times> build_state" where
  "processWorkspaceBuildJob e s =
     (case job_call e (claimJobById (bp_jobId e) (bp_workerId e) (bp_leaseMs e)) s of
        (None, s1) \<Rightarrow> (Claim_failed, s1)
      | (Some None, s1) \<Rightarrow> (Not_claimed, s1)
      | (Some (Some job), s1) \<Rightarrow>
          let c = \<lparr>cl_workerId = bp_workerId e, cl_attemptCount = jb_attemptCount job\<rparr> in
          (case buildAndPublish e job c s1 of
             (Phase_failed, s2) \<Rightarrow> (Build_not_done, s2)
           | (Phase_lost, s2) \<Rightarrow> (Not_held, s2)
           | (Phase_built p, s2) \<Rightarrow> (case launch_phase e job p s2 of (r, s3) \<Rightarrow> (Delivered r, s3))))"

end
