(* ===== verification/Build_Process_Proofs.thy ===== *)
theory Build_Process_Proofs
  imports Build_Process
begin

text \<open>
  What a delivery of a build job does to the tables: it launches only what it was the one to build, it
  keeps every executor that started, and the two ends it has that nobody picks up.
\<close>

section \<open>The jobs a delivery goes through\<close>

definition jobs_go :: "(job_op \<Rightarrow> bool) \<Rightarrow> build_state \<Rightarrow> build_state \<Rightarrow> bool" where
  "jobs_go P s s' \<longleftrightarrow> (\<exists>ops. bs_jobs s' = run_jobs ops (bs_jobs s) \<and> (\<forall>(t, op) \<in> set ops. P op))"

abbreviation others_do :: "build_env \<Rightarrow> (job_op \<Rightarrow> bool) \<Rightarrow> bool" where
  "others_do e P \<equiv> \<forall>k. \<forall>(t, op) \<in> set (bp_jobOthers e k). P op"

lemma run_jobs_append [simp]: "run_jobs (xs @ ys) jobs = run_jobs ys (run_jobs xs jobs)"
  by (simp add: run_jobs_def)

lemma jobs_go_refl [simp, intro]: "bs_jobs s' = bs_jobs s \<Longrightarrow> jobs_go P s s'"
  unfolding jobs_go_def by (rule exI[of _ "[]"]) simp

lemma jobs_go_trans: "jobs_go P s s1 \<Longrightarrow> jobs_go P s1 s2 \<Longrightarrow> jobs_go P s s2"
  unfolding jobs_go_def by (metis (no_types, lifting) Un_iff run_jobs_append set_append)

lemma jobs_go_same: "jobs_go P s s1 \<Longrightarrow> bs_jobs s2 = bs_jobs s1 \<Longrightarrow> jobs_go P s s2"
  by (simp add: jobs_go_def)

lemma job_call_goes:
  assumes "job_call e f s = (a, s')" "others_do e P"
    and "\<And>now jobs. snd (f now jobs) = apply_job_op (now, op) jobs" "P op"
  shows "jobs_go P s s'"
proof -
  let ?k = "bs_jobCalls s"
  have "bs_jobs s' = run_jobs (bp_jobOthers e ?k) (bs_jobs s) \<or>
      bs_jobs s' = run_jobs (bp_jobOthers e ?k @ [(bp_jobClock e ?k, op)]) (bs_jobs s)"
    using assms(1) assms(3)[of "bp_jobClock e ?k" "run_jobs (bp_jobOthers e ?k) (bs_jobs s)"]
    by (auto simp: job_call_def Let_def split: prod.splits fault.splits)
  then show ?thesis
    unfolding jobs_go_def
    using assms(2,4) by (elim disjE) (intro exI conjI, assumption, fastforce)+
qed

text \<open>What the calls to the run's row leave alone.\<close>

definition apart :: "build_state \<Rightarrow> build_state \<Rightarrow> bool" where
  "apart s s' \<longleftrightarrow> bs_jobs s' = bs_jobs s \<and> bs_dispatched s' = bs_dispatched s \<and> bs_owning s' = bs_owning s \<and>
     bs_started s' = bs_started s"

lemma row_call_apart: "row_call e f s = (a, s') \<Longrightarrow> apart s s'"
  by (auto simp: row_call_def apart_def Let_def split: prod.splits fault.splits)

lemma launch_upsert_apart: "launch_upsert e u s = (a, s') \<Longrightarrow> apart s s'"
  by (auto simp: launch_upsert_def split: prod.splits option.splits upsert_reply.splits dest: row_call_apart)

lemma reports_apart:
  "bs_jobs (record_reports e is s) = bs_jobs s \<and> bs_dispatched (record_reports e is s) = bs_dispatched s \<and>
   bs_owning (record_reports e is s) = bs_owning s"
proof (induction "is" arbitrary: s)
  case (Cons i "is")
  obtain a s1 where "launch_upsert e (\<lambda>_. identity_row e i) (s\<lparr>bs_started := Some i\<rparr>) = (a, s1)" by (metis prod.exhaust)
  with launch_upsert_apart[OF this] Cons.IH show ?case by (simp add: apart_def)
qed simp

lemmas record_reports_apart [simp] = reports_apart[THEN conjunct1] reports_apart[THEN conjunct2, THEN conjunct1]
  reports_apart[THEN conjunct2, THEN conjunct2]

lemma dispatch_apart:
  "dispatch e job s = (r, s') \<Longrightarrow> bs_jobs s' = bs_jobs s \<and> bs_dispatched s' = Suc (bs_dispatched s)"
  by (auto simp: dispatch_def apart_def Let_def split: launch_answer.splits prod.splits option.splits if_splits
      dest!: launch_upsert_apart)

lemma hold_apart:
  "hold_and_dispatch e job s = (r, s') \<Longrightarrow>
    bs_jobs s' = bs_jobs s \<and> (bs_dispatched s' = bs_dispatched s \<or> bs_dispatched s' = Suc (bs_dispatched s))"
  by (auto simp: hold_and_dispatch_def apart_def split: prod.splits option.splits if_splits
      dest!: row_call_apart dispatch_apart)

lemma launchAndRecord_apart:
  "launchAndRecord e job p s = (r, s') \<Longrightarrow>
    bs_jobs s' = bs_jobs s \<and> (bs_dispatched s' = bs_dispatched s \<or> bs_dispatched s' = Suc (bs_dispatched s))"
  by (fastforce simp: launchAndRecord_def apart_def Let_def split: prod.splits option.splits if_splits
      dest!: launch_upsert_apart hold_apart)

lemma launchFailureCleanup_apart: "bs_jobs (launchFailureCleanup e job err s) = bs_jobs s \<and>
    bs_dispatched (launchFailureCleanup e job err s) = bs_dispatched s"
  by (auto simp: launchFailureCleanup_def apart_def split: prod.splits option.splits upsert_reply.splits dest!: row_call_apart)

lemma retainOnInterrupt_apart: "bs_jobs (retainOnInterrupt e job s) = bs_jobs s \<and>
    bs_dispatched (retainOnInterrupt e job s) = bs_dispatched s"
  using launchFailureCleanup_apart by (simp add: retainOnInterrupt_def split: option.splits)

lemma job_call_dispatched: "job_call e f s = (a, s') \<Longrightarrow> bs_dispatched s' = bs_dispatched s \<and> bs_row s' = bs_row s"
  by (auto simp: job_call_def Let_def split: prod.splits fault.splits)

lemma settle_secret_goes:
  assumes "others_do e P" "P (Clear_secret_env (jb_id job))"
  shows "jobs_go P s (settle_secret e job s)" "bs_dispatched (settle_secret e job s) = bs_dispatched s"
proof -
  obtain a s1 where call: "job_call e (\<lambda>now jobs. ((), clearSecretEnv (jb_id job) now jobs)) s = (a, s1)"
    by (metis prod.exhaust)
  have "jobs_go P s s1" by (rule job_call_goes[OF call assms(1) _ assms(2)]) simp
  then show "jobs_go P s (settle_secret e job s)" using call by (simp add: settle_secret_def)
  show "bs_dispatched (settle_secret e job s) = bs_dispatched s"
    using call job_call_dispatched[OF call] by (simp add: settle_secret_def)
qed

lemma launch_phase_goes:
  assumes "launch_phase e job p s = (r, s')" "others_do e P" "P (Clear_secret_env (jb_id job))"
  shows "jobs_go P s s' \<and> (bs_dispatched s' = bs_dispatched s \<or> bs_dispatched s' = Suc (bs_dispatched s))"
proof -
  obtain r1 s1 where la: "launchAndRecord e job p s = (r1, s1)" by (metis prod.exhaust)
  have "\<exists>s2. s' = settle_secret e job s2 \<and> bs_jobs s2 = bs_jobs s1 \<and> bs_dispatched s2 = bs_dispatched s1"
    using assms(1) la launchFailureCleanup_apart retainOnInterrupt_apart
    by (cases r1) (auto simp: launch_phase_def)
  then obtain s2 where s2: "s' = settle_secret e job s2" "bs_jobs s2 = bs_jobs s1" "bs_dispatched s2 = bs_dispatched s1" by blast
  have "jobs_go P s s2" using s2(2) launchAndRecord_apart[OF la] by auto
  then show ?thesis
    using jobs_go_trans settle_secret_goes[OF assms(2,3)] s2 launchAndRecord_apart[OF la] by metis
qed

section \<open>Only what it built\<close>

lemma cleanup_goes:
  assumes "others_do e P" "P (Mark_job_failed (jb_id job) (Some c) \<lparr>fa_errorMessage = be_message err, fa_errorCode = be_code err, fa_finishedAt = None\<rparr>)"
  shows "jobs_go P s (buildFailureCleanup e job c err s)" "bs_dispatched (buildFailureCleanup e job c err s) = bs_dispatched s"
proof -
  let ?k = "bs_jobCalls s"
  let ?op = "Mark_job_failed (jb_id job) (Some c) \<lparr>fa_errorMessage = be_message err, fa_errorCode = be_code err, fa_finishedAt = None\<rparr>"
  have "bs_jobs (buildFailureCleanup e job c err s) = run_jobs (bp_jobOthers e ?k) (bs_jobs s) \<or>
      bs_jobs (buildFailureCleanup e job c err s) = run_jobs (bp_jobOthers e ?k @ [(bp_jobClock e ?k, ?op)]) (bs_jobs s)"
    by (auto simp: buildFailureCleanup_def Let_def case_prod_beta split: option.splits upsert_reply.splits)
  then show "jobs_go P s (buildFailureCleanup e job c err s)"
    unfolding jobs_go_def using assms by (elim disjE) (intro exI conjI, assumption, fastforce)+
  show "bs_dispatched (buildFailureCleanup e job c err s) = bs_dispatched s"
    by (auto simp: buildFailureCleanup_def Let_def case_prod_beta split: option.splits upsert_reply.splits)
qed

text \<open>The operations of a delivery on the job, up to its success.\<close>

definition build_op :: "string \<Rightarrow> job_op \<Rightarrow> bool" where
  "build_op i op \<longleftrightarrow> (\<exists>w ms. op = Claim_by_id i w ms) \<or> (\<exists>c fa. op = Mark_job_failed i (Some c) fa) \<or>
     (\<exists>c su. op = Mark_job_succeeded i c su)"

lemma buildAndPublish_goes:
  assumes "buildAndPublish e job c s = (r, s')" "others_do e P" "\<And>op. build_op (jb_id job) op \<Longrightarrow> P op"
  shows "jobs_go P s s' \<and> bs_dispatched s' = bs_dispatched s"
proof -
  have cleanup: "jobs_go P s1 (buildFailureCleanup e job c err s1)" for s1 err
    using cleanup_goes(1)[OF assms(2)] assms(3) by (simp add: build_op_def)
  show ?thesis
  proof (cases "bp_built e")
    case (Built su p)
    let ?f = "markJobSucceeded (jb_id job) c (su\<lparr>su_publication := Some p\<rparr>)"
    obtain a s1 where call: "job_call e ?f s = (a, s1)" by (metis prod.exhaust)
    have "jobs_go P s s1"
      by (rule job_call_goes[OF call assms(2), of "Mark_job_succeeded (jb_id job) c (su\<lparr>su_publication := Some p\<rparr>)"])
        (simp_all add: assms(3) build_op_def)
    moreover have "s' = s1 \<or> (\<exists>err. s' = buildFailureCleanup e job c err s1)"
      using assms(1) Built call by (auto simp: buildAndPublish_def split: option.splits)
    ultimately show ?thesis
      using jobs_go_trans cleanup cleanup_goes(2)[OF assms(2)] assms(3) job_call_dispatched[OF call]
      by (metis build_op_def)
  qed (use assms(1) cleanup cleanup_goes(2)[OF assms(2)] assms(3) in \<open>auto simp: buildAndPublish_def build_op_def\<close>)
qed

lemma claimed_job_id: "unique_ids jobs \<Longrightarrow> claimJobById i w ms now jobs = (Some j, jobs') \<Longrightarrow> jb_id j = i"
  using landed_row[of jobs "claimed_by w ms now" i] by (fastforce simp: claimJobById_def getJobById_def find_Some_iff claimed_by_def)

lemma job_call_answer:
  assumes "job_call e f s = (Some a, s')"
  shows "f (bp_jobClock e (bs_jobCalls s)) (run_jobs (bp_jobOthers e (bs_jobCalls s)) (bs_jobs s)) = (a, bs_jobs s')"
  using assms by (auto simp: job_call_def Let_def split: prod.splits fault.splits)

lemma unique_go: "jobs_go P s s' \<Longrightarrow> unique_ids (bs_jobs s) \<Longrightarrow> unique_ids (bs_jobs s')"
  by (auto simp: jobs_go_def run_keeps_unique)

lemma built_lands:
  assumes "buildAndPublish e job c s = (Phase_built p, s')" "unique_ids (bs_jobs s)"
  shows "\<exists>su now jobs j. unique_ids jobs \<and> markJobSucceeded (jb_id job) c su now jobs = (Some j, bs_jobs s') \<and>
    jb_status j = Job_succeeded \<and> jb_workerId j = Some (cl_workerId c) \<and> jb_attemptCount j = cl_attemptCount c"
proof -
  obtain su where b: "bp_built e = Built su p"
    using assms(1) by (cases "bp_built e") (auto simp: buildAndPublish_def split: prod.splits option.splits)
  let ?su = "su\<lparr>su_publication := Some p\<rparr>"
  let ?jobs = "run_jobs (bp_jobOthers e (bs_jobCalls s)) (bs_jobs s)" and ?now = "bp_jobClock e (bs_jobCalls s)"
  obtain a s1 where call: "job_call e (markJobSucceeded (jb_id job) c ?su) s = (a, s1)" by (metis prod.exhaust)
  obtain j where a: "a = Some (Some j)" and s1: "s' = s1"
    using assms(1) b call by (cases a) (auto simp: buildAndPublish_def split: option.splits)
  have lands: "markJobSucceeded (jb_id job) c ?su ?now ?jobs = (Some j, bs_jobs s')"
    using job_call_answer[OF call[unfolded a]] s1 by simp
  have u: "unique_ids ?jobs" by (rule run_keeps_unique[OF assms(2)])
  obtain j0 where "held_under_claim c j0" "j = (succeeded_with ?su ?now j0)\<lparr>jb_updatedAt := ?now\<rparr>"
    using landed_row[OF u job_functions_keep_id(2) lands[unfolded markJobSucceeded_def]] by blast
  then show ?thesis using u lands by (fastforce simp: succeeded_with_def held_under_claim_def)
qed

lemma Mark_other_kept: "build_op i op \<Longrightarrow> \<not> overrides i op"
  by (auto simp: build_op_def)

text \<open>The answer of the claim of a delivery.\<close>

definition claim_answer :: "build_env \<Rightarrow> build_state \<Rightarrow> build_job option option" where
  "claim_answer e s = fst (job_call e (claimJobById (bp_jobId e) (bp_workerId e) (bp_leaseMs e)) s)"

text \<open>C22: a run is launched only by the worker whose build was recorded. When a delivery dispatches a
  launch, whatever others do to the job in between and whichever calls fail, it dispatches it once, and
  the job is then succeeded under this delivery's own claim, for good: no other worker, and no other
  claim of the same worker, can have dispatched a launch of it, or ever will.\<close>

theorem launch_follows_own_success:
  assumes "processWorkspaceBuildJob e s = (d, s')" "unique_ids (bs_jobs s)" "bs_dispatched s < bs_dispatched s'"
    and "others_do e (\<lambda>op. \<not> overrides (bp_jobId e) op)"
  shows "bs_dispatched s' = Suc (bs_dispatched s) \<and> closed_to_workers (bp_jobId e) (bs_jobs s') \<and>
    (\<exists>job j. claim_answer e s = Some (Some job) \<and> getJobById (bp_jobId e) (bs_jobs s') = Some j \<and>
      jb_status j = Job_succeeded \<and> jb_workerId j = Some (bp_workerId e) \<and> jb_attemptCount j = jb_attemptCount job)"
proof -
  let ?P = "\<lambda>op. \<not> overrides (bp_jobId e) op"
  obtain a s1 where call: "job_call e (claimJobById (bp_jobId e) (bp_workerId e) (bp_leaseMs e)) s = (a, s1)"
    by (metis prod.exhaust)
  have d1: "bs_dispatched s1 = bs_dispatched s" using job_call_dispatched[OF call] by simp
  have go1: "jobs_go ?P s s1"
    by (rule job_call_goes[OF call assms(4), of "Claim_by_id (bp_jobId e) (bp_workerId e) (bp_leaseMs e)"]) simp_all
  obtain job where job: "a = Some (Some job)"
    using assms(1,3) call d1 by (cases a) (auto simp: processWorkspaceBuildJob_def split: option.splits)
  have id: "jb_id job = bp_jobId e"
    using claimed_job_id[OF run_keeps_unique[OF assms(2)]] job_call_answer[OF call[unfolded job]] by blast
  let ?c = "\<lparr>cl_workerId = bp_workerId e, cl_attemptCount = jb_attemptCount job\<rparr>"
  obtain r s2 where bu: "buildAndPublish e job ?c s1 = (r, s2)" by (metis prod.exhaust)
  have d2: "bs_dispatched s2 = bs_dispatched s" using buildAndPublish_goes[OF bu assms(4)] Mark_other_kept id d1 by simp
  obtain p where r: "r = Phase_built p"
    using assms(1,3) call job bu d2 by (cases r) (auto simp: processWorkspaceBuildJob_def Let_def)
  obtain l where la: "launch_phase e job p s2 = (l, s')"
    using assms(1) call job bu r by (auto simp: processWorkspaceBuildJob_def Let_def split: prod.splits)
  have go2: "jobs_go ?P s2 s'" "bs_dispatched s' = bs_dispatched s2 \<or> bs_dispatched s' = Suc (bs_dispatched s2)"
    using launch_phase_goes[OF la assms(4)] by auto
  obtain su now jobs j where j: "unique_ids jobs" "markJobSucceeded (bp_jobId e) ?c su now jobs = (Some j, bs_jobs s2)"
      "jb_status j = Job_succeeded" "jb_workerId j = Some (bp_workerId e)" "jb_attemptCount j = jb_attemptCount job"
    using built_lands[OF bu[unfolded r] unique_go[OF go1 assms(2)]] id by auto
  obtain ops where ops: "bs_jobs s' = run_jobs ops (bs_jobs s2)" "\<forall>(t, op) \<in> set ops. ?P op"
    using go2(1) by (auto simp: jobs_go_def)
  obtain j' where "closed_to_workers (bp_jobId e) (bs_jobs s')" "getJobById (bp_jobId e) (bs_jobs s') = Some j'" "same_end j j'"
    using settled_stays_closed[OF _ _ _ ops(2)] settling_lands[OF j(1) disjI1[OF j(2)]] ops(1) by metis
  then show ?thesis
    using go2(2) d2 assms(3) j(3-5) call job by (auto simp: same_end_def claim_answer_def)
qed

section \<open>An executor that started\<close>

fun upserts :: "instance_op \<Rightarrow> bool" where
  "upserts (Upsert_instance u) = True"
| "upserts _ = False"

text \<open>The row does not say the run failed without naming its executor, retained or ended, unless its
  launch was found lost.\<close>

definition kept_row :: "runtime_instance \<Rightarrow> bool" where
  "kept_row r \<longleftrightarrow> (ri_status r = Inst_failed \<longrightarrow>
     ((ri_errorCode r = Some retained_code \<or> ri_errorCode r = Some exited_code) \<and> ri_resourceId r \<noteq> None) \<or>
     ri_errorCode r = Some lost_code)"

interpretation kept: instance_history "\<lambda>op. \<not> upserts op" "\<lambda>r r'. kept_row r \<longrightarrow> kept_row r'"
proof
  show "kept_row r \<longrightarrow> kept_row r'" if "\<not> upserts op" "apply_instance_op (at, now, op) (Some r) = Some r'" for op at now r r'
    using that
    by (cases op) (auto simp: kept_row_def instance_defs strandedUnidentified_def stranded_def Let_def split: if_splits)
qed auto

definition keeps_executor :: "upsert_input \<Rightarrow> bool" where
  "keeps_executor u \<longleftrightarrow> up_status u \<noteq> Inst_failed \<or> (up_errorCode u = Some retained_code \<and> up_resourceId u \<noteq> None)"

lemma upsert_kept: "keeps_executor u \<Longrightarrow> kept_row (mutableColumns u at now r)"
  by (auto simp: keeps_executor_def kept_row_def mutableColumns_def or_old_def)

definition row_kept :: "build_state \<Rightarrow> bool" where
  "row_kept s \<longleftrightarrow> (\<exists>r. bs_row s = Some r \<and> kept_row r)"

abbreviation nobody_else_launches :: "build_env \<Rightarrow> bool" where
  "nobody_else_launches e \<equiv> \<forall>k. \<forall>(at, now, op) \<in> set (bp_rowOthers e k). \<not> upserts op"

lemma run_instance_some: "\<exists>r'. run_instance ops (Some r) = Some r'"
  by (induction ops arbitrary: r) (simp, metis run_instance_Cons instance_step_exists)

lemma row_call_kept:
  assumes "row_call e f s = (a, s')" "row_kept s" "nobody_else_launches e"
    and "\<And>at now r. kept_row r \<Longrightarrow> \<exists>r'. snd (f at now (Some r)) = Some r' \<and> kept_row r'"
  shows "row_kept s'"
proof -
  obtain r where r: "bs_row s = Some r" "kept_row r" using assms(2) by (auto simp: row_kept_def)
  obtain r1 where r1: "run_instance (bp_rowOthers e (bs_rowCalls s)) (Some r) = Some r1" using run_instance_some by blast
  have "\<forall>(at, now, op) \<in> set (bp_rowOthers e (bs_rowCalls s)). \<not> upserts op" using assms(3) by blast
  then have "kept_row r1" using kept.run[OF r1] r(2) by simp
  then show ?thesis
    using assms(1) assms(4)[of r1 "fst (bp_rowClock e (bs_rowCalls s))" "snd (bp_rowClock e (bs_rowCalls s))"] r r1
    by (auto simp: row_call_def row_kept_def Let_def split: prod.splits fault.splits)
qed

lemma upsert_answer_kept:
  assumes "keeps_executor u" "kept_row r"
  shows "\<exists>r'. snd (upsertRuntimeInstance u at now (Some r)) = Some r' \<and> kept_row r'"
proof -
  have "\<exists>r'. snd (upsertRuntimeInstance u at now (Some r)) = Some r'"
    using instance_step_exists[of "(at, now, Upsert_instance u)" r] by simp
  then show ?thesis using upsert_row[of u at now r] upsert_kept[OF assms(1)] assms(2) by fastforce
qed

lemma launch_upsert_kept:
  assumes "launch_upsert e u s = (a, s')" "row_kept s" "nobody_else_launches e" "\<And>at. keeps_executor (u at)"
  shows "row_kept s'"
proof -
  obtain b s1 where call: "row_call e (\<lambda>at now. upsertRuntimeInstance (u at) at now) s = (b, s1)" by (metis prod.exhaust)
  have "row_kept s1"
    by (rule row_call_kept[OF call assms(2,3)]) (rule upsert_answer_kept[OF assms(4)])
  moreover have "bs_row s' = bs_row s1"
    using assms(1) call by (auto simp: launch_upsert_def split: option.splits upsert_reply.splits)
  ultimately show ?thesis by (simp add: row_kept_def)
qed

lemma reports_kept: "row_kept s \<Longrightarrow> nobody_else_launches e \<Longrightarrow> row_kept (record_reports e is s)"
proof (induction "is" arbitrary: s)
  case (Cons i "is")
  obtain a s1 where up: "launch_upsert e (\<lambda>_. identity_row e i) (s\<lparr>bs_started := Some i\<rparr>) = (a, s1)" by (metis prod.exhaust)
  have "row_kept (s\<lparr>bs_started := Some i\<rparr>)" using Cons.prems(1) by (simp add: row_kept_def)
  then have "row_kept s1"
    by (rule launch_upsert_kept[OF up _ Cons.prems(2)]) (simp add: keeps_executor_def identity_row_def naming_def blank_upsert_def)
  then show ?case using Cons.IH[OF _ Cons.prems(2)] up by simp
qed simp

text \<open>How a launch ends that reported its executor. One that fails threw what \<^const>\<open>failLaunch\<close> makes of a
  step's failure and of the executor's identity, the runtime not having said that the executor is gone.\<close>

definition thrown_at_launch :: "build_env \<Rightarrow> build_error \<Rightarrow> bool" where
  "thrown_at_launch e err \<longleftrightarrow>
     (\<exists>i rt cause. rt \<noteq> Rt_missing \<and> be_retained cause = None \<and>
        err = failLaunch (launchHoldsCaptures e) (Some i) rt cause)"

definition ends_as_reported :: "build_env \<Rightarrow> bool" where
  "ends_as_reported e \<longleftrightarrow> (bp_reports e \<noteq> [] \<longrightarrow>
     (case bp_launch e of
        Launched st i \<Rightarrow> st \<noteq> Inst_failed
      | Launch_error err \<Rightarrow> thrown_at_launch e err
      | Launch_interrupted \<Rightarrow> True))"

definition retained_error :: "build_error \<Rightarrow> bool" where
  "retained_error err \<longleftrightarrow> be_retained err \<noteq> None \<and> be_code err = Some retained_code"

lemma failed_row_keeps: "retained_error err \<Longrightarrow> keeps_executor (failedRuntimeRow e owning err at)"
  by (auto simp: retained_error_def keeps_executor_def failedRuntimeRow_def naming_def Let_def)

lemma retaining_retained: "retained_error (retaining i m)"
  by (simp add: retained_error_def retaining_def)

lemma failLaunch_retains:
  assumes "rt \<noteq> Rt_missing" "be_retained cause = None"
  shows "failLaunch True (Some i) rt cause = retaining i (be_message cause)"
proof -
  let ?e = "\<lparr>de_captureSourced = True, de_runtime = rt, de_observedComplete = False,
    de_attestedComplete = False, de_drainedNow = False, de_discarded = False, de_ledgerUnreadable = False\<rparr>"
  have "\<not> (\<exists>b. decideExecutorDeletion ?e = Delete b)" using assms(1) by (simp add: deleted_iff_may_go may_go_def)
  then obtain why where "decideExecutorDeletion ?e = Keep why" by (cases "decideExecutorDeletion ?e") auto
  then show ?thesis using assms(2) by (simp add: failLaunch_def)
qed

lemma thrown_retained: "thrown_at_launch e err \<Longrightarrow> launchHoldsCaptures e \<Longrightarrow> retained_error err"
  using failLaunch_retains retaining_retained by (auto simp: thrown_at_launch_def)

lemma dispatch_kept:
  assumes "dispatch e job s = (r, s')" "row_kept s" "nobody_else_launches e" "ends_as_reported e" "bp_reports e \<noteq> []"
    and "launchHoldsCaptures e" "jb_runId job \<noteq> None"
  shows "row_kept s' \<and> (\<forall>err. r = Launch_failed err \<longrightarrow> retained_error err)"
proof -
  define s2 where "s2 = record_reports e (bp_reports e) (s\<lparr>bs_dispatched := Suc (bs_dispatched s)\<rparr>)"
  have s2: "row_kept s2" unfolding s2_def by (rule reports_kept) (use assms(2,3) in \<open>simp_all add: row_kept_def\<close>)
  show ?thesis
  proof (cases "bp_launch e")
    case (Launched st i)
    obtain b s3 where up: "launch_upsert e (terminal_row e st i) s2 = (b, s3)" by (metis prod.exhaust)
    have "row_kept s3"
      by (rule launch_upsert_kept[OF up s2 assms(3)])
        (use assms(4,5) Launched in \<open>simp add: ends_as_reported_def keeps_executor_def terminal_row_def naming_def blank_upsert_def\<close>)
    then show ?thesis
      using assms(1,6,7) Launched up retaining_retained
      by (auto simp: dispatch_def Let_def s2_def[symmetric] split: option.splits)
  qed (use assms(1,4-7) s2 thrown_retained in \<open>auto simp: dispatch_def Let_def s2_def[symmetric] ends_as_reported_def\<close>)
qed

lemma cleanup_kept:
  assumes "row_kept s" "nobody_else_launches e" "retained_error err"
  shows "row_kept (launchFailureCleanup e job err s)"
proof -
  obtain a s1 where call: "row_call e (\<lambda>at now. upsertRuntimeInstance (failedRuntimeRow e (bs_owning s) err at) at now) s = (a, s1)"
    by (metis prod.exhaust)
  have "row_kept s1"
    by (rule row_call_kept[OF call assms(1,2)]) (rule upsert_answer_kept[OF failed_row_keeps[OF assms(3)]])
  then show ?thesis
    using call assms(1) by (auto simp: launchFailureCleanup_def row_kept_def split: option.splits upsert_reply.splits)
qed

lemma settle_row [simp]: "bs_row (settle_secret e job s) = bs_row s"
  using job_call_dispatched[of e "\<lambda>now jobs. ((), clearSecretEnv (jb_id job) now jobs)" s]
  by (auto simp: settle_secret_def) (metis prod.collapse)

text \<open>The first row of a launch, and the renewal.\<close>

lemma dispatched_kept:
  assumes "launchAndRecord e job p s = (r, s')" "bs_dispatched s < bs_dispatched s'" "nobody_else_launches e"
    and "ends_as_reported e" "bp_reports e \<noteq> []" "launchHoldsCaptures e" "jb_runId job \<noteq> None"
  shows "row_kept s' \<and> (\<forall>err. r = Launch_failed err \<longrightarrow> retained_error err)"
proof -
  obtain b s1 where up: "launch_upsert e (\<lambda>_. pending_row e p) s = (b, s1)" by (metis prod.exhaust)
  have d1: "bs_dispatched s1 = bs_dispatched s" using launch_upsert_apart[OF up] by (simp add: apart_def)
  let ?s2 = "s1\<lparr>bs_owning := True\<rparr>"
  have b: "b = None" and hold: "hold_and_dispatch e job ?s2 = (r, s')"
    using assms(1,2,7) up d1 by (auto simp: launchAndRecord_def Let_def split: option.splits)
  have "row_kept s1"
  proof -
    obtain x s0 where call: "row_call e (\<lambda>at now. upsertRuntimeInstance (pending_row e p) at now) s = (x, s0)" by (metis prod.exhaust)
    then obtain r0 where x: "x = Some (Upserted r0)" "s0 = s1"
      using up b by (auto simp: launch_upsert_def split: option.splits upsert_reply.splits)
    have "\<exists>row. snd (upsertRuntimeInstance (pending_row e p) (fst (bp_rowClock e (bs_rowCalls s))) (snd (bp_rowClock e (bs_rowCalls s))) row) = bs_row s1 \<and>
        fst (upsertRuntimeInstance (pending_row e p) (fst (bp_rowClock e (bs_rowCalls s))) (snd (bp_rowClock e (bs_rowCalls s))) row) = Upserted r0"
      using call x by (auto simp: row_call_def Let_def split: prod.splits fault.splits) (metis fst_conv snd_conv)
    then have "bs_row s1 = Some r0 \<and> ri_status r0 = Inst_pending"
      by (auto simp: upsertRuntimeInstance_def pending_row_def blank_upsert_def mutableColumns_def Let_def split: option.splits if_splits)
    then show ?thesis by (simp add: row_kept_def kept_row_def)
  qed
  then have kept: "row_kept ?s2" by (simp add: row_kept_def)
  obtain a s3 where renew: "row_call e (\<lambda>at now. renewLaunchLease (bp_owner e) (bp_launchLeaseMs e) at now) ?s2 = (a, s3)"
    by (metis prod.exhaust)
  have "row_kept s3"
    by (rule row_call_kept[OF renew kept assms(3)])
      (auto simp: renewLaunchLease_def update_where_def kept_row_def Let_def)
  moreover have "bs_dispatched s3 = bs_dispatched s" using row_call_apart[OF renew] d1 by (simp add: apart_def)
  then have "dispatch e job s3 = (r, s')"
    using hold renew assms(2,7) by (auto simp: hold_and_dispatch_def split: option.splits if_splits)
  ultimately show ?thesis by (intro dispatch_kept[OF _ _ assms(3-7)])
qed

text \<open>C23: an executor that started is never forgotten. Once the launch of a capture-sourced run was
  dispatched and the runtime reported its executor, then whichever calls fail, however the launch ends
  (a failure being thrown through \<open>failLaunch\<close>, the runtime not having said the executor is gone), and
  whatever else is written to the row but another launch: the run's row never ends up failed without
  naming the executor, unless the launch was found lost. It is still pending (its ownership lapses, and
  the sweep of stranded launches looks for it), or ready, or stopped, or failed as retained or as ended
  with the executor's identity.\<close>

theorem started_executor_is_kept:
  assumes "processWorkspaceBuildJob e s = (d, s')" "bs_dispatched s < bs_dispatched s'"
    and "nobody_else_launches e" "ends_as_reported e" "bp_reports e \<noteq> []" "launchHoldsCaptures e"
    and "claim_answer e s = Some (Some job)" "jb_runId job \<noteq> None"
  shows "\<exists>r. bs_row s' = Some r \<and> kept_row r"
proof -
  obtain s1 where call: "job_call e (claimJobById (bp_jobId e) (bp_workerId e) (bp_leaseMs e)) s = (Some (Some job), s1)"
    using assms(7) by (metis claim_answer_def prod.collapse)
  let ?c = "\<lparr>cl_workerId = bp_workerId e, cl_attemptCount = jb_attemptCount job\<rparr>"
  obtain r s2 where bu: "buildAndPublish e job ?c s1 = (r, s2)" by (metis prod.exhaust)
  have d2: "bs_dispatched s2 = bs_dispatched s"
    using buildAndPublish_goes[OF bu, of "\<lambda>_. True"] job_call_dispatched[OF call] by simp
  obtain p where r: "r = Phase_built p"
    using assms(1,2) call bu d2 by (cases r) (auto simp: processWorkspaceBuildJob_def Let_def)
  obtain l s3 where la: "launchAndRecord e job p s2 = (l, s3)" by (metis prod.exhaust)
  have ends: "s' = settle_secret e job (case l of Launch_done \<Rightarrow> s3 | Launch_failed err \<Rightarrow> launchFailureCleanup e job err s3
      | Launch_stopped \<Rightarrow> retainOnInterrupt e job s3)"
    using assms(1) call bu r la by (auto simp: processWorkspaceBuildJob_def Let_def launch_phase_def split: launch_result.splits)
  have "bs_dispatched s' = bs_dispatched s3"
    unfolding ends using settle_secret_goes(2)[of e "\<lambda>_. True"] launchFailureCleanup_apart retainOnInterrupt_apart
    by (simp split: launch_result.splits)
  then have "row_kept s3 \<and> (\<forall>err. l = Launch_failed err \<longrightarrow> retained_error err)"
    using dispatched_kept[OF la _ assms(3-6,8)] assms(2) d2 by simp
  then have "row_kept s'"
    unfolding ends using cleanup_kept[OF _ assms(3)] retaining_retained
    by (cases l) (auto simp: row_kept_def retainOnInterrupt_def split: option.splits)
  then show ?thesis by (simp add: row_kept_def)
qed

section \<open>Two ends nobody picks up\<close>

lemma not_listed:
  assumes "unique_ids jobs" "getJobById i jobs = Some j" "\<not> claimable now j"
  shows "\<forall>x \<in> set (listRecoverableJobs rank now limit jobs). jb_id x \<noteq> i"
proof -
  have "x = j" if "x \<in> set jobs" "jb_id x = i" for x
    using that assms(1,2) by (auto simp: unique_ids_def getJobById_def find_Some_iff distinct_map inj_on_def)
  then show ?thesis using assms(3) by (auto simp: listRecoverableJobs_def dest!: in_set_takeD)
qed

text \<open>C26: a build whose success is not acknowledged strands its run. When the write that records the
  success takes effect but its answer is lost, the worker counts it as a failed build: the failure it
  reports is refused, as the job is succeeded, and nothing is launched or written to the run's row. The
  job is settled, so no worker can claim it and the list of recoverable jobs never holds it.\<close>

theorem unacknowledged_success_strands_run:
  assumes "unique_ids (bs_jobs s)" "claim_answer e s = Some (Some job)" "bp_built e = Built su p"
    and "bp_jobFault e (Suc (bs_jobCalls s)) = Lost_after"
    and "bp_jobOthers e (Suc (bs_jobCalls s)) = []" "bp_jobOthers e (Suc (Suc (bs_jobCalls s))) = []"
    and "bp_rowOthers e (bs_rowCalls s) = []"
  shows "\<exists>s' j. processWorkspaceBuildJob e s = (Build_not_done, s') \<and> bs_dispatched s' = bs_dispatched s \<and> bs_row s' = bs_row s \<and>
    getJobById (bp_jobId e) (bs_jobs s') = Some j \<and> jb_status j = Job_succeeded \<and> closed_to_workers (bp_jobId e) (bs_jobs s') \<and>
    (\<forall>rank now limit. \<forall>x \<in> set (listRecoverableJobs rank now limit (bs_jobs s')). jb_id x \<noteq> bp_jobId e)"
proof -
  let ?k = "bs_jobCalls s" and ?i = "bp_jobId e"
  obtain s1 where call: "job_call e (claimJobById ?i (bp_workerId e) (bp_leaseMs e)) s = (Some (Some job), s1)"
    using assms(2) by (metis claim_answer_def prod.collapse)
  let ?jobs0 = "run_jobs (bp_jobOthers e ?k) (bs_jobs s)"
  have claim: "claimJobById ?i (bp_workerId e) (bp_leaseMs e) (bp_jobClock e ?k) ?jobs0 = (Some job, bs_jobs s1)"
    using job_call_answer[OF call] .
  have "unique_ids (apply_job_op (bp_jobClock e ?k, Claim_by_id ?i (bp_workerId e) (bp_leaseMs e)) ?jobs0)"
    by (rule op_keeps_unique[OF run_keeps_unique[OF assms(1)]])
  then have u1: "unique_ids (bs_jobs s1)" using claim by simp
  obtain j0 where row: "getJobById ?i (bs_jobs s1) = Some job" "job = (claimed_by (bp_workerId e) (bp_leaseMs e) (bp_jobClock e ?k) j0)\<lparr>jb_updatedAt := bp_jobClock e ?k\<rparr>"
    using landed_row[OF run_keeps_unique[OF assms(1)] job_functions_keep_id(1) claim[unfolded claimJobById_def]] by blast
  have id: "jb_id job = ?i" by (rule claimed_job_id[OF run_keeps_unique[OF assms(1)] claim])
  have s1: "bs_jobCalls s1 = Suc ?k" "bs_rowCalls s1 = bs_rowCalls s" "bs_row s1 = bs_row s" "bs_dispatched s1 = bs_dispatched s"
    using call by (auto simp: job_call_def Let_def split: prod.splits fault.splits)
  let ?c = "\<lparr>cl_workerId = bp_workerId e, cl_attemptCount = jb_attemptCount job\<rparr>" and ?now = "bp_jobClock e (Suc ?k)"
  have held: "held_under_claim ?c job" using row(2) by (simp add: held_under_claim_def claimed_by_def)
  have "fst (markJobSucceeded ?i ?c (su\<lparr>su_publication := Some p\<rparr>) ?now (bs_jobs s1)) \<noteq> None"
    using row(1) held by (simp add: markJobSucceeded_def update_answer[OF u1])
  then obtain j jobs2 where j: "markJobSucceeded ?i ?c (su\<lparr>su_publication := Some p\<rparr>) ?now (bs_jobs s1) = (Some j, jobs2)"
    by (metis not_None_eq prod.collapse)
  have lands: "getJobById ?i jobs2 = Some j" "settled_job j" "unique_ids jobs2"
    using settling_lands[OF u1 disjI1[OF j]] by auto
  have done_: "jb_status j = Job_succeeded"
    using landed_row[OF u1 job_functions_keep_id(2) j[unfolded markJobSucceeded_def]] by (auto simp: succeeded_with_def)
  let ?s2 = "s1\<lparr>bs_jobs := jobs2, bs_jobCalls := Suc (Suc ?k)\<rparr>"
  have success: "job_call e (markJobSucceeded ?i ?c (su\<lparr>su_publication := Some p\<rparr>)) s1 = (None, ?s2)"
    using assms(4,5) s1(1) j by (simp add: job_call_def)
  have closed: "closed_to_workers ?i jobs2" by (rule settled_is_closed[OF lands(3,1,2)])
  define s3 where "s3 = buildFailureCleanup e job ?c (failure e ?s2) ?s2"
  have "fst (markJobFailed ?i (Some ?c) fa now jobs2) = None" for fa now
    using closed by (simp add: closed_to_workers_def)
  then have s3: "bs_jobs s3 = jobs2" "bs_row s3 = bs_row s" "bs_dispatched s3 = bs_dispatched s"
    using assms(6,7) s1 id by (simp_all add: s3_def buildFailureCleanup_def Let_def case_prod_beta)
  have "processWorkspaceBuildJob e s = (Build_not_done, s3)"
    using call success assms(3) id by (simp add: processWorkspaceBuildJob_def buildAndPublish_def s3_def)
  moreover have "\<not> claimable now j" for now using done_ by (simp add: claimable_def)
  ultimately show ?thesis
    using s3 lands(1) done_ closed not_listed[OF lands(3,1)] by fastforce
qed

text \<open>What a delivery that launches nothing does to the jobs: its claim, its success, its failure.\<close>

lemma undelivered_goes:
  assumes "processWorkspaceBuildJob e s = (d, s')" "\<And>r. d \<noteq> Delivered r" "unique_ids (bs_jobs s)"
    and "others_do e P" "\<And>op. build_op (bp_jobId e) op \<Longrightarrow> P op"
  shows "jobs_go P s s'"
proof -
  obtain a s1 where call: "job_call e (claimJobById (bp_jobId e) (bp_workerId e) (bp_leaseMs e)) s = (a, s1)"
    by (metis prod.exhaust)
  have go: "jobs_go P s s1"
    by (rule job_call_goes[OF call assms(4), of "Claim_by_id (bp_jobId e) (bp_workerId e) (bp_leaseMs e)"])
      (simp_all add: assms(5) build_op_def)
  show ?thesis
  proof (cases "\<exists>job. a = Some (Some job)")
    case True
    then obtain job where job: "a = Some (Some job)" ..
    have id: "jb_id job = bp_jobId e"
      using claimed_job_id[OF run_keeps_unique[OF assms(3)]] job_call_answer[OF call[unfolded job]] by blast
    obtain r s2 where bu: "buildAndPublish e job \<lparr>cl_workerId = bp_workerId e, cl_attemptCount = jb_attemptCount job\<rparr> s1 = (r, s2)"
      by (metis prod.exhaust)
    have "s' = s2"
      using assms(1,2) call job bu by (cases r) (auto simp: processWorkspaceBuildJob_def Let_def split: prod.splits)
    then show ?thesis using jobs_go_trans[OF go] buildAndPublish_goes[OF bu assms(4)] assms(5) id by simp
  next
    case False
    then have "s' = s1" using assms(1) call by (auto simp: processWorkspaceBuildJob_def split: option.splits)
    then show ?thesis using go by simp
  qed
qed

text \<open>No delivery of a settled job gets its claim.\<close>

lemma settled_not_delivered:
  assumes "unique_ids (bs_jobs s)" "getJobById (bp_jobId e) (bs_jobs s) = Some j" "settled_job j"
    and "others_do e (\<lambda>op. \<not> overrides (bp_jobId e) op)" "processWorkspaceBuildJob e s = (d, s')"
  shows "d = Not_claimed \<or> d = Claim_failed"
proof -
  let ?others = "bp_jobOthers e (bs_jobCalls s)"
  obtain a s1 where call: "job_call e (claimJobById (bp_jobId e) (bp_workerId e) (bp_leaseMs e)) s = (a, s1)" by (metis prod.exhaust)
  have others: "\<forall>(t, op) \<in> set ?others. \<not> overrides (bp_jobId e) op" using assms(4) by blast
  have "closed_to_workers (bp_jobId e) (run_jobs ?others (bs_jobs s))"
    using settled_stays_closed[OF assms(1-3) others] by blast
  then have refused: "fst (claimJobById (bp_jobId e) w ms now (run_jobs ?others (bs_jobs s))) = None" for w ms now
    by (simp add: closed_to_workers_def)
  have "a = None \<or> a = Some None"
  proof (cases a)
    case (Some answer)
    then have "answer = None" using job_call_answer[OF call[unfolded Some]] refused by (metis fst_conv)
    then show ?thesis using Some by simp
  qed simp
  then show ?thesis using assms(5) call by (auto simp: processWorkspaceBuildJob_def)
qed

definition others_leave :: "string \<Rightarrow> build_env \<Rightarrow> bool" where
  "others_leave i e \<longleftrightarrow> bp_jobId e = i \<and> others_do e (\<lambda>op. \<not> overrides i op \<and> \<not> clears_secret i op)"

definition keeps_secret :: "string \<Rightarrow> string \<Rightarrow> build_state \<Rightarrow> build_job \<Rightarrow> bool" where
  "keeps_secret i x s j \<longleftrightarrow> getJobById i (bs_jobs s) = Some j \<and> jb_secretEnvSealed j = Some x \<and> unique_ids (bs_jobs s)"

lemma undelivered_keeps_secret:
  assumes "processWorkspaceBuildJob e s = (d, s')" "\<And>r. d \<noteq> Delivered r" "keeps_secret i x s j" "others_leave i e"
  shows "\<exists>j'. keeps_secret i x s' j' \<and> (settled_job j \<longrightarrow> settled_job j')"
proof -
  let ?P = "\<lambda>op. \<not> overrides i op \<and> \<not> clears_secret i op"
  have row: "getJobById i (bs_jobs s) = Some j" "jb_secretEnvSealed j = Some x" "unique_ids (bs_jobs s)"
    using assms(3) by (auto simp: keeps_secret_def)
  have e: "bp_jobId e = i" "others_do e ?P" using assms(4) by (auto simp: others_leave_def)
  have go: "jobs_go ?P s s'"
    by (rule undelivered_goes[OF assms(1,2) row(3) e(2)]) (auto simp: build_op_def e(1))
  obtain ops where ops: "bs_jobs s' = run_jobs ops (bs_jobs s)" "\<forall>(t, op) \<in> set ops. ?P op"
    using go by (auto simp: jobs_go_def)
  obtain j1 where j1: "getJobById i (bs_jobs s') = Some j1" "settled_job j \<longrightarrow> same_end j j1"
    using settled.run[OF row(1), of ops] ops by fastforce
  obtain j2 where j2: "getJobById i (bs_jobs s') = Some j2" "jb_secretEnvSealed j2 = jb_secretEnvSealed j"
    using sealed.run[OF row(1), of ops] ops by fastforce
  have "keeps_secret i x s' j1" using j1(1) j2 row(2) unique_go[OF go row(3)] by (simp add: keeps_secret_def)
  then show ?thesis using j1(2) by (auto simp: settled_job_def same_end_def)
qed

lemma settled_keeps_secret:
  assumes "keeps_secret i x s j" "settled_job j" "list_all (others_leave i) es"
  shows "\<exists>j'. keeps_secret i x (fold (\<lambda>e s. snd (processWorkspaceBuildJob e s)) es s) j' \<and> settled_job j'"
  using assms
proof (induction es arbitrary: s j)
  case (Cons e es)
  obtain d s1 where run: "processWorkspaceBuildJob e s = (d, s1)" by (metis prod.exhaust)
  have e: "others_leave i e" using Cons.prems(3) by simp
  have "others_do e (\<lambda>op. \<not> overrides (bp_jobId e) op)" "bp_jobId e = i" using e by (fastforce simp: others_leave_def)+
  then have "d = Not_claimed \<or> d = Claim_failed"
    using settled_not_delivered[OF _ _ Cons.prems(2) _ run] Cons.prems(1) by (simp add: keeps_secret_def)
  then obtain j1 where "keeps_secret i x s1 j1" "settled_job j1"
    using undelivered_keeps_secret[OF run _ Cons.prems(1) e] Cons.prems(2) by (metis delivery.distinct(7,13))
  then show ?case using Cons.IH[of s1 j1] Cons.prems(3) run by simp
qed auto

text \<open>C27: a job that ends without a launch keeps its sealed secret. A delivery that launches nothing
  (its claim refused, its build failed, its success not recorded) leaves the secret environment on the
  job's row; and once the job is settled, as it is when its build failed or it was cancelled, it stays
  there through every later delivery, none of which gets a claim. Only another worker's delivery that
  launches the run clears it, and nothing resets the job.\<close>

theorem unlaunched_job_keeps_secret:
  assumes "unique_ids (bs_jobs s)" "getJobById i (bs_jobs s) = Some j0" "jb_secretEnvSealed j0 = Some x"
    and "processWorkspaceBuildJob e s = (d, s1)" "\<forall>r. d \<noteq> Delivered r"
    and "list_all (others_leave i) (e # es)"
  shows "\<exists>j. getJobById i (bs_jobs s1) = Some j \<and> jb_secretEnvSealed j = Some x \<and> (settled_job j0 \<longrightarrow> settled_job j) \<and>
    (settled_job j \<longrightarrow>
      (\<exists>j'. getJobById i (bs_jobs (fold (\<lambda>e s. snd (processWorkspaceBuildJob e s)) es s1)) = Some j' \<and> settled_job j' \<and>
         jb_secretEnvSealed j' = Some x))"
proof -
  have "keeps_secret i x s j0" using assms(1-3) by (simp add: keeps_secret_def)
  then obtain j where j: "keeps_secret i x s1 j" "settled_job j0 \<longrightarrow> settled_job j"
    using undelivered_keeps_secret[OF assms(4) _ _, of i x j0] assms(5,6) by auto
  have "settled_job j \<Longrightarrow> \<exists>j'. keeps_secret i x (fold (\<lambda>e s. snd (processWorkspaceBuildJob e s)) es s1) j' \<and> settled_job j'"
    using settled_keeps_secret[OF j(1), of es] assms(6) by simp
  then show ?thesis using j unfolding keeps_secret_def by blast
qed

section \<open>The theorems on a delivery\<close>

definition some_publication :: publication where
  "some_publication = \<lparr>pb_value = Null, pb_id = ''p'', pb_image = None\<rparr>"

definition some_identity :: launch_identity where
  "some_identity = \<lparr>li_adapter = ''docker'', li_resourceId = ''c'', li_reference = ''ref'', li_endpoint = None, li_deadline = None\<rparr>"

text \<open>A worker whose launch ends with \<open>answer\<close>, and whose \<open>n\<close>-th call to the table of jobs loses its answer.\<close>

definition delivering :: "nat option \<Rightarrow> launch_answer \<Rightarrow> build_env" where
  "delivering n answer =
     \<lparr>bp_jobOthers = (\<lambda>_. []), bp_jobClock = (\<lambda>k. int k + 1), bp_jobFault = (\<lambda>k. if Some k = n then Lost_after else No_fault),
      bp_rowOthers = (\<lambda>_. []), bp_rowClock = (\<lambda>k. (int k, int k)), bp_rowFault = (\<lambda>_. No_fault), bp_jobId = ''j'',
      bp_workerId = ''w'', bp_leaseMs = 10, bp_built = Built plain_success some_publication, bp_owner = ''o'', bp_launchLeaseMs = 5,
      bp_sourceKind = ''capture'', bp_scope = None, bp_daemonImage = None, bp_daemonRecoveryBoot = None, bp_injections = Null,
      bp_refused = None, bp_prepared = None, bp_abandoned = False, bp_reports = [some_identity], bp_launch = answer,
      bp_error = (\<lambda>_. ''e'')\<rparr>"

definition undelivered :: "build_job list \<Rightarrow> build_state" where
  "undelivered jobs = \<lparr>bs_jobs = jobs, bs_jobCalls = 0, bs_row = None, bs_rowCalls = 0, bs_dispatched = 0, bs_owning = False,
     bs_lost = False, bs_started = None, bs_keepSealed = False\<rparr>"

definition retained_answer :: launch_answer where
  "retained_answer = Launch_error (retaining some_identity ''boom'')"

definition after_delivery :: "delivery \<times> build_state" where
  "after_delivery = processWorkspaceBuildJob (delivering None retained_answer) (undelivered one_job)"

definition first_job :: build_job where
  "first_job = claim_at ''w'' 1 one_job"

lemma delivery_samples:
  "bs_dispatched (undelivered one_job) < bs_dispatched (snd after_delivery)"
  "claim_answer (delivering None retained_answer) (undelivered one_job) = Some (Some first_job)"
  "claim_answer (delivering (Some 1) retained_answer) (undelivered one_job) = Some (Some first_job)"
  "jb_runId first_job \<noteq> None" "unique_ids (bs_jobs (undelivered one_job))"
  by code_simp+

lemma delivery_facts:
  "processWorkspaceBuildJob (delivering None retained_answer) (undelivered one_job) = (fst after_delivery, snd after_delivery)"
  "others_do (delivering n answer) P" "nobody_else_launches (delivering n answer)" "ends_as_reported (delivering n retained_answer)" "bp_reports (delivering n answer) \<noteq> []"
  "launchHoldsCaptures (delivering n answer)" "bp_built (delivering n answer) = Built plain_success some_publication"
  "bp_jobOthers (delivering n answer) k = []" "bp_rowOthers (delivering n answer) k = []" "bp_jobId (delivering n answer) = ''j''"
  "bp_jobFault (delivering (Some 1) answer) (Suc (bs_jobCalls (undelivered jobs))) = Lost_after"
proof -
  have "thrown_at_launch (delivering n retained_answer) (retaining some_identity ''boom'')"
    unfolding thrown_at_launch_def
    by (rule exI[of _ some_identity], rule exI[of _ Rt_running], rule exI[of _ "\<lparr>be_message = ''boom'', be_code = None, be_retained = None\<rparr>"])
      (simp add: failLaunch_retains launchHoldsCaptures_def delivering_def)
  then show "ends_as_reported (delivering n retained_answer)"
    by (simp add: ends_as_reported_def delivering_def retained_answer_def)
qed (simp_all add: after_delivery_def delivering_def launchHoldsCaptures_def undelivered_def)

theorem launch_follows_own_success_witness:
  "bs_dispatched (snd after_delivery) = 1 \<and> closed_to_workers ''j'' (bs_jobs (snd after_delivery))"
  using launch_follows_own_success[OF delivery_facts(1) delivery_samples(5,1) delivery_facts(2)]
  by (simp add: delivery_facts(10) undelivered_def)

theorem started_executor_is_kept_witness: "\<exists>r. bs_row (snd after_delivery) = Some r \<and> kept_row r"
  by (rule started_executor_is_kept[OF delivery_facts(1) delivery_samples(1) delivery_facts(3,4,5,6) delivery_samples(2,4)])

theorem unacknowledged_success_strands_run_witness:
  "\<exists>s'. processWorkspaceBuildJob (delivering (Some 1) retained_answer) (undelivered one_job) = (Build_not_done, s') \<and>
     bs_dispatched s' = 0 \<and> bs_row s' = None"
  using unacknowledged_success_strands_run[OF delivery_samples(5,3) delivery_facts(7,11,8,8,9)] by (auto simp: undelivered_def)

text \<open>A worker whose build fails.\<close>

definition failing :: build_env where
  "failing = (delivering None retained_answer)\<lparr>bp_built := Build_failed \<lparr>be_message = ''no image'', be_code = None, be_retained = None\<rparr>\<rparr>"

definition after_failure :: build_state where
  "after_failure = snd (processWorkspaceBuildJob failing (undelivered one_job))"

definition failed_job :: build_job where
  "failed_job = the (getJobById ''j'' (bs_jobs after_failure))"

lemma failing_samples:
  "processWorkspaceBuildJob failing (undelivered one_job) = (Build_not_done, after_failure)"
  "getJobById ''j'' (bs_jobs (undelivered one_job)) = Some (hd one_job)"
  "jb_secretEnvSealed (hd one_job) = Some ''sealed''"
  "getJobById ''j'' (bs_jobs after_failure) = Some failed_job" "jb_status failed_job = Job_failed"
  by code_simp+

theorem unlaunched_job_keeps_secret_witness:
  "\<exists>j'. getJobById ''j'' (bs_jobs (snd (processWorkspaceBuildJob (delivering None retained_answer) after_failure))) = Some j' \<and>
     jb_secretEnvSealed j' = Some ''sealed''"
proof -
  have others: "list_all (others_leave ''j'') [failing, delivering None retained_answer]"
    by (simp add: failing_def delivering_def others_leave_def)
  have "settled_job failed_job" using failing_samples(5) by (simp add: settled_job_def)
  then show ?thesis
    using unlaunched_job_keeps_secret[OF delivery_samples(5) failing_samples(2,3,1) _ others] failing_samples(4) by auto
qed

end
