(* ===== verification/Runtime_Exits.thy ===== *)
theory Runtime_Exits
  imports Workspace_Stop_Proofs
begin

text \<open>
  The sweep of executors that ended without being asked to, and of launches whose worker was lost
  (\<open>packages/workspaces/src/worker/reconcile-runtime-exits.ts\<close>, \<open>adopt-stranded-launches.ts\<close>). The tables,
  the runtime and the drain are met as in a stop: before each call of the sweep to a table of a run the
  operations of other connections happen, and the call may fail. What the runtime, the daemon and the
  attempt's snapshot answer are arguments. The staged material, the attempts' table and the log are not
  modelled.
\<close>

section \<open>What a runtime says of an executor\<close>

text \<open>\<open>ed_platformEnded\<close>: what the platform reports of the machine under it, where the two can differ.\<close>

record ended =
  ed_exitCode :: "int option"
  ed_detail :: "string option"
  ed_platformEnded :: "bool option"
  ed_platformState :: "string option"

datatype runtime_end = End_missing | End_exited ended

datatype inspection = Still_running | Has_ended runtime_end

fun end_state :: "runtime_end \<Rightarrow> runtime_state" where
  "end_state End_missing = Rt_missing"
| "end_state (End_exited _) = Rt_exited"

fun inspected_state :: "inspection \<Rightarrow> runtime_state" where
  "inspected_state Still_running = Rt_running"
| "inspected_state (Has_ended en) = end_state en"

definition describeExit :: "string \<Rightarrow> runtime_instance \<Rightarrow> runtime_end \<Rightarrow> string" where
  "describeExit runId r en =
     (let name = given (or_old (ri_reference r) (ri_resourceId r)) runId in
      case en of
        End_missing \<Rightarrow> ''Workspace runtime '' @ [char_of (39::nat)] @ name @ [char_of (39::nat)] @
          '' is gone: the runtime no longer knows it, and no stop was requested.''
      | End_exited x \<Rightarrow> ''Workspace runtime '' @ [char_of (39::nat)] @ name @ [char_of (39::nat)] @ '' exited on its own (exitCode: '' @
          (case ed_exitCode x of None \<Rightarrow> ''unknown'' | Some c \<Rightarrow> show_int c) @ '').'' @
          (case ed_detail x of None \<Rightarrow> '''' | Some d \<Rightarrow> '' '' @ d))"

section \<open>The end of a runtime with a lifetime\<close>

definition HARD_CAP_SLACK_MS :: int where "HARD_CAP_SLACK_MS = 60000"

text \<open>\<open>Math.round\<close> of a number of milliseconds in seconds.\<close>

definition round_seconds :: "int \<Rightarrow> int" where
  "round_seconds ms = (ms + 500) div 1000"

definition describeDeadlineDistance :: "int \<Rightarrow> int \<Rightarrow> string" where
  "describeDeadlineDistance deadline now =
     (let deltaS = round_seconds (deadline - now) in
      if 0 \<le> deltaS then show_int deltaS @ '' s left'' else ''passed '' @ show_int (- deltaS) @ '' s ago'')"

datatype report_level = Level_error | Level_warning

definition platform_ended :: "runtime_end \<Rightarrow> bool" where
  "platform_ended en \<longleftrightarrow> (case en of End_missing \<Rightarrow> True | End_exited x \<Rightarrow> ed_platformEnded x = Some True)"

definition in_brackets :: "string option \<Rightarrow> string" where
  "in_brackets detail = (case detail of None \<Rightarrow> '''' | Some d \<Rightarrow> '' ('' @ d @ '')'')"

text \<open>\<open>isoText\<close>: the text of an instant. Instants are in milliseconds.\<close>

definition describeCappedRuntimeEnd ::
  "(int \<Rightarrow> string) \<Rightarrow> string \<Rightarrow> int option \<Rightarrow> runtime_end \<Rightarrow> int \<Rightarrow> (report_level \<times> string) option"
where
  "describeCappedRuntimeEnd isoText runId deadlineAt en now =
     (case deadlineAt of
        None \<Rightarrow> None
      | Some deadline \<Rightarrow>
          if now < deadline - HARD_CAP_SLACK_MS then None
          else
            let timing = ''deadline '' @ isoText deadline @ separator @ describeDeadlineDistance deadline now;
                head = ''Runtime exit reconciler: run '' @ runId @ separator
            in Some (if platform_ended en then
              (Level_error, head @ ''executor ended by the platform'' @ separator @ ''observed ('' @
                (case en of End_missing \<Rightarrow> ''the platform no longer knows it''
                 | End_exited x \<Rightarrow> ''platform '' @ given (ed_platformState x) ''ended'' @ in_brackets (ed_detail x)) @ '')'' @ separator @ timing @
                (if deadline \<le> now then separator @ ''at or past its lifetime cap'' else '''') @
                ''. Its disk went with it: whatever its daemon had not shipped is not recoverable from it.'')
            else
              (Level_warning, head @
                (case en of End_missing \<Rightarrow> ''''
                 | End_exited x \<Rightarrow> ''daemon exited'' @ (case ed_exitCode x of None \<Rightarrow> '''' | Some c \<Rightarrow> '' with '' @ show_int c) @
                    in_brackets (ed_detail x) @ separator @
                    (if ed_platformEnded x = Some False
                     then ''platform still reports the machine '' @ given (ed_platformState x) ''up'' @ separator @ ''disk present''
                     else ''platform state not observed'')) @ separator @ timing @
                ''. Nothing observed says the platform ended it; its disk is kept or released by the preservation policy, and any recovery must finish before the deadline.'')))"

section \<open>Before an end is recorded\<close>

record removal_basis =
  rb_captureSourced :: bool
  rb_basis :: deletion_basis
  rb_ticket :: "string option"

definition NOT_CAPTURE :: removal_basis where
  "NOT_CAPTURE = \<lparr>rb_captureSourced = False, rb_basis = Not_capture, rb_ticket = None\<rparr>"

datatype exit_verdict = Record removal_basis | Leave | Record_keep string

record exit_options =
  xo_adapters :: "adapter list"
  xo_drain :: "stop_drain option"
  xo_reachable :: "runtime_instance \<Rightarrow> bool"

text \<open>What the sweep meets at one run. \<open>xe_probe\<close>: what the one status asked of its daemon brought back;
  \<open>xe_found\<close>: what the runtime says of its executor, \<^const>\<open>None\<close> when it could not be asked.\<close>

record exit_env =
  xe_env :: stop_env
  xe_runId :: string
  xe_probe :: sample
  xe_found :: "inspection option"

definition exit_target :: "exit_env \<Rightarrow> adapter \<Rightarrow> runtime_instance \<Rightarrow> string \<Rightarrow> bool \<Rightarrow> stop_target" where
  "exit_target e ad r rid captureSourced =
     \<lparr>tg_adapter = ad, tg_resourceId = rid,
      tg_executor = \<lparr>xi_runId = xe_runId e, xi_resourceId = ri_resourceId r, xi_reference = ri_reference r\<rparr>,
      tg_captureSourced = captureSourced\<rparr>"

text \<open>Every decision of the sweep is taken on the record, with the ledger there.\<close>

definition ended_deleter :: "stop_target \<Rightarrow> runtime_state \<Rightarrow> bool \<Rightarrow> deleter" where
  "ended_deleter tg rt drainedNow =
     \<lparr>dl_hasLedger = True, dl_decide = decide_on_record (tg_captureSourced tg) rt drainedNow (tg_executor tg),
      dl_runtime = Some rt, dl_removalFenceMs = ad_removalFenceMs (tg_adapter tg), dl_recovery = None\<rparr>"

definition decide_ended :: "exit_env \<Rightarrow> stop_target \<Rightarrow> runtime_state \<Rightarrow> bool \<Rightarrow> stop_state \<Rightarrow> exit_verdict \<times> stop_state" where
  "decide_ended e tg rt drainedNow s =
     (let (az, s1) = with_worker (authorizedDeletion (se_ledger (xe_env e)) (ended_deleter tg rt drainedNow)) s in
      (case az_decision az of
         Delete b \<Rightarrow> Record \<lparr>rb_captureSourced = tg_captureSourced tg, rb_basis = b, rb_ticket = az_ticket az\<rparr>
       | Keep why \<Rightarrow> if az_heldElsewhere az then Leave else Record_keep why, s1))"

text \<open>The daemon still answers: it is drained first, under a claim of the drain's own.\<close>

definition drain_ended ::
  "exit_env \<Rightarrow> stop_drain \<Rightarrow> stop_target \<Rightarrow> runtime_state \<Rightarrow> stop_state \<Rightarrow> (exit_verdict \<times> stop_state) option"
where
  "drain_ended e dr tg rt s =
     (case with_worker (claim_call (se_ledger (xe_env e)) (sn_owner dr) (sn_leaseMs dr)) s of
        (None, s1) \<Rightarrow> Some (Leave, s1)
      | (Some (entry, token), s1) \<Rightarrow>
          (case drainCaptureBeforeStop (sn_call dr) (se_drained (xe_env e)) False (Some entry) of
             None \<Rightarrow> None
           | Some (outcome, _) \<Rightarrow>
               let s2 = on_worker (unclaim_call (se_ledger (xe_env e)) (sn_owner dr) token) s1 in
               Some (case outcome of
                 Gone _ _ \<Rightarrow> (Record \<lparr>rb_captureSourced = True, rb_basis = Missing, rb_ticket = None\<rparr>, s2)
               | Drained _ \<Rightarrow>
                   (case decide_ended e tg rt True s2 of
                      (Record rb, s3) \<Rightarrow> (Record rb, s3)
                    | (_, s3) \<Rightarrow> (Leave, s3))
               | _ \<Rightarrow> (Leave, s2))))"

text \<open>A capture-sourced executor: what its daemon answers to one status decides whether it is drained.\<close>

definition probe_ended ::
  "exit_env \<Rightarrow> stop_drain \<Rightarrow> bool \<Rightarrow> stop_target \<Rightarrow> runtime_state \<Rightarrow> stop_state \<Rightarrow> (exit_verdict \<times> stop_state) option"
where
  "probe_ended e dr reachable tg rt s =
     (if \<not> reachable then Some (decide_ended e tg rt False s)
      else case xe_probe e of
        Sample_unrecorded _ \<Rightarrow> Some (Leave, s)
      | Sample_unreachable _ \<Rightarrow> Some (decide_ended e tg rt False s)
      | _ \<Rightarrow> drain_ended e dr tg rt s)"

definition drainBeforeRecording ::
  "exit_env \<Rightarrow> exit_options \<Rightarrow> adapter \<Rightarrow> runtime_instance \<Rightarrow> string \<Rightarrow> runtime_state \<Rightarrow> stop_state \<Rightarrow>
     (exit_verdict \<times> stop_state) option"
where
  "drainBeforeRecording e opt ad r rid rt s =
     (let source = runIsCaptureSourced (ri_sourceKind r) (se_snapshot (xe_env e)) in
      case xo_drain opt of
        None \<Rightarrow> Some (if source = Some False then Record NOT_CAPTURE else Leave, s)
      | Some dr \<Rightarrow>
          let (rd, s1) = with_worker (read_call (se_ledger (xe_env e))) s in
          if in_entry (\<lambda>en. en_discardRequested en \<noteq> None) rd
          then Some (Record \<lparr>rb_captureSourced = True, rb_basis = Discarded, rb_ticket = None\<rparr>, s1)
          else case source of
            None \<Rightarrow> Some (Leave, s1)
          | Some False \<Rightarrow> Some (decide_ended e (exit_target e ad r rid False) rt False s1)
          | Some True \<Rightarrow> probe_ended e dr (xo_reachable opt r) (exit_target e ad r rid True) rt s1)"

section \<open>Recording an end\<close>

text \<open>A write of the end of the run's row: \<^const>\<open>None\<close> is an error, \<open>Some None\<close> wrote nothing.\<close>

type_synonym terminal = "int \<Rightarrow> runtime_instance option \<Rightarrow> runtime_instance option option \<times> runtime_instance option"

definition stopped_write :: "stop_reason \<Rightarrow> terminal" where
  "stopped_write reason at row = (let (a, row') = markStopped reason None at row in (map_option Some a, row'))"

definition exited_write :: "string \<Rightarrow> string \<Rightarrow> terminal" where
  "exited_write rid why at row = (let (a, row') = markExited rid why None at row in (Some a, row'))"

definition terminal_call :: "stop_env \<Rightarrow> terminal \<Rightarrow> stop_state \<Rightarrow> runtime_instance option option \<times> stop_state" where
  "terminal_call e f s = (let (a, s1) = instance_call e f s in (Option.bind a id, s1))"

text \<open>The retention and the write in one transaction: a write that throws, a statement or a commit that
  fails leaves neither; a commit whose acknowledgement is lost leaves both, reported as failed.\<close>

definition withRetention :: "stop_env \<Rightarrow> string \<Rightarrow> terminal \<Rightarrow> stop_state \<Rightarrow> runtime_instance option option \<times> stop_state" where
  "withRetention e reason f s =
     (let w = ss_worker s; k = wk_calls w; m = ss_instanceCalls s;
          drain = run_ledger (sd_others (se_ledger e) k) (wk_row w);
          row = run_instance (se_instanceOthers e m) (ss_instance s);
          (a, row') = f (fst (se_instanceClock e m)) row;
          others = s\<lparr>ss_worker := w\<lparr>wk_row := drain, wk_calls := Suc k\<rparr>, ss_instance := row, ss_instanceCalls := Suc m\<rparr>;
          both = s\<lparr>ss_worker := w\<lparr>wk_row := markRetained reason (sd_clock (se_ledger e) k) drain, wk_calls := Suc k\<rparr>,
            ss_instance := row', ss_instanceCalls := Suc m\<rparr>
      in if a = None \<or> se_instanceFault e m \<noteq> No_fault \<or> sd_fault (se_ledger e) k = Lost_before then (None, others)
         else (if sd_fault (se_ledger e) k = Lost_after then None else a, both))"

definition terminally ::
  "stop_env \<Rightarrow> exit_verdict \<Rightarrow> terminal \<Rightarrow> stop_state \<Rightarrow> runtime_instance option option \<times> stop_state"
where
  "terminally e verdict f s =
     (case verdict of Record_keep why \<Rightarrow> withRetention e why f s | _ \<Rightarrow> terminal_call e f s)"

text \<open>A removal held for remains that stay: given up, unless it was issued earlier and may still act.\<close>

definition giveUpRemoval :: "stop_env \<Rightarrow> exit_options \<Rightarrow> exit_verdict \<Rightarrow> stop_state \<Rightarrow> stop_state" where
  "giveUpRemoval e opt verdict s =
     (case verdict of
        Record rb \<Rightarrow>
          (case (rb_ticket rb, xo_drain opt) of
             (Some t, Some _) \<Rightarrow>
               on_worker (if rb_basis rb = Issued_before then lapse_call (se_ledger e) t else release_call (se_ledger e) t) s
           | _ \<Rightarrow> s)
      | _ \<Rightarrow> s)"

definition removeRemains :: "stop_env \<Rightarrow> exit_options \<Rightarrow> string \<Rightarrow> removal_basis \<Rightarrow> stop_state \<Rightarrow> stop_state" where
  "removeRemains e opt rid rb s =
     (let (removal, w) = removeUnderDeletion (se_ledger e) \<lparr>rn_exit = se_end e, rn_renewals = se_renewals e\<rparr>
            (xo_drain opt \<noteq> None) (rb_basis rb) (rb_ticket rb) (ss_worker s);
          s1 = s\<lparr>ss_worker := w\<rparr>
      in if removal \<noteq> Removed then s1
         else
           let s2 = snd (instance_call e (\<lambda>at row. ((), markRemoved rid at row)) s1) in
           if rb_captureSourced rb \<and> xo_drain opt \<noteq> None
           then on_worker (observe_call (se_ledger e) Ds_stopped
             (Some (''the ended runtime was removed: '' @ describeDeletionBasis (rb_basis rb)))) s2
           else s2)"

text \<open>A stop under way makes the end that stop completing; otherwise it is an exit. Whether it was recorded.\<close>

definition record_end ::
  "exit_env \<Rightarrow> exit_options \<Rightarrow> runtime_instance \<Rightarrow> string \<Rightarrow> runtime_end \<Rightarrow> exit_verdict \<Rightarrow> stop_state \<Rightarrow> bool \<times> stop_state"
where
  "record_end e opt r rid en verdict s =
     (let f = (case ri_stopReason r of
          Some reason \<Rightarrow> stopped_write reason
        | None \<Rightarrow> exited_write rid (describeExit (xe_runId e) r en))
      in case terminally (xe_env e) verdict f s of
           (Some (Some _), s1) \<Rightarrow>
             (True, case verdict of Record rb \<Rightarrow> removeRemains (xe_env e) opt rid rb s1 | _ \<Rightarrow> s1)
         | (_, s1) \<Rightarrow> (False, giveUpRemoval (xe_env e) opt verdict s1))"

text \<open>One row of the sweep.\<close>

definition reconcile_instance ::
  "exit_env \<Rightarrow> exit_options \<Rightarrow> adapter \<Rightarrow> runtime_instance \<Rightarrow> stop_state \<Rightarrow> (bool \<times> stop_state) option"
where
  "reconcile_instance e opt ad r s =
     (case (ri_resourceId r, xe_found e) of
        (Some rid, Some (Has_ended en)) \<Rightarrow>
          map_option (\<lambda>(verdict, s1). if verdict = Leave then (False, s1) else record_end e opt r rid en verdict s1)
            (drainBeforeRecording e opt ad r rid (end_state en) s)
      | _ \<Rightarrow> Some (False, s))"

section \<open>Ended executors nothing settled\<close>

definition gone_detail :: "adapter \<Rightarrow> string \<Rightarrow> string" where
  "gone_detail ad rid = ''the ended runtime ('' @ ad_id ad @ '' '' @ rid @ '') is gone; nothing of it is left''"

definition unsettled_reason :: "runtime_state \<Rightarrow> string \<Rightarrow> string" where
  "unsettled_reason rt why =
     (if rt = Rt_running then ''the executor of an ended run is still running and its work is not confirmed saved'' else why)"

definition settle_unsettled ::
  "exit_env \<Rightarrow> exit_options \<Rightarrow> adapter \<Rightarrow> runtime_instance \<Rightarrow> string \<Rightarrow> stop_state \<Rightarrow> stop_state"
where
  "settle_unsettled e opt ad r rid s =
     (case (runIsCaptureSourced (ri_sourceKind r) (se_snapshot (xe_env e)), xe_found e) of
        (Some True, Some seen) \<Rightarrow>
          let rt = inspected_state seen; sd = se_ledger (xe_env e);
              (az, s1) = with_worker (authorizedDeletion sd (ended_deleter (exit_target e ad r rid True) rt False)) s
          in (case az_decision az of
                Delete b \<Rightarrow>
                  if b = Missing
                  then on_worker (observe_call sd Ds_gone (Some (gone_detail ad rid))) s1
                  else removeRemains (xe_env e) opt rid \<lparr>rb_captureSourced = True, rb_basis = b, rb_ticket = az_ticket az\<rparr> s1
              | Keep why \<Rightarrow>
                  if az_heldElsewhere az then s1
                  else on_worker (retain_call sd (unsettled_reason rt why)) s1)
      | _ \<Rightarrow> s)"

section \<open>The remains of stopped executors\<close>

text \<open>What others do before the sweep reads a run's rows, or before it asks the runtime.\<close>

definition others_first :: "stop_env \<Rightarrow> stop_state \<Rightarrow> stop_state" where
  "others_first e s =
     (let w = ss_worker s in
      s\<lparr>ss_worker := w\<lparr>wk_row := run_ledger (sd_others (se_ledger e) (wk_calls w)) (wk_row w), wk_calls := Suc (wk_calls w)\<rparr>,
        ss_instance := run_instance (se_instanceOthers e (ss_instanceCalls s)) (ss_instance s),
        ss_instanceCalls := Suc (ss_instanceCalls s)\<rparr>)"

text \<open>The runtime is asked for the removal of what remains; \<open>rq\<close>: the rows at that instant.\<close>

record remains_request =
  rq_run :: string
  rq_resourceId :: string
  rq_drain :: "drain_row option"
  rq_instance :: "runtime_instance option"

definition remove_stopped_remains :: "exit_env \<Rightarrow> string \<Rightarrow> stop_state \<Rightarrow> remains_request \<times> stop_state" where
  "remove_stopped_remains e rid s =
     (let s1 = others_first (xe_env e) s;
          rq = \<lparr>rq_run = xe_runId e, rq_resourceId = rid, rq_drain = wk_row (ss_worker s1), rq_instance = ss_instance s1\<rparr>
      in (rq, if se_remove (xe_env e) then snd (instance_call (xe_env e) (\<lambda>at row. ((), markRemoved rid at row)) s1) else s1))"

section \<open>Stranded launches\<close>

datatype locate_answer = Cannot_look | Look_failed | Not_found | Found located

text \<open>The runtimes are asked in order until one has it: what was found, and whether all of them looked.\<close>

fun look :: "locate_answer list \<Rightarrow> located option \<times> bool" where
  "look [] = (None, True)"
| "look (Found l # _) = (Some l, True)"
| "look (Not_found # rest) = look rest"
| "look (Cannot_look # rest) = (fst (look rest), False)"
| "look (Look_failed # rest) = (fst (look rest), False)"

text \<open>A call that compares with the database's clock.\<close>

definition stranded_call ::
  "stop_env \<Rightarrow> (int \<Rightarrow> int \<Rightarrow> runtime_instance option \<Rightarrow> runtime_instance option \<times> runtime_instance option) \<Rightarrow> stop_state \<Rightarrow>
     runtime_instance option option \<times> stop_state"
where
  "stranded_call e f s = instance_call e (\<lambda>at. f at (snd (se_instanceClock e (ss_instanceCalls s)))) s"

definition lost_message :: string where
  "lost_message = ''The worker launching this workspace was lost before it started an executor any runtime knows of; nothing was kept. Launch it again.''"

definition identifyUnrecordedExecutor :: "exit_env \<Rightarrow> int \<Rightarrow> int \<Rightarrow> locate_answer list \<Rightarrow> runtime_instance \<Rightarrow> stop_state \<Rightarrow> stop_state" where
  "identifyUnrecordedExecutor e unownedGraceMs lostGraceMs answers r s =
     (if ri_adapter r = Some ''boat'' then s
      else case look answers of
        (Some l, _) \<Rightarrow> snd (stranded_call (xe_env e) (identifyStrandedLaunch l unownedGraceMs) s)
      | (None, everyRuntimeLooked) \<Rightarrow>
          if answers = [] \<or> \<not> everyRuntimeLooked then s
          else snd (stranded_call (xe_env e) (failLostLaunch lost_message unownedGraceMs lostGraceMs) s))"

definition stranded_message :: "string \<Rightarrow> runtime_instance \<Rightarrow> string" where
  "stranded_message runId r =
     ''The executor ('' @ given (ri_adapter r) ''unknown runtime'' @ '' '' @ given (ri_resourceId r) runId @
     '') started, and the worker launching it was lost before the launch finished. It was kept as a retained launch so no work is lost: it is drained and stopped once its work is confirmed saved.''"

text \<open>Once adopted the runtime is asked about it; an unreadable answer counts as running.\<close>

definition adopt_stranded ::
  "exit_env \<Rightarrow> exit_options \<Rightarrow> int \<Rightarrow> runtime_instance \<Rightarrow> stop_state \<Rightarrow> bool \<times> stop_state"
where
  "adopt_stranded e opt unownedGraceMs r s =
     (case stranded_call (xe_env e) (adoptStrandedLaunch (stranded_message (xe_runId e) r) unownedGraceMs) s of
        (Some (Some row), s1) \<Rightarrow>
          (if xo_drain opt = None \<or> \<not> (\<exists>ad \<in> set (xo_adapters opt). Some (ad_id ad) = ri_adapter row \<and> ad_inspects ad)
           then (True, s1)
           else case runIsCaptureSourced (ri_sourceKind row) (se_snapshot (xe_env e)) of
             None \<Rightarrow> (False, s1)
           | Some False \<Rightarrow> (True, s1)
           | Some True \<Rightarrow>
               (True, if map_option inspected_state (xe_found e) = Some Rt_exited
                 then on_worker (retain_call (se_ledger (xe_env e))
                   ''its launch was stranded (the launching worker was lost) and the executor ended'') s1
                 else s1))
      | (_, s1) \<Rightarrow> (False, s1))"

section \<open>The sweep\<close>

text \<open>The runs there are, in the order the database lists them; each has its own rows.\<close>

type_synonym world = "string \<Rightarrow> stop_state"

datatype sweep_part = Identifying | Adopting | Reconciling | Settling | Removing

record sweep_env =
  sw_env :: "sweep_part \<Rightarrow> string \<Rightarrow> exit_env"
  sw_answers :: "string \<Rightarrow> locate_answer list"
  sw_unownedGraceMs :: int
  sw_lostGraceMs :: int
  sw_now :: "sweep_part \<Rightarrow> int"

definition instance_row :: "world \<Rightarrow> string \<Rightarrow> runtime_instance option" where
  "instance_row st i = ss_instance (st i)"

text \<open>A listing: others come first; the rows that satisfy the condition, with their runs.\<close>

definition arrive :: "(string \<Rightarrow> exit_env) \<Rightarrow> string list \<Rightarrow> world \<Rightarrow> world" where
  "arrive es runs st = (\<lambda>i. if i \<in> set runs then others_first (xe_env (es i)) (st i) else st i)"

definition listing :: "(runtime_instance \<Rightarrow> drain_row option \<Rightarrow> bool) \<Rightarrow> string list \<Rightarrow> world \<Rightarrow> (string \<times> runtime_instance) list" where
  "listing P runs st =
     List.map_filter (\<lambda>i. case instance_row st i of
        Some r \<Rightarrow> if P r (wk_row (ss_worker (st i))) then Some (i, r) else None
      | None \<Rightarrow> None) runs"

definition named :: "string list option \<Rightarrow> runtime_instance \<Rightarrow> bool" where
  "named wanted r \<longleftrightarrow> ri_resourceId r \<noteq> None \<and> (case wanted of None \<Rightarrow> True | Some ids \<Rightarrow> the (ri_resourceId r) \<in> set ids)"

text \<open>One row after another, each on the rows of its own run.\<close>

definition each_run ::
  "(string \<Rightarrow> runtime_instance \<Rightarrow> stop_state \<Rightarrow> 'a \<times> stop_state) \<Rightarrow> (string \<times> runtime_instance) list \<Rightarrow> world \<Rightarrow> 'a list \<times> world"
where
  "each_run f rows st =
     fold (\<lambda>(i, r) (as, st). case f i r (st i) of (a, s) \<Rightarrow> (as @ [a], st(i := s))) rows ([], st)"

definition adapter_of :: "exit_options \<Rightarrow> runtime_instance \<Rightarrow> adapter option" where
  "adapter_of opt r = find (\<lambda>ad. Some (ad_id ad) = ri_adapter r) (xo_adapters opt)"

definition adoptStrandedLaunches :: "sweep_env \<Rightarrow> exit_options \<Rightarrow> string list option \<Rightarrow> string list \<Rightarrow> world \<Rightarrow> world" where
  "adoptStrandedLaunches v opt wanted runs st =
     (let st1 = (if wanted \<noteq> None then st
          else let st0 = arrive (sw_env v Identifying) runs st in
            snd (each_run (\<lambda>i r s. ((), identifyUnrecordedExecutor (sw_env v Identifying i) (sw_unownedGraceMs v) (sw_lostGraceMs v) (sw_answers v i) r s))
              (listing (\<lambda>r _. strandedUnidentified (sw_unownedGraceMs v) 0 (sw_now v Identifying) r) runs st0) st0));
          st2 = arrive (sw_env v Adopting) runs st1
      in snd (each_run (\<lambda>i r s. adopt_stranded (sw_env v Adopting i) opt (sw_unownedGraceMs v) r s)
           (listing (\<lambda>r _. stranded (sw_unownedGraceMs v) (sw_now v Adopting) r \<and> ri_adapter r \<noteq> Some ''boat'' \<and> named wanted r) runs st2) st2))"

text \<open>The live rows, adapter by adapter; a row whose drain never returned ends the sweep (\<^const>\<open>None\<close>).\<close>

definition live_rows :: "exit_options \<Rightarrow> string list option \<Rightarrow> string list \<Rightarrow> world \<Rightarrow> (adapter \<times> string \<times> runtime_instance) list" where
  "live_rows opt wanted runs st =
     concat (map (\<lambda>ad. map (Pair ad) (listing (\<lambda>r _. runningInstance r \<and> named wanted r \<and> ri_adapter r = Some (ad_id ad)) runs st))
       (filter ad_inspects (xo_adapters opt)))"

fun reconcile_rows :: "sweep_env \<Rightarrow> exit_options \<Rightarrow> (adapter \<times> string \<times> runtime_instance) list \<Rightarrow> world \<Rightarrow> (nat \<times> world) option" where
  "reconcile_rows v opt [] st = Some (0, st)"
| "reconcile_rows v opt ((ad, i, r) # rest) st =
     (case reconcile_instance (sw_env v Reconciling i) opt ad r (st i) of
        None \<Rightarrow> None
      | Some (recorded, s) \<Rightarrow>
          map_option (\<lambda>(n, st'). (n + (if recorded then 1 else 0), st')) (reconcile_rows v opt rest (st(i := s))))"

definition UNSETTLED_PER_SWEEP :: nat where "UNSETTLED_PER_SWEEP = 50"

definition settleUnsettledExecutors :: "sweep_env \<Rightarrow> exit_options \<Rightarrow> string list option \<Rightarrow> string list \<Rightarrow> world \<Rightarrow> world" where
  "settleUnsettledExecutors v opt wanted runs st =
     (let st0 = arrive (sw_env v Settling) runs st in
      snd (each_run (\<lambda>i r s.
          ((), case (adapter_of opt r, ri_resourceId r) of
             (Some ad, Some rid) \<Rightarrow> if ad_inspects ad then settle_unsettled (sw_env v Settling i) opt ad r rid s else s
           | _ \<Rightarrow> s))
        (take UNSETTLED_PER_SWEEP (listing (\<lambda>r d. unsettledCaptureExecutor r d \<and> named wanted r) runs st0)) st0))"

definition REMAINS_GRACE_MS :: int where "REMAINS_GRACE_MS = 5 * 60000"
definition REMAINS_PER_SWEEP :: nat where "REMAINS_PER_SWEEP = 20"

definition removeStoppedRemains :: "sweep_env \<Rightarrow> exit_options \<Rightarrow> string list \<Rightarrow> world \<Rightarrow> remains_request list \<times> world" where
  "removeStoppedRemains v opt runs st =
     (let adapters = filter ad_keepsRemains (xo_adapters opt) in
      if adapters = [] then ([], st)
      else let st0 = arrive (sw_env v Removing) runs st in
        each_run (\<lambda>i r s. remove_stopped_remains (sw_env v Removing i) (the (ri_resourceId r)) s)
          (take REMAINS_PER_SWEEP
            (listing (\<lambda>r d. stoppedWithRemains (map ad_id adapters) REMAINS_GRACE_MS (sw_now v Removing) r d) runs st0)) st0)"

definition reconcileRuntimeExits ::
  "sweep_env \<Rightarrow> exit_options \<Rightarrow> string list option \<Rightarrow> string list \<Rightarrow> world \<Rightarrow> (nat \<times> remains_request list \<times> world) option"
where
  "reconcileRuntimeExits v opt wanted runs st =
     (let st1 = arrive (sw_env v Reconciling) runs (adoptStrandedLaunches v opt wanted runs st) in
      map_option (\<lambda>(recorded, st2).
          let st3 = (if xo_drain opt = None then st2 else settleUnsettledExecutors v opt wanted runs st2);
              (asked, st4) = (if wanted = None then removeStoppedRemains v opt runs st3 else ([], st3))
          in (recorded, asked, st4))
        (reconcile_rows v opt (live_rows opt wanted runs st1) st1))"

end
