(* ===== verification/Worker_Invariants.thy ===== *)
theory Worker_Invariants
  imports Workspace_Stop_Proofs
begin

text \<open>
  What every operation on a run's rows keeps, a worker keeps: the rule by which a property of the drain
  record or of the instance's row is carried through a worker's calls, whatever is interleaved with them
  and whichever of them fail.
\<close>

section \<open>The operations a removal makes\<close>

fun worker_op :: "ledger_op \<Rightarrow> bool" where
  "worker_op (Authorize_deletion _ _ _ _) = True"
| "worker_op (Confirm_deletion _ _) = True"
| "worker_op (Issue_deletion _ _) = True"
| "worker_op (Reconcile_issued _ _ _ _) = True"
| "worker_op (Complete_deletion _) = True"
| "worker_op (Release_deletion _) = True"
| "worker_op (Lapse_issued _) = True"
| "worker_op _ = False"

text \<open>Others make only operations that satisfy the condition.\<close>

definition only_ops :: "(int \<Rightarrow> ledger_op \<Rightarrow> bool) \<Rightarrow> schedule \<Rightarrow> bool" where
  "only_ops P sd \<longleftrightarrow> (\<forall>k. \<forall>(now, op) \<in> set (sd_others sd k). P now op)"

section \<open>Properties of the drain record\<close>

locale worker_invariant =
  fixes P :: "int \<Rightarrow> ledger_op \<Rightarrow> bool" and J :: "drain_row option \<Rightarrow> bool"
  assumes step: "P now op \<Longrightarrow> J row \<Longrightarrow> J (apply_op now op row)"
    and worker: "worker_op op \<Longrightarrow> P now op"
begin

lemma run: "\<forall>(now, op) \<in> set ops. P now op \<Longrightarrow> J row \<Longrightarrow> J (run_ledger ops row)"
  by (induction ops arbitrary: row) (auto simp: step)

lemma call:
  assumes "only_ops P sd" "J (wk_row w)" "\<And>now row. J row \<Longrightarrow> J (snd (f now row))"
  shows "J (wk_row (snd (ledger_call sd f w)))"
proof -
  let ?row = "run_ledger (sd_others sd (wk_calls w)) (wk_row w)"
  have "J ?row" using run assms(1,2) by (auto simp: only_ops_def)
  moreover have "wk_row (snd (ledger_call sd f w)) \<in> {?row, snd (f (sd_clock sd (wk_calls w)) ?row)}"
    by (auto simp: ledger_call_def Let_def split: prod.splits fault.splits)
  ultimately show ?thesis using assms(3) by auto
qed

lemma op_call:
  assumes "only_ops P sd" "J (wk_row w)" "\<And>now row. snd (f now row) = apply_op now (op now) row" "\<And>now. P now (op now)"
  shows "J (wk_row (snd (ledger_call sd f w)))"
  by (rule call[OF assms(1,2)]) (simp add: assms(3,4) step)

lemma calls:
  assumes "only_ops P sd" "J (wk_row w)"
  shows "J (wk_row (snd (read_call sd w)))" "J (wk_row (snd (authorize_call sd v recovery w)))"
    "J (wk_row (snd (issue_call sd t w)))" "J (wk_row (snd (reconcile_call sd gone ms w)))"
    "J (wk_row (confirm_call sd t w))" "J (wk_row (complete_call sd t w))" "J (wk_row (release_call sd t w))"
    "J (wk_row (lapse_call sd t w))"
  unfolding calls_snd confirm_call_def complete_call_def release_call_def lapse_call_def
  by (rule call[OF assms], simp)
    (rule op_call[OF assms, where op = "\<lambda>_. Authorize_deletion v (sd_token sd (wk_calls w)) DELETION_HOLD_MS recovery"]
      op_call[OF assms, where op = "\<lambda>_. Issue_deletion t DELETION_HOLD_MS"]
      op_call[OF assms, where op = "\<lambda>_. Reconcile_issued gone (sd_token sd (wk_calls w)) DELETION_HOLD_MS ms"]
      op_call[OF assms, where op = "\<lambda>_. Confirm_deletion t DELETION_HOLD_MS"]
      op_call[OF assms, where op = "\<lambda>_. Complete_deletion t"] op_call[OF assms, where op = "\<lambda>_. Release_deletion t"]
      op_call[OF assms, where op = "\<lambda>_. Lapse_issued t"]; simp add: worker; fail)+

lemma read: "only_ops P sd \<Longrightarrow> J (wk_row w) \<Longrightarrow> read_call sd w = (a, w') \<Longrightarrow> J (wk_row w')"
  using calls(1)[of sd w] by simp

lemma decided:
  assumes "only_ops P sd" "J (wk_row w)" "decide_step sd d again rd w = (a, w')"
  shows "J (wk_row w')"
proof -
  have "w' = w \<or> (\<exists>v recovery. w' = snd (authorize_call sd v recovery w))"
    using assms(3) by (auto simp: decide_step_def Let_def split: deletion_decision.splits option.splits prod.splits if_splits)
      (metis snd_conv)+
  then show ?thesis using assms(2) calls(2)[OF assms(1,2)] by auto
qed

lemma settled:
  assumes "only_ops P sd" "J (wk_row w)" "settleIssuedRemoval sd d w = (a, w')"
  shows "J (wk_row w')"
proof -
  have "w' = w \<or> w' = snd (reconcile_call sd (dl_runtime d = Some Rt_missing) (dl_removalFenceMs d) w)"
    using assms(3) by (auto simp: settleIssuedRemoval_def Let_def split: prod.splits if_splits)
  then show ?thesis using assms(2) calls(4)[OF assms(1,2)] by auto
qed

lemma attempted:
  assumes "only_ops P sd" "J (wk_row w)" "attempt_deletion sd d again w = (a, rd, w')"
  shows "J (wk_row w')"
proof -
  obtain rd1 w1 where read: "(if dl_hasLedger d then read_call sd w else (Read_failed, w)) = (rd1, w1)" by (metis prod.exhaust)
  have w1: "J (wk_row w1)" using read assms(2) calls(1)[OF assms(1,2)] by (auto split: if_splits)
  obtain st w2 where settle: "settleIssuedRemoval sd d w1 = (st, w2)" by (metis prod.exhaust)
  have w2: "J (wk_row w2)" by (rule settled[OF assms(1) w1 settle])
  obtain rd2 w3 where again: "read_call sd w2 = (rd2, w3)" by (metis prod.exhaust)
  have w3: "J (wk_row w3)" using calls(1)[OF assms(1) w2] again by simp
  have "w' = w1 \<or> w' = w2 \<or> (\<exists>res. decide_step sd d again rd2 w3 = (res, w')) \<or> (\<exists>res. decide_step sd d again rd1 w1 = (res, w'))"
    using assms(3) read settle again
    by (auto simp: attempt_deletion_def Let_def split: if_splits prod.splits settled.splits)
  then show ?thesis using w1 w2 decided[OF assms(1) w1] decided[OF assms(1) w3] by blast
qed

lemma authorized:
  assumes "only_ops P sd" "J (wk_row w)" "authorize_loop sd d n rd w = (a, w')"
  shows "J (wk_row w')"
  using assms(2,3)
proof (induction n arbitrary: rd w)
  case (Suc n)
  obtain res rd1 w1 where att: "attempt_deletion sd d (n > 0) w = (res, rd1, w1)" by (metis prod.exhaust)
  have "J (wk_row w1)" by (rule attempted[OF assms(1) Suc.prems(1) att])
  then show ?case using Suc att by (cases res) auto
qed simp

lemma confirmed: "only_ops P sd \<Longrightarrow> J (wk_row w) \<Longrightarrow> J (wk_row ((confirm_call sd t ^^ n) w))"
  by (induction n) (auto intro: calls)

lemma removed:
  assumes "only_ops P sd" "J (wk_row w)" "removeUnderDeletion sd rn hasLedger b ticket w = (a, w')"
  shows "J (wk_row w')"
proof (cases "if hasLedger then ticket else None")
  case None
  obtain rd w1 where read: "(if hasLedger then read_call sd w else (Read_ok None, w)) = (rd, w1)" by (metis prod.exhaust)
  have "J (wk_row w1)" using read assms(2) calls(1)[OF assms(1,2)] by (auto split: if_splits)
  then show ?thesis using assms(3) read None by (auto simp: removeUnderDeletion_def ask_runtime_def split: if_splits)
next
  case (Some t)
  obtain ok w1 where issue: "issue_call sd t w = (ok, w1)" by (metis prod.exhaust)
  have w1: "J (wk_row w1)" using calls(3)[OF assms(1,2), of t] issue by simp
  define w2 where "w2 = (confirm_call sd t ^^ rn_renewals rn (length (wk_asked w))) (ask_runtime b (Some t) w1)"
  have w2: "J (wk_row w2)" unfolding w2_def by (rule confirmed[OF assms(1)]) (simp add: ask_runtime_def w1)
  have "w' \<in> {w1, complete_call sd t w2, release_call sd t w2, lapse_call sd t w2}"
    using assms(3) Some issue by (auto simp: removeUnderDeletion_def w2_def Let_def split: if_splits call_exit.splits)
  then show ?thesis using w1 calls(6-8)[OF assms(1) w2] by auto
qed

end

end
