(* ===== verification/Runtime_Exits_Proofs.thy ===== *)
theory Runtime_Exits_Proofs
  imports Runtime_Exits Worker_Invariants
begin

text \<open>
  What the sweep of ended executors does to one that may hold unsaved work: it asks the runtime to remove
  it only on evidence that stands at that instant and once its end is on record, it leaves every other
  one where a later sweep finds it, and it removes the remains of a stop only where the record says the
  removal is final.
\<close>

section \<open>What a verdict rests on\<close>

text \<open>The runtime said that nothing of the executor is left.\<close>

definition said_missing :: "exit_env \<Rightarrow> runtime_state \<Rightarrow> bool" where
  "said_missing e rt \<longleftrightarrow> (rt = Rt_missing \<longrightarrow>
     xe_found e = Some (Has_ended End_missing) \<or> (\<exists>k. dv_runtime (se_drained (xe_env e)) k = Rt_missing))"

lemma end_state_missing [simp]: "end_state en = Rt_missing \<longleftrightarrow> en = End_missing"
  by (cases en) simp_all

definition exit_executor :: "exit_env \<Rightarrow> runtime_instance \<Rightarrow> executor_identity" where
  "exit_executor e r = \<lparr>xi_runId = xe_runId e, xi_resourceId = ri_resourceId r, xi_reference = ri_reference r\<rparr>"

definition well_based :: "schedule \<Rightarrow> executor_identity \<Rightarrow> runtime_state \<Rightarrow> removal_basis \<Rightarrow> drain_row option \<Rightarrow> bool" where
  "well_based sd x rt rb row \<longleftrightarrow> granted x rt (decided (Delete (rb_basis rb)) Read_failed (rb_ticket rb)) row \<and>
     (\<forall>t. rb_ticket rb = Some t \<longrightarrow> t \<in> range (sd_token sd))"

lemma exit_target_executor [simp]: "tg_executor (exit_target e ad r rid b) = exit_executor e r" "tg_captureSourced (exit_target e ad r rid b) = b"
  by (simp_all add: exit_target_def exit_executor_def)

lemma with_worker_goes:
  assumes "\<And>w. goes w (snd (f w))" "with_worker f s = (a, s1)"
  shows "goes_state s s1"
proof -
  obtain b w where f: "f (ss_worker s) = (b, w)" by (metis prod.exhaust)
  then show ?thesis using assms(1)[of "ss_worker s"] assms(2) by (auto simp: with_worker_def)
qed

lemma authorized_goes: "authorizedDeletion sd d w = (az, w') \<Longrightarrow> goes w w'"
proof -
  have "authorize_loop sd d n rd w = (az, w') \<Longrightarrow> goes w w'" for n rd
  proof (induction n arbitrary: rd w)
    case (Suc n)
    obtain res rd1 w1 where "attempt_deletion sd d (n > 0) w = (res, rd1, w1)" by (metis prod.exhaust)
    then show ?case using Suc.prems Suc.IH[of rd1 w1] attempt_goes[of sd d _ w res rd1 w1] goes_trans by (cases res) auto
  qed simp
  then show "authorizedDeletion sd d w = (az, w') \<Longrightarrow> goes w w'" by (simp add: authorizedDeletion_def)
qed

lemma authorized_based:
  assumes "with_worker (authorizedDeletion sd (ended_deleter tg rt dn)) s = (az, s1)" "tg_captureSourced tg"
  shows "goes_state s s1" "az_decision az = Delete b \<Longrightarrow>
    well_based sd (tg_executor tg) rt \<lparr>rb_captureSourced = c, rb_basis = b, rb_ticket = az_ticket az\<rparr> (wk_row (ss_worker s1))"
proof -
  obtain w where az: "authorizedDeletion sd (ended_deleter tg rt dn) (ss_worker s) = (az, w)" "s1 = s\<lparr>ss_worker := w\<rparr>"
    using assms(1) by (auto simp: with_worker_def split: prod.splits)
  have "dl_decide (ended_deleter tg rt dn) = decide_on_record True rt dn (tg_executor tg)"
    using assms(2) by (simp add: ended_deleter_def)
  from authorize_loop_grants[OF az(1)[unfolded authorizedDeletion_def] this] az(2)
  have g: "granted (tg_executor tg) rt az (wk_row (ss_worker s1))" "goes_state s s1" "own_ticket sd (ended_deleter tg rt dn) az" by auto
  show "goes_state s s1" by (rule g(2))
  show "well_based sd (tg_executor tg) rt \<lparr>rb_captureSourced = c, rb_basis = b, rb_ticket = az_ticket az\<rparr> (wk_row (ss_worker s1))"
    if "az_decision az = Delete b"
    using g(1,3) that by (auto simp: well_based_def granted_def decided_def own_ticket_def)
qed

lemma decide_ended_based:
  assumes "decide_ended e tg rt dn s = (v, s1)" "tg_captureSourced tg"
  shows "goes_state s s1 \<and> (\<forall>rb. v = Record rb \<longrightarrow> well_based (se_ledger (xe_env e)) (tg_executor tg) rt rb (wk_row (ss_worker s1)))"
proof -
  obtain az s2 where az: "with_worker (authorizedDeletion (se_ledger (xe_env e)) (ended_deleter tg rt dn)) s = (az, s2)"
    by (metis prod.exhaust)
  have "s2 = s1" using assms(1) az by (simp add: decide_ended_def)
  with az assms show ?thesis
    using authorized_based[OF az assms(2)] by (auto simp: decide_ended_def split: deletion_decision.splits if_splits)
qed

lemma missing_based: "well_based sd x Rt_missing \<lparr>rb_captureSourced = True, rb_basis = Missing, rb_ticket = None\<rparr> row"
  by (simp add: well_based_def granted_def decided_def)

definition verdict_based :: "exit_env \<Rightarrow> executor_identity \<Rightarrow> exit_verdict \<Rightarrow> drain_row option \<Rightarrow> bool" where
  "verdict_based e x v row \<longleftrightarrow> (\<forall>rb. v = Record rb \<longrightarrow> (\<exists>rt. said_missing e rt \<and> well_based (se_ledger (xe_env e)) x rt rb row))"

lemma verdict_based_simps [simp]: "verdict_based e x Leave row" "verdict_based e x (Record_keep why) row"
  by (simp_all add: verdict_based_def)

lemma decided_verdict:
  assumes "decide_ended e tg rt dn s = (v, s1)" "tg_captureSourced tg" "said_missing e rt"
  shows "goes_state s s1 \<and> verdict_based e (tg_executor tg) v (wk_row (ss_worker s1))"
  using decide_ended_based[OF assms(1,2)] assms(3) by (auto simp: verdict_based_def)

lemma drained_gone:
  assumes "drainCaptureBeforeStop c (se_drained (xe_env e)) b claimed = Some (Gone ms detail, sent)"
  shows "said_missing e Rt_missing"
  using permitted_drain_heard[of c "xe_env e" b claimed "Gone ms detail" sent] assms
    loop_supported[of c "se_drained (xe_env e)" 0 "dc_startedAt c" _ "[]" "(Gone ms detail, sent)"]
  by (cases claimed) (auto simp: said_missing_def drainCaptureBeforeStop_def stop_supported_def)

lemma drain_ended_based:
  assumes "drain_ended e dr tg rt s = Some (v, s')" "tg_captureSourced tg" "said_missing e rt"
  shows "goes_state s s' \<and> verdict_based e (tg_executor tg) v (wk_row (ss_worker s'))"
proof -
  obtain c s1 where cl: "with_worker (claim_call (se_ledger (xe_env e)) (sn_owner dr) (sn_leaseMs dr)) s = (c, s1)" by (metis prod.exhaust)
  have s1: "goes_state s s1" by (rule with_worker_goes[OF stop_calls_go(1) cl])
  show ?thesis
  proof (cases c)
    case None
    then show ?thesis using assms(1) cl s1 by (auto simp: drain_ended_def)
  next
    case (Some et)
    obtain entry token where et: "et = (entry, token)" by (cases et)
    let ?s2 = "on_worker (unclaim_call (se_ledger (xe_env e)) (sn_owner dr) token) s1"
    have s2: "goes_state s ?s2" using goes_trans[OF s1] stop_calls_go(2) by (simp add: on_worker_def)
    obtain outcome sent where dn: "drainCaptureBeforeStop (sn_call dr) (se_drained (xe_env e)) False (Some entry) = Some (outcome, sent)"
      using assms(1) cl Some et by (auto simp: drain_ended_def split: option.splits)
    obtain v2 s3 where d: "decide_ended e tg rt True ?s2 = (v2, s3)" by (metis prod.exhaust)
    have d': "goes_state ?s2 s3 \<and> verdict_based e (tg_executor tg) v2 (wk_row (ss_worker s3))"
      by (rule decided_verdict[OF d assms(2,3)])
    show ?thesis
    proof (cases outcome)
      case (Drained status)
      then have "s' = s3" "v = v2 \<or> v = Leave" using assms(1) cl Some et dn d by (auto simp: drain_ended_def split: exit_verdict.splits)
      then show ?thesis using d' goes_trans[OF s2] by auto
    next
      case (Gone ms detail)
      then have "s' = ?s2" "v = Record \<lparr>rb_captureSourced = True, rb_basis = Missing, rb_ticket = None\<rparr>"
        using assms(1) cl Some et dn by (auto simp: drain_ended_def)
      then show ?thesis using s2 drained_gone[OF dn[unfolded Gone]] missing_based by (auto simp: verdict_based_def)
    qed (use assms(1) cl Some et dn s2 in \<open>auto simp: drain_ended_def\<close>)
  qed
qed

lemma read_discarded:
  assumes "with_worker (read_call sd) s = (rd, s1)" "in_entry (\<lambda>en. en_discardRequested en \<noteq> None) rd"
  shows "is_discarded (wk_row (ss_worker s1))"
  using assms
  by (auto simp: with_worker_def read_call_def ledger_call_def in_entry_def is_discarded_def entryFromRow_def Let_def
      split: fault.splits option.splits prod.splits)

lemma read_worker_goes: "with_worker (read_call sd) s = (rd, s1) \<Longrightarrow> goes_state s s1"
  using goes_read by (auto simp: with_worker_def split: prod.splits)

lemma end_state_said: "xe_found e = Some (Has_ended en) \<Longrightarrow> said_missing e (end_state en)"
  by (cases en) (auto simp: said_missing_def)

lemma drainBeforeRecording_based:
  assumes "drainBeforeRecording e opt ad r rid (end_state en) s = Some (v, s')" "xe_found e = Some (Has_ended en)"
    and "runIsCaptureSourced (ri_sourceKind r) (se_snapshot (xe_env e)) \<noteq> Some False"
  shows "goes_state s s' \<and> verdict_based e (exit_executor e r) v (wk_row (ss_worker s')) \<and>
    (xo_drain opt = None \<longrightarrow> v = Leave)"
proof (cases "xo_drain opt")
  case None
  then show ?thesis using assms(1,3) by (auto simp: drainBeforeRecording_def)
next
  case (Some dr)
  obtain rd s1 where rd: "with_worker (read_call (se_ledger (xe_env e))) s = (rd, s1)" by (metis prod.exhaust)
  have s1: "goes_state s s1" by (rule read_worker_goes[OF rd])
  have said: "said_missing e (end_state en)" by (rule end_state_said[OF assms(2)])
  show ?thesis
  proof (cases "in_entry (\<lambda>en. en_discardRequested en \<noteq> None) rd")
    case True
    then have "s' = s1" "v = Record \<lparr>rb_captureSourced = True, rb_basis = Discarded, rb_ticket = None\<rparr>"
      using assms(1) Some rd by (auto simp: drainBeforeRecording_def)
    moreover have "said_missing e Rt_running" by (simp add: said_missing_def)
    ultimately show ?thesis using s1 Some read_discarded[OF rd True]
      by (auto simp: verdict_based_def well_based_def granted_def decided_def basisRestsOnEvidence_def)
  next
    case False
    let ?tg = "exit_target e ad r rid True"
    have "(v, s') = (Leave, s1) \<or> probe_ended e dr (xo_reachable opt r) ?tg (end_state en) s1 = Some (v, s')"
      using assms(1,3) Some rd False by (auto simp: drainBeforeRecording_def split: option.splits bool.splits)
    moreover have "goes_state s1 s' \<and> verdict_based e (exit_executor e r) v (wk_row (ss_worker s'))"
      if "probe_ended e dr (xo_reachable opt r) ?tg (end_state en) s1 = Some (v, s')"
      using that decided_verdict[of e ?tg "end_state en" False s1 v s', OF _ _ said] drain_ended_based[of e dr ?tg "end_state en" s1 v s', OF _ _ said]
      by (auto simp: probe_ended_def split: sample.splits if_splits)
    ultimately show ?thesis using s1 Some goes_trans[OF s1] by auto
  qed
qed

section \<open>The requests of the sweep\<close>

lemma removeRemains_sound:
  assumes "well_based (se_ledger e) x rt rb (wk_row (ss_worker s))" "reaches None (wk_row (ss_worker s))"
    and "own_tokens (se_ledger e)" "xo_drain opt \<noteq> None"
  shows "\<exists>n \<le> 1. asks_soundly x rt s (removeRemains e opt rid rb s) n"
proof -
  let ?d = "\<lparr>dl_hasLedger = True, dl_decide = undefined, dl_runtime = None, dl_removalFenceMs = None, dl_recovery = None\<rparr>"
  let ?az = "decided (Delete (rb_basis rb)) Read_failed (rb_ticket rb)"
  obtain res w where rm: "removeUnderDeletion (se_ledger e) \<lparr>rn_exit = se_end e, rn_renewals = se_renewals e\<rparr>
      True (rb_basis rb) (rb_ticket rb) (ss_worker s) = (res, w)" by (metis prod.exhaust)
  have "granted x rt ?az (wk_row (ss_worker s))" "own_ticket (se_ledger e) ?d ?az" "az_decision ?az = Delete (rb_basis rb)"
    "az_ticket ?az = rb_ticket rb"
    using assms(1) by (auto simp: well_based_def own_ticket_def decided_def)
  then obtain cs where cs: "reaches None (wk_row w)" "wk_asked w = wk_asked (ss_worker s) @ cs" "\<forall>c \<in> set cs. sound_request x rt c"
      "if res = Voided then cs = [] else length cs = 1"
    using removal_sound[of "se_ledger e" _ ?d "rb_basis rb" ?az "ss_worker s" res w x rt] rm assms(2,3) by auto
  have "asks_soundly x rt s (s\<lparr>ss_worker := w\<rparr>) (length cs)" using cs by (simp add: asks_soundly_def)
  moreover have "goes_state (s\<lparr>ss_worker := w\<rparr>) (removeRemains e opt rid rb s)"
    using rm assms(4) stop_calls_go(3) by (auto simp: removeRemains_def on_worker_def Let_def)
  ultimately show ?thesis using asks_then_goes cs(4) by (metis le_numeral_extra(4) list.size(3) zero_le_one)
qed

lemma terminal_call_worker: "terminal_call e f s = (a, s1) \<Longrightarrow> ss_worker s1 = ss_worker s"
  by (auto simp: terminal_call_def split: prod.splits dest: instance_call_worker)

lemma withRetention_goes: "withRetention e why f s = (a, s1) \<Longrightarrow> goes_state s s1"
proof -
  have "reaches (wk_row w) (markRetained why now (run_ledger ops (wk_row w)))" for w now ops
    using reaches_op[of "wk_row w" now "Mark_retained why" ops] by simp
  then show "withRetention e why f s = (a, s1) \<Longrightarrow> goes_state s s1"
    by (auto simp: withRetention_def goes_def reaches_def Let_def split: prod.splits if_splits)
qed

lemma terminally_goes: "terminally e v f s = (a, s1) \<Longrightarrow> goes_state s s1"
  using withRetention_goes by (auto simp: terminally_def split: exit_verdict.splits dest: terminal_call_worker)

lemma giveUp_goes: "goes_state s (giveUpRemoval e opt v s)"
  using goes_ending(3,4) by (auto simp: giveUpRemoval_def on_worker_def split: exit_verdict.splits option.splits)

lemma record_end_sound:
  assumes "record_end e opt r rid en v s = (recorded, s')" "verdict_based e x v (wk_row (ss_worker s))"
    and "reaches None (wk_row (ss_worker s))" "own_tokens (se_ledger (xe_env e))" "xo_drain opt \<noteq> None"
  shows "\<exists>n rt. said_missing e rt \<and> asks_soundly x rt s s' n \<and> n \<le> 1 \<and> (n = 1 \<longrightarrow> recorded)"
proof -
  define f where "f = (case ri_stopReason r of Some reason \<Rightarrow> stopped_write reason
      | None \<Rightarrow> exited_write rid (describeExit (xe_runId e) r en))"
  obtain a s1 where t: "terminally (xe_env e) v f s = (a, s1)" by (metis prod.exhaust)
  have s1: "goes_state s s1" by (rule terminally_goes[OF t])
  have body: "(recorded, s') = (case a of Some (Some _) \<Rightarrow> (True, case v of Record rb \<Rightarrow> removeRemains (xe_env e) opt rid rb s1 | _ \<Rightarrow> s1)
      | _ \<Rightarrow> (False, giveUpRemoval (xe_env e) opt v s1))"
    using assms(1) t by (simp add: record_end_def f_def split: option.splits)
  show ?thesis
  proof (cases "\<exists>rb r'. v = Record rb \<and> a = Some (Some r')")
    case True
    then obtain rb r' where v: "v = Record rb" "a = Some (Some r')" by blast
    then have s': "recorded" "s' = removeRemains (xe_env e) opt rid rb s1" using body by auto
    obtain rt where rt: "said_missing e rt" "well_based (se_ledger (xe_env e)) x rt rb (wk_row (ss_worker s))"
      using assms(2) v by (auto simp: verdict_based_def)
    have "ss_worker s1 = ss_worker s" using t v(1) terminal_call_worker by (auto simp: terminally_def)
    then obtain n where "n \<le> 1" "asks_soundly x rt s1 s' n"
      using removeRemains_sound[of "xe_env e" x rt rb s1 opt rid] rt(2) assms(3,4,5) s'(2) by auto
    then show ?thesis using goes_then_asks[OF s1] rt(1) s'(1) by blast
  next
    case False
    then have go: "goes_state s1 s'" using body giveUp_goes by (auto split: option.splits exit_verdict.splits)
    show ?thesis using asks_nothing_goes[OF goes_trans[OF s1 go] assms(3), of x Rt_running] by (fastforce simp: said_missing_def)
  qed
qed

text \<open>C28: one look at a live row of a run that is capture-sourced, or not known not to be, removes what its
  ended executor left behind only on evidence that stands at the instant the runtime is asked, and only
  once the end is on record (the same sweep's pass over unsettled executors may ask again). Whatever others do to the run's
  rows in between, whichever calls fail and whatever the daemon answers: the runtime is asked at most
  once, the request is sound, nothing is taken for gone that the runtime did not report missing, and
  the write that ended the run's row was acknowledged before.\<close>

theorem ended_executor_removed_on_evidence:
  assumes "reconcile_instance e opt ad r s = Some (recorded, s')"
    and "runIsCaptureSourced (ri_sourceKind r) (se_snapshot (xe_env e)) \<noteq> Some False"
    and "wk_row (ss_worker s) = run_ledger past None" "wk_asked (ss_worker s) = []" "own_tokens (se_ledger (xe_env e))"
  shows "length (wk_asked (ss_worker s')) \<le> 1 \<and> (wk_asked (ss_worker s') \<noteq> [] \<longrightarrow> recorded) \<and>
    (\<exists>rt. said_missing e rt \<and> (\<forall>c \<in> set (wk_asked (ss_worker s')). sound_request (exit_executor e r) rt c))"
proof -
  have reach: "reaches None (wk_row (ss_worker s))" using assms(3) by (auto simp: reaches_def)
  have "\<exists>n rt. said_missing e rt \<and> asks_soundly (exit_executor e r) rt s s' n \<and> n \<le> 1 \<and> (n = 1 \<longrightarrow> recorded)"
  proof (cases "\<exists>rid en. ri_resourceId r = Some rid \<and> xe_found e = Some (Has_ended en)")
    case False
    then have "s' = s" using assms(1) by (auto simp: reconcile_instance_def split: option.splits inspection.splits)
    then show ?thesis using asks_nothing_goes[of s s, OF _ reach, of "exit_executor e r" Rt_running]
      by (fastforce simp: said_missing_def)
  next
    case True
    then obtain rid en where ids: "ri_resourceId r = Some rid" "xe_found e = Some (Has_ended en)" by blast
    obtain v s1 where d: "drainBeforeRecording e opt ad r rid (end_state en) s = Some (v, s1)"
        and rest: "(recorded, s') = (if v = Leave then (False, s1) else record_end e opt r rid en v s1)"
      using assms(1) ids by (auto simp: reconcile_instance_def split: if_splits)
    have based: "goes_state s s1" "verdict_based e (exit_executor e r) v (wk_row (ss_worker s1))" "xo_drain opt = None \<longrightarrow> v = Leave"
      using drainBeforeRecording_based[OF d ids(2) assms(2)] by auto
    show ?thesis
    proof (cases "v = Leave")
      case True
      then show ?thesis using rest asks_nothing_goes[OF based(1) reach, of "exit_executor e r" Rt_running]
        by (fastforce simp: said_missing_def)
    next
      case False
      then have "record_end e opt r rid en v s1 = (recorded, s')" "xo_drain opt \<noteq> None" using rest based(3) by auto
      then show ?thesis
        using record_end_sound[OF _ based(2) reaches_goes[OF based(1) reach] assms(5)] goes_then_asks[OF based(1)] by blast
    qed
  qed
  then show ?thesis using assms(4) by (fastforce simp: asks_soundly_def le_Suc_eq)
qed

lemma asking: "wk_asked w1 = wk_asked w \<Longrightarrow> wk_asked (ask_runtime b t w1) \<noteq> wk_asked w"
  by (simp add: ask_runtime_def)

lemma removed_asked:
  assumes "removeUnderDeletion sd rn hasLedger b ticket w = (Removed, w')"
  shows "wk_asked w' \<noteq> wk_asked w"
proof (cases "if hasLedger then ticket else None")
  case None
  obtain rd w1 where read: "(if hasLedger then read_call sd w else (Read_ok None, w)) = (rd, w1)" by (metis prod.exhaust)
  have "wk_asked w1 = wk_asked w" using read calls_ask_nothing(1)[of sd w] by (auto split: if_splits)
  moreover have "w' = ask_runtime b None w1"
    using assms read None unfolding removeUnderDeletion_def Let_def None by (simp split: if_splits)
  ultimately show ?thesis using asking by simp
next
  case (Some t)
  obtain ok w1 where issue: "issue_call sd t w = (ok, w1)" by (metis prod.exhaust)
  have w1: "wk_asked w1 = wk_asked w" using issue calls_ask_nothing(3)[of sd t w] by simp
  define w2 where "w2 = (confirm_call sd t ^^ rn_renewals rn (length (wk_asked w))) (ask_runtime b (Some t) w1)"
  have "wk_asked w2 = wk_asked (ask_runtime b (Some t) w1)"
    unfolding w2_def using confirms_go[where sd = sd and t = t and w = "ask_runtime b (Some t) w1"] by (simp add: goes_def)
  moreover have "w' = complete_call sd t w2"
    using assms unfolding removeUnderDeletion_def Let_def Some by (simp add: issue w2_def[symmetric] split: if_splits call_exit.splits)
  ultimately show ?thesis using asking[OF w1] by (simp add: calls_ask_nothing)
qed

section \<open>What a later sweep finds\<close>

text \<open>The rows a sweep reads: up, a launch retained, an executor retained, or one ended that nothing settled.\<close>

definition in_view :: "runtime_instance \<Rightarrow> drain_row option \<Rightarrow> bool" where
  "in_view r d \<longleftrightarrow> runningInstance r \<or> retainedLaunch r \<or> \<not> not_retained d \<or> unsettledCaptureExecutor r d"

text \<open>The record does not say the executor ended, unless it is retained.\<close>

definition on_record :: "drain_row option \<Rightarrow> bool" where
  "on_record d \<longleftrightarrow> (case d of None \<Rightarrow> True
     | Some d \<Rightarrow> rt_retainedAt (dr_retention d) \<noteq> None \<or> (case dp_state (dr_progress d) of None \<Rightarrow> True | Some st \<Rightarrow> \<not> ends_retention st))"

fun records_end :: "ledger_op \<Rightarrow> bool" where
  "records_end (Record_observation st _ _) = ends_retention st"
| "records_end (Record_progress _ _ p) = (case pi_state p of None \<Rightarrow> False | Some st \<Rightarrow> ends_retention st)"
| "records_end _ = False"

definition visible_row :: "runtime_instance \<Rightarrow> bool" where
  "visible_row r \<longleftrightarrow> (ri_status r = Inst_ready \<or> ri_status r = Inst_failed \<or> ri_status r = Inst_stopped) \<and>
     ri_resourceId r \<noteq> None \<and> ri_adapter r \<noteq> None \<and> ri_errorCode r \<noteq> Some retained_code \<and> captureOrUnknown r"

lemma codes_differ [simp]: "exited_code \<noteq> retained_code" "lost_code \<noteq> retained_code"
  by (simp_all add: exited_code_def lost_code_def retained_code_def)

lemma visible_in_view: "visible_row r \<Longrightarrow> on_record d \<Longrightarrow> in_view r d"
  by (cases d) (auto simp: visible_row_def on_record_def in_view_def runningInstance_def retainedLaunch_def not_retained_def
      unsettledCaptureExecutor_def)

interpretation recorded: worker_invariant "\<lambda>_ op. \<not> records_end op" on_record
proof
  show "on_record (apply_op now op row)" if "\<not> records_end op" "on_record row" for now op row
  proof (cases row)
    case None
    then show ?thesis using that
      by (cases op) (auto simp: on_record_def ledger_defs row_or_fresh_def fresh_row_def Let_def split: ledger_splits)
  next
    case (Some r)
    then show ?thesis using that
      by (cases op) (auto simp: on_record_def ledger_defs progressColumns_def Let_def split: ledger_splits)
  qed
qed (auto elim: worker_op.elims)

interpretation visible: instance_history "\<lambda>op. \<not> launches op" "\<lambda>r r'. visible_row r \<longrightarrow> visible_row r'"
proof
  show "visible_row r \<longrightarrow> visible_row r'"
    if "\<not> launches op" "apply_instance_op (at, now, op) (Some r) = Some r'" for op at now r r'
  proof (cases op)
    case (Upsert_instance u)
    then show ?thesis using that upsert_row[of u at now r r'] by (auto simp: visible_row_def)
  qed (use that in \<open>auto simp: instance_defs visible_row_def captureOrUnknown_def strandedUnidentified_def stranded_def Let_def split: if_splits\<close>)
qed auto

interpretation source_kept: instance_history "\<lambda>op. \<not> launches op"
    "\<lambda>r r'. ri_status r = Inst_stopped \<longrightarrow> ri_status r' = Inst_stopped \<and> ri_sourceKind r' = ri_sourceKind r"
proof
  show "ri_status r = Inst_stopped \<longrightarrow> ri_status r' = Inst_stopped \<and> ri_sourceKind r' = ri_sourceKind r"
    if "\<not> launches op" "apply_instance_op (at, now, op) (Some r) = Some r'" for op at now r r'
  proof (cases op)
    case (Upsert_instance u)
    then show ?thesis using that upsert_row[of u at now r r'] by auto
  qed (use that in \<open>auto simp: instance_defs strandedUnidentified_def stranded_def Let_def split: if_splits\<close>)
qed auto

lemma run_instance_exists: "\<exists>r'. run_instance ops (Some r) = Some r'"
  by (induction ops arbitrary: r) (simp, metis run_instance_Cons instance_step_exists)

definition row_visible :: "stop_state \<Rightarrow> bool" where
  "row_visible s \<longleftrightarrow> (\<exists>r. ss_instance s = Some r \<and> visible_row r)"

definition drain_on_record :: "stop_state \<Rightarrow> bool" where
  "drain_on_record s \<longleftrightarrow> on_record (wk_row (ss_worker s))"

lemma others_visible:
  assumes "launches_nothing e" "row_visible s"
  shows "\<exists>r'. run_instance (se_instanceOthers e k) (ss_instance s) = Some r' \<and> visible_row r'"
proof -
  obtain r where r: "ss_instance s = Some r" "visible_row r" using assms(2) by (auto simp: row_visible_def)
  obtain r' where r': "run_instance (se_instanceOthers e k) (Some r) = Some r'" using run_instance_exists by blast
  then show ?thesis using visible.run[OF r'] r assms(1) by (auto simp: launches_nothing_def)
qed

text \<open>A write of the sweep keeps the row visible.\<close>

definition keeps_visible :: "(int \<Rightarrow> runtime_instance option \<Rightarrow> 'a \<times> runtime_instance option) \<Rightarrow> bool" where
  "keeps_visible f \<longleftrightarrow> (\<forall>at r. visible_row r \<longrightarrow> (\<exists>r'. snd (f at (Some r)) = Some r' \<and> visible_row r'))"

lemma sweep_writes_visible:
  "keeps_visible (stopped_write reason)" "keeps_visible (exited_write rid why)"
  "keeps_visible (\<lambda>at row. ((), markRemoved rid at row))"
  by (auto simp: keeps_visible_def stopped_write_def exited_write_def instance_defs visible_row_def captureOrUnknown_def
      Let_def split: prod.splits if_splits)

lemma instance_call_visible:
  assumes "instance_call e f s = (a, s')" "launches_nothing e" "row_visible s" "keeps_visible f"
  shows "row_visible s'"
proof -
  obtain r1 where r1: "run_instance (se_instanceOthers e (ss_instanceCalls s)) (ss_instance s) = Some r1" "visible_row r1"
    using others_visible[OF assms(2,3)] by blast
  obtain r2 where "snd (f (fst (se_instanceClock e (ss_instanceCalls s))) (Some r1)) = Some r2" "visible_row r2"
    using assms(4) r1(2) unfolding keeps_visible_def by blast
  then show ?thesis using assms(1) r1 by (auto simp: instance_call_def row_visible_def Let_def split: prod.splits fault.splits)
qed

lemma terminally_keeps:
  assumes "terminally e v f s = (a, s')" "launches_nothing e" "keeps_visible f" "only_ops (\<lambda>_ op. \<not> records_end op) (se_ledger e)"
    and "row_visible s" "drain_on_record s"
  shows "row_visible s' \<and> drain_on_record s'"
proof (cases "\<exists>why. v = Record_keep why")
  case True
  then obtain why where t: "withRetention e why f s = (a, s')" using assms(1) by (auto simp: terminally_def)
  obtain r1 where r1: "run_instance (se_instanceOthers e (ss_instanceCalls s)) (ss_instance s) = Some r1" "visible_row r1"
    using others_visible[OF assms(2,5)] by blast
  obtain b r2 where r2: "f (fst (se_instanceClock e (ss_instanceCalls s))) (Some r1) = (b, Some r2)" "visible_row r2"
    using assms(3) r1(2) unfolding keeps_visible_def by (metis prod.collapse)
  have d: "on_record (run_ledger (sd_others (se_ledger e) k) (wk_row (ss_worker s)))" for k
    using recorded.run assms(4,6) by (auto simp: only_ops_def drain_on_record_def)
  have "on_record (markRetained why now row)" for now row
    by (auto simp: markRetained_def on_record_def given_def Let_def split: option.splits)
  then show ?thesis using t r1 r2 d
    by (auto simp: withRetention_def row_visible_def drain_on_record_def Let_def split: if_splits)
next
  case False
  then obtain b where t: "instance_call e f s = (b, s')"
    using assms(1) by (cases v) (auto simp: terminally_def terminal_call_def split: prod.splits)
  show ?thesis
    using instance_call_visible[OF t assms(2,5,3)] instance_call_worker[OF t] assms(6) by (simp add: drain_on_record_def)
qed

lemma with_worker_keeps:
  assumes "with_worker f s = (a, s')" "drain_on_record s" "\<And>w. on_record (wk_row w) \<Longrightarrow> on_record (wk_row (snd (f w)))"
  shows "drain_on_record s' \<and> ss_instance s' = ss_instance s"
  using assms by (auto simp: with_worker_def drain_on_record_def split: prod.splits) (metis snd_conv)

lemma on_worker_keeps:
  assumes "drain_on_record s" "\<And>w. on_record (wk_row w) \<Longrightarrow> on_record (wk_row (f w))"
  shows "drain_on_record (on_worker f s) \<and> ss_instance (on_worker f s) = ss_instance s"
  using assms by (auto simp: on_worker_def drain_on_record_def)

lemma claims_keep:
  assumes "only_ops (\<lambda>_ op. \<not> records_end op) sd" "on_record (wk_row w)"
  shows "on_record (wk_row (snd (claim_call sd owner ms w)))" "on_record (wk_row (unclaim_call sd owner token w))"
    "on_record (wk_row (retain_call sd why w))"
proof -
  show "on_record (wk_row (snd (claim_call sd owner ms w)))"
    unfolding claim_call_def Let_def case_prod_beta snd_conv
    by (rule recorded.op_call[OF assms, where op = "\<lambda>_. Claim_lease (claimLeaseOwner owner (sd_token sd (wk_calls w))) ms"]) simp_all
  show "on_record (wk_row (unclaim_call sd owner token w))" unfolding unclaim_call_def
    by (rule recorded.op_call[OF assms, where op = "\<lambda>_. Release_lease (claimLeaseOwner owner token)"]) simp_all
  show "on_record (wk_row (retain_call sd why w))" unfolding retain_call_def
    by (rule recorded.op_call[OF assms, where op = "\<lambda>_. Mark_retained why"]) simp_all
qed

lemma authorized_keeps:
  assumes "only_ops (\<lambda>_ op. \<not> records_end op) sd" "with_worker (authorizedDeletion sd d) s = (a, s')" "drain_on_record s"
  shows "drain_on_record s' \<and> ss_instance s' = ss_instance s"
  by (rule with_worker_keeps[OF assms(2,3)])
    (metis recorded.authorized[OF assms(1)] authorizedDeletion_def prod.collapse)

lemma decide_ended_keeps:
  assumes "only_ops (\<lambda>_ op. \<not> records_end op) (se_ledger (xe_env e))" "decide_ended e tg rt dn s = (v, s')" "drain_on_record s"
  shows "drain_on_record s' \<and> ss_instance s' = ss_instance s"
proof -
  obtain az s2 where az: "with_worker (authorizedDeletion (se_ledger (xe_env e)) (ended_deleter tg rt dn)) s = (az, s2)"
    by (metis prod.exhaust)
  have "s' = s2" using az assms(2) by (simp add: decide_ended_def)
  then show ?thesis using authorized_keeps[OF assms(1) az assms(3)] by simp
qed

lemma drain_ended_keeps:
  assumes "only_ops (\<lambda>_ op. \<not> records_end op) (se_ledger (xe_env e))" "drain_ended e dr tg rt s = Some (v, s')" "drain_on_record s"
  shows "drain_on_record s' \<and> ss_instance s' = ss_instance s"
proof -
  let ?sd = "se_ledger (xe_env e)"
  obtain c s1 where cl: "with_worker (claim_call ?sd (sn_owner dr) (sn_leaseMs dr)) s = (c, s1)" by (metis prod.exhaust)
  have s1: "drain_on_record s1 \<and> ss_instance s1 = ss_instance s"
    by (rule with_worker_keeps[OF cl assms(3) claims_keep(1)[OF assms(1)]])
  show ?thesis
  proof (cases c)
    case None
    then show ?thesis using s1 assms(2) cl by (auto simp: drain_ended_def)
  next
    case (Some et)
    obtain entry token where et: "et = (entry, token)" by (cases et)
    let ?s2 = "on_worker (unclaim_call ?sd (sn_owner dr) token) s1"
    have s2: "drain_on_record ?s2 \<and> ss_instance ?s2 = ss_instance s1"
      by (rule on_worker_keeps[OF _ claims_keep(2)[OF assms(1)]]) (simp add: s1)
    obtain v2 s3 where d: "decide_ended e tg rt True ?s2 = (v2, s3)" by (metis prod.exhaust)
    have "s' = ?s2 \<or> s' = s3"
      using assms(2) cl Some et d by (auto simp: drain_ended_def Let_def split: option.splits drain_outcome.splits exit_verdict.splits)
    then show ?thesis using s1 s2 decide_ended_keeps[OF assms(1) d] by auto
  qed
qed

lemma decide_ended_goes: "decide_ended e tg rt dn s = (v, s') \<Longrightarrow> goes_state s s'"
  using authorized_goes by (auto simp: decide_ended_def with_worker_def split: prod.splits)

lemma drain_ended_goes:
  assumes "drain_ended e dr tg rt s = Some (v, s')"
  shows "goes_state s s'"
proof -
  obtain c s1 where cl: "with_worker (claim_call (se_ledger (xe_env e)) (sn_owner dr) (sn_leaseMs dr)) s = (c, s1)" by (metis prod.exhaust)
  have s1: "goes_state s s1" by (rule with_worker_goes[OF stop_calls_go(1) cl])
  have s2: "goes_state s (on_worker (unclaim_call (se_ledger (xe_env e)) (sn_owner dr) token) s1)" for token
    using goes_trans[OF s1] stop_calls_go(2) by (simp add: on_worker_def)
  have "s' = s1 \<or> (\<exists>token. s' = on_worker (unclaim_call (se_ledger (xe_env e)) (sn_owner dr) token) s1 \<or>
      (\<exists>v2. decide_ended e tg rt True (on_worker (unclaim_call (se_ledger (xe_env e)) (sn_owner dr) token) s1) = (v2, s')))"
    using assms cl by (auto simp: drain_ended_def Let_def split: option.splits prod.splits drain_outcome.splits exit_verdict.splits)
  then show ?thesis using s1 s2 decide_ended_goes goes_trans by blast
qed

lemma drainBeforeRecording_goes:
  assumes "drainBeforeRecording e opt ad r rid rt s = Some (v, s')"
  shows "goes_state s s'"
proof (cases "xo_drain opt")
  case (Some dr)
  obtain rd s1 where rd: "with_worker (read_call (se_ledger (xe_env e))) s = (rd, s1)" by (metis prod.exhaust)
  have "s' = s1 \<or> (\<exists>tg dn. decide_ended e tg rt dn s1 = (v, s')) \<or> (\<exists>tg. drain_ended e dr tg rt s1 = Some (v, s'))"
    using assms Some rd
    by (auto simp: drainBeforeRecording_def probe_ended_def split: option.splits bool.splits if_splits sample.splits)
  then show ?thesis using read_worker_goes[OF rd] decide_ended_goes drain_ended_goes goes_trans by metis
qed (use assms in \<open>auto simp: drainBeforeRecording_def\<close>)

lemma drainBeforeRecording_keeps:
  assumes "only_ops (\<lambda>_ op. \<not> records_end op) (se_ledger (xe_env e))" "drainBeforeRecording e opt ad r rid rt s = Some (v, s')"
    and "drain_on_record s"
  shows "drain_on_record s' \<and> ss_instance s' = ss_instance s"
proof (cases "xo_drain opt")
  case None
  then show ?thesis using assms by (auto simp: drainBeforeRecording_def)
next
  case (Some dr)
  obtain rd s1 where rd: "with_worker (read_call (se_ledger (xe_env e))) s = (rd, s1)" by (metis prod.exhaust)
  have s1: "drain_on_record s1 \<and> ss_instance s1 = ss_instance s"
    by (rule with_worker_keeps[OF rd assms(3) recorded.calls(1)[OF assms(1)]])
  have "s' = s1 \<or> (\<exists>tg dn. decide_ended e tg rt dn s1 = (v, s')) \<or> (\<exists>tg. drain_ended e dr tg rt s1 = Some (v, s'))"
    using assms(2) Some rd
    by (auto simp: drainBeforeRecording_def probe_ended_def split: option.splits bool.splits if_splits sample.splits)
  then show ?thesis using s1 decide_ended_keeps[OF assms(1)] drain_ended_keeps[OF assms(1)] by metis
qed

lemma giveUp_keeps:
  assumes "only_ops (\<lambda>_ op. \<not> records_end op) (se_ledger e)" "drain_on_record s"
  shows "drain_on_record (giveUpRemoval e opt v s) \<and> ss_instance (giveUpRemoval e opt v s) = ss_instance s"
  using on_worker_keeps[OF assms(2)] recorded.calls(7,8)[OF assms(1)] assms(2)
  by (auto simp: giveUpRemoval_def split: exit_verdict.splits option.splits)

text \<open>Unless the runtime removed it, the executor is where it was.\<close>

lemma removeRemains_keeps:
  assumes "launches_nothing e" "only_ops (\<lambda>_ op. \<not> records_end op) (se_ledger e)" "row_visible s" "drain_on_record s"
  shows "row_visible (removeRemains e opt rid rb s) \<and>
    (drain_on_record (removeRemains e opt rid rb s) \<or>
     (wk_asked (ss_worker (removeRemains e opt rid rb s)) \<noteq> wk_asked (ss_worker s) \<and> removes_next e s))"
proof -
  let ?rn = "\<lparr>rn_exit = se_end e, rn_renewals = se_renewals e\<rparr>"
  obtain res w where rm: "removeUnderDeletion (se_ledger e) ?rn (xo_drain opt \<noteq> None) (rb_basis rb) (rb_ticket rb) (ss_worker s) = (res, w)"
    by (metis prod.exhaust)
  let ?s1 = "s\<lparr>ss_worker := w\<rparr>"
  have s1: "drain_on_record ?s1" "row_visible ?s1"
    using recorded.removed[OF assms(2) _ rm] assms(3,4) by (simp_all add: drain_on_record_def row_visible_def)
  show ?thesis
  proof (cases "res = Removed")
    case False
    then show ?thesis using rm s1 by (simp add: removeRemains_def)
  next
    case True
    obtain a s2 where call: "instance_call e (\<lambda>at row. ((), markRemoved rid at row)) ?s1 = (a, s2)" by (metis prod.exhaust)
    have vis: "row_visible s2" by (rule instance_call_visible[OF call assms(1) s1(2) sweep_writes_visible(3)])
    have w: "ss_worker s2 = w" using instance_call_worker[OF call] by simp
    have "row_visible (removeRemains e opt rid rb s)"
      using rm True call vis by (auto simp: removeRemains_def row_visible_def Let_def)
    moreover have "wk_asked (ss_worker (removeRemains e opt rid rb s)) = wk_asked w"
      using rm True call w by (auto simp: removeRemains_def on_worker_def observe_call_def asks_nothing Let_def)
    moreover have "wk_asked w \<noteq> wk_asked (ss_worker s)" using removed_asked[OF rm[unfolded True]] by auto
    moreover have "removes_next e s" using removed_was_answered[OF rm[unfolded True]] by (simp add: removes_next_def)
    ultimately show ?thesis by simp
  qed
qed

text \<open>C29: an executor that may hold unsaved work leaves the view of the sweeps only when the runtime
  removed it. Whatever the daemon and the runtime answer, whichever writes fail, and whatever others do
  to the rows short of launching the run anew or recording an end themselves: after the sweep looked at
  it, the row is again among those a sweep reads, unless the runtime was asked to remove the executor
  and answered that it did.\<close>

theorem ended_executor_stays_in_view:
  assumes "reconcile_instance e opt ad r s = Some (recorded, s')" "row_visible s" "drain_on_record s"
    and "launches_nothing (xe_env e)" "only_ops (\<lambda>_ op. \<not> records_end op) (se_ledger (xe_env e))"
  shows "(\<exists>r'. ss_instance s' = Some r' \<and> in_view r' (wk_row (ss_worker s'))) \<or>
    (wk_asked (ss_worker s') \<noteq> wk_asked (ss_worker s) \<and> removes_next (xe_env e) s)"
proof -
  have "row_visible s' \<and> (drain_on_record s' \<or> (wk_asked (ss_worker s') \<noteq> wk_asked (ss_worker s) \<and> removes_next (xe_env e) s))"
  proof (cases "\<exists>rid en. ri_resourceId r = Some rid \<and> xe_found e = Some (Has_ended en)")
    case False
    then have "s' = s" using assms(1) by (auto simp: reconcile_instance_def split: option.splits inspection.splits)
    then show ?thesis using assms(2,3) by simp
  next
    case True
    then obtain rid en where ids: "ri_resourceId r = Some rid" "xe_found e = Some (Has_ended en)" by blast
    obtain v s1 where d: "drainBeforeRecording e opt ad r rid (end_state en) s = Some (v, s1)"
        and rest: "(recorded, s') = (if v = Leave then (False, s1) else record_end e opt r rid en v s1)"
      using assms(1) ids by (auto simp: reconcile_instance_def split: if_splits)
    have s1: "drain_on_record s1" "row_visible s1"
      using drainBeforeRecording_keeps[OF assms(5) d assms(3)] assms(2) by (simp_all add: row_visible_def)
    define f where "f = (case ri_stopReason r of Some reason \<Rightarrow> stopped_write reason
        | None \<Rightarrow> exited_write rid (describeExit (xe_runId e) r en))"
    have f: "keeps_visible f" unfolding f_def using sweep_writes_visible by (auto split: option.splits)
    obtain a s2 where t: "terminally (xe_env e) v f s1 = (a, s2)" by (metis prod.exhaust)
    have s2: "row_visible s2" "drain_on_record s2" using terminally_keeps[OF t assms(4) f assms(5) s1(2,1)] by auto
    have same: "wk_asked (ss_worker s2) = wk_asked (ss_worker s)"
      using terminally_goes[OF t] drainBeforeRecording_goes[OF d] by (simp add: goes_def)
    have "s' = s1 \<or> s' = s2 \<or> s' = giveUpRemoval (xe_env e) opt v s2 \<or> (\<exists>rb. s' = removeRemains (xe_env e) opt rid rb s2)"
      using rest t by (auto simp: record_end_def f_def[symmetric] split: if_splits option.splits exit_verdict.splits)
    then show ?thesis
      using s1 s2 giveUp_keeps[OF assms(5) s2(2), of opt v] removeRemains_keeps[OF assms(4,5) s2, of opt rid] same
      by (auto simp: row_visible_def removes_next_def)
  qed
  then show ?thesis using visible_in_view by (auto simp: row_visible_def drain_on_record_def)
qed

section \<open>Ended executors nothing settled\<close>

text \<open>The second look at an ended executor asks the runtime as soundly as the first.\<close>

lemma settle_unsettled_sound:
  assumes "reaches None (wk_row (ss_worker s))" "own_tokens (se_ledger (xe_env e))" "xo_drain opt \<noteq> None"
  shows "\<exists>n rt. said_missing e rt \<and> n \<le> 1 \<and> asks_soundly (exit_executor e r) rt s (settle_unsettled e opt ad r rid s) n"
proof (cases "\<exists>seen. runIsCaptureSourced (ri_sourceKind r) (se_snapshot (xe_env e)) = Some True \<and> xe_found e = Some seen")
  case False
  then have "settle_unsettled e opt ad r rid s = s" by (auto simp: settle_unsettled_def split: option.splits bool.splits)
  then show ?thesis using asks_nothing_goes[OF _ assms(1), of s] by (fastforce simp: said_missing_def)
next
  case True
  then obtain seen where seen: "runIsCaptureSourced (ri_sourceKind r) (se_snapshot (xe_env e)) = Some True" "xe_found e = Some seen" by blast
  let ?rt = "inspected_state seen" and ?sd = "se_ledger (xe_env e)" and ?s' = "settle_unsettled e opt ad r rid s"
  obtain az s1 where az: "with_worker (authorizedDeletion ?sd (ended_deleter (exit_target e ad r rid True) ?rt False)) s = (az, s1)"
    by (metis prod.exhaust)
  have s1: "goes_state s s1" using authorized_based(1)[OF az] by simp
  have said: "said_missing e ?rt" using seen(2) by (cases seen) (auto simp: said_missing_def)
  show ?thesis
  proof (cases "\<exists>b. az_decision az = Delete b \<and> b \<noteq> Missing")
    case True
    then obtain b where b: "az_decision az = Delete b" "b \<noteq> Missing" by blast
    let ?rb = "\<lparr>rb_captureSourced = True, rb_basis = b, rb_ticket = az_ticket az\<rparr>"
    have "well_based ?sd (exit_executor e r) ?rt ?rb (wk_row (ss_worker s1))"
      using authorized_based(2)[OF az _ b(1), of True] by simp
    then obtain n where "n \<le> 1" "asks_soundly (exit_executor e r) ?rt s1 (removeRemains (xe_env e) opt rid ?rb s1) n"
      using removeRemains_sound[OF _ reaches_goes[OF s1 assms(1)] assms(2,3)] by blast
    moreover have "?s' = removeRemains (xe_env e) opt rid ?rb s1" using seen az b by (simp add: settle_unsettled_def)
    ultimately show ?thesis using goes_then_asks[OF s1] said by metis
  next
    case False
    have go: "goes_state s1 ?s'"
    proof (cases "az_decision az")
      case (Delete b)
      then have "b = Missing" using False by simp
      then show ?thesis using seen az Delete by (simp add: settle_unsettled_def on_worker_def stop_calls_go)
    next
      case (Keep why)
      then show ?thesis using seen az by (simp add: settle_unsettled_def on_worker_def stop_calls_go)
    qed
    show ?thesis using asks_nothing_goes[OF goes_trans[OF s1 go] assms(1), of "exit_executor e r" Rt_running]
      by (intro exI[of _ 0] exI[of _ Rt_running]) (simp add: said_missing_def)
  qed
qed

section \<open>An exit fenced out\<close>

text \<open>C30: the retention and the end of a kept executor do not land together when the exit is fenced out.
  A stop requested, or a relaunch, between the listing and the write: the write ends nothing and says
  so, which is no failure, so the transaction commits the retention alone. The run's row is as the
  others left it, and its executor, up or being stopped, is recorded retained.\<close>

theorem fenced_out_exit_is_retained:
  assumes "xe_found e = Some (Has_ended en)" "ri_resourceId r = Some rid" "ri_stopReason r = None"
    and "drainBeforeRecording e opt ad r rid (end_state en) s = Some (Record_keep why, s1)"
    and "run_instance (se_instanceOthers (xe_env e) (ss_instanceCalls s1)) (ss_instance s1) = Some r1"
    and "ri_stopReason r1 \<noteq> None \<or> ri_status r1 \<noteq> Inst_ready \<or> ri_resourceId r1 \<noteq> Some rid"
    and "se_instanceFault (xe_env e) (ss_instanceCalls s1) = No_fault"
    and "sd_fault (se_ledger (xe_env e)) (wk_calls (ss_worker s1)) = No_fault"
  shows "\<exists>s'. reconcile_instance e opt ad r s = Some (False, s') \<and> ss_instance s' = Some r1 \<and>
    \<not> not_retained (wk_row (ss_worker s'))"
proof -
  have "exited_write rid msg at (Some r1) = (Some None, Some r1)" for msg at
    using assms(6) by (auto simp: exited_write_def markExited_def update_where_def)
  then show ?thesis
    using assms(1-5,7,8)
    by (auto simp: reconcile_instance_def record_end_def terminally_def withRetention_def giveUpRemoval_def markRetained_def
        not_retained_def given_def Let_def split: option.splits)
qed

section \<open>The remains of stopped executors\<close>

lemma listing_runs: "map fst (listing P runs st) = filter (\<lambda>i. case instance_row st i of Some r \<Rightarrow> P r (wk_row (ss_worker (st i))) | None \<Rightarrow> False) runs"
  by (induction runs) (auto simp: listing_def List.map_filter_simps split: option.splits)

lemma listing_member: "(i, r) \<in> set (listing P runs st) \<Longrightarrow> i \<in> set runs \<and> instance_row st i = Some r \<and> P r (wk_row (ss_worker (st i)))"
  by (auto simp: listing_def List.map_filter_def split: option.splits if_splits)

text \<open>Rows of different runs are met as they were when the loop began.\<close>

lemma each_run_answers:
  assumes "distinct (map fst rows)"
  shows "fst (each_run f rows st) = map (\<lambda>(i, r). fst (f i r (st i))) rows"
proof -
  let ?step = "\<lambda>(i, r) (as, st). case f i r (st i) of (a, s) \<Rightarrow> (as @ [a], st(i := s))"
  have "fst (fold ?step rows (as, st1)) = as @ map (\<lambda>(i, r). fst (f i r (st1 i))) rows" if "distinct (map fst rows)" for as st1
    using that
  proof (induction rows arbitrary: as st1)
    case (Cons x rows)
    obtain i r a s where x: "x = (i, r)" "f i r (st1 i) = (a, s)" by (metis surj_pair)
    have "map (\<lambda>(j, q). fst (f j q ((st1(i := s)) j))) rows = map (\<lambda>(j, q). fst (f j q (st1 j))) rows"
      using Cons.prems x by (force simp: map_eq_conv)
    then show ?case using Cons.IH[of "as @ [a]" "st1(i := s)"] Cons.prems x by simp
  qed simp
  then show ?thesis using assms by (simp add: each_run_def)
qed

lemma others_reach: "reaches (wk_row (ss_worker s)) (wk_row (ss_worker (others_first e s)))"
  by (auto simp: others_first_def reaches_def Let_def)

text \<open>C31: the remains of a stopped executor are removed only where its removal is final. Whatever others do
  between the listing and the request, short of launching the run anew: when the runtime is asked to
  remove what a stopped executor left, the run's row still says stopped and names that executor; and
  when the run is capture-sourced, or its source is unknown, the record says that the removal of the
  executor is done, or that its owner discarded the work.\<close>

theorem remains_removed_only_when_final:
  assumes "removeStoppedRemains v opt runs st = (asked, st')" "distinct runs" "rq \<in> set asked"
    and "\<And>i. launches_nothing (xe_env (sw_env v Removing i))"
  shows "\<exists>r. rq_instance rq = Some r \<and> ri_status r = Inst_stopped \<and> ri_resourceId r = Some (rq_resourceId rq) \<and>
    (captureOrUnknown r \<longrightarrow> is_deleted (rq_drain rq) \<or> is_discarded (rq_drain rq))"
proof -
  let ?adapters = "filter ad_keepsRemains (xo_adapters opt)"
  define st0 where "st0 = arrive (sw_env v Removing) runs st"
  define rows where "rows = take REMAINS_PER_SWEEP
    (listing (\<lambda>r d. stoppedWithRemains (map ad_id ?adapters) REMAINS_GRACE_MS (sw_now v Removing) r d) runs st0)"
  have "distinct (map fst rows)" using assms(2) by (simp add: rows_def take_map[symmetric] listing_runs)
  moreover have "asked = fst (each_run (\<lambda>i r s. remove_stopped_remains (sw_env v Removing i) (the (ri_resourceId r)) s) rows st0)"
    using assms(1,3) by (auto simp: removeStoppedRemains_def st0_def rows_def Let_def split: if_splits)
  ultimately have "asked = map (\<lambda>(i, r). fst (remove_stopped_remains (sw_env v Removing i) (the (ri_resourceId r)) (st0 i))) rows"
    by (simp add: each_run_answers)
  then obtain i r0 where row: "(i, r0) \<in> set rows"
      "rq = fst (remove_stopped_remains (sw_env v Removing i) (the (ri_resourceId r0)) (st0 i))"
    using assms(3) by auto
  have listed: "ss_instance (st0 i) = Some r0"
    "stoppedWithRemains (map ad_id ?adapters) REMAINS_GRACE_MS (sw_now v Removing) r0 (wk_row (ss_worker (st0 i)))"
    using listing_member[OF in_set_takeD[OF row(1)[unfolded rows_def]]] by (simp_all add: instance_row_def)
  let ?s1 = "others_first (xe_env (sw_env v Removing i)) (st0 i)"
  have rq: "rq_drain rq = wk_row (ss_worker ?s1)" "rq_instance rq = ss_instance ?s1" "rq_resourceId rq = the (ri_resourceId r0)"
    using row(2) by (simp_all add: remove_stopped_remains_def Let_def)
  have "captureOrUnknown r0 \<Longrightarrow> is_deleted (wk_row (ss_worker (st0 i))) \<or> is_discarded (wk_row (ss_worker (st0 i)))"
    using listed(2) by (auto simp: stoppedWithRemains_def is_deleted_def is_discarded_def split: option.splits)
  then have final: "captureOrUnknown r0 \<Longrightarrow> is_deleted (rq_drain rq) \<or> is_discarded (rq_drain rq)"
    using reaches_stays[OF others_reach[of "st0 i"]] rq(1) by auto
  obtain r' where r': "run_instance (se_instanceOthers (xe_env (sw_env v Removing i)) (ss_instanceCalls (st0 i))) (Some r0) = Some r'"
    by (metis run_instance_exists)
  have ops: "\<forall>(at, now, op) \<in> set (se_instanceOthers (xe_env (sw_env v Removing i)) (ss_instanceCalls (st0 i))). \<not> launches op"
    using assms(4) by (simp add: launches_nothing_def)
  have "ri_status r0 = Inst_stopped" "ri_resourceId r0 \<noteq> None" using listed(2) by (auto simp: stoppedWithRemains_def)
  moreover have "same_stop r0 r'" using stopped.run[OF r' ops] calculation(1) by simp
  moreover have "captureOrUnknown r' \<Longrightarrow> captureOrUnknown r0"
    using source_kept.run[OF r' ops] calculation(1) by (simp add: captureOrUnknown_def)
  moreover have "rq_instance rq = Some r'" using rq(2) listed(1) r' by (simp add: others_first_def Let_def)
  ultimately show ?thesis using final rq(3) by (auto simp: same_stop_def)
qed

section \<open>The theorems on the sweep\<close>

text \<open>An executor that exited, whose daemon does not answer; \<open>others\<close>: what is done to its row first.\<close>

definition exited_env :: "(int \<times> int \<times> instance_op) list \<Rightarrow> exit_env" where
  "exited_env others =
     \<lparr>xe_env = (ended_stop [] True)\<lparr>se_instanceOthers := (\<lambda>k. if k = 0 then others else [])\<rparr>, xe_runId = ''r'',
      xe_probe = Sample_unreachable ''timeout'',
      xe_found = Some (Has_ended (End_exited \<lparr>ed_exitCode = Some 75, ed_detail = None, ed_platformEnded = None, ed_platformState = None\<rparr>))\<rparr>"

definition poll :: exit_options where
  "poll = \<lparr>xo_adapters = [docker], xo_drain = so_drain user_stop, xo_reachable = (\<lambda>_. True)\<rparr>"

definition swept :: "(int \<times> ledger_op) list \<Rightarrow> stop_state" where
  "swept past = snd (the (reconcile_instance (exited_env []) poll docker ready_row (before_stop past)))"

lemma exit_samples:
  "reconcile_instance (exited_env []) poll docker ready_row (before_stop saved_history) = Some (True, swept saved_history)"
  "reconcile_instance (exited_env []) poll docker ready_row (before_stop []) = Some (True, swept [])"
  by code_simp+

lemma exit_facts:
  "own_tokens (se_ledger (xe_env (exited_env ops)))" "launches_nothing (xe_env (exited_env []))"
  "only_ops P (se_ledger (xe_env (exited_env ops)))" "se_snapshot (xe_env (exited_env ops)) = None"
  "row_visible (before_stop past)" "drain_on_record (before_stop [])" "ri_resourceId ready_row = Some ''c1''"
  "ri_stopReason ready_row = None"
  by (simp_all add: exited_env_def ended_stop_def own_tokens_def launches_nothing_def only_ops_def quiet_schedule_def row_visible_def
      drain_on_record_def before_stop_def visible_row_def ready_row_def fresh_instance_def captureOrUnknown_def on_record_def)

theorem ended_executor_removed_on_evidence_witness:
  "length (wk_asked (ss_worker (swept saved_history))) \<le> 1 \<and>
   (\<exists>rt. \<forall>c \<in> set (wk_asked (ss_worker (swept saved_history))). sound_request (exit_executor (exited_env []) ready_row) rt c)"
  using ended_executor_removed_on_evidence[OF exit_samples(1) _ sample_facts(5,6) exit_facts(1)] exit_facts(4) sample_facts(3)
  by auto

lemma asked_sample: "wk_asked (ss_worker (swept saved_history)) \<noteq> []" "wk_asked (ss_worker (swept [])) = []"
  by code_simp+

theorem ended_executor_stays_in_view_witness:
  "\<exists>r'. ss_instance (swept []) = Some r' \<and> in_view r' (wk_row (ss_worker (swept [])))"
  using ended_executor_stays_in_view[OF exit_samples(2) exit_facts(5,6,2,3)] asked_sample(2) by (simp add: before_stop_def)

text \<open>A stop is requested between the listing and the write.\<close>

definition stopping :: "(int \<times> int \<times> instance_op) list" where
  "stopping = [(1, 1, Mark_stop_requested By_user)]"

definition kept_reason :: string where
  "kept_reason = ''the executor ended and its disk holds work not confirmed saved (no complete final flush observed, attested or discarded)''"

definition verdict_state :: stop_state where
  "verdict_state = snd (the (drainBeforeRecording (exited_env stopping) poll docker ready_row ''c1'' Rt_exited (before_stop [])))"

definition stopping_row :: runtime_instance where
  "stopping_row = the (run_instance stopping (Some ready_row))"

lemma fenced_samples:
  "drainBeforeRecording (exited_env stopping) poll docker ready_row ''c1'' Rt_exited (before_stop []) = Some (Record_keep kept_reason, verdict_state)"
  "run_instance (se_instanceOthers (xe_env (exited_env stopping)) (ss_instanceCalls verdict_state)) (ss_instance verdict_state) = Some stopping_row"
  "ri_stopReason stopping_row = Some By_user"
  "se_instanceFault (xe_env (exited_env stopping)) (ss_instanceCalls verdict_state) = No_fault"
  "sd_fault (se_ledger (xe_env (exited_env stopping))) (wk_calls (ss_worker verdict_state)) = No_fault"
  by code_simp+

theorem fenced_out_exit_is_retained_witness:
  "\<exists>s'. reconcile_instance (exited_env stopping) poll docker ready_row (before_stop []) = Some (False, s') \<and>
     ss_instance s' = Some stopping_row \<and> \<not> not_retained (wk_row (ss_worker s'))"
  by (rule fenced_out_exit_is_retained[where en = "End_exited \<lparr>ed_exitCode = Some 75, ed_detail = None, ed_platformEnded = None, ed_platformState = None\<rparr>",
        OF _ exit_facts(7,8) _ fenced_samples(2) _ fenced_samples(4,5)])
    (simp_all add: exited_env_def fenced_samples(1)[unfolded exited_env_def] fenced_samples(3))

text \<open>One run, stopped long ago, whose work its owner discarded.\<close>

definition remains_sweep :: sweep_env where
  "remains_sweep = \<lparr>sw_env = (\<lambda>_ _. exited_env []), sw_answers = (\<lambda>_. []), sw_unownedGraceMs = 0, sw_lostGraceMs = 0,
     sw_now = (\<lambda>_. 1000000000)\<rparr>"

definition remains_world :: world where
  "remains_world = (\<lambda>_. (before_stop [(1, Request_discard ''u'')])
     \<lparr>ss_instance := Some (ready_row\<lparr>ri_status := Inst_stopped, ri_finishedAt := Some 5\<rparr>)\<rparr>)"

definition remains_asked :: remains_request where
  "remains_asked = \<lparr>rq_run = ''r'', rq_resourceId = ''c1'', rq_drain = run_ledger [(1, Request_discard ''u'')] None,
     rq_instance = Some (ready_row\<lparr>ri_status := Inst_stopped, ri_finishedAt := Some 5\<rparr>)\<rparr>"

lemma remains_sample: "fst (removeStoppedRemains remains_sweep poll [''r''] remains_world) = [remains_asked]"
  by code_simp

theorem remains_removed_only_when_final_witness:
  "\<exists>r. rq_instance remains_asked = Some r \<and> ri_status r = Inst_stopped \<and> ri_resourceId r = Some ''c1'' \<and>
     (captureOrUnknown r \<longrightarrow> is_deleted (rq_drain remains_asked) \<or> is_discarded (rq_drain remains_asked))"
proof -
  have "removeStoppedRemains remains_sweep poll [''r''] remains_world =
      ([remains_asked], snd (removeStoppedRemains remains_sweep poll [''r''] remains_world))"
    using remains_sample by (metis prod.collapse)
  from remains_removed_only_when_final[OF this] show ?thesis
    using exit_facts(2) by (simp add: remains_sweep_def remains_asked_def)
qed

end
