(* ===== verification/Executor_Recovery.thy ===== *)
theory Executor_Recovery
  imports Runtime_Exits_Proofs
begin

text \<open>
  The recovery of retained executors (\<open>packages/workspaces/src/worker/recover-retained-executors.ts\<close>): one
  attempt, under its claim, first weighs the evidence, then is admitted, has the runtime start the
  executor on its own disk, drains it and removes it. The tables, the runtime and the drain are met as in
  a stop. What the runtime answers to a restart, whether the kept token can be unsealed and staged, and
  whether the daemon can be reached are arguments. A call that outlives its bound is a failed call; the
  bound on the whole attempt, the parking of what runs beside an executor and the staged material are
  not modelled.
\<close>

section \<open>The schedule of attempts\<close>

record recovery_backoff =
  bo_baseMs :: int
  bo_maxMs :: int

definition DEFAULT_RECOVERY_BACKOFF :: recovery_backoff where
  "DEFAULT_RECOVERY_BACKOFF = \<lparr>bo_baseMs = 10000, bo_maxMs = 60 * 60000\<rparr>"

definition nextRecoveryDelayMs :: "int \<Rightarrow> recovery_backoff \<Rightarrow> int" where
  "nextRecoveryDelayMs attempts b = min (bo_maxMs b) (bo_baseMs b * 2 ^ nat (min (max 0 attempts) 30))"

definition RECOVERY_CLAIM_MARGIN_MS :: int where "RECOVERY_CLAIM_MARGIN_MS = 3 * 60000"

section \<open>What an attempt meets\<close>

datatype recover_answer =
  Rc_restarted | Rc_running | Rc_gone | Rc_nothing_to_save string | Rc_unsupported string | Rc_failed string

text \<open>\<open>rv_unseal\<close>: the cipher, \<^const>\<open>None\<close> when there is none; what it makes of a sealed token, if anything.
  \<open>rv_restage\<close>: \<^const>\<open>None\<close> when the token cannot be staged again; why staging it fails, if it does.
  \<open>rv_recover\<close>: the runtime's answer, \<^const>\<open>None\<close> when it has no recovery. Instants are the process's, in
  milliseconds.\<close>

record recovery_env =
  rv_env :: stop_env
  rv_runId :: string
  rv_adapters :: "adapter list"
  rv_backoff :: recovery_backoff
  rv_attemptMs :: int
  rv_now :: int
  rv_unseal :: "(string \<Rightarrow> string option) option"
  rv_restage :: "string option option"
  rv_recover :: "recover_answer option"
  rv_reachable :: "runtime_instance \<Rightarrow> bool"
  rv_drain :: stop_drain

text \<open>A restart asked of the runtime: what it had said of the executor, the instance's row as read, and the
  drain record at that instant.\<close>

record recover_call =
  rcv_state :: runtime_state
  rcv_adapter :: string
  rcv_instance :: runtime_instance
  rcv_row :: "drain_row option"

datatype recovery_outcome = Released | Lost | Retained

text \<open>What a part of an attempt comes to: \<^const>\<open>None\<close> is a failure; the restart it asked for, if it did.\<close>

type_synonym attempt = "recovery_outcome option \<times> recover_call option \<times> stop_state"

definition runtimeRestartsRetainedExecutors :: "string \<Rightarrow> bool" where
  "runtimeRestartsRetainedExecutors adapterId \<longleftrightarrow> adapterId = ''docker'' \<or> adapterId = ''microvm''"

definition runtimeRecoveryTakesSecretEnv :: "string \<Rightarrow> bool" where
  "runtimeRecoveryTakesSecretEnv adapterId \<longleftrightarrow> adapterId = ''microvm''"

text \<open>No way to inspect, or a failed read, says nothing.\<close>

definition runtimeNow :: "recovery_env \<Rightarrow> adapter \<Rightarrow> stop_state \<Rightarrow> runtime_state \<times> stop_state" where
  "runtimeNow e ad s =
     (if \<not> ad_inspects ad then (Rt_unknown, s)
      else (given (se_inspect (rv_env e) (ss_inspects s)) Rt_unknown, s\<lparr>ss_inspects := Suc (ss_inspects s)\<rparr>))"

section \<open>Ending an attempt\<close>

definition retry :: "recovery_env \<Rightarrow> string \<Rightarrow> int \<Rightarrow> stop_state \<Rightarrow> recovery_outcome option \<times> stop_state" where
  "retry e err delayMs s =
     (let (reply, s') = with_worker (ledger_call (se_ledger (rv_env e))
        (\<lambda>now row. ((), recordRecoveryAttempt (Some err) ((rv_now e + delayMs) * 1000) row))) s
      in (map_option (\<lambda>_. Retained) reply, s'))"

definition retry_soon :: "recovery_env \<Rightarrow> string \<Rightarrow> stop_state \<Rightarrow> recovery_outcome option \<times> stop_state" where
  "retry_soon e err = retry e err (bo_baseMs (rv_backoff e))"

definition retry_later :: "recovery_env \<Rightarrow> drain_row \<Rightarrow> string \<Rightarrow> stop_state \<Rightarrow> recovery_outcome option \<times> stop_state" where
  "retry_later e d err = retry e err (nextRecoveryDelayMs (rt_attempts (dr_retention d)) (rv_backoff e))"

definition observed :: "recovery_env \<Rightarrow> drain_state \<Rightarrow> string \<Rightarrow> stop_state \<Rightarrow> stop_state" where
  "observed e st detail = on_worker (observe_call (se_ledger (rv_env e)) st (Some detail))"

text \<open>Removed and recorded stopped; the removal and the end of the retention are recorded best-effort.\<close>

definition release ::
  "recovery_env \<Rightarrow> runtime_instance \<Rightarrow> string \<Rightarrow> deletion_basis \<Rightarrow> string option \<Rightarrow> string option \<Rightarrow> stop_state \<Rightarrow>
     recovery_outcome option \<times> stop_state"
where
  "release e r rid basis ticket said s =
     (let (removal, w) = removeUnderDeletion (se_ledger (rv_env e))
            \<lparr>rn_exit = se_end (rv_env e), rn_renewals = se_renewals (rv_env e)\<rparr> True basis ticket (ss_worker s);
          s1 = s\<lparr>ss_worker := w\<rparr>
      in case removal of
           Voided \<Rightarrow> retry_soon e ''its removal was voided by newer evidence before it was made'' s1
         | Failed_call \<Rightarrow> (None, s1)
         | Removed \<Rightarrow>
             (case terminal_call (rv_env e) (stopped_write (given (ri_stopReason r) By_failure)) s1 of
                (Some (Some _), s2) \<Rightarrow>
                  let s3 = snd (instance_call (rv_env e) (\<lambda>at row. ((), markRemoved rid at row)) s2) in
                  (Some Released, observed e Ds_stopped
                    (''the retained executor was removed: '' @ describeDeletionBasis basis @ in_brackets said) s3)
              | (_, s2) \<Rightarrow> (None, s2)))"

definition lost_detail :: "string \<Rightarrow> string \<Rightarrow> string" where
  "lost_detail adapterId rid =
     ''the runtime no longer knows the retained executor ('' @ adapterId @ '' '' @ rid @ ''); whatever it held that was not saved is lost''"

definition held_elsewhere :: string where
  "held_elsewhere = ''another path is removing the executor right now''"

definition recovery_deleter :: "adapter \<Rightarrow> executor_identity \<Rightarrow> string \<Rightarrow> runtime_state \<Rightarrow> bool \<Rightarrow> deleter" where
  "recovery_deleter ad x claim rt drainedNow =
     \<lparr>dl_hasLedger = True, dl_decide = decide_on_record True rt drainedNow x, dl_runtime = Some rt,
      dl_removalFenceMs = ad_removalFenceMs ad, dl_recovery = Some claim\<rparr>"

section \<open>Draining the recovered executor\<close>

definition not_complete :: "string \<Rightarrow> string" where
  "not_complete kind = ''the recovered executor's final flush is not complete yet ('' @ kind @ '')''"

definition vanished :: "string \<Rightarrow> string" where
  "vanished detail = ''the recovered executor vanished before its final flush completed ('' @ detail @
     ''); whatever it held that was not saved is lost''"

definition drain_recovered ::
  "recovery_env \<Rightarrow> drain_row \<Rightarrow> adapter \<Rightarrow> runtime_instance \<Rightarrow> string \<Rightarrow> executor_identity \<Rightarrow> string \<Rightarrow> stop_state \<Rightarrow>
     (recovery_outcome option \<times> stop_state) option"
where
  "drain_recovered e d ad r rid x claim s =
     (let sd = se_ledger (rv_env e); dr = rv_drain e in
      case with_worker (claim_call sd (sn_owner dr) (sn_leaseMs dr)) s of
        (None, s1) \<Rightarrow> Some (retry_soon e (not_complete ''busy'') s1)
      | (Some (entry, token), s1) \<Rightarrow>
          (case drainCaptureBeforeStop (sn_call dr) (se_drained (rv_env e)) False (Some entry) of
             None \<Rightarrow> None
           | Some (outcome, _) \<Rightarrow>
               let s2 = on_worker (unclaim_call sd (sn_owner dr) token) s1 in
               Some (case outcome of
                 Drained _ \<Rightarrow>
                   let (az, s3) = with_worker (authorizedDeletion sd (recovery_deleter ad x claim Rt_running True)) s2 in
                   (case az_decision az of
                      Delete b \<Rightarrow> release e r rid b (az_ticket az) None s3
                    | Keep why \<Rightarrow> retry_soon e (if az_heldElsewhere az then held_elsewhere else why) s3)
               | Gone _ detail \<Rightarrow> (Some Lost, observed e Ds_gone (vanished detail) s2)
               | Pending _ \<Rightarrow> retry_soon e (not_complete ''pending'') s2
               | Busy \<Rightarrow> retry_soon e (not_complete ''busy'') s2
               | Unconfirmed _ _ \<Rightarrow> retry_later e d (not_complete ''unconfirmed'') s2
               | Stalled _ _ _ \<Rightarrow> retry_later e d (not_complete ''stalled'') s2
               | Silent _ _ \<Rightarrow> retry_later e d (not_complete ''silent'') s2)))"

section \<open>Recovering it\<close>

definition after_recover ::
  "recovery_env \<Rightarrow> drain_row \<Rightarrow> adapter \<Rightarrow> runtime_instance \<Rightarrow> string \<Rightarrow> executor_identity \<Rightarrow> string \<Rightarrow> recover_answer \<Rightarrow> stop_state \<Rightarrow>
     (recovery_outcome option \<times> stop_state) option"
where
  "after_recover e d ad r rid x claim answer s =
     (case answer of
        Rc_nothing_to_save said \<Rightarrow> Some (release e r rid Nothing_to_save None (Some said) s)
      | Rc_gone \<Rightarrow> Some (Some Lost, observed e Ds_gone (lost_detail (ad_id ad) rid) s)
      | Rc_unsupported why \<Rightarrow> Some (retry_later e d why s)
      | Rc_failed why \<Rightarrow> Some (retry_later e d why s)
      | _ \<Rightarrow>
          if \<not> rv_reachable e r
          then Some (retry_later e d ''the executor is up but this worker cannot reach its daemon'' s)
          else drain_recovered e d ad r rid x claim s)"

text \<open>What keeps an ended executor from being restarted, if anything does.\<close>

definition no_token :: "string \<Rightarrow> string option" where
  "no_token why = Some (''not recoverable'' @ separator @ ''no capture token'' @ separator @ why)"

definition not_restartable :: "recovery_env \<Rightarrow> drain_row \<Rightarrow> adapter \<Rightarrow> runtime_instance \<Rightarrow> string option" where
  "not_restartable e d ad r =
     (if ri_daemonRecoveryBoot r \<noteq> Some True then
        let build = given (ri_daemonImage r) ''a daemon build Core did not record'' in
        Some (''not recoverable in place'' @ separator @
          (if ri_daemonRecoveryBoot r = Some False then ''its daemon ('' @ build @ '') predates sealantd's recovery boot''
           else ''Core cannot tell whether its daemon ('' @ build @ '') has sealantd's recovery boot''))
      else case (dr_captureToken d, rv_unseal e) of
        (None, _) \<Rightarrow> no_token ''no capture token was kept at launch''
      | (Some _, None) \<Rightarrow> no_token ''the worker has no credential cipher to unseal it''
      | (Some sealed, Some f) \<Rightarrow>
          if f sealed = None then no_token ''the kept capture token cannot be unsealed''
          else if runtimeRecoveryTakesSecretEnv (ad_id ad) then None
          else case rv_restage e of
            None \<Rightarrow> no_token ''this worker cannot stage launch material for it''
          | Some failed \<Rightarrow> map_option (\<lambda>why. ''staging the capture token failed: '' @ why) failed)"

text \<open>Only an executor the runtime said has ended is checked before the runtime is asked to recover it.\<close>

definition recover_executor ::
  "recovery_env \<Rightarrow> drain_row \<Rightarrow> adapter \<Rightarrow> runtime_instance \<Rightarrow> string \<Rightarrow> executor_identity \<Rightarrow> string \<Rightarrow> runtime_state \<Rightarrow> stop_state \<Rightarrow>
     attempt option"
where
  "recover_executor e d ad r rid x claim rt s =
     (let restarts = (rt = Rt_exited \<and> runtimeRestartsRetainedExecutors (ad_id ad)) in
      case (if restarts then not_restartable e d ad r else None) of
        Some why \<Rightarrow> Some (case retry_later e d why s of (out, s1) \<Rightarrow> (out, None, s1))
      | None \<Rightarrow>
          let s1 = others_first (rv_env e) s;
              call = (if rv_recover e = None then None
                else Some \<lparr>rcv_state = rt, rcv_adapter = ad_id ad, rcv_instance = r, rcv_row = wk_row (ss_worker s1)\<rparr>);
              answer = given (rv_recover e) (Rc_unsupported (''the '' @ ad_id ad @ '' runtime cannot restart an ended executor on its own disk''))
          in map_option (\<lambda>(out, s2). (out, call, s2)) (after_recover e d ad r rid x claim answer s1))"

definition no_call :: "recovery_outcome option \<times> stop_state \<Rightarrow> attempt" where
  "no_call = (\<lambda>(out, s). (out, None, s))"

definition removed_elsewhere :: "string \<Rightarrow> string \<Rightarrow> string" where
  "removed_elsewhere adapterId rid =
     ''the retained executor was removed by another path ('' @ adapterId @ '' '' @ rid @ ''), on the evidence its removal was authorized on''"

definition admit_and_recover ::
  "recovery_env \<Rightarrow> drain_row \<Rightarrow> adapter \<Rightarrow> runtime_instance \<Rightarrow> string \<Rightarrow> executor_identity \<Rightarrow> string \<Rightarrow> runtime_state \<Rightarrow> stop_state \<Rightarrow>
     attempt option"
where
  "admit_and_recover e d ad r rid x claim rt s =
     (case with_worker (ledger_call (se_ledger (rv_env e)) (admitRecovery claim)) s of
        (Some Admit_ok, s1) \<Rightarrow> recover_executor e d ad r rid x claim rt s1
      | (Some Admit_deleted, s1) \<Rightarrow> Some (Some Released, None, observed e Ds_stopped (removed_elsewhere (ad_id ad) rid) s1)
      | (Some Admit_deleting, s1) \<Rightarrow> Some (no_call (retry_soon e held_elsewhere s1))
      | (Some Admit_unclaimed, s1) \<Rightarrow> Some (no_call (retry_soon e ''this attempt's recovery claim lapsed before it started anything'' s1))
      | (None, s1) \<Rightarrow> Some (no_call (retry_soon e ''whether another path is removing the executor cannot be read'' s1)))"

text \<open>Evidence first: an attestation or a discard may have arrived since it was retained.\<close>

definition recovered_executor :: "recovery_env \<Rightarrow> runtime_instance \<Rightarrow> executor_identity" where
  "recovered_executor e r = \<lparr>xi_runId = rv_runId e, xi_resourceId = ri_resourceId r, xi_reference = ri_reference r\<rparr>"

definition recover_located ::
  "recovery_env \<Rightarrow> drain_row \<Rightarrow> adapter \<Rightarrow> runtime_instance \<Rightarrow> string \<Rightarrow> string \<Rightarrow> stop_state \<Rightarrow> attempt option"
where
  "recover_located e d ad r rid claim s =
     (let x = recovered_executor e r;
          (rt, s1) = runtimeNow e ad s;
          (az, s2) = with_worker (authorizedDeletion (se_ledger (rv_env e)) (recovery_deleter ad x claim rt False)) s1
      in case az_decision az of
           Delete b \<Rightarrow>
             Some (if b = Missing then (Some Lost, None, observed e Ds_gone (lost_detail (ad_id ad) rid) s2)
               else no_call (release e r rid b (az_ticket az) None s2))
         | Keep why \<Rightarrow>
             if az_heldElsewhere az then Some (no_call (retry_soon e held_elsewhere s2))
             else admit_and_recover e d ad r rid x claim rt s2)"

definition recoverOne :: "recovery_env \<Rightarrow> drain_row \<Rightarrow> string \<Rightarrow> stop_state \<Rightarrow> attempt option" where
  "recoverOne e d claim s =
     (case instance_call (rv_env e) (\<lambda>at row. (row, row)) s of
        (None, s1) \<Rightarrow> Some (None, None, s1)
      | (Some None, s1) \<Rightarrow> Some (no_call (retry_later e d ''no runtime identity is recorded for this run'' s1))
      | (Some (Some r), s1) \<Rightarrow>
          (case (ri_adapter r, ri_resourceId r) of
             (Some adapterId, Some rid) \<Rightarrow>
               (case find (\<lambda>ad. ad_id ad = adapterId) (rv_adapters e) of
                  None \<Rightarrow> Some (no_call (retry_later e d
                    (''no runtime adapter is registered for '' @ [char_of (39::nat)] @ adapterId @ [char_of (39::nat)]) s1))
                | Some ad \<Rightarrow> recover_located e d ad r rid claim s1)
           | _ \<Rightarrow> Some (no_call (retry_later e d ''no runtime identity is recorded for this run'' s1))))"

section \<open>One attempt\<close>

text \<open>Under the claim of the attempt; a failed one is counted and stays retained.\<close>

definition unclaim_recovery :: "schedule \<Rightarrow> string \<Rightarrow> worker \<Rightarrow> worker" where
  "unclaim_recovery sd claim w = snd (ledger_call sd (\<lambda>now row. ((), releaseRecovery claim now row)) w)"

definition recoveryAttempt :: "recovery_env \<Rightarrow> drain_row \<Rightarrow> stop_state \<Rightarrow> (recovery_outcome \<times> recover_call option \<times> stop_state) option" where
  "recoveryAttempt e d s =
     (let sd = se_ledger (rv_env e); claim = sd_token sd (wk_calls (ss_worker s)) in
      case with_worker (ledger_call sd (claimRecovery claim (rv_attemptMs e + RECOVERY_CLAIM_MARGIN_MS))) s of
        (Some True, s1) \<Rightarrow>
          map_option (\<lambda>(out, call, s2).
              let s3 = (if out = None then snd (retry_later e d ''the recovery attempt failed'' s2) else s2)
              in (given out Retained, call, on_worker (unclaim_recovery sd claim) s3))
            (recoverOne e d claim s1)
      | (_, s1) \<Rightarrow> Some (Retained, None, s1))"

section \<open>The sweep\<close>

definition retainedDue :: "int \<Rightarrow> string list option \<Rightarrow> string \<Rightarrow> drain_row \<Rightarrow> bool" where
  "retainedDue now runIds i d \<longleftrightarrow>
     rt_retainedAt (dr_retention d) \<noteq> None \<and> \<not> in_future now (rt_nextAt (dr_retention d)) \<and>
     \<not> in_future now (dr_claimUntil d) \<and> (case runIds of None \<Rightarrow> True | Some is \<Rightarrow> i \<in> set is)"

text \<open>In ascending order, with the rows that have no value last.\<close>

definition nulls_last :: "('a \<Rightarrow> int option) \<Rightarrow> 'a list \<Rightarrow> 'a list" where
  "nulls_last f = sort_key (\<lambda>x. f x = None) \<circ> sort_key (\<lambda>x. given (f x) 0)"

definition retained_rows :: "(string \<Rightarrow> drain_row \<Rightarrow> bool) \<Rightarrow> string list \<Rightarrow> world \<Rightarrow> (string \<times> drain_row) list" where
  "retained_rows P runs st =
     List.map_filter (\<lambda>i. case wk_row (ss_worker (st i)) of
       Some d \<Rightarrow> if P i d then Some (i, d) else None | None \<Rightarrow> None) runs"

text \<open>The soonest-ending runtime first, then the most overdue.\<close>

definition due_runs :: "int \<Rightarrow> string list option \<Rightarrow> nat \<Rightarrow> string list \<Rightarrow> world \<Rightarrow> (string \<times> drain_row) list" where
  "due_runs now runIds limit runs st =
     take limit (nulls_last (\<lambda>(i, _). Option.bind (instance_row st i) ri_deadlineAt)
       (nulls_last (\<lambda>(_, d). rt_nextAt (dr_retention d)) (retained_rows (retainedDue now runIds) runs st)))"

text \<open>Attempts are of different runs and meet only their own rows.\<close>

fun recover_runs ::
  "(string \<Rightarrow> recovery_env) \<Rightarrow> (string \<times> drain_row) list \<Rightarrow> world \<Rightarrow> ((string \<times> recovery_outcome) list \<times> world) option"
where
  "recover_runs es [] st = Some ([], st)"
| "recover_runs es ((i, d) # rest) st =
     (case recoveryAttempt (es i) d (st i) of
        None \<Rightarrow> None
      | Some (out, _, s) \<Rightarrow> map_option (\<lambda>(outs, st'). ((i, out) # outs, st')) (recover_runs es rest (st(i := s))))"

definition recoverRetainedExecutors ::
  "(string \<Rightarrow> recovery_env) \<Rightarrow> int \<Rightarrow> string list option \<Rightarrow> nat \<Rightarrow> string list \<Rightarrow> world \<Rightarrow> ((string \<times> recovery_outcome) list \<times> world) option"
where
  "recoverRetainedExecutors es now runIds limit runs st =
     (if runIds = Some [] then Some ([], st) else recover_runs es (due_runs now runIds limit runs st) st)"

end
