(* ===== verification/Executor_Recovery_Proofs.thy ===== *)
theory Executor_Recovery_Proofs
  imports Executor_Recovery
begin

text \<open>
  What an attempt to recover a retained executor does to its work: it asks for a removal only on evidence
  that stands or on the daemon's own word that there is nothing to save, it starts an executor only under
  a claim that keeps every other deleter off, it leaves the executor retained unless it went, and it ends.
  An executor the runtime could not be asked about is started unchecked.
\<close>

section \<open>The requests of an attempt\<close>

text \<open>A request is sound, or follows the daemon's word that its recovery boot found nothing to save.\<close>

definition recovery_request :: "recovery_env \<Rightarrow> executor_identity \<Rightarrow> removal_call \<Rightarrow> bool" where
  "recovery_request e x c \<longleftrightarrow> sound_request x Rt_running c \<or>
     (rc_ticket c = None \<and> rc_basis c = Nothing_to_save \<and> (\<exists>said. rv_recover e = Some (Rc_nothing_to_save said)))"

definition recovery_asks :: "recovery_env \<Rightarrow> executor_identity \<Rightarrow> stop_state \<Rightarrow> stop_state \<Rightarrow> bool" where
  "recovery_asks e x s s' \<longleftrightarrow> reaches None (wk_row (ss_worker s')) \<and>
     (\<exists>cs. wk_asked (ss_worker s') = wk_asked (ss_worker s) @ cs \<and> length cs \<le> 1 \<and> (\<forall>c \<in> set cs. recovery_request e x c))"

text \<open>The runtime said that it does not know the executor.\<close>

definition said_lost :: "recovery_env \<Rightarrow> bool" where
  "said_lost e \<longleftrightarrow> (\<exists>k. se_inspect (rv_env e) k = Some Rt_missing) \<or> rv_recover e = Some Rc_gone \<or>
     (\<exists>k. dv_runtime (se_drained (rv_env e)) k = Rt_missing)"

definition part_sound :: "recovery_env \<Rightarrow> executor_identity \<Rightarrow> stop_state \<Rightarrow> recovery_outcome option \<Rightarrow> stop_state \<Rightarrow> bool" where
  "part_sound e x s out s' \<longleftrightarrow> (reaches None (wk_row (ss_worker s)) \<longrightarrow>
     recovery_asks e x s s' \<and>
     (out = Some Released \<longrightarrow> (wk_asked (ss_worker s') \<noteq> wk_asked (ss_worker s) \<and> removes_next (rv_env e) s) \<or> is_deleted (wk_row (ss_worker s'))) \<and>
     (out = Some Lost \<longrightarrow> said_lost e))"

lemma asks_goes: "goes_state s s' \<Longrightarrow> reaches None (wk_row (ss_worker s)) \<Longrightarrow> recovery_asks e x s s'"
  using reaches_trans by (auto simp: recovery_asks_def goes_def)

lemma goes_part: "goes_state s s1 \<Longrightarrow> part_sound e x s1 out s' \<Longrightarrow> part_sound e x s out s'"
  using reaches_goes[of s s1] by (auto simp: part_sound_def recovery_asks_def goes_def removes_next_def)

lemma part_goes: "part_sound e x s out s1 \<Longrightarrow> goes_state s1 s' \<Longrightarrow> part_sound e x s out s'"
  using reaches_trans reaches_stays(1)[of "wk_row (ss_worker s1)" "wk_row (ss_worker s')"]
  by (auto simp: part_sound_def recovery_asks_def goes_def)

lemma part_nothing: "goes_state s s' \<Longrightarrow> out \<noteq> Some Released \<Longrightarrow> out = Some Lost \<longrightarrow> said_lost e \<Longrightarrow> part_sound e x s out s'"
  using asks_goes by (auto simp: part_sound_def)

lemma retry_goes: "retry e err ms s = (out, s') \<Longrightarrow> goes_state s s' \<and> out \<noteq> Some Released \<and> out \<noteq> Some Lost"
proof -
  have "goes w (snd (ledger_call sd (\<lambda>now row. ((), recordRecoveryAttempt (Some err) t row)) w))" for sd w t
    by (rule ledger_call_goes[where op = "\<lambda>_. Record_attempt (Some err) t"]) simp
  then show "retry e err ms s = (out, s') \<Longrightarrow> goes_state s s' \<and> out \<noteq> Some Released \<and> out \<noteq> Some Lost"
    by (auto simp: retry_def with_worker_goes split: prod.splits dest: with_worker_goes[rotated])
qed

lemma retry_part:
  "retry e err ms s = (out, s') \<Longrightarrow> part_sound e x s out s'"
  "retry_soon e err s = (out, s') \<Longrightarrow> part_sound e x s out s'"
  "retry_later e d err s = (out, s') \<Longrightarrow> part_sound e x s out s'"
  using retry_goes part_nothing by (metis retry_soon_def retry_later_def)+

lemma observed_goes: "goes_state s (observed e st detail s)"
  by (simp add: observed_def on_worker_def stop_calls_go)

lemma removal_asks:
  assumes "removeUnderDeletion sd rn True b ticket w = (res, w')" "reaches None (wk_row w)"
    and "(\<exists>az d. az_ticket az = ticket \<and> az_decision az = Delete b \<and> granted x Rt_running az (wk_row w) \<and> own_tokens sd \<and>
           own_ticket sd d az \<and> dl_hasLedger d) \<or>
         (ticket = None \<and> b = Nothing_to_save \<and> (\<exists>said. rv_recover e = Some (Rc_nothing_to_save said)))"
  shows "reaches None (wk_row w') \<and> (\<exists>cs. wk_asked w' = wk_asked w @ cs \<and> length cs \<le> 1 \<and> (\<forall>c \<in> set cs. recovery_request e x c))"
  using assms(3)
proof
  assume "\<exists>az d. az_ticket az = ticket \<and> az_decision az = Delete b \<and> granted x Rt_running az (wk_row w) \<and> own_tokens sd \<and>
           own_ticket sd d az \<and> dl_hasLedger d"
  then obtain az d where az: "az_ticket az = ticket" "az_decision az = Delete b" "granted x Rt_running az (wk_row w)"
      "own_tokens sd" "own_ticket sd d az" "dl_hasLedger d"
    by blast
  then show ?thesis
    using removal_sound[of sd rn d b az w res w' x Rt_running] assms(1,2) by (auto simp: recovery_request_def split: if_splits)
next
  assume nts: "ticket = None \<and> b = Nothing_to_save \<and> (\<exists>said. rv_recover e = Some (Rc_nothing_to_save said))"
  obtain rd w1 where read: "read_call sd w = (rd, w1)" by (metis prod.exhaust)
  have w1: "goes w w1" by (rule goes_read[OF read])
  have "w' = w1 \<or> w' = ask_runtime b None w1"
    using assms(1) nts read by (auto simp: removeUnderDeletion_def split: if_splits)
  then show ?thesis using w1 nts assms(2) reaches_trans by (auto simp: goes_def ask_runtime_def recovery_request_def)
qed

lemma release_part:
  assumes "release e r rid b ticket said s = (out, s')"
    and "(\<exists>az d. az_ticket az = ticket \<and> az_decision az = Delete b \<and> granted x Rt_running az (wk_row (ss_worker s)) \<and>
           own_tokens (se_ledger (rv_env e)) \<and> own_ticket (se_ledger (rv_env e)) d az \<and> dl_hasLedger d) \<or>
         (ticket = None \<and> b = Nothing_to_save \<and> (\<exists>said. rv_recover e = Some (Rc_nothing_to_save said)))"
  shows "part_sound e x s out s'"
proof -
  let ?rn = "\<lparr>rn_exit = se_end (rv_env e), rn_renewals = se_renewals (rv_env e)\<rparr>"
  obtain res w where rm: "removeUnderDeletion (se_ledger (rv_env e)) ?rn True b ticket (ss_worker s) = (res, w)" by (metis prod.exhaust)
  let ?s1 = "s\<lparr>ss_worker := w\<rparr>"
  obtain a s2 where t: "terminal_call (rv_env e) (stopped_write (given (ri_stopReason r) By_failure)) ?s1 = (a, s2)" by (metis prod.exhaust)
  have s2: "ss_worker s2 = w" using terminal_call_worker[OF t] by simp
  have fin: "goes_state ?s1 s' \<and> out \<noteq> Some Lost \<and> (out = Some Released \<longrightarrow> res = Removed)"
  proof (cases res)
    case Voided
    then show ?thesis using assms(1) rm retry_goes by (fastforce simp: release_def retry_soon_def)
  next
    case Removed
    then show ?thesis using assms(1) rm t s2 observed_goes
      by (auto simp: release_def Let_def observed_def on_worker_def stop_calls_go split: option.splits)
  next
    case Failed_call
    then show ?thesis using assms(1) rm by (auto simp: release_def)
  qed
  have asks: "recovery_asks e x s ?s1" if "reaches None (wk_row (ss_worker s))"
    using removal_asks[OF rm that assms(2)] by (simp add: recovery_asks_def)
  have "part_sound e x s (if res = Removed then Some Released else None) ?s1"
    using asks removed_asked[of "se_ledger (rv_env e)" ?rn True b ticket "ss_worker s" w]
      removed_was_answered[of "se_ledger (rv_env e)" ?rn True b ticket "ss_worker s" w] rm
    by (auto simp: part_sound_def removes_next_def)
  from part_goes[OF this] fin show ?thesis by (auto simp: part_sound_def split: if_splits)
qed

lemma authorized_granted:
  assumes "with_worker (authorizedDeletion sd (recovery_deleter ad x claim rt dn)) s = (az, s1)"
  shows "goes_state s s1 \<and> granted x rt az (wk_row (ss_worker s1)) \<and> own_ticket sd (recovery_deleter ad x claim rt dn) az"
proof -
  obtain w where az: "authorizedDeletion sd (recovery_deleter ad x claim rt dn) (ss_worker s) = (az, w)" "s1 = s\<lparr>ss_worker := w\<rparr>"
    using assms by (auto simp: with_worker_def split: prod.splits)
  have "dl_decide (recovery_deleter ad x claim rt dn) = decide_on_record True rt dn x" by (simp add: recovery_deleter_def)
  from authorize_loop_grants[OF az(1)[unfolded authorizedDeletion_def] this] az(2) show ?thesis by simp
qed

lemma granted_running: "granted x rt az row \<Longrightarrow> az_decision az = Delete b \<Longrightarrow> b \<noteq> Missing \<Longrightarrow> granted x Rt_running az row"
  by (auto simp: granted_def split: option.splits)

lemma granted_release:
  assumes "with_worker (authorizedDeletion (se_ledger (rv_env e)) (recovery_deleter ad x claim rt dn)) s = (az, s1)"
    and "az_decision az = Delete b" "b \<noteq> Missing" "own_tokens (se_ledger (rv_env e))"
    and "release e r rid b (az_ticket az) None s1 = (out, s')"
  shows "part_sound e x s out s'"
proof -
  have g: "goes_state s s1" "granted x Rt_running az (wk_row (ss_worker s1))" "own_ticket (se_ledger (rv_env e)) (recovery_deleter ad x claim rt dn) az"
    using authorized_granted[OF assms(1)] granted_running assms(2,3) by auto
  have "dl_hasLedger (recovery_deleter ad x claim rt dn)" by (simp add: recovery_deleter_def)
  then show ?thesis using g assms(2,4) by (intro goes_part[OF g(1)] release_part[OF assms(5)]) blast
qed

lemma drained_not_missing:
  assumes "with_worker (authorizedDeletion sd (recovery_deleter ad x claim Rt_running dn)) s = (az, s1)" "az_decision az = Delete b"
  shows "b \<noteq> Missing"
  using authorized_granted[OF assms(1)] assms(2) by (auto simp: granted_def basisRestsOnEvidence_def split: option.splits)

lemma drain_recovered_part:
  assumes "drain_recovered e d ad r rid x claim s = Some (out, s')" "own_tokens (se_ledger (rv_env e))"
  shows "part_sound e x s out s'"
proof -
  let ?sd = "se_ledger (rv_env e)" and ?dr = "rv_drain e"
  obtain c s1 where cl: "with_worker (claim_call ?sd (sn_owner ?dr) (sn_leaseMs ?dr)) s = (c, s1)" by (metis prod.exhaust)
  have s1: "goes_state s s1" by (rule with_worker_goes[OF stop_calls_go(1) cl])
  show ?thesis
  proof (cases c)
    case None
    then have "retry_soon e (not_complete ''busy'') s1 = (out, s')" using assms(1) cl by (simp add: drain_recovered_def)
    then show ?thesis by (intro goes_part[OF s1] retry_part(2))
  next
    case (Some et)
    obtain entry token where et: "et = (entry, token)" by (cases et)
    let ?s2 = "on_worker (unclaim_call ?sd (sn_owner ?dr) token) s1"
    have s2: "goes_state s ?s2" using goes_trans[OF s1] stop_calls_go(2) by (simp add: on_worker_def)
    obtain outcome sent where dn: "drainCaptureBeforeStop (sn_call ?dr) (se_drained (rv_env e)) False (Some entry) = Some (outcome, sent)"
      using assms(1) cl Some et by (auto simp: drain_recovered_def Let_def split: option.splits)
    obtain az s3 where az: "with_worker (authorizedDeletion ?sd (recovery_deleter ad x claim Rt_running True)) ?s2 = (az, s3)"
      by (metis prod.exhaust)
    have s3: "goes_state ?s2 s3" using authorized_granted[OF az] by blast
    have "part_sound e x ?s2 out s'"
    proof (cases outcome)
      case (Drained status)
      then have body: "(out, s') = (case az_decision az of Delete b \<Rightarrow> release e r rid b (az_ticket az) None s3
          | Keep why \<Rightarrow> retry_soon e (if az_heldElsewhere az then held_elsewhere else why) s3)"
        using assms(1) cl Some et dn az by (simp add: drain_recovered_def)
      show ?thesis
      proof (cases "az_decision az")
        case (Delete b)
        then show ?thesis using granted_release[OF az Delete drained_not_missing[OF az Delete] assms(2)] body by simp
      next
        case (Keep why)
        then show ?thesis using body goes_part[OF s3 retry_part(2)] by simp
      qed
    next
      case (Gone ms detail)
      then have "out = Some Lost" "s' = observed e Ds_gone (vanished detail) ?s2"
        using assms(1) cl Some et dn by (auto simp: drain_recovered_def)
      moreover have "said_lost e"
        using permitted_drain_heard[of "sn_call ?dr" "rv_env e" False "Some entry" outcome sent] dn Gone
          loop_supported[of "sn_call ?dr" "se_drained (rv_env e)" 0 "dc_startedAt (sn_call ?dr)" _ "[]" "(outcome, sent)"]
        by (auto simp: said_lost_def drainCaptureBeforeStop_def stop_supported_def)
      ultimately show ?thesis using part_nothing[OF observed_goes] by simp
    qed (use assms(1) cl Some et dn retry_part in \<open>auto simp: drain_recovered_def\<close>)
    then show ?thesis by (rule goes_part[OF s2])
  qed
qed

lemma after_recover_part:
  assumes "after_recover e d ad r rid x claim answer s = Some (out, s')" "own_tokens (se_ledger (rv_env e))"
    and "rv_recover e = Some answer \<or> (\<exists>why. answer = Rc_unsupported why)"
  shows "part_sound e x s out s'"
proof (cases answer)
  case Rc_gone
  then have "out = Some Lost" "s' = observed e Ds_gone (lost_detail (ad_id ad) rid) s" "said_lost e"
    using assms by (auto simp: after_recover_def said_lost_def)
  then show ?thesis using part_nothing[OF observed_goes] by simp
next
  case (Rc_nothing_to_save said)
  then show ?thesis using assms release_part[of e r rid Nothing_to_save None "Some said" s out s' x] by (auto simp: after_recover_def)
next
  case Rc_restarted
  then show ?thesis using assms(1) retry_part(3) drain_recovered_part[OF _ assms(2)]
    by (auto simp: after_recover_def split: if_splits)
next
  case Rc_running
  then show ?thesis using assms(1) retry_part(3) drain_recovered_part[OF _ assms(2)]
    by (auto simp: after_recover_def split: if_splits)
next
  case (Rc_unsupported why)
  then show ?thesis using assms(1) retry_part(3)[of e d why s out s'] by (simp add: after_recover_def)
next
  case (Rc_failed why)
  then show ?thesis using assms(1) retry_part(3)[of e d why s out s'] by (simp add: after_recover_def)
qed

lemma others_first_goes: "goes_state s (others_first e s)"
  using others_reach[of s e] by (simp add: goes_def others_first_def Let_def)

lemma recover_executor_part:
  assumes "recover_executor e d ad r rid x claim rt s = Some (out, call, s')" "own_tokens (se_ledger (rv_env e))"
  shows "part_sound e x s out s'"
proof (cases "if rt = Rt_exited \<and> runtimeRestartsRetainedExecutors (ad_id ad) then not_restartable e d ad r else None")
  case (Some why)
  then have "retry_later e d why s = (out, s')" using assms(1) by (auto simp: recover_executor_def split: prod.splits)
  then show ?thesis by (rule retry_part(3))
next
  case None
  define answer where
    "answer = given (rv_recover e) (Rc_unsupported (''the '' @ ad_id ad @ '' runtime cannot restart an ended executor on its own disk''))"
  have after: "after_recover e d ad r rid x claim answer (others_first (rv_env e) s) = Some (out, s')"
    using assms(1) unfolding recover_executor_def Let_def None answer_def[symmetric] by auto
  have said: "rv_recover e = Some answer \<or> (\<exists>why. answer = Rc_unsupported why)"
    by (cases "rv_recover e") (simp_all add: answer_def given_def)
  show ?thesis by (rule goes_part[OF others_first_goes after_recover_part[OF after assms(2) said]])
qed

lemma no_call_part: "no_call y = (out, call, s') \<Longrightarrow> (\<And>o1 s1. y = (o1, s1) \<Longrightarrow> part_sound e x s o1 s1) \<Longrightarrow> part_sound e x s out s'"
  by (cases y) (simp add: no_call_def)

lemma admitted_goes:
  assumes "with_worker (ledger_call sd (admitRecovery claim)) s = (a, s1)"
  shows "goes_state s s1"
  by (rule with_worker_goes[OF _ assms]) (rule ledger_call_goes[where op = "\<lambda>_. Admit_recovery claim"], simp)

lemma admit_deleted_is: "admitRecovery claim now row = (Admit_deleted, row') \<Longrightarrow> is_deleted row'"
  by (auto simp: admitRecovery_def is_deleted_def Let_def split: option.splits if_splits)

lemma admit_part:
  assumes "admit_and_recover e d ad r rid x claim rt s = Some (out, call, s')" "own_tokens (se_ledger (rv_env e))"
  shows "part_sound e x s out s'"
proof -
  obtain a s1 where ad: "with_worker (ledger_call (se_ledger (rv_env e)) (admitRecovery claim)) s = (a, s1)" by (metis prod.exhaust)
  have s1: "goes_state s s1" by (rule admitted_goes[OF ad])
  have "part_sound e x s1 out s'"
  proof (cases "a = Some Admit_deleted")
    case True
    then have "out = Some Released" "s' = observed e Ds_stopped (removed_elsewhere (ad_id ad) rid) s1"
      using assms(1) ad by (auto simp: admit_and_recover_def)
    moreover have "is_deleted (wk_row (ss_worker s1))"
    proof -
      obtain w where w: "ledger_call (se_ledger (rv_env e)) (admitRecovery claim) (ss_worker s) = (Some Admit_deleted, w)"
          "s1 = s\<lparr>ss_worker := w\<rparr>"
        using ad True by (auto simp: with_worker_def split: prod.splits)
      show ?thesis using ledger_call_answer[OF w(1)] admit_deleted_is w(2) by auto
    qed
    ultimately show ?thesis
      using observed_goes[of s1 e] reaches_stays(1) asks_goes[OF observed_goes] by (auto simp: part_sound_def goes_def)
  next
    case False
    have "recover_executor e d ad r rid x claim rt s1 = Some (out, call, s') \<or> (\<exists>err. no_call (retry_soon e err s1) = (out, call, s'))"
      using assms(1) ad False by (auto simp: admit_and_recover_def split: option.splits admit_reply.splits)
    then show ?thesis
      using recover_executor_part[OF _ assms(2)] no_call_part[where e = e and x = x and s = s1] retry_part(2) by metis
  qed
  then show ?thesis by (rule goes_part[OF s1])
qed

lemma runtimeNow_worker: "runtimeNow e ad s = (rt, s') \<Longrightarrow> ss_worker s' = ss_worker s"
  by (auto simp: runtimeNow_def split: if_splits)

lemma runtimeNow_missing: "runtimeNow e ad s = (Rt_missing, s') \<Longrightarrow> said_lost e"
  by (auto simp: runtimeNow_def said_lost_def given_def split: if_splits option.splits)

lemma located_part:
  assumes "recover_located e d ad r rid claim s = Some (out, call, s')" "own_tokens (se_ledger (rv_env e))"
  shows "part_sound e (recovered_executor e r) s out s'"
proof -
  let ?x = "recovered_executor e r" and ?sd = "se_ledger (rv_env e)"
  obtain rt s1 where rt: "runtimeNow e ad s = (rt, s1)" by (metis prod.exhaust)
  have s1: "goes_state s s1" using runtimeNow_worker[OF rt] by simp
  obtain az s2 where az: "with_worker (authorizedDeletion ?sd (recovery_deleter ad ?x claim rt False)) s1 = (az, s2)" by (metis prod.exhaust)
  have s2: "goes_state s1 s2" "granted ?x rt az (wk_row (ss_worker s2))" using authorized_granted[OF az] by auto
  have "part_sound e ?x s1 out s'"
  proof (cases "az_decision az")
    case (Delete b)
    show ?thesis
    proof (cases "b = Missing")
      case True
      then have "out = Some Lost" "s' = observed e Ds_gone (lost_detail (ad_id ad) rid) s2"
        using assms(1) rt az Delete by (auto simp: recover_located_def)
      moreover have "rt = Rt_missing" using s2(2) Delete True by (auto simp: granted_def basisRestsOnEvidence_def split: option.splits)
      ultimately show ?thesis using part_nothing[OF goes_trans[OF s2(1) observed_goes]] runtimeNow_missing rt by simp
    next
      case False
      then have "no_call (release e r rid b (az_ticket az) None s2) = (out, call, s')"
        using assms(1) rt az Delete by (auto simp: recover_located_def)
      then show ?thesis using granted_release[OF az Delete False assms(2)] no_call_part by metis
    qed
  next
    case (Keep why)
    then have "no_call (retry_soon e held_elsewhere s2) = (out, call, s') \<or> admit_and_recover e d ad r rid ?x claim rt s2 = Some (out, call, s')"
      using assms(1) rt az by (auto simp: recover_located_def split: if_splits)
    then have "part_sound e ?x s2 out s'" using admit_part[OF _ assms(2)] no_call_part retry_part(2) by metis
    then show ?thesis by (rule goes_part[OF s2(1)])
  qed
  then show ?thesis by (rule goes_part[OF s1])
qed

lemma recoverOne_part:
  assumes "recoverOne e d claim s = Some (out, call, s')" "own_tokens (se_ledger (rv_env e))"
    and "\<And>r. instance_found (rv_env e) s = Some r \<Longrightarrow> x = recovered_executor e r"
  shows "part_sound e x s out s'"
proof -
  obtain a s1 where call: "instance_call (rv_env e) (\<lambda>at row. (row, row)) s = (a, s1)" by (metis prod.exhaust)
  have s1: "goes_state s s1" using instance_call_worker[OF call] by simp
  consider (failed) "out = None" "s' = s1"
    | (retried) err where "no_call (retry_later e d err s1) = (out, call, s')"
    | (located) r ad rid where "instance_found (rv_env e) s = Some r" "recover_located e d ad r rid claim s1 = Some (out, call, s')"
    using assms(1) call instance_call_answer
    by (fastforce simp: recoverOne_def split: option.splits)
  then have "part_sound e x s1 out s'"
  proof cases
    case failed
    then show ?thesis using part_nothing[of s1 s1] by simp
  next
    case retried
    then show ?thesis using no_call_part retry_part(3) by metis
  next
    case located
    then show ?thesis using located_part[OF located(2) assms(2)] assms(3) by simp
  qed
  then show ?thesis by (rule goes_part[OF s1])
qed

lemma claim_recovery_goes:
  assumes "with_worker (ledger_call sd (claimRecovery claim ms)) s = (a, s1)"
  shows "goes_state s s1"
  by (rule with_worker_goes[OF _ assms]) (rule ledger_call_goes[where op = "\<lambda>_. Claim_recovery claim ms"], simp)

lemma unclaim_recovery_goes: "goes w (unclaim_recovery sd claim w)"
  unfolding unclaim_recovery_def by (rule ledger_call_goes[where op = "\<lambda>_. Release_recovery claim"]) simp

text \<open>C32: an attempt to recover a retained executor asks the runtime to remove it at most once, and only on
  evidence that stands at that instant, or after the runtime's answer that its recovery boot found
  nothing to save. It is released only when the runtime carried the removal out or the record says it
  was removed before, and lost only when the runtime said it does not know it. This holds however the
  operations of others interleave with the attempt and whichever of its calls fail.\<close>

theorem recovery_rests_on_evidence:
  assumes "recoveryAttempt e d s = Some (out, call, s')" "instance_found (rv_env e) s = Some r"
    and "wk_row (ss_worker s) = run_ledger past None" "wk_asked (ss_worker s) = []" "own_tokens (se_ledger (rv_env e))"
  shows "length (wk_asked (ss_worker s')) \<le> 1 \<and>
    (\<forall>c \<in> set (wk_asked (ss_worker s')). recovery_request e (recovered_executor e r) c) \<and>
    (out = Released \<longrightarrow> (wk_asked (ss_worker s') \<noteq> [] \<and> se_end (rv_env e) 0 = Exit_removed) \<or> is_deleted (wk_row (ss_worker s'))) \<and>
    (out = Lost \<longrightarrow> said_lost e)"
proof -
  let ?sd = "se_ledger (rv_env e)" and ?x = "recovered_executor e r"
  define claim where "claim = sd_token ?sd (wk_calls (ss_worker s))"
  obtain a s1 where cl: "with_worker (ledger_call ?sd (claimRecovery claim (rv_attemptMs e + RECOVERY_CLAIM_MARGIN_MS))) s = (a, s1)"
    by (metis prod.exhaust)
  have s1: "goes_state s s1" by (rule claim_recovery_goes[OF cl])
  have same: "instance_found (rv_env e) s1 = Some r"
    using cl assms(2) by (auto simp: with_worker_def instance_found_def split: prod.splits)
  have "part_sound e ?x s1 (Some out) s'"
  proof (cases "a = Some True")
    case False
    then have "out = Retained" "s' = s1" using assms(1) cl by (auto simp: recoveryAttempt_def claim_def[symmetric] Let_def split: option.splits bool.splits)
    then show ?thesis using part_nothing[of s1 s1] by simp
  next
    case True
    obtain out1 s2 where one: "recoverOne e d claim s1 = Some (out1, call, s2)" and out: "out = given out1 Retained"
        and s': "s' = on_worker (unclaim_recovery ?sd claim) (if out1 = None then snd (retry_later e d ''the recovery attempt failed'' s2) else s2)"
      using assms(1) cl True by (auto simp: recoveryAttempt_def claim_def[symmetric] Let_def)
    have s2: "part_sound e ?x s1 out1 s2" by (rule recoverOne_part[OF one assms(5)]) (use same in simp)
    have "goes_state s2 (snd (retry_later e d err s2))" for err
      using retry_goes by (metis prod.collapse retry_later_def)
    then have go: "goes_state s2 s'"
      using goes_trans[OF _ unclaim_recovery_goes] unclaim_recovery_goes s' by (simp add: on_worker_def split: if_splits)
    have "part_sound e ?x s1 out1 s'" by (rule part_goes[OF s2 go])
    then show ?thesis using out by (cases out1) (auto simp: part_sound_def given_def)
  qed
  from goes_part[OF s1 this] show ?thesis
    using assms(3,4) by (auto simp: part_sound_def recovery_asks_def reaches_def removes_next_def)
qed

end
