(* ===== verification/Executor_Recovery_Guards.thy ===== *)
theory Executor_Recovery_Guards
  imports Executor_Recovery_Proofs
begin

text \<open>
  Under what an attempt asks the runtime to bring a retained executor back: the claim it took still held,
  with no removal under way, and, when the runtime said the executor had ended, a daemon that boots to
  recover and a capture token to give it. An executor the runtime could not be asked about meets none of
  the two checks.
\<close>

section \<open>The claim of an attempt\<close>

definition claim_held :: "string \<Rightarrow> int \<Rightarrow> drain_row option \<Rightarrow> bool" where
  "claim_held c u row \<longleftrightarrow> (case row of Some r \<Rightarrow> dr_claimToken r = Some c \<and> dr_claimUntil r = Some u | None \<Rightarrow> False)"

text \<open>What others do before \<open>u\<close> without the claim, and what a removal does.\<close>

abbreviation apart_from :: "string \<Rightarrow> int \<Rightarrow> int \<Rightarrow> ledger_op \<Rightarrow> bool" where
  "apart_from c u \<equiv> \<lambda>now op. now < u \<and> \<not> presents c op"

interpretation held: worker_invariant "\<lambda>now op. apart_from c u now op \<or> worker_op op" "claim_held c u" for c u
proof
  show "claim_held c u (apply_op now op row)" if "apart_from c u now op \<or> worker_op op" "claim_held c u row" for now op row
  proof (cases row)
    case (Some r)
    then show ?thesis using that
      by (cases op) (auto simp: claim_held_def ledger_defs claim_live_def in_future_def Let_def split: ledger_splits)
  qed (use that in \<open>simp add: claim_held_def\<close>)
qed simp

lemma apart_only: "only_ops (apart_from c u) sd \<Longrightarrow> only_ops (\<lambda>now op. apart_from c u now op \<or> worker_op op) sd"
  by (fastforce simp: only_ops_def)

lemma claimed_held: "claimRecovery c ms now row = (True, row') \<Longrightarrow> claim_held c (leaseExpiry now ms) row'"
  by (auto simp: claimRecovery_def claim_held_def split: option.splits if_splits)

lemma admitted_held: "admitRecovery c now row = (Admit_ok, row') \<Longrightarrow> claim_held c u row \<Longrightarrow> \<exists>r. row' = Some r \<and> kept_for c u r"
  using admitted_kept_for[of c now "the row"] by (cases row) (auto simp: claim_held_def)

section \<open>The restart an attempt asks for\<close>

lemma recover_executor_call:
  assumes "recover_executor e d ad r rid x claim rt s = Some (out, Some c, s')"
  shows "c = \<lparr>rcv_state = rt, rcv_adapter = ad_id ad, rcv_instance = r, rcv_row = wk_row (ss_worker (others_first (rv_env e) s))\<rparr> \<and>
    (rt = Rt_exited \<and> runtimeRestartsRetainedExecutors (ad_id ad) \<longrightarrow> not_restartable e d ad r = None)"
proof -
  have none: "(if rt = Rt_exited \<and> runtimeRestartsRetainedExecutors (ad_id ad) then not_restartable e d ad r else None) = None"
    using assms by (cases "if rt = Rt_exited \<and> runtimeRestartsRetainedExecutors (ad_id ad) then not_restartable e d ad r else None")
      (auto simp: recover_executor_def split: prod.splits)
  have "not_restartable e d ad r = None" if "rt = Rt_exited \<and> runtimeRestartsRetainedExecutors (ad_id ad)"
    using none[unfolded if_P[OF that]] .
  then show ?thesis using assms unfolding recover_executor_def Let_def none by (auto split: if_splits)
qed

lemma restartable:
  "not_restartable e d ad r = None \<Longrightarrow> ri_daemonRecoveryBoot r = Some True \<and>
     (\<exists>sealed f token. dr_captureToken d = Some sealed \<and> rv_unseal e = Some f \<and> f sealed = Some token)"
  by (auto simp: not_restartable_def no_token_def Let_def split: if_splits option.splits)

lemma admit_call:
  assumes "admit_and_recover e d ad r rid x claim rt s = Some (out, Some c, s')"
  obtains s1 where "with_worker (ledger_call (se_ledger (rv_env e)) (admitRecovery claim)) s = (Some Admit_ok, s1)"
    "recover_executor e d ad r rid x claim rt s1 = Some (out, Some c, s')"
proof -
  obtain a s1 where ad: "with_worker (ledger_call (se_ledger (rv_env e)) (admitRecovery claim)) s = (a, s1)" by (metis prod.exhaust)
  then have "a = Some Admit_ok \<and> recover_executor e d ad r rid x claim rt s1 = Some (out, Some c, s')"
    using assms by (auto simp: admit_and_recover_def no_call_def split: option.splits admit_reply.splits prod.splits)
  then show ?thesis using that ad by simp
qed

lemma located_call:
  assumes "recover_located e d ad r rid claim s = Some (out, Some c, s')"
  obtains rt s1 az s2 where "runtimeNow e ad s = (rt, s1)"
    "with_worker (authorizedDeletion (se_ledger (rv_env e)) (recovery_deleter ad (recovered_executor e r) claim rt False)) s1 = (az, s2)"
    "admit_and_recover e d ad r rid (recovered_executor e r) claim rt s2 = Some (out, Some c, s')"
proof -
  obtain rt s1 where rt: "runtimeNow e ad s = (rt, s1)" by (metis prod.exhaust)
  obtain az s2 where az: "with_worker (authorizedDeletion (se_ledger (rv_env e))
      (recovery_deleter ad (recovered_executor e r) claim rt False)) s1 = (az, s2)" by (metis prod.exhaust)
  have "admit_and_recover e d ad r rid (recovered_executor e r) claim rt s2 = Some (out, Some c, s')"
    using assms rt az by (auto simp: recover_located_def no_call_def split: deletion_decision.splits if_splits prod.splits)
  then show ?thesis using that rt az by blast
qed

lemma recoverOne_call:
  assumes "recoverOne e d claim s = Some (out, Some c, s')"
  obtains a s1 r ad rid where "instance_call (rv_env e) (\<lambda>at row. (row, row)) s = (a, s1)" "recover_located e d ad r rid claim s1 = Some (out, Some c, s')"
proof -
  obtain a s1 where call: "instance_call (rv_env e) (\<lambda>at row. (row, row)) s = (a, s1)" by (metis prod.exhaust)
  then have "\<exists>r ad rid. recover_located e d ad r rid claim s1 = Some (out, Some c, s')"
    using assms by (auto simp: recoverOne_def no_call_def split: option.splits prod.splits)
  then show ?thesis using that call by blast
qed

lemma held_state:
  assumes "with_worker f s = (a, s1)" "J (wk_row (ss_worker s))" "\<And>w. J (wk_row w) \<Longrightarrow> J (wk_row (snd (f w)))"
  shows "J (wk_row (ss_worker s1))"
  using assms by (auto simp: with_worker_def split: prod.splits) (metis snd_conv)

lemma admit_call_kept:
  assumes "admit_and_recover e d ad r rid x claim rt s = Some (out, Some c, s')" "claim_held claim u (wk_row (ss_worker s))"
    and apart: "only_ops (apart_from claim u) (se_ledger (rv_env e))"
  shows "(\<exists>row. rcv_row c = Some row \<and> kept_for claim u row) \<and> rcv_state c = rt \<and> rcv_adapter c = ad_id ad \<and> rcv_instance c = r \<and>
    (rt = Rt_exited \<and> runtimeRestartsRetainedExecutors (ad_id ad) \<longrightarrow> not_restartable e d ad r = None)"
proof -
  let ?sd = "se_ledger (rv_env e)"
  obtain s1 where ad: "with_worker (ledger_call ?sd (admitRecovery claim)) s = (Some Admit_ok, s1)"
      and rec: "recover_executor e d ad r rid x claim rt s1 = Some (out, Some c, s')"
    by (rule admit_call[OF assms(1)])
  obtain w where w: "ledger_call ?sd (admitRecovery claim) (ss_worker s) = (Some Admit_ok, w)" "s1 = s\<lparr>ss_worker := w\<rparr>"
    using ad by (auto simp: with_worker_def split: prod.splits)
  have "claim_held claim u (run_ledger (sd_others ?sd (wk_calls (ss_worker s))) (wk_row (ss_worker s)))"
    using held.run[OF _ assms(2)] apart_only[OF apart] by (auto simp: only_ops_def)
  then obtain r1 where r1: "wk_row (ss_worker s1) = Some r1" "kept_for claim u r1"
    using ledger_call_answer[OF w(1)] admitted_held[of claim] w(2) by fastforce
  obtain r2 where r2: "run_ledger (sd_others ?sd (wk_calls (ss_worker s1))) (Some r1) = Some r2"
    using run_exists by blast
  have "kept_for claim u r2" using claimed.run[OF r2] apart r1(2) by (auto simp: only_ops_def)
  then show ?thesis using recover_executor_call[OF rec] r1(1) r2 by (simp add: others_first_def Let_def)
qed

text \<open>C33: an executor is brought back only under the claim of the attempt, and one the runtime was heard to
  say ended only by a daemon that boots to recover. As long as others act before the claim ends and do not present it: when an
  attempt asks the runtime to bring the executor back, the claim is held and no removal is under way;
  and when the runtime had said that the executor ended, on a runtime where that means starting it
  again, its daemon is known to have the recovery boot and its capture token was unsealed. An executor
  whose inspection failed is not under this guard.\<close>

theorem recovery_restarts_only_guarded:
  assumes "recoveryAttempt e d s = Some (out, Some c, s')"
    and "claim = sd_token (se_ledger (rv_env e)) (wk_calls (ss_worker s))"
    and "u = leaseExpiry (sd_clock (se_ledger (rv_env e)) (wk_calls (ss_worker s))) (rv_attemptMs e + RECOVERY_CLAIM_MARGIN_MS)"
    and "only_ops (apart_from claim u) (se_ledger (rv_env e))"
  shows "(\<exists>row. rcv_row c = Some row \<and> dr_claimToken row = Some claim \<and> dr_claimUntil row = Some u \<and> \<not> under_way row) \<and>
    (rcv_state c = Rt_exited \<and> runtimeRestartsRetainedExecutors (rcv_adapter c) \<longrightarrow>
      ri_daemonRecoveryBoot (rcv_instance c) = Some True \<and>
      (\<exists>sealed f token. dr_captureToken d = Some sealed \<and> rv_unseal e = Some f \<and> f sealed = Some token))"
proof -
  let ?sd = "se_ledger (rv_env e)"
  obtain a s1 where cl: "with_worker (ledger_call ?sd (claimRecovery claim (rv_attemptMs e + RECOVERY_CLAIM_MARGIN_MS))) s = (a, s1)"
    by (metis prod.exhaust)
  obtain out1 s2 where one: "recoverOne e d claim s1 = Some (out1, Some c, s2)" and a: "a = Some True"
    using assms(1) cl by (auto simp: recoveryAttempt_def assms(2)[symmetric] Let_def split: option.splits bool.splits)
  obtain w where w: "ledger_call ?sd (claimRecovery claim (rv_attemptMs e + RECOVERY_CLAIM_MARGIN_MS)) (ss_worker s) = (Some True, w)"
      "s1 = s\<lparr>ss_worker := w\<rparr>"
    using cl a by (auto simp: with_worker_def split: prod.splits)
  have s1: "claim_held claim u (wk_row (ss_worker s1))"
    using ledger_call_answer[OF w(1)] claimed_held w(2) assms(3) by auto
  obtain b s3 r ad rid where inst: "instance_call (rv_env e) (\<lambda>at row. (row, row)) s1 = (b, s3)"
      and loc: "recover_located e d ad r rid claim s3 = Some (out1, Some c, s2)"
    by (rule recoverOne_call[OF one])
  obtain rt s4 az s5 where rt: "runtimeNow e ad s3 = (rt, s4)"
      and az: "with_worker (authorizedDeletion ?sd (recovery_deleter ad (recovered_executor e r) claim rt False)) s4 = (az, s5)"
      and adm: "admit_and_recover e d ad r rid (recovered_executor e r) claim rt s5 = Some (out1, Some c, s2)"
    by (rule located_call[OF loc])
  have s4: "claim_held claim u (wk_row (ss_worker s4))"
    using s1 instance_call_worker[OF inst] runtimeNow_worker[OF rt] by simp
  have "claim_held claim u (wk_row (snd (authorizedDeletion ?sd del w)))" if "claim_held claim u (wk_row w)" for del w
    by (metis held.authorized[OF apart_only[OF assms(4)] that] authorizedDeletion_def prod.collapse)
  then have s5: "claim_held claim u (wk_row (ss_worker s5))" by (rule held_state[OF az, where J = "claim_held claim u", OF s4])
  show ?thesis using admit_call_kept[OF adm s5 assms(4)] restartable by (auto simp: kept_for_def)
qed

text \<open>C34: an executor the runtime could not be asked about is brought back unchecked. When the inspection
  fails, nothing on record allows its removal and the attempt is admitted, the runtime is asked to bring
  the executor back whatever is known of its daemon, and whether or not a capture token is at hand: a
  runtime that then finds it ended starts it.\<close>

theorem unread_executor_restarted_unguarded:
  assumes "recover_located e d ad r rid claim s = Some (out, call, s')"
    and "se_inspect (rv_env e) (ss_inspects s) = None" "rv_recover e \<noteq> None"
    and "with_worker (authorizedDeletion (se_ledger (rv_env e)) (recovery_deleter ad (recovered_executor e r) claim Rt_unknown False))
      (snd (runtimeNow e ad s)) = (az, s1)" "az_decision az = Keep why" "\<not> az_heldElsewhere az"
    and "with_worker (ledger_call (se_ledger (rv_env e)) (admitRecovery claim)) s1 = (Some Admit_ok, s2)"
  shows "\<exists>c. call = Some c \<and> rcv_state c = Rt_unknown \<and> rcv_instance c = r \<and> rcv_adapter c = ad_id ad"
proof -
  obtain s0 where now: "runtimeNow e ad s = (Rt_unknown, s0)"
    using assms(2) by (cases "ad_inspects ad") (auto simp: runtimeNow_def given_def)
  have "with_worker (authorizedDeletion (se_ledger (rv_env e)) (recovery_deleter ad (recovered_executor e r) claim Rt_unknown False)) s0 = (az, s1)"
    using assms(4) now by simp
  then have "recover_executor e d ad r rid (recovered_executor e r) claim Rt_unknown s2 = Some (out, call, s')"
    using assms(1) now by (simp add: recover_located_def assms(5-7) admit_and_recover_def)
  then show ?thesis using assms(3) by (auto simp: recover_executor_def Let_def)
qed

section \<open>The theorems on an attempt\<close>

text \<open>A retained executor whose daemon is known to recover or not; what the runtime says of it when asked.\<close>

definition recovery_sample :: "runtime_state option \<Rightarrow> recovery_env" where
  "recovery_sample said =
     \<lparr>rv_env = (ended_stop [] True)\<lparr>se_inspect := (\<lambda>_. said)\<rparr>, rv_runId = ''r'', rv_adapters = [docker],
      rv_backoff = DEFAULT_RECOVERY_BACKOFF, rv_attemptMs = 600000, rv_now = 1, rv_unseal = Some Some, rv_restage = Some None,
      rv_recover = Some Rc_restarted, rv_reachable = (\<lambda>_. True),
      rv_drain = \<lparr>sn_owner = ''o'', sn_leaseMs = 1000, sn_call = some_drain, sn_opensWithStatus = False\<rparr>\<rparr>"

definition retained_history :: "(int \<times> ledger_op) list" where
  "retained_history = [(1, Mark_retained ''w'')]"

definition retained_state :: "bool \<Rightarrow> (int \<times> ledger_op) list \<Rightarrow> stop_state" where
  "retained_state boots past = (before_stop past)\<lparr>ss_instance := Some (ready_row\<lparr>ri_daemonRecoveryBoot := Some boots\<rparr>)\<rparr>"

definition kept_token :: drain_row where
  "kept_token = fresh_row\<lparr>dr_captureToken := Some ''t''\<rparr>"

definition tried :: "bool \<Rightarrow> (int \<times> ledger_op) list \<Rightarrow> recovery_outcome \<times> recover_call option \<times> stop_state" where
  "tried boots past = the (recoveryAttempt (recovery_sample (Some Rt_exited)) kept_token (retained_state boots past))"

lemma tried_samples:
  "recoveryAttempt (recovery_sample (Some Rt_exited)) kept_token (retained_state True (saved_history @ retained_history)) =
     Some (Released, None, snd (snd (tried True (saved_history @ retained_history))))"
  "recoveryAttempt (recovery_sample (Some Rt_exited)) kept_token (retained_state True retained_history) =
     Some (Retained, Some (the (fst (snd (tried True retained_history)))), snd (snd (tried True retained_history)))"
  "rcv_state (the (fst (snd (tried True retained_history)))) = Rt_exited"
  "rcv_adapter (the (fst (snd (tried True retained_history)))) = ''docker''"
  "fst (snd (tried False retained_history)) = None"
  by code_simp+

lemma tried_facts:
  "instance_found (rv_env (recovery_sample said)) (retained_state boots past) = Some (ready_row\<lparr>ri_daemonRecoveryBoot := Some boots\<rparr>)"
  "own_tokens (se_ledger (rv_env (recovery_sample said)))" "only_ops P (se_ledger (rv_env (recovery_sample said)))"
  "wk_row (ss_worker (retained_state boots past)) = run_ledger past None" "wk_asked (ss_worker (retained_state boots past)) = []"
  using sample_facts(2) by (simp_all add: recovery_sample_def retained_state_def before_stop_def instance_found_def ended_stop_def
      only_ops_def quiet_schedule_def own_tokens_def)

theorem recovery_rests_on_evidence_witness:
  "length (wk_asked (ss_worker (snd (snd (tried True (saved_history @ retained_history)))))) \<le> 1 \<and>
   list_all (recovery_request (recovery_sample (Some Rt_exited)) (recovered_executor (recovery_sample (Some Rt_exited))
     (ready_row\<lparr>ri_daemonRecoveryBoot := Some True\<rparr>))) (wk_asked (ss_worker (snd (snd (tried True (saved_history @ retained_history))))))"
  using recovery_rests_on_evidence[OF tried_samples(1) tried_facts(1,4,5,2)] by (simp add: list_all_iff)

theorem recovery_restarts_only_guarded_witness:
  "ri_daemonRecoveryBoot (rcv_instance (the (fst (snd (tried True retained_history))))) = Some True \<and>
   (\<exists>row. rcv_row (the (fst (snd (tried True retained_history)))) = Some row \<and> \<not> under_way row)"
  using recovery_restarts_only_guarded[OF tried_samples(2) refl refl tried_facts(3)] tried_samples(3,4)
  by (auto simp: runtimeRestartsRetainedExecutors_def)

text \<open>The daemon is known to lack the recovery boot, and no capture token was kept.\<close>

definition outdated_row :: runtime_instance where
  "outdated_row = ready_row\<lparr>ri_daemonRecoveryBoot := Some False\<rparr>"

definition unread_state :: stop_state where
  "unread_state = retained_state False [(1, Mark_retained ''w''), (2, Claim_recovery ''t'' 1000)]"

definition unread_deleter :: deleter where
  "unread_deleter = recovery_deleter docker (recovered_executor (recovery_sample None) outdated_row) ''t'' Rt_unknown False"

definition unread_weighed :: "authorized \<times> stop_state" where
  "unread_weighed = with_worker (authorizedDeletion (se_ledger (rv_env (recovery_sample None))) unread_deleter)
     (snd (runtimeNow (recovery_sample None) docker unread_state))"

definition unread_kept :: string where
  "unread_kept = (case az_decision (fst unread_weighed) of Keep why \<Rightarrow> why | Delete _ \<Rightarrow> [])"

definition unread_admitted :: stop_state where
  "unread_admitted = snd (with_worker (ledger_call (se_ledger (rv_env (recovery_sample None))) (admitRecovery ''t'')) (snd unread_weighed))"

definition unread_tried :: attempt where
  "unread_tried = the (recover_located (recovery_sample None) fresh_row docker outdated_row ''c1'' ''t'' unread_state)"

lemma unread_samples:
  "recover_located (recovery_sample None) fresh_row docker outdated_row ''c1'' ''t'' unread_state =
     Some (fst unread_tried, fst (snd unread_tried), snd (snd unread_tried))"
  "az_decision (fst unread_weighed) = Keep unread_kept" "\<not> az_heldElsewhere (fst unread_weighed)"
  "with_worker (ledger_call (se_ledger (rv_env (recovery_sample None))) (admitRecovery ''t'')) (snd unread_weighed) =
     (Some Admit_ok, unread_admitted)"
  by code_simp+

theorem unread_executor_restarted_unguarded_witness:
  "\<exists>c. fst (snd unread_tried) = Some c \<and> rcv_state c = Rt_unknown \<and> rcv_instance c = outdated_row \<and> rcv_adapter c = ''docker''"
  using unread_executor_restarted_unguarded[OF unread_samples(1) _ _ _ unread_samples(2-4)]
  by (simp add: unread_weighed_def[unfolded unread_deleter_def] recovery_sample_def ended_stop_def docker_def)

end
