(* ===== verification/Credential_Placements.thy ===== *)
theory Credential_Placements
  imports Prelude
begin

text \<open>
  The logins Core places in a person's home inside an executor
  (\<open>packages/db/src/credential-placements.ts\<close>): one row per login, the plan of a put, the two
  transactions around the write, and what is left to remove. The write itself runs in the executor
  and is a parameter: only its answer is modelled. \<open>newId\<close> and \<open>createdAt\<close> are arguments.
\<close>

section \<open>Rows and accounts\<close>

datatype provider = Claude | Codex | Github | Pi | Opencode

datatype login = Subscription | Api_key string

datatype placement_state = Pending | Ready | Removing

record placement =
  pl_id :: string
  pl_runId :: string
  pl_home :: string
  pl_provider :: provider
  pl_accountId :: string
  pl_revision :: int
  pl_path :: string
  pl_login :: login
  pl_state :: placement_state
  pl_createdAt :: int

datatype account_status = Active | Invalid | Archived

record placement_account =
  pa_id :: string
  pa_name :: string
  pa_ownerUserId :: string
  pa_provider :: string
  pa_revision :: int
  pa_status :: account_status

record credential_home =
  ch_onBehalfOfUserId :: string
  ch_generation :: string
  ch_releasing :: bool

record home_state =
  hs_held :: "credential_home option"
  hs_placements :: "placement list"
  hs_accounts :: "string \<rightharpoonup> placement_account"
  hs_defaults :: "string list"

definition placementAccountStatus :: "account_status \<Rightarrow> int option \<Rightarrow> account_status" where
  "placementAccountStatus status archivedAt = (case archivedAt of None \<Rightarrow> status | Some t \<Rightarrow> Archived)"

definition accountUnarchived :: "home_state \<Rightarrow> string \<Rightarrow> bool" where
  "accountUnarchived state accountId =
     (case hs_accounts state accountId of None \<Rightarrow> False | Some a \<Rightarrow> pa_status a \<noteq> Archived)"

definition sourceOf :: "provider \<Rightarrow> string" where
  "sourceOf p = (case p of Claude \<Rightarrow> ''claude'' | Codex \<Rightarrow> ''codex'' | Github \<Rightarrow> ''github''
     | Pi \<Rightarrow> ''codex'' | Opencode \<Rightarrow> ''codex'')"

definition removing :: "placement \<Rightarrow> placement" where
  "removing p = p\<lparr>pl_state := Removing\<rparr>"

definition isClaudeKey :: "provider \<Rightarrow> login \<Rightarrow> bool" where
  "isClaudeKey p l \<longleftrightarrow> p = Claude \<and> (case l of Api_key s \<Rightarrow> True | Subscription \<Rightarrow> False)"

abbreviation key_row :: "placement \<Rightarrow> bool" where
  "key_row row \<equiv> isClaudeKey (pl_provider row) (pl_login row)"

definition settleInDoubt :: "placement list \<Rightarrow> placement list" where
  "settleInDoubt placements =
     (let doubtful = map pl_path (filter (\<lambda>row. pl_state row = Pending) placements)
      in map (\<lambda>row. if pl_path row \<in> set doubtful \<and> pl_state row \<noteq> Removing then removing row else row) placements)"

section \<open>Planning a put\<close>

record home_selection =
  sel_provider :: provider
  sel_accountId :: string
  sel_revision :: int
  sel_login :: login

record planned_write = home_selection +
  pw_reuse :: "string option"

record kept_key = home_selection +
  kk_id :: string

record home_put_plan =
  pp_writes :: "planned_write list"
  pp_keptKeys :: "kept_key list"
  pp_removes :: "provider list"
  pp_removedKeys :: "string list"
  pp_pinned :: "string list"

definition sameLogin :: "placement \<Rightarrow> 'a home_selection_scheme \<Rightarrow> bool" where
  "sameLogin row selection \<longleftrightarrow>
     pl_accountId row = sel_accountId selection \<and> pl_revision row = sel_revision selection"

definition is_live :: "string list option \<Rightarrow> placement \<Rightarrow> bool" where
  "is_live live row = (case live of None \<Rightarrow> False | Some ids \<Rightarrow> pl_id row \<in> set ids)"

definition slot :: "placement list \<Rightarrow> provider \<Rightarrow> placement option" where
  "slot ready provider = List.find (\<lambda>row. pl_provider row = provider \<and> \<not> key_row row) ready"

definition plan_write :: "home_selection \<Rightarrow> string option \<Rightarrow> planned_write" where
  "plan_write s reuse = home_selection.extend s \<lparr>pw_reuse = reuse\<rparr>"

definition plan_kept :: "home_selection \<Rightarrow> string \<Rightarrow> kept_key" where
  "plan_kept s i = home_selection.extend s \<lparr>kk_id = i\<rparr>"

definition plan_selection ::
  "placement list \<Rightarrow> string list option \<Rightarrow> home_selection \<Rightarrow> home_put_plan \<Rightarrow> home_put_plan"
where
  "plan_selection ready live selection plan =
     (if isClaudeKey (sel_provider selection) (sel_login selection) then
        (case List.find (\<lambda>row. key_row row \<and> sameLogin row selection) ready of
           None \<Rightarrow> plan\<lparr>pp_writes := pp_writes plan @ [plan_write selection None]\<rparr>
         | Some same \<Rightarrow> plan\<lparr>pp_keptKeys := pp_keptKeys plan @ [plan_kept selection (pl_id same)]\<rparr>)
      else
        (case slot ready (sel_provider selection) of
           None \<Rightarrow> plan\<lparr>pp_writes := pp_writes plan @ [plan_write selection None]\<rparr>
         | Some held \<Rightarrow>
             if is_live live held \<and> \<not> sameLogin held selection
             then plan\<lparr>pp_pinned := pp_pinned plan @ [pl_id held]\<rparr>
             else plan\<lparr>pp_writes := pp_writes plan @
                    [plan_write selection (if sameLogin held selection then Some (pl_id held) else None)]\<rparr>))"

definition plan_removal ::
  "placement list \<Rightarrow> string list option \<Rightarrow> provider \<Rightarrow> home_put_plan \<Rightarrow> home_put_plan"
where
  "plan_removal ready live provider plan =
     (let plan' = (case slot ready provider of
            Some held \<Rightarrow>
              if is_live live held then plan\<lparr>pp_pinned := pp_pinned plan @ [pl_id held]\<rparr>
              else plan\<lparr>pp_removes := pp_removes plan @ [provider]\<rparr>
          | None \<Rightarrow> plan\<lparr>pp_removes := pp_removes plan @ [provider]\<rparr>)
      in plan'\<lparr>pp_removedKeys := pp_removedKeys plan' @
           map pl_id (filter (\<lambda>row. pl_provider row = provider \<and> key_row row \<and> \<not> is_live live row) ready)\<rparr>)"

definition planHomePut ::
  "placement list \<Rightarrow> string list option \<Rightarrow> home_selection list \<Rightarrow> provider list \<Rightarrow> home_put_plan"
where
  "planHomePut placements live selected removed =
     (let ready = filter (\<lambda>row. pl_state row = Ready) placements
      in fold (plan_removal ready live) removed
           (fold (plan_selection ready live) selected
             \<lparr>pp_writes = [], pp_keptKeys = [], pp_removes = [], pp_removedKeys = [], pp_pinned = []\<rparr>))"

section \<open>Beginning a write\<close>

record home_write = planned_write +
  hw_id :: string
  hw_path :: string

record intended_write =
  iw_provider :: provider
  iw_id :: string
  iw_path :: string
  iw_revision :: int
  iw_inserted :: bool

record home_write_intent =
  in_writes :: "intended_write list"
  in_retired :: "string list"

datatype home_write_start = Begun "placement list" home_write_intent | Accounts_moved

definition moved :: "home_state \<Rightarrow> string \<Rightarrow> 'a home_selection_scheme \<Rightarrow> bool" where
  "moved state onBehalfOfUserId write =
     (case hs_accounts state (sel_accountId write) of
        None \<Rightarrow> True
      | Some a \<Rightarrow> pa_status a \<noteq> Active \<or> pa_revision a \<noteq> sel_revision write \<or>
          pa_ownerUserId a \<noteq> onBehalfOfUserId \<or> pa_provider a \<noteq> sourceOf (sel_provider write))"

definition find_row :: "placement list \<Rightarrow> string \<Rightarrow> placement option" where
  "find_row placements i = List.find (\<lambda>row. pl_id row = i) placements"

definition set_state :: "string \<Rightarrow> placement_state \<Rightarrow> placement list \<Rightarrow> placement list" where
  "set_state i s placements = map (\<lambda>row. if pl_id row = i then row\<lparr>pl_state := s\<rparr> else row) placements"

definition new_row :: "string \<Rightarrow> string \<Rightarrow> int \<Rightarrow> home_write \<Rightarrow> placement" where
  "new_row runId home now write =
     \<lparr>pl_id = hw_id write, pl_runId = runId, pl_home = home, pl_provider = sel_provider write,
      pl_accountId = sel_accountId write, pl_revision = sel_revision write, pl_path = hw_path write,
      pl_login = sel_login write, pl_state = Pending, pl_createdAt = now\<rparr>"

text \<open>The loop over the writes; \<^const>\<open>None\<close> is \<open>accounts-moved\<close>.\<close>

fun begin_writes ::
  "home_state \<Rightarrow> string \<Rightarrow> string \<Rightarrow> string \<Rightarrow> int \<Rightarrow> home_write list \<Rightarrow> placement list \<Rightarrow>
   (placement list \<times> intended_write list) option"
where
  "begin_writes state runId home person now [] placements = Some (placements, [])"
| "begin_writes state runId home person now (write # writes) placements =
     (if moved state person write then None
      else case pw_reuse write of
        Some reuse \<Rightarrow>
          (case find_row placements reuse of
             None \<Rightarrow> None
           | Some reused \<Rightarrow>
               if pl_state reused \<noteq> Ready then None
               else map_option (\<lambda>(final, intended). (final,
                      \<lparr>iw_provider = sel_provider write, iw_id = pl_id reused, iw_path = pl_path reused,
                       iw_revision = sel_revision write, iw_inserted = False\<rparr> # intended))
                      (begin_writes state runId home person now writes (set_state reuse Pending placements)))
      | None \<Rightarrow>
          map_option (\<lambda>(final, intended). (final,
              \<lparr>iw_provider = sel_provider write, iw_id = hw_id write, iw_path = hw_path write,
               iw_revision = sel_revision write, iw_inserted = True\<rparr> # intended))
            (begin_writes state runId home person now writes (placements @ [new_row runId home now write])))"

definition kept_stands :: "home_state \<Rightarrow> string \<Rightarrow> kept_key \<Rightarrow> bool" where
  "kept_stands state person kept \<longleftrightarrow> \<not> moved state person kept \<and>
     (case find_row (hs_placements state) (kk_id kept) of
        None \<Rightarrow> False | Some row \<Rightarrow> pl_state row = Ready \<and> sameLogin row kept)"

definition is_retired :: "provider list \<Rightarrow> string list \<Rightarrow> placement \<Rightarrow> bool" where
  "is_retired removes removedKeys row \<longleftrightarrow> pl_state row = Ready \<and>
     (if key_row row then pl_id row \<in> set removedKeys else pl_provider row \<in> set removes)"

definition beginHomeWrite ::
  "home_state \<Rightarrow> string \<Rightarrow> string \<Rightarrow> string \<Rightarrow> int \<Rightarrow> home_write list \<Rightarrow> kept_key list \<Rightarrow>
   provider list \<Rightarrow> string list \<Rightarrow> home_write_start"
where
  "beginHomeWrite state runId home person now writes keptKeys removes removedKeys =
     (if \<not> list_all (kept_stands state person) keptKeys then Accounts_moved
      else case begin_writes state runId home person now writes (hs_placements state) of
        None \<Rightarrow> Accounts_moved
      | Some (placements, intended) \<Rightarrow>
          let retired = map pl_id (filter (is_retired removes removedKeys) placements)
          in Begun (map (\<lambda>row. if pl_id row \<in> set retired then removing row else row) placements)
               \<lparr>in_writes = intended, in_retired = retired\<rparr>)"

section \<open>Settling a write\<close>

datatype home_write_outcome =
    Done_write "provider list" "provider list"
  | Refused "provider list"
  | Unconfirmed

definition demote_others :: "intended_write \<Rightarrow> placement list \<Rightarrow> placement list" where
  "demote_others write placements =
     map (\<lambda>row. if pl_path row = iw_path write \<and> pl_id row \<noteq> iw_id write \<and> pl_state row = Ready
               then removing row else row) placements"

definition land :: "home_state \<Rightarrow> intended_write \<Rightarrow> placement list \<Rightarrow> placement list" where
  "land state write placements =
     map (\<lambda>row. if pl_id row = iw_id write
               then row\<lparr>pl_revision := iw_revision write, pl_state :=
                      (if pl_state row = Pending \<and> accountUnarchived state (pl_accountId row) then Ready else Removing)\<rparr>
               else row) placements"

definition restore :: "home_state \<Rightarrow> bool \<Rightarrow> string \<Rightarrow> placement list \<Rightarrow> placement list" where
  "restore state kept i placements =
     map (\<lambda>row. if pl_id row = i
               then row\<lparr>pl_state :=
                      (if pl_state row = Pending \<and> accountUnarchived state (pl_accountId row) \<and> \<not> kept
                       then Ready else Removing)\<rparr>
               else row) placements"

definition landed_stale :: "home_state \<Rightarrow> intended_write \<Rightarrow> placement list \<Rightarrow> bool" where
  "landed_stale state write placements =
     (case find_row placements (iw_id write) of
        None \<Rightarrow> True
      | Some settled \<Rightarrow> pl_state settled \<noteq> Ready \<or>
          (case hs_accounts state (pl_accountId settled) of
             None \<Rightarrow> True | Some a \<Rightarrow> pa_revision a \<noteq> iw_revision write))"

fun settle_writes ::
  "home_state \<Rightarrow> provider list \<Rightarrow> provider list \<Rightarrow> intended_write list \<Rightarrow>
   placement list \<times> string list \<times> bool \<Rightarrow> placement list \<times> string list \<times> bool"
where
  "settle_writes state written preserved [] acc = acc"
| "settle_writes state written preserved (write # writes) (placements, forget, stale) =
     (let landed = iw_provider write \<in> set written; kept = iw_provider write \<in> set preserved;
          demoted = (if landed \<or> kept then demote_others write placements else placements)
      in settle_writes state written preserved writes
           (if landed then
              (let settled = land state write demoted in (settled, forget, stale \<or> landed_stale state write settled))
            else if iw_inserted write then (demoted, forget @ [iw_id write], stale)
            else (restore state kept (iw_id write) demoted, forget, stale)))"

definition restore_retired :: "home_state \<Rightarrow> string \<Rightarrow> placement list \<Rightarrow> placement list" where
  "restore_retired state i placements =
     map (\<lambda>row. if pl_id row = i \<and> accountUnarchived state (pl_accountId row)
               then row\<lparr>pl_state := Ready\<rparr> else row) placements"

definition settleHomeWrite ::
  "home_state \<Rightarrow> home_write_intent \<Rightarrow> home_write_outcome \<Rightarrow> placement list \<times> bool"
where
  "settleHomeWrite state intent outcome =
     (case outcome of
        Unconfirmed \<Rightarrow> (hs_placements state, False)
      | Done_write written kept \<Rightarrow>
          (let (placements, forget, stale) =
                 settle_writes state written kept (in_writes intent) (hs_placements state, [], False)
           in (filter (\<lambda>row. pl_id row \<notin> set (forget @ in_retired intent)) placements, stale))
      | Refused written \<Rightarrow>
          (let (placements, forget, stale) =
                 settle_writes state written [] (in_writes intent) (hs_placements state, [], False);
               restored = fold (restore_retired state) (in_retired intent) placements
           in (filter (\<lambda>row. pl_id row \<notin> set forget) restored, stale)))"

section \<open>Releasing, pruning, removing\<close>

definition releaseHome :: "placement list \<Rightarrow> placement list" where
  "releaseHome placements = map removing placements"

definition pruneHome :: "home_state \<Rightarrow> string list \<Rightarrow> placement list" where
  "pruneHome state live =
     map (\<lambda>row. if pl_id row \<in> set live \<or>
                  (pl_state row = Ready \<and> pl_accountId row \<in> set (hs_defaults state) \<and>
                   (case hs_accounts state (pl_accountId row) of
                      None \<Rightarrow> False | Some a \<Rightarrow> pa_revision a = pl_revision row))
               then row else removing row) (hs_placements state)"

record removal_work =
  rw_removes :: "provider list"
  rw_removedKeys :: "string list"
  rw_forget :: "string list"

definition removalWork :: "placement list \<Rightarrow> removal_work" where
  "removalWork placements =
     (let held = map pl_path (filter (\<lambda>row. pl_state row = Ready) placements);
          left = filter (\<lambda>row. pl_state row = Removing) placements;
          unheld = filter (\<lambda>row. pl_path row \<notin> set held) left
      in \<lparr>rw_removes = to_set (map pl_provider (filter (\<lambda>row. \<not> key_row row) unheld)),
          rw_removedKeys = map pl_id (filter key_row unheld),
          rw_forget = map pl_id left\<rparr>)"

record launch_login =
  ll_provider :: provider
  ll_accountId :: string
  ll_path :: string
  ll_login :: login
  ll_revision :: int

definition recordLaunchHome ::
  "home_state \<Rightarrow> (launch_login \<times> string) list \<Rightarrow> string \<Rightarrow> string \<Rightarrow> int \<Rightarrow> placement list"
where
  "recordLaunchHome state logins runId home now =
     hs_placements state @ map (\<lambda>(l, newId).
       \<lparr>pl_id = newId, pl_runId = runId, pl_home = home, pl_provider = ll_provider l,
        pl_accountId = ll_accountId l, pl_revision = ll_revision l, pl_path = ll_path l,
        pl_login = ll_login l,
        pl_state = (if accountUnarchived state (ll_accountId l) then Ready else Removing),
        pl_createdAt = now\<rparr>) logins"

end
