(* ===== verification/Credential_Placements_Proofs.thy ===== *)
theory Credential_Placements_Proofs
  imports Credential_Placements
begin

text \<open>
  What the placements promise: a path of a home has one ready login at most, across any put and
  whatever its write answered; a write nobody confirmed is removed; and nothing removed is a login
  that is ready, live or pinned.
\<close>

section \<open>Demotion\<close>

text \<open>
  Most operations only take rows out of service: the contract under which a path never gains a
  second ready login.
\<close>

definition ready_unique :: "placement list \<Rightarrow> bool" where
  "ready_unique ps \<longleftrightarrow> distinct (map pl_path (filter (\<lambda>row. pl_state row = Ready) ps))"

locale demotion =
  fixes f :: "placement \<Rightarrow> placement"
  assumes keeps_id: "pl_id (f row) = pl_id row"
    and keeps_path: "pl_path (f row) = pl_path row"
    and no_new_ready: "pl_state (f row) = Ready \<Longrightarrow> pl_state row = Ready"
begin

lemma ready_after: "filter (\<lambda>row. pl_state row = Ready) (map f ps) =
    map f (filter (\<lambda>row. pl_state (f row) = Ready) (filter (\<lambda>row. pl_state row = Ready) ps))"
  by (induction ps) (auto dest: no_new_ready)

lemma keeps_ready_unique: "ready_unique ps \<Longrightarrow> ready_unique (map f ps)"
  unfolding ready_unique_def ready_after by (simp add: comp_def keeps_path distinct_map_filter del: filter_filter)

lemma keeps_ids: "map pl_id (map f ps) = map pl_id ps"
  by (simp add: comp_def keeps_id)

lemma no_ready_at: "\<forall>row \<in> set ps. pl_state row = Ready \<longrightarrow> pl_path row \<noteq> p \<Longrightarrow>
    \<forall>row \<in> set (map f ps). pl_state row = Ready \<longrightarrow> pl_path row \<noteq> p"
  by (auto simp: keeps_path dest: no_new_ready)

end

lemma removing_simps [simp]:
  "pl_id (removing row) = pl_id row" "pl_path (removing row) = pl_path row" "pl_state (removing row) = Removing"
  "pl_provider (removing row) = pl_provider row" "pl_login (removing row) = pl_login row"
  by (simp_all add: removing_def)

interpretation released: demotion removing
  by unfold_locales auto

interpretation doubted: demotion "\<lambda>row. if pl_path row \<in> D \<and> pl_state row \<noteq> Removing then removing row else row" for D
  by unfold_locales (auto split: if_splits)

interpretation demoted: demotion "\<lambda>row. if pl_path row = iw_path w \<and> pl_id row \<noteq> iw_id w \<and> pl_state row = Ready
    then removing row else row" for w
  by unfold_locales (auto split: if_splits)

interpretation retired: demotion "\<lambda>row. if pl_id row \<in> R then removing row else row" for R
  by unfold_locales (auto split: if_splits)

interpretation pruned: demotion "\<lambda>row. if P row then row else removing row" for P
  by unfold_locales (auto split: if_splits)

interpretation pended: demotion "\<lambda>row. if pl_id row = i then row\<lparr>pl_state := Pending\<rparr> else row" for i
  by unfold_locales (auto split: if_splits)

lemma settleInDoubt_ready_unique: "ready_unique ps \<Longrightarrow> ready_unique (settleInDoubt ps)"
  by (simp add: settleInDoubt_def Let_def doubted.keeps_ready_unique)

lemma releaseHome_ready_unique: "ready_unique ps \<Longrightarrow> ready_unique (releaseHome ps)"
  by (simp add: releaseHome_def released.keeps_ready_unique)

lemma pruneHome_ready_unique: "ready_unique (hs_placements state) \<Longrightarrow> ready_unique (pruneHome state live)"
  unfolding pruneHome_def by (rule pruned.keeps_ready_unique)

section \<open>One ready login per path\<close>

definition no_ready :: "string \<Rightarrow> placement list \<Rightarrow> bool" where
  "no_ready p ps \<longleftrightarrow> (\<forall>row \<in> set ps. pl_state row = Ready \<longrightarrow> pl_path row \<noteq> p)"

lemma ready_unique_alt:
  "distinct (map pl_id ps) \<Longrightarrow> ready_unique ps \<longleftrightarrow>
     (\<forall>a \<in> set ps. \<forall>b \<in> set ps. pl_state a = Ready \<longrightarrow> pl_state b = Ready \<longrightarrow> pl_path a = pl_path b \<longrightarrow> pl_id a = pl_id b)"
proof (induction ps)
  case (Cons x ps)
  define same where "same a b \<longleftrightarrow> (pl_state a = Ready \<longrightarrow> pl_state b = Ready \<longrightarrow> pl_path a = pl_path b \<longrightarrow> pl_id a = pl_id b)" for a b :: placement
  have IH: "ready_unique ps \<longleftrightarrow> (\<forall>a \<in> set ps. \<forall>b \<in> set ps. same a b)" using Cons by (simp add: same_def)
  have new: "pl_id x \<noteq> pl_id b" if "b \<in> set ps" for b using Cons.prems that by auto
  have "ready_unique (x # ps) \<longleftrightarrow>
      (pl_state x = Ready \<longrightarrow> (\<forall>b \<in> set ps. pl_state b = Ready \<longrightarrow> pl_path x \<noteq> pl_path b)) \<and> ready_unique ps"
    by (cases "pl_state x = Ready") (auto simp: ready_unique_def)
  moreover have "same x b \<and> same b x \<longleftrightarrow> (pl_state x = Ready \<longrightarrow> pl_state b = Ready \<longrightarrow> pl_path x \<noteq> pl_path b)"
    if "b \<in> set ps" for b using new[OF that] by (auto simp: same_def)
  ultimately have "ready_unique (x # ps) \<longleftrightarrow> (\<forall>b \<in> set ps. same x b \<and> same b x) \<and> ready_unique ps" by blast
  moreover have "same x x" by (simp add: same_def)
  ultimately show ?case unfolding IH same_def[symmetric] by auto
qed (simp add: ready_unique_def)

text \<open>Changing the state of the row of one id.\<close>

lemma ready_unique_one:
  assumes "distinct (map pl_id ps)" "ready_unique ps"
    and "\<And>row. pl_id (f row) = pl_id row \<and> pl_path (f row) = pl_path row"
    and "\<And>row. pl_id row \<noteq> i \<Longrightarrow> pl_state (f row) = pl_state row"
    and "\<And>row. row \<in> set ps \<Longrightarrow> pl_id row = i \<Longrightarrow> pl_path row = p"
    and "\<And>row. row \<in> set ps \<Longrightarrow> pl_id row \<noteq> i \<Longrightarrow> pl_state row = Ready \<Longrightarrow> pl_path row \<noteq> p"
  shows "ready_unique (map f ps)"
proof -
  have ids: "distinct (map pl_id (map f ps))" using assms(1,3) by (simp add: comp_def)
  show ?thesis unfolding ready_unique_alt[OF ids]
  proof (intro ballI impI)
    fix a b assume "a \<in> set (map f ps)" "b \<in> set (map f ps)" and ready: "pl_state a = Ready" "pl_state b = Ready"
      and path: "pl_path a = pl_path b"
    then obtain x y where xy: "x \<in> set ps" "y \<in> set ps" "a = f x" "b = f y" by auto
    have paths: "pl_path x = pl_path y" using path xy assms(3) by simp
    have x: "pl_id x = i \<or> pl_state x = Ready" using ready(1) xy(3) assms(4)[of x] by metis
    have y: "pl_id y = i \<or> pl_state y = Ready" using ready(2) xy(4) assms(4)[of y] by metis
    have "pl_id x = pl_id y"
    proof (cases "pl_id x = i \<or> pl_id y = i")
      case True
      then show ?thesis using assms(5)[of x] assms(5)[of y] assms(6)[of x] assms(6)[of y] x y xy(1,2) paths by metis
    next
      case False
      then show ?thesis using assms(2)[unfolded ready_unique_alt[OF assms(1)]] x y xy(1,2) paths by blast
    qed
    then show "pl_id a = pl_id b" using xy assms(3) by simp
  qed
qed

text \<open>What the settling loop keeps, with the writes still to settle.\<close>

definition settling :: "placement list \<Rightarrow> intended_write list \<Rightarrow> bool" where
  "settling ps ws \<longleftrightarrow> distinct (map pl_id ps) \<and> ready_unique ps \<and> distinct (map iw_path ws) \<and>
     (\<forall>w \<in> set ws. (\<forall>row \<in> set ps. pl_id row = iw_id w \<longrightarrow> pl_path row = iw_path w) \<and>
        (\<not> iw_inserted w \<longrightarrow> no_ready (iw_path w) ps))"

lemma land_simps: "map pl_id (land state w ps) = map pl_id ps" "map pl_path (land state w ps) = map pl_path ps"
  by (auto simp: land_def)

lemma demote_others_simps:
  "map pl_id (demote_others w ps) = map pl_id ps" "map pl_path (demote_others w ps) = map pl_path ps"
  by (auto simp: demote_others_def)

lemma settling_step:
  assumes "settling ps (w # ws)"
  shows "settling (demote_others w ps) (w # ws)"
    and "settling (land state w (demote_others w ps)) ws"
    and "\<not> iw_inserted w \<Longrightarrow> settling (restore state kept (iw_id w) ps) ws"
    and "p \<noteq> iw_path w \<Longrightarrow> no_ready p ps \<Longrightarrow> no_ready p (land state w (demote_others w ps))"
    and "p \<noteq> iw_path w \<Longrightarrow> no_ready p ps \<Longrightarrow> no_ready p (restore state kept (iw_id w) ps)"
    and "no_ready p ps \<Longrightarrow> no_ready p (demote_others w ps)"
proof -
  let ?d = "demote_others w ps"
  have demote: "no_ready p ps \<Longrightarrow> no_ready p ?d" for p
    unfolding no_ready_def demote_others_def by (rule demoted.no_ready_at)
  then show "no_ready p ps \<Longrightarrow> no_ready p ?d" .
  have paths: "\<forall>row \<in> set ps. pl_id row = iw_id v \<longrightarrow> pl_path row = iw_path v" if "v \<in> set (w # ws)" for v
    using assms that by (auto simp: settling_def)
  have d_paths: "\<forall>row \<in> set ?d. pl_id row = iw_id v \<longrightarrow> pl_path row = iw_path v" if "v \<in> set (w # ws)" for v
    using paths[OF that] by (auto simp: demote_others_def)
  have d: "distinct (map pl_id ?d)" "ready_unique ?d"
    using assms demoted.keeps_ready_unique[of ps w] demote_others_simps(1)[of w ps]
    by (simp_all only: settling_def demote_others_def)
  show "settling ?d (w # ws)"
    using assms d d_paths demote by (auto simp: settling_def)
  have others: "pl_path row \<noteq> iw_path w" if "row \<in> set ?d" "pl_id row \<noteq> iw_id w" "pl_state row = Ready" for row
    using that by (auto simp: demote_others_def split: if_splits)
  have landed_unique: "ready_unique (land state w ?d)"
    unfolding land_def
    by (rule ready_unique_one[OF d, of _ "iw_id w" "iw_path w"]) (use d_paths[of w] others in auto)
  have land: "no_ready p (land state w ?d)" if "p \<noteq> iw_path w" "no_ready p ps" for p
    using demote[OF that(2)] d_paths[of w] that(1) by (auto simp: no_ready_def land_def)
  then show "p \<noteq> iw_path w \<Longrightarrow> no_ready p ps \<Longrightarrow> no_ready p (land state w ?d)" .
  have apart: "iw_path v \<noteq> iw_path w" if "v \<in> set ws" for v
    using assms imageI[OF that, of iw_path] by (auto simp: settling_def)
  have l_paths: "\<forall>row \<in> set (land state w ?d). pl_id row = iw_id v \<longrightarrow> pl_path row = iw_path v" if "v \<in> set ws" for v
    using d_paths[of v] that by (auto simp: land_def)
  show "settling (land state w ?d) ws"
    using assms d landed_unique l_paths land apart land_simps(1)[of state w ?d] by (auto simp: settling_def)
  have rest: "no_ready p (restore state kept (iw_id w) ps)" if "p \<noteq> iw_path w" "no_ready p ps" for p
    using that paths[of w] by (auto simp: no_ready_def restore_def)
  then show "p \<noteq> iw_path w \<Longrightarrow> no_ready p ps \<Longrightarrow> no_ready p (restore state kept (iw_id w) ps)" .
  show "settling (restore state kept (iw_id w) ps) ws" if "\<not> iw_inserted w"
  proof -
    have ps: "distinct (map pl_id ps)" "ready_unique ps" "no_ready (iw_path w) ps"
      using assms that by (auto simp: settling_def)
    have "ready_unique (restore state kept (iw_id w) ps)"
      unfolding restore_def
      by (rule ready_unique_one[OF ps(1,2), of _ "iw_id w" "iw_path w"]) (use paths[of w] ps(3) in \<open>auto simp: no_ready_def\<close>)
    moreover have "map pl_id (restore state kept (iw_id w) ps) = map pl_id ps" by (simp add: restore_def)
    moreover have "\<forall>row \<in> set (restore state kept (iw_id w) ps). pl_id row = iw_id v \<longrightarrow> pl_path row = iw_path v" if "v \<in> set ws" for v
      using paths[of v] that by (auto simp: restore_def)
    ultimately show ?thesis using assms rest apart ps(1) by (auto simp: settling_def)
  qed
qed

lemma settle_writes_unique:
  assumes "settle_writes state written preserved ws (ps, forget, stale) = (ps', forget', stale')" "settling ps ws"
  shows "distinct (map pl_id ps') \<and> ready_unique ps' \<and> map pl_id ps' = map pl_id ps \<and> map pl_path ps' = map pl_path ps \<and>
    (\<forall>p. p \<notin> iw_path ` set ws \<longrightarrow> no_ready p ps \<longrightarrow> no_ready p ps')"
  using assms
proof (induction ws arbitrary: ps forget stale)
  case Nil
  then show ?case by (auto simp: settling_def)
next
  case (Cons w ws)
  note step = settling_step[OF Cons.prems(2)]
  have demoted: "map pl_id (demote_others w ps) = map pl_id ps" "map pl_path (demote_others w ps) = map pl_path ps"
    by (auto simp: demote_others_def)
  have restored: "map pl_id (restore state k i qs) = map pl_id qs" "map pl_path (restore state k i qs) = map pl_path qs" for k i qs
    by (auto simp: restore_def)
  let ?landed = "iw_provider w \<in> set written" and ?kept = "iw_provider w \<in> set preserved"
  consider (landed) "?landed" | (forgotten) "\<not> ?landed" "iw_inserted w" | (returned) "\<not> ?landed" "\<not> iw_inserted w" by blast
  then show ?case
  proof cases
    case landed
    then obtain f s where call: "settle_writes state written preserved ws (land state w (demote_others w ps), f, s) = (ps', forget', stale')"
      using Cons.prems(1) by (auto simp: Let_def)
    show ?thesis using Cons.IH[OF call step(2)] step(4) demoted land_simps by auto
  next
    case forgotten
    let ?d = "if ?kept then demote_others w ps else ps"
    obtain f s where call: "settle_writes state written preserved ws (?d, f, s) = (ps', forget', stale')"
      using Cons.prems(1) forgotten by (auto simp: Let_def)
    have "settling ?d ws" using step(1) Cons.prems(2) by (auto simp: settling_def)
    from Cons.IH[OF call this] show ?thesis using step(6) demoted by (auto split: if_splits)
  next
    case returned
    let ?d = "if ?kept then demote_others w ps else ps"
    obtain f s where call: "settle_writes state written preserved ws (restore state ?kept (iw_id w) ?d, f, s) = (ps', forget', stale')"
      using Cons.prems(1) returned by (auto simp: Let_def)
    have d: "settling ?d (w # ws)" using step(1) Cons.prems(2) by auto
    note dstep = settling_step[OF d]
    from Cons.IH[OF call dstep(3)[OF returned(2)]] show ?thesis
      using dstep(5) step(6) demoted restored by (auto split: if_splits)
  qed
qed

end
