(* ===== verification/Home_Placements.thy ===== *)
theory Home_Placements
  imports Credential_Placements_Proofs
begin

text \<open>
  Writing into a home (\<open>packages/workspaces/src/worker/home-placements.ts\<close>) over the placement rows:
  the transaction before the write, what the script's exit code says landed
  (\<open>runtime/home-credentials.ts\<close>), the transaction after it, and the removal of leftovers. The script
  runs in the executor; its exit code is the parameter.
\<close>

section \<open>Files and exit codes\<close>

fun HOME_CREDENTIAL_FILES :: "provider \<Rightarrow> string" where
  "HOME_CREDENTIAL_FILES Claude = ''.claude/.credentials.json''"
| "HOME_CREDENTIAL_FILES Codex = ''.codex/auth.json''"
| "HOME_CREDENTIAL_FILES Github = ''.config/gh/hosts.yml''"
| "HOME_CREDENTIAL_FILES Pi = ''.pi/agent/auth.json''"
| "HOME_CREDENTIAL_FILES Opencode = ''.local/share/opencode/auth.json''"

definition CLAUDE_KEY_DIR :: string where
  "CLAUDE_KEY_DIR = ''.sealant/keys''"

definition HOME_FILE_PROVIDERS :: "provider list" where
  "HOME_FILE_PROVIDERS = [Claude, Codex, Github]"

definition homeCredentialProviderOf :: "string \<Rightarrow> provider option" where
  "homeCredentialProviderOf relative = List.find (\<lambda>p. HOME_CREDENTIAL_FILES p = relative) HOME_FILE_PROVIDERS"

definition placementPath :: "string \<Rightarrow> provider \<Rightarrow> login \<Rightarrow> string \<Rightarrow> string" where
  "placementPath home p l i =
     (if isClaudeKey p l then home @ ''/'' @ CLAUDE_KEY_DIR @ ''/'' @ i
      else home @ ''/'' @ HOME_CREDENTIAL_FILES p)"

definition MERGED_LOGIN_PROVIDERS :: "provider list" where
  "MERGED_LOGIN_PROVIDERS = [Pi, Opencode]"

definition KEPT_LOGIN_BITS :: "provider \<Rightarrow> nat" where
  "KEPT_LOGIN_BITS p = (if p = Pi then 1 else 2)"

definition kept_exit_encode :: "provider list \<Rightarrow> nat" where
  "kept_exit_encode kept =
     90 + fold (\<lambda>p bits. bits + KEPT_LOGIN_BITS p) (filter (\<lambda>p. p \<in> set kept) MERGED_LOGIN_PROVIDERS) 0"

text \<open>A bit of the code is tested as in \<open>bits & bit\<close>: both bits are powers of two.\<close>

definition kept_exit_decode :: "nat \<Rightarrow> provider list option" where
  "kept_exit_decode exitCode =
     (if exitCode < 91 \<or> exitCode - 90 > 3 then None
      else Some (filter (\<lambda>p. ((exitCode - 90) div KEPT_LOGIN_BITS p) mod 2 = 1) MERGED_LOGIN_PROVIDERS))"

definition homeLoginsKept :: "nat option \<Rightarrow> provider list option" where
  "homeLoginsKept exitCode =
     (case exitCode of None \<Rightarrow> None | Some c \<Rightarrow> if c = 0 then Some [] else kept_exit_decode c)"

definition homeLoginOfRefusal :: "nat \<Rightarrow> provider option" where
  "homeLoginOfRefusal exitCode =
     (if exitCode \<in> {82, 84} then Some Pi
      else if exitCode \<in> {83, 85} then Some Opencode
      else if exitCode = 86 then Some Claude
      else if exitCode = 87 then Some Codex
      else if exitCode = 88 then Some Github
      else if exitCode = 89 then Some Claude
      else None)"

text \<open>Whether \<open>homeScriptRefusal\<close> has words for the exit: every code but a short payload's.\<close>

definition homeScriptRefusal :: "nat \<Rightarrow> bool" where
  "homeScriptRefusal exitCode \<longleftrightarrow> exitCode \<in> {73, 74, 76, 77, 78, 79, 80, 81, 82, 83, 84, 85, 86, 87, 88, 89}"

datatype home_script_run = Script_done "provider list" | Script_refused nat | Script_unconfirmed

text \<open>What a run is taken for; \<^const>\<open>None\<close> is a channel that failed or timed out.\<close>

definition runHomeScript :: "nat option option \<Rightarrow> home_script_run" where
  "runHomeScript exec =
     (case exec of
        None \<Rightarrow> Script_unconfirmed
      | Some exitCode \<Rightarrow>
          (case homeLoginsKept exitCode of
             Some kept \<Rightarrow> Script_done kept
           | None \<Rightarrow>
               (case exitCode of
                  None \<Rightarrow> Script_unconfirmed
                | Some c \<Rightarrow> if homeScriptRefusal c then Script_refused c else Script_unconfirmed)))"

definition landedBeforeRefusal :: "provider list \<Rightarrow> nat \<Rightarrow> provider list" where
  "landedBeforeRefusal writes exitCode =
     (if homeLoginOfRefusal exitCode \<in> {Some Pi, Some Opencode}
      then filter (\<lambda>p. homeCredentialProviderOf (HOME_CREDENTIAL_FILES p) \<noteq> None) writes
      else [])"

section \<open>One put\<close>

text \<open>Ids and paths of the writes: a reused row keeps its id, the others take the new ids in turn.\<close>

fun assign_ids :: "string \<Rightarrow> planned_write list \<Rightarrow> string list \<Rightarrow> home_write list" where
  "assign_ids home [] ids = []"
| "assign_ids home (w # ws) ids =
     (let (i, rest) = (case pw_reuse w of Some r \<Rightarrow> (r, ids) | None \<Rightarrow> (hd ids, tl ids))
      in planned_write.extend w \<lparr>hw_id = i, hw_path = placementPath home (sel_provider w) (sel_login w) i\<rparr>
           # assign_ids home ws rest)"

definition outcome_of :: "provider list \<Rightarrow> home_script_run \<Rightarrow> home_write_outcome" where
  "outcome_of providers exec =
     (case exec of
        Script_done kept \<Rightarrow> Done_write (filter (\<lambda>p. p \<notin> set kept) providers) kept
      | Script_refused c \<Rightarrow> Refused (landedBeforeRefusal providers c)
      | Script_unconfirmed \<Rightarrow> Unconfirmed)"

text \<open>The first transaction: the rows it leaves, and the intent when the accounts stood.\<close>

definition begin_put ::
  "home_state \<Rightarrow> string \<Rightarrow> string \<Rightarrow> string \<Rightarrow> int \<Rightarrow> home_write list \<Rightarrow> kept_key list \<Rightarrow>
   provider list \<Rightarrow> string list \<Rightarrow> placement list \<times> home_write_intent option"
where
  "begin_put state runId home person now writes keptKeys removes removedKeys =
     (let placements = settleInDoubt (hs_placements state) in
      case beginHomeWrite (state\<lparr>hs_placements := placements\<rparr>) runId home person now writes keptKeys removes removedKeys of
        Begun begun intent \<Rightarrow> (begun, Some intent)
      | Accounts_moved \<Rightarrow> (placements, None))"

datatype put_result = Put_moved | Put_done bool | Put_refused nat | Put_unconfirmed

text \<open>
  \<open>writeIntoHome\<close>, with the state each transaction reads, the ids, and the script's answer. Nothing
  to write into a home already held never reaches the script.
\<close>

definition writeIntoHome ::
  "home_state \<Rightarrow> (placement list \<Rightarrow> home_state) \<Rightarrow> string \<Rightarrow> string \<Rightarrow> string \<Rightarrow> int \<Rightarrow> string list \<Rightarrow> bool \<Rightarrow>
   planned_write list \<Rightarrow> kept_key list \<Rightarrow> provider list \<Rightarrow> string list \<Rightarrow> nat option option \<Rightarrow>
   placement list \<times> put_result"
where
  "writeIntoHome state later runId home person now ids taking planned keptKeys removes removedKeys answer =
     (let writes = assign_ids home planned ids in
      case begin_put state runId home person now writes keptKeys removes removedKeys of
        (placements, None) \<Rightarrow> (placements, Put_moved)
      | (placements, Some intent) \<Rightarrow>
          if \<not> taking \<and> writes = [] \<and> keptKeys = [] \<and> removes = [] \<and> removedKeys = []
          then (placements, Put_done False)
          else
            let exec = runHomeScript answer; outcome = outcome_of (map sel_provider writes) exec;
                settled = settleHomeWrite (later placements) intent outcome in
            case exec of
              Script_unconfirmed \<Rightarrow> (hs_placements (later placements), Put_unconfirmed)
            | Script_done kept \<Rightarrow> (fst settled, Put_done (snd settled))
            | Script_refused c \<Rightarrow> (fst settled, Put_refused c))"

datatype leftover_removal = Home_emptied | Leftovers_removed | Removal_unconfirmed

text \<open>
  \<open>removeLeftovers\<close>: with a target, the removal script's answer decides; a home that is missing or
  taken by another hold has nothing of this one left.
\<close>

definition removeLeftovers ::
  "home_state \<Rightarrow> (placement list \<Rightarrow> placement list) \<Rightarrow> bool \<Rightarrow> bool \<Rightarrow> nat option option \<Rightarrow>
   placement list \<times> leftover_removal"
where
  "removeLeftovers state later releasing hasTarget answer =
     (let placements = settleInDoubt (hs_placements state); work = removalWork placements;
          runs = hasTarget \<and> (releasing \<or> rw_removes work \<noteq> [] \<or> rw_removedKeys work \<noteq> []);
          confirmed = (\<not> runs \<or> (case runHomeScript answer of
             Script_done kept \<Rightarrow> True | Script_refused c \<Rightarrow> c = 74 \<or> c = 76 | Script_unconfirmed \<Rightarrow> False)) in
      if \<not> confirmed then (placements, Removal_unconfirmed)
      else if releasing then (placements, Home_emptied)
      else (filter (\<lambda>row. \<not> (pl_id row \<in> set (rw_forget work) \<and> pl_state row = Removing)) (later placements),
            Leftovers_removed))"

end
