(* ===== verification/Home_Placements_Proofs.thy ===== *)
theory Home_Placements_Proofs
  imports Home_Placements
begin

text \<open>
  A put of a home, end to end: the plan, the transaction before the write, the executor's answer and
  the transaction after it never leave two ready logins at one path; what a failed write leaves in
  doubt is removed; and what is removed is never in use.
\<close>

section \<open>Paths\<close>

definition well_placed :: "string \<Rightarrow> placement list \<Rightarrow> bool" where
  "well_placed home ps \<longleftrightarrow>
     (\<forall>row \<in> set ps. pl_path row = placementPath home (pl_provider row) (pl_login row) (pl_id row))"

lemma credential_files_inject: "HOME_CREDENTIAL_FILES p = HOME_CREDENTIAL_FILES q \<longleftrightarrow> p = q"
  by (cases p; cases q) simp_all

lemma path_inject:
  "placementPath home p l i = placementPath home q m j \<Longrightarrow> p = q \<and> isClaudeKey p l = isClaudeKey q m"
  by (cases p; cases q) (auto simp: placementPath_def CLAUDE_KEY_DIR_def isClaudeKey_def split: if_splits login.splits)

section \<open>What the plan says\<close>

definition plan_ok :: "placement list \<Rightarrow> home_selection list \<Rightarrow> home_put_plan \<Rightarrow> bool" where
  "plan_ok ready seen plan \<longleftrightarrow>
     distinct (map sel_provider (pp_writes plan)) \<and>
     sel_provider ` set (pp_writes plan) \<subseteq> sel_provider ` set seen \<and>
     (\<forall>w \<in> set (pp_writes plan). \<forall>r. pw_reuse w = Some r \<longrightarrow>
        \<not> isClaudeKey (sel_provider w) (sel_login w) \<and>
        (\<exists>row \<in> set ready. pl_id row = r \<and> pl_provider row = sel_provider w \<and> \<not> key_row row))"

lemma plan_write_simps [simp]:
  "sel_provider (plan_write s r) = sel_provider s" "sel_login (plan_write s r) = sel_login s"
  "pw_reuse (plan_write s r) = r" "sel_accountId (plan_write s r) = sel_accountId s"
  "sel_revision (plan_write s r) = sel_revision s"
  by (simp_all add: plan_write_def home_selection.defs)

lemma slot_row: "slot ready p = Some row \<Longrightarrow> row \<in> set ready \<and> pl_provider row = p \<and> \<not> key_row row"
  by (auto simp: slot_def dest: find_SomeD)

lemma plan_selection_ok:
  assumes "plan_ok ready seen plan" "sel_provider s \<notin> sel_provider ` set seen"
  shows "plan_ok ready (seen @ [s]) (plan_selection ready live s plan)"
  using assms slot_row[of ready "sel_provider s"]
  by (auto simp: plan_ok_def plan_selection_def split: option.splits)

lemma plan_selections_ok:
  "plan_ok ready seen plan \<Longrightarrow> distinct (map sel_provider (seen @ selected)) \<Longrightarrow>
   plan_ok ready (seen @ selected) (fold (plan_selection ready live) selected plan)"
proof (induction selected arbitrary: seen plan)
  case (Cons s selected)
  have "plan_ok ready (seen @ [s]) (plan_selection ready live s plan)"
    using Cons.prems by (intro plan_selection_ok) auto
  from Cons.IH[OF this] show ?case using Cons.prems(2) by simp
qed simp

lemma plan_removal_steps:
  "pp_writes (plan_removal ready live p plan) = pp_writes plan"
  "pp_keptKeys (plan_removal ready live p plan) = pp_keptKeys plan"
  "set (pp_removes (plan_removal ready live p plan)) \<subseteq> insert p (set (pp_removes plan))"
  "set (pp_removedKeys (plan_removal ready live p plan)) = set (pp_removedKeys plan) \<union>
     {pl_id row | row. row \<in> set ready \<and> pl_provider row = p \<and> key_row row \<and> \<not> is_live live row}"
  by (auto simp: plan_removal_def Let_def split: option.splits)

lemma plan_removals_writes:
  "pp_writes (fold (plan_removal ready live) removed plan) = pp_writes plan"
  by (induction removed arbitrary: plan) (simp_all add: plan_removal_steps)

lemma plan_removals_removes:
  "set (pp_removes (fold (plan_removal ready live) removed plan)) \<subseteq> set (pp_removes plan) \<union> set removed"
proof (induction removed arbitrary: plan)
  case (Cons p removed)
  show ?case using Cons.IH[of "plan_removal ready live p plan"] plan_removal_steps(3)[of ready live p plan] by auto
qed simp

lemma plan_removals_keys:
  "set (pp_removedKeys (fold (plan_removal ready live) removed plan)) = set (pp_removedKeys plan) \<union>
     {pl_id row | row. row \<in> set ready \<and> pl_provider row \<in> set removed \<and> key_row row \<and> \<not> is_live live row}"
proof (induction removed arbitrary: plan)
  case (Cons p removed)
  show ?case
    using Cons.IH[of "plan_removal ready live p plan"] plan_removal_steps(4)[of ready live p plan] by auto
qed simp

lemma plan_selection_removes:
  "pp_removes (fold (plan_selection ready live) selected plan) = pp_removes plan"
  "pp_removedKeys (fold (plan_selection ready live) selected plan) = pp_removedKeys plan"
  by (induction selected arbitrary: plan) (simp_all add: plan_selection_def split: option.splits)

lemma planHomePut_ok:
  assumes "planHomePut ps live selected removed = plan" "distinct (map sel_provider selected)"
  shows "plan_ok (filter (\<lambda>row. pl_state row = Ready) ps) selected plan"
    and "set (pp_removes plan) \<subseteq> set removed"
    and "i \<in> set (pp_removedKeys plan) \<Longrightarrow>
      \<exists>row \<in> set ps. pl_state row = Ready \<and> pl_id row = i \<and> pl_provider row \<in> set removed \<and> key_row row \<and> \<not> is_live live row"
proof -
  let ?ready = "filter (\<lambda>row. pl_state row = Ready) ps"
  let ?empty = "\<lparr>pp_writes = [], pp_keptKeys = [], pp_removes = [], pp_removedKeys = [], pp_pinned = []\<rparr>"
  let ?sel = "fold (plan_selection ?ready live) selected ?empty"
  have plan: "plan = fold (plan_removal ?ready live) removed ?sel"
    using assms(1) by (simp add: planHomePut_def Let_def)
  have "plan_ok ?ready [] ?empty" by (simp add: plan_ok_def)
  from plan_selections_ok[OF this, of selected live] have "plan_ok ?ready selected ?sel" using assms(2) by simp
  then show "plan_ok ?ready selected plan"
    unfolding plan plan_ok_def by (simp add: plan_removals_writes)
  show "set (pp_removes plan) \<subseteq> set removed"
    using plan_removals_removes[of ?ready live removed ?sel] by (simp add: plan plan_selection_removes)
  show "i \<in> set (pp_removedKeys plan) \<Longrightarrow>
      \<exists>row \<in> set ps. pl_state row = Ready \<and> pl_id row = i \<and> pl_provider row \<in> set removed \<and> key_row row \<and> \<not> is_live live row"
    using plan_removals_keys[of ?ready live removed ?sel] by (auto simp: plan plan_selection_removes)
qed

section \<open>Beginning\<close>

fun fresh_count :: "planned_write list \<Rightarrow> nat" where
  "fresh_count [] = 0"
| "fresh_count (w # ws) = (if pw_reuse w = None then 1 else 0) + fresh_count ws"

definition new_ids :: "home_write list \<Rightarrow> string list" where
  "new_ids writes = map hw_id (filter (\<lambda>w. pw_reuse w = None) writes)"

definition holds_slot :: "placement list \<Rightarrow> string \<Rightarrow> provider \<Rightarrow> bool" where
  "holds_slot ps i p \<longleftrightarrow> (\<forall>row \<in> set ps. pl_id row = i \<longrightarrow> pl_provider row = p \<and> \<not> key_row row)"

definition writes_ok :: "string \<Rightarrow> home_write list \<Rightarrow> placement list \<Rightarrow> bool" where
  "writes_ok home writes ps \<longleftrightarrow>
     distinct (map sel_provider writes) \<and>
     (\<forall>w \<in> set writes. hw_path w = placementPath home (sel_provider w) (sel_login w) (hw_id w)) \<and>
     (\<forall>w \<in> set writes. \<forall>r. pw_reuse w = Some r \<longrightarrow>
        r \<notin> set (new_ids writes) \<and> holds_slot ps r (sel_provider w))"

lemma find_row_Some: "find_row ps i = Some row \<Longrightarrow> row \<in> set ps \<and> pl_id row = i"
  by (auto simp: find_row_def dest: find_SomeD)

lemma same_row: "distinct (map pl_id ps) \<Longrightarrow> a \<in> set ps \<Longrightarrow> b \<in> set ps \<Longrightarrow> pl_id a = pl_id b \<Longrightarrow> a = b"
  by (auto simp: distinct_map dest: inj_onD)

lemma only_path:
  assumes "distinct (map pl_id ps)" "\<exists>row \<in> set ps. pl_id row = i \<and> pl_path row = p"
  shows "\<forall>row \<in> set ps. pl_id row = i \<longrightarrow> pl_path row = p"
  using assms(2) same_row[OF assms(1)] by blast

text \<open>The rows of \<open>qs\<close> are rows of \<open>ps\<close>, none of them newly ready.\<close>

definition loses :: "placement list \<Rightarrow> placement list \<Rightarrow> bool" where
  "loses ps qs \<longleftrightarrow> distinct (map pl_id qs) \<and>
     (\<forall>row \<in> set qs. \<exists>old \<in> set ps. pl_id row = pl_id old \<and> pl_path row = pl_path old \<and>
        (pl_state row = Ready \<longrightarrow> pl_state old = Ready))"

lemma losesD:
  assumes "loses ps qs" "row \<in> set qs"
  obtains old where "old \<in> set ps" "pl_id old = pl_id row" "pl_path old = pl_path row"
    "pl_state row = Ready \<longrightarrow> pl_state old = Ready"
proof -
  from assms(1) have "\<forall>r \<in> set qs. \<exists>old \<in> set ps. pl_id r = pl_id old \<and> pl_path r = pl_path old \<and>
        (pl_state r = Ready \<longrightarrow> pl_state old = Ready)"
    by (simp add: loses_def)
  from bspec[OF this assms(2)] show ?thesis using that by (elim bexE conjE) simp
qed

lemma loses_no_ready:
  assumes "loses ps qs" "no_ready p ps"
  shows "no_ready p qs"
  unfolding no_ready_def
proof (intro ballI impI)
  fix row assume row: "row \<in> set qs" "pl_state row = Ready"
  obtain old where old: "old \<in> set ps" "pl_id old = pl_id row" "pl_path old = pl_path row"
    "pl_state row = Ready \<longrightarrow> pl_state old = Ready"
    by (rule losesD[OF assms(1) row(1)])
  show "pl_path row \<noteq> p"
    using bspec[OF assms(2)[unfolded no_ready_def] old(1)] old(3,4) row(2) by simp
qed

lemma loses_path:
  assumes "loses ps qs" "\<forall>row \<in> set ps. pl_id row = i \<longrightarrow> pl_path row = p" "row \<in> set qs" "pl_id row = i"
  shows "pl_path row = p"
proof -
  obtain old where old: "old \<in> set ps" "pl_id old = pl_id row" "pl_path old = pl_path row"
    by (rule losesD[OF assms(1,3)])
  then show ?thesis using bspec[OF assms(2) old(1)] assms(4) by simp
qed

lemma loses_ready_unique:
  assumes "loses ps qs" "distinct (map pl_id ps)" "ready_unique ps"
  shows "ready_unique qs"
proof -
  have ids: "distinct (map pl_id qs)" using assms(1) by (simp add: loses_def)
  have old: "\<exists>old \<in> set ps. pl_id row = pl_id old \<and> pl_path row = pl_path old \<and> pl_state old = Ready"
    if row: "row \<in> set qs" "pl_state row = Ready" for row
    by (rule losesD[OF assms(1) row(1)]) (rule bexI, use row(2) in auto)
  show ?thesis unfolding ready_unique_alt[OF ids]
  proof (intro ballI impI)
    fix a b assume ab: "a \<in> set qs" "b \<in> set qs" "pl_state a = Ready" "pl_state b = Ready" "pl_path a = pl_path b"
    from old[OF ab(1,3)] obtain x where x: "x \<in> set ps" "pl_id a = pl_id x" "pl_path a = pl_path x" "pl_state x = Ready" by blast
    from old[OF ab(2,4)] obtain y where y: "y \<in> set ps" "pl_id b = pl_id y" "pl_path b = pl_path y" "pl_state y = Ready" by blast
    note unique = assms(3)[unfolded ready_unique_alt[OF assms(2)]]
    have "pl_id x = pl_id y"
      using bspec[OF bspec[OF unique x(1)] y(1)] x(3,4) y(3,4) ab(5) by simp
    then show "pl_id a = pl_id b" using x(2) y(2) by simp
  qed
qed

text \<open>What the loop over the writes leaves, with a write still to come at each path of \<open>intended\<close>.\<close>

definition begun :: "string \<Rightarrow> placement list \<Rightarrow> intended_write list \<Rightarrow> placement list \<Rightarrow> bool" where
  "begun home ps intended ps' \<longleftrightarrow>
     distinct (map pl_id ps') \<and> ready_unique ps' \<and> well_placed home ps' \<and>
     (\<forall>row \<in> set ps'. pl_state row = Ready \<longrightarrow> row \<in> set ps) \<and>
     (\<forall>w \<in> set intended. (\<exists>l i. iw_path w = placementPath home (iw_provider w) l i) \<and>
        (\<forall>row \<in> set ps'. pl_id row = iw_id w \<longrightarrow> pl_path row = iw_path w) \<and>
        (\<not> iw_inserted w \<longrightarrow> no_ready (iw_path w) ps'))"

lemma set_state_simps: "map pl_id (set_state i s ps) = map pl_id ps" "map pl_path (set_state i s ps) = map pl_path ps"
  by (auto simp: set_state_def)

lemma set_state_row:
  assumes "row \<in> set ps"
  shows "\<exists>row' \<in> set (set_state i s ps). pl_id row' = pl_id row \<and> pl_path row' = pl_path row \<and>
    pl_provider row' = pl_provider row \<and> pl_login row' = pl_login row"
  by (rule bexI[of _ "if pl_id row = i then row\<lparr>pl_state := s\<rparr> else row"]) (use assms in \<open>auto simp: set_state_def\<close>)

lemma set_state_rowD:
  assumes "row' \<in> set (set_state i s ps)"
  shows "\<exists>row \<in> set ps. row' = (if pl_id row = i then row\<lparr>pl_state := s\<rparr> else row)"
  using assms by (auto simp: set_state_def)

lemma holds_slot_pend: "holds_slot ps r p \<Longrightarrow> holds_slot (set_state i s ps) r p"
  unfolding holds_slot_def set_state_def by auto

lemma writes_ok_pend: "writes_ok home (w # ws) ps \<Longrightarrow> writes_ok home ws (set_state i s ps)"
  by (auto simp: writes_ok_def holds_slot_pend new_ids_def)

lemma holds_slot_new: "holds_slot ps r p \<Longrightarrow> pl_id row \<noteq> r \<Longrightarrow> holds_slot (ps @ [row]) r p"
  by (auto simp: holds_slot_def)

lemma writes_ok_new:
  assumes "writes_ok home (w # ws) ps" "pw_reuse w = None" "pl_id row = hw_id w"
  shows "writes_ok home ws (ps @ [row])"
proof -
  have "r \<noteq> hw_id w" if "v \<in> set ws" "pw_reuse v = Some r" for v r
    using assms(1,2) that by (auto simp: writes_ok_def new_ids_def)
  moreover have "holds_slot ps r (sel_provider v)" if "v \<in> set ws" "pw_reuse v = Some r" for v r
    using assms(1) that by (simp add: writes_ok_def)
  ultimately have "holds_slot (ps @ [row]) r (sel_provider v)" if "v \<in> set ws" "pw_reuse v = Some r" for v r
    using that assms(3) by (intro holds_slot_new) auto
  then show ?thesis using assms(1,2) by (simp add: writes_ok_def new_ids_def)
qed

lemma well_placed_pend: "well_placed home ps \<Longrightarrow> well_placed home (set_state i s ps)"
  by (auto simp: well_placed_def set_state_def)

lemma ready_unique_pend: "ready_unique ps \<Longrightarrow> ready_unique (set_state i Pending ps)"
  unfolding set_state_def by (rule pended.keeps_ready_unique)

lemma no_ready_pend: "no_ready p ps \<Longrightarrow> no_ready p (set_state i Pending ps)"
  unfolding set_state_def no_ready_def by (rule pended.no_ready_at)

lemma no_ready_reused:
  assumes "distinct (map pl_id ps)" "ready_unique ps" "row \<in> set ps" "pl_state row = Ready"
  shows "no_ready (pl_path row) (set_state (pl_id row) Pending ps)"
  unfolding no_ready_def
proof (intro ballI impI)
  fix other assume "other \<in> set (set_state (pl_id row) Pending ps)" and ready: "pl_state other = Ready"
  then obtain old where old: "old \<in> set ps" "other = (if pl_id old = pl_id row then old\<lparr>pl_state := Pending\<rparr> else old)"
    using set_state_rowD by blast
  then have "pl_id old \<noteq> pl_id row" "other = old" using ready by (auto split: if_splits)
  then show "pl_path other \<noteq> pl_path row"
    using assms(2)[unfolded ready_unique_alt[OF assms(1)]] assms(3,4) old(1) ready by metis
qed

lemma ready_unique_new: "pl_state row = Pending \<Longrightarrow> ready_unique (ps @ [row]) = ready_unique ps"
  by (simp add: ready_unique_def)

lemma no_ready_new: "pl_state row = Pending \<Longrightarrow> no_ready p (ps @ [row]) = no_ready p ps"
  by (auto simp: no_ready_def)

lemma new_row_simps [simp]:
  "pl_id (new_row r home now w) = hw_id w" "pl_path (new_row r home now w) = hw_path w"
  "pl_state (new_row r home now w) = Pending" "pl_provider (new_row r home now w) = sel_provider w"
  "pl_login (new_row r home now w) = sel_login w"
  by (simp_all add: new_row_def)

lemma begin_writes_keep:
  "begin_writes state runId home person now ws ps = Some (ps', intended) \<Longrightarrow>
     (\<forall>row \<in> set ps. \<exists>row' \<in> set ps'. pl_id row' = pl_id row \<and> pl_path row' = pl_path row) \<and>
     (no_ready p ps \<longrightarrow> no_ready p ps') \<and>
     map iw_provider intended = map sel_provider ws"
proof (induction ws arbitrary: ps intended)
  case (Cons w ws)
  show ?case
  proof (cases "pw_reuse w")
    case None
    then obtain rest where "begin_writes state runId home person now ws (ps @ [new_row runId home now w]) = Some (ps', rest)"
      "intended = \<lparr>iw_provider = sel_provider w, iw_id = hw_id w, iw_path = hw_path w,
               iw_revision = sel_revision w, iw_inserted = True\<rparr> # rest"
      using Cons.prems by (auto split: if_splits)
    with Cons.IH[OF this(1)] show ?thesis by (simp add: no_ready_new)
  next
    case (Some i)
    then obtain row where row: "find_row ps i = Some row" "pl_state row = Ready" "\<not> moved state person w"
      using Cons.prems by (auto split: if_splits option.splits)
    then obtain rest where "begin_writes state runId home person now ws (set_state i Pending ps) = Some (ps', rest)"
      "intended = \<lparr>iw_provider = sel_provider w, iw_id = pl_id row, iw_path = pl_path row,
               iw_revision = sel_revision w, iw_inserted = False\<rparr> # rest"
      using Cons.prems Some by auto
    note IH = Cons.IH[OF this(1)] this(2)
    have "\<forall>row \<in> set ps. \<exists>row' \<in> set ps'. pl_id row' = pl_id row \<and> pl_path row' = pl_path row"
    proof
      fix r assume "r \<in> set ps"
      from set_state_row[OF this, of i Pending] obtain r1 where
        "r1 \<in> set (set_state i Pending ps)" "pl_id r1 = pl_id r" "pl_path r1 = pl_path r" by blast
      moreover from this(1) IH(1) obtain r2 where "r2 \<in> set ps'" "pl_id r2 = pl_id r1" "pl_path r2 = pl_path r1" by blast
      ultimately show "\<exists>row' \<in> set ps'. pl_id row' = pl_id r \<and> pl_path row' = pl_path r" by auto
    qed
    then show ?thesis using IH no_ready_pend[of p ps i] by simp
  qed
qed auto

lemma begin_writes_begun:
  assumes "begin_writes state runId home person now ws ps = Some (ps', intended)"
    and "distinct (map pl_id ps)" "ready_unique ps" "well_placed home ps" "writes_ok home ws ps"
    and "distinct (new_ids ws)" "set (new_ids ws) \<inter> pl_id ` set ps = {}"
  shows "begun home ps intended ps'"
  using assms
proof (induction ws arbitrary: ps intended)
  case Nil
  then show ?case by (simp add: begun_def)
next
  case (Cons w ws)
  show ?case
  proof (cases "pw_reuse w")
    case None
    let ?row = "new_row runId home now w"
    from None obtain rest where call: "begin_writes state runId home person now ws (ps @ [?row]) = Some (ps', rest)"
      and intended: "intended = \<lparr>iw_provider = sel_provider w, iw_id = hw_id w, iw_path = hw_path w,
               iw_revision = sel_revision w, iw_inserted = True\<rparr> # rest"
      using Cons.prems by (auto split: if_splits)
    have path: "hw_path w = placementPath home (sel_provider w) (sel_login w) (hw_id w)"
      using Cons.prems(5) by (simp add: writes_ok_def)
    have rest: "begun home (ps @ [?row]) rest ps'"
      by (rule Cons.IH[OF call])
        (use Cons.prems None path writes_ok_new[OF Cons.prems(5) None, of ?row] in
          \<open>auto simp: new_ids_def ready_unique_new well_placed_def\<close>)
    have "\<exists>row' \<in> set ps'. pl_id row' = hw_id w \<and> pl_path row' = hw_path w"
      using begin_writes_keep[OF call] by simp
    then have "\<forall>row \<in> set ps'. pl_id row = hw_id w \<longrightarrow> pl_path row = hw_path w"
      using only_path rest unfolding begun_def by blast
    moreover have "\<forall>row \<in> set ps'. pl_state row = Ready \<longrightarrow> row \<in> set ps"
      using rest by (auto simp: begun_def)
    ultimately show ?thesis using path rest unfolding begun_def intended by auto
  next
    case (Some i)
    then obtain row where row: "find_row ps i = Some row" "pl_state row = Ready"
      using Cons.prems(1) by (auto split: if_splits option.splits)
    then obtain rest where call: "begin_writes state runId home person now ws (set_state i Pending ps) = Some (ps', rest)"
      and intended: "intended = \<lparr>iw_provider = sel_provider w, iw_id = pl_id row, iw_path = pl_path row,
               iw_revision = sel_revision w, iw_inserted = False\<rparr> # rest"
      using Cons.prems(1) Some by (auto split: if_splits)
    note found = find_row_Some[OF row(1)]
    have rest: "begun home (set_state i Pending ps) rest ps'"
    proof (rule Cons.IH[OF call])
      show "distinct (map pl_id (set_state i Pending ps))" unfolding set_state_simps by (rule Cons.prems)
      show "ready_unique (set_state i Pending ps)" by (rule ready_unique_pend[OF Cons.prems(3)])
      show "well_placed home (set_state i Pending ps)" by (rule well_placed_pend[OF Cons.prems(4)])
      show "writes_ok home ws (set_state i Pending ps)" by (rule writes_ok_pend[OF Cons.prems(5)])
      show "distinct (new_ids ws)" using Cons.prems(6) Some by (simp add: new_ids_def)
      have "pl_id ` set (set_state i Pending ps) = pl_id ` set ps"
        by (metis set_state_simps(1) list.set_map)
      then show "set (new_ids ws) \<inter> pl_id ` set (set_state i Pending ps) = {}"
        using Cons.prems(7) Some by (simp add: new_ids_def)
    qed
    have "\<exists>row' \<in> set ps'. pl_id row' = pl_id row \<and> pl_path row' = pl_path row"
    proof -
      from set_state_row[of row ps i Pending] found obtain r1 where
        "r1 \<in> set (set_state i Pending ps)" "pl_id r1 = pl_id row" "pl_path r1 = pl_path row" by blast
      with begin_writes_keep[OF call] show ?thesis by metis
    qed
    then have "\<forall>r \<in> set ps'. pl_id r = pl_id row \<longrightarrow> pl_path r = pl_path row"
      using only_path rest unfolding begun_def by blast
    moreover have "no_ready (pl_path row) ps'"
      using begin_writes_keep[OF call, of "pl_path row"] no_ready_reused[OF Cons.prems(2,3), of row] found row(2) by simp
    moreover have "pl_provider row = sel_provider w"
      using Cons.prems(2,5) Some found same_row[OF Cons.prems(2)] by (auto simp: writes_ok_def holds_slot_def)
    moreover have "pl_path row = placementPath home (pl_provider row) (pl_login row) (pl_id row)"
      using Cons.prems(4) found by (simp add: well_placed_def)
    moreover have "\<forall>r \<in> set ps'. pl_state r = Ready \<longrightarrow> r \<in> set ps"
      using rest by (auto simp: begun_def set_state_def)
    ultimately show ?thesis using rest unfolding begun_def intended by auto
  qed
qed

section \<open>Settling\<close>

lemma begun_settling:
  assumes "begun home ps intended ps'" "loses ps' qs" "distinct (map iw_provider intended)"
  shows "settling qs intended"
proof -
  have "iw_path v \<noteq> iw_path w" if "v \<in> set intended" "w \<in> set intended" "iw_provider v \<noteq> iw_provider w" for v w
  proof -
    from assms(1) that(1,2) obtain l i m j where
      "iw_path v = placementPath home (iw_provider v) l i" "iw_path w = placementPath home (iw_provider w) m j"
      unfolding begun_def by blast
    then show ?thesis using path_inject[of home "iw_provider v" l i "iw_provider w" m j] that(3) by auto
  qed
  then have "distinct (map iw_path intended)"
    using assms(3) by (auto simp: distinct_map inj_on_def)
  moreover have "\<forall>w \<in> set intended. (\<forall>row \<in> set qs. pl_id row = iw_id w \<longrightarrow> pl_path row = iw_path w) \<and>
        (\<not> iw_inserted w \<longrightarrow> no_ready (iw_path w) qs)"
  proof
    fix w assume "w \<in> set intended"
    then have w: "\<forall>row \<in> set ps'. pl_id row = iw_id w \<longrightarrow> pl_path row = iw_path w"
      "\<not> iw_inserted w \<longrightarrow> no_ready (iw_path w) ps'"
      using assms(1) by (auto simp: begun_def)
    then show "(\<forall>row \<in> set qs. pl_id row = iw_id w \<longrightarrow> pl_path row = iw_path w) \<and>
        (\<not> iw_inserted w \<longrightarrow> no_ready (iw_path w) qs)"
      using loses_path[OF assms(2) w(1)] loses_no_ready[OF assms(2)] by simp
  qed
  moreover have "ready_unique qs"
    using loses_ready_unique[OF assms(2)] assms(1) by (simp add: begun_def)
  ultimately show ?thesis using assms(2) by (simp add: settling_def loses_def)
qed

lemma restore_retired_unique:
  "distinct (map pl_id ps) \<Longrightarrow> ready_unique ps \<Longrightarrow> distinct (map path ids) \<Longrightarrow>
   \<forall>i \<in> set ids. no_ready (path i) ps \<and> (\<forall>row \<in> set ps. pl_id row = i \<longrightarrow> pl_path row = path i) \<Longrightarrow>
   ready_unique (fold (restore_retired state) ids ps)"
proof (induction ids arbitrary: ps)
  case (Cons i ids)
  let ?ps = "restore_retired state i ps"
  have ids: "map pl_id ?ps = map pl_id ps" by (simp add: restore_retired_def)
  have "ready_unique ?ps"
    unfolding restore_retired_def
    by (rule ready_unique_one[OF Cons.prems(1,2), of _ i "path i"]) (use Cons.prems(4) in \<open>auto simp: no_ready_def\<close>)
  moreover have "no_ready (path j) ?ps \<and> (\<forall>row \<in> set ?ps. pl_id row = j \<longrightarrow> pl_path row = path j)" if "j \<in> set ids" for j
  proof -
    have "path j \<noteq> path i" using Cons.prems(3) imageI[OF that, of path] by auto
    then show ?thesis using Cons.prems(4) that by (auto simp: no_ready_def restore_retired_def)
  qed
  ultimately show ?case using Cons.IH[of ?ps] Cons.prems ids by simp
qed simp

lemma ready_unique_filter: "ready_unique ps \<Longrightarrow> ready_unique (filter P ps)"
proof -
  have "filter (\<lambda>row. pl_state row = Ready) (filter P ps) = filter P (filter (\<lambda>row. pl_state row = Ready) ps)"
    by (simp add: conj_commute)
  then show "ready_unique ps \<Longrightarrow> ready_unique (filter P ps)"
    unfolding ready_unique_def by (simp only: distinct_map_filter)
qed

lemma same_rows:
  assumes "map pl_id qs = map pl_id ps" "map pl_path qs = map pl_path ps" "row \<in> set qs"
  shows "\<exists>old \<in> set ps. pl_id old = pl_id row \<and> pl_path old = pl_path row"
proof -
  from assms(3) obtain k where k: "k < List.length qs" "qs ! k = row" by (auto simp: in_set_conv_nth)
  have n: "List.length qs = List.length ps" using assms(1) by (metis length_map)
  have "pl_id (ps ! k) = pl_id row" using assms(1) k n by (metis nth_map)
  moreover have "pl_path (ps ! k) = pl_path row" using assms(2) k n by (metis nth_map)
  ultimately show ?thesis using k n by (metis nth_mem)
qed

lemma settled_ready_unique:
  assumes "settling ps (in_writes intent)"
    and "distinct (map path (in_retired intent))"
    and "\<And>i. i \<in> set (in_retired intent) \<Longrightarrow> no_ready (path i) ps \<and> path i \<notin> iw_path ` set (in_writes intent) \<and>
           (\<forall>row \<in> set ps. pl_id row = i \<longrightarrow> pl_path row = path i)"
    and "ps = hs_placements state"
  shows "ready_unique (fst (settleHomeWrite state intent outcome))"
proof (cases outcome)
  case (Done_write written kept)
  obtain ps' forget stale where run: "settle_writes state written kept (in_writes intent) (ps, [], False) = (ps', forget, stale)"
    by (metis prod_cases3)
  from settle_writes_unique[OF run assms(1)] show ?thesis
    using run assms(4) by (simp add: settleHomeWrite_def Done_write ready_unique_filter)
next
  case (Refused written)
  obtain ps' forget stale where run: "settle_writes state written [] (in_writes intent) (ps, [], False) = (ps', forget, stale)"
    by (metis prod_cases3)
  note settled = settle_writes_unique[OF run assms(1)]
  have "ready_unique (fold (restore_retired state) (in_retired intent) ps')"
  proof (rule restore_retired_unique[of _ path])
    show "\<forall>i \<in> set (in_retired intent). no_ready (path i) ps' \<and> (\<forall>row \<in> set ps'. pl_id row = i \<longrightarrow> pl_path row = path i)"
    proof
      fix i assume i: "i \<in> set (in_retired intent)"
      have "\<forall>row \<in> set ps'. pl_id row = i \<longrightarrow> pl_path row = path i"
      proof (intro ballI impI)
        fix row assume row: "row \<in> set ps'" "pl_id row = i"
        from settled have "map pl_id ps' = map pl_id ps" "map pl_path ps' = map pl_path ps" by blast+
        from same_rows[OF this row(1)] obtain old where "old \<in> set ps" "pl_id old = pl_id row" "pl_path old = pl_path row"
          by blast
        then show "pl_path row = path i" using assms(3)[OF i] row(2) by metis
      qed
      then show "no_ready (path i) ps' \<and> (\<forall>row \<in> set ps'. pl_id row = i \<longrightarrow> pl_path row = path i)"
        using settled assms(3)[OF i] by blast
    qed
  qed (use settled assms(2) in auto)
  then show ?thesis
    using run assms(4) by (simp add: settleHomeWrite_def Refused ready_unique_filter)
next
  case Unconfirmed
  then show ?thesis using assms(1,4) by (simp add: settleHomeWrite_def settling_def)
qed

section \<open>One put\<close>

lemma assign_ids_fields:
  "map (\<lambda>w. (sel_provider w, sel_login w, pw_reuse w)) (assign_ids home ws ids) =
   map (\<lambda>w. (sel_provider w, sel_login w, pw_reuse w)) ws"
  "\<forall>w \<in> set (assign_ids home ws ids). hw_path w = placementPath home (sel_provider w) (sel_login w) (hw_id w)"
  by (induction home ws ids rule: assign_ids.induct) (auto simp: planned_write.defs split: option.splits prod.splits)

lemma assigned_providers: "map sel_provider (assign_ids home ws ids) = map sel_provider ws"
proof -
  have "map fst (map (\<lambda>w. (sel_provider w, sel_login w, pw_reuse w)) (assign_ids home ws ids)) =
        map fst (map (\<lambda>w. (sel_provider w, sel_login w, pw_reuse w)) ws)"
    by (simp only: assign_ids_fields(1))
  then show ?thesis by (simp add: comp_def)
qed

lemma assign_ids_new:
  "fresh_count ws \<le> List.length ids \<Longrightarrow> new_ids (assign_ids home ws ids) = take (fresh_count ws) ids"
proof (induction home ws ids rule: assign_ids.induct)
  case (2 home w ws ids)
  then show ?case
    by (cases ids; cases "pw_reuse w") (auto simp: new_ids_def planned_write.defs split: option.splits)
qed (simp add: new_ids_def)

definition same_identity :: "placement list \<Rightarrow> placement list \<Rightarrow> bool" where
  "same_identity ps qs \<longleftrightarrow> (\<forall>a \<in> set ps. \<forall>b \<in> set qs. pl_id a = pl_id b \<longrightarrow>
     pl_provider a = pl_provider b \<and> pl_login a = pl_login b)"

lemma assigned_writes_ok:
  assumes "plan_ok ready selected plan" "set ready \<subseteq> set planned" "same_identity planned ps"
    and "fresh_count (pp_writes plan) \<le> List.length ids" "set ids \<inter> pl_id ` set planned = {}"
  shows "writes_ok home (assign_ids home (pp_writes plan) ids) ps"
proof -
  let ?ws = "assign_ids home (pp_writes plan) ids"
  note fields = assign_ids_fields(1)[of home "pp_writes plan" ids]
  have "r \<notin> set (new_ids ?ws) \<and> holds_slot ps r (sel_provider w)"
    if w: "w \<in> set ?ws" "pw_reuse w = Some r" for w r
  proof -
    have "(sel_provider w, sel_login w, pw_reuse w) \<in> set (map (\<lambda>w. (sel_provider w, sel_login w, pw_reuse w)) ?ws)"
      using w(1) by simp
    then obtain v where v: "v \<in> set (pp_writes plan)" "sel_provider v = sel_provider w" "pw_reuse v = Some r"
      unfolding fields using w(2) by auto
    then obtain row where row: "row \<in> set planned" "pl_id row = r" "pl_provider row = sel_provider w" "\<not> key_row row"
      using assms(1,2) unfolding plan_ok_def by (metis subsetD)
    have "r \<notin> set ids" using row(1,2) assms(5) by blast
    then have "r \<notin> set (new_ids ?ws)" unfolding assign_ids_new[OF assms(4)] by (metis in_set_takeD)
    moreover have "holds_slot ps r (sel_provider w)"
      using assms(3) row unfolding same_identity_def holds_slot_def by metis
    ultimately show ?thesis ..
  qed
  moreover have "distinct (map sel_provider ?ws)" using assms(1) by (simp add: plan_ok_def assigned_providers)
  ultimately show ?thesis unfolding writes_ok_def using assign_ids_fields(2) by blast
qed

lemma loses_retire:
  "distinct (map pl_id ps) \<Longrightarrow> loses ps (map (\<lambda>row. if pl_id row \<in> R then removing row else row) ps)"
  unfolding loses_def retired.keeps_ids by fastforce

lemma loses_trans:
  assumes "loses ps qs" "loses qs rs" shows "loses ps rs"
  unfolding loses_def
proof (intro conjI ballI)
  show "distinct (map pl_id rs)" using assms(2) by (simp add: loses_def)
  fix row assume row: "row \<in> set rs"
  obtain m where m: "m \<in> set qs" "pl_id m = pl_id row" "pl_path m = pl_path row" "pl_state row = Ready \<longrightarrow> pl_state m = Ready"
    by (rule losesD[OF assms(2) row])
  obtain old where "old \<in> set ps" "pl_id old = pl_id m" "pl_path old = pl_path m" "pl_state m = Ready \<longrightarrow> pl_state old = Ready"
    by (rule losesD[OF assms(1) m(1)])
  with m show "\<exists>old \<in> set ps. pl_id row = pl_id old \<and> pl_path row = pl_path old \<and> (pl_state row = Ready \<longrightarrow> pl_state old = Ready)"
    by (intro bexI[of _ old]) auto
qed

definition row_path :: "placement list \<Rightarrow> string \<Rightarrow> string" where
  "row_path ps i = (case find_row ps i of Some row \<Rightarrow> pl_path row | None \<Rightarrow> [])"

lemma row_path:
  assumes "distinct (map pl_id ps)" "row \<in> set ps"
  shows "row_path ps (pl_id row) = pl_path row"
proof (cases "find_row ps (pl_id row)")
  case None
  then show ?thesis using assms(2) by (auto simp: find_row_def find_None_iff)
next
  case (Some r)
  then show ?thesis using same_row[OF assms(1), of r row] find_row_Some[OF Some] assms(2) by (simp add: row_path_def)
qed

lemma retired_apart:
  assumes plan: "planHomePut planned live selected removed = plan" "distinct (map sel_provider selected)"
    and apart: "sel_provider ` set selected \<inter> set removed = {}"
    and "same_identity planned ps" "well_placed home ps"
    and row: "row \<in> set ps" "is_retired (pp_removes plan) (pp_removedKeys plan) row"
  shows "pl_provider row \<in> set removed"
proof (cases "key_row row")
  case True
  then have "pl_id row \<in> set (pp_removedKeys plan)" using row(2) by (simp add: is_retired_def)
  from planHomePut_ok(3)[OF plan this] obtain r where
    "r \<in> set planned" "pl_id r = pl_id row" "pl_provider r \<in> set removed" by blast
  then show ?thesis using assms(4) row(1) unfolding same_identity_def by metis
next
  case False
  then show ?thesis using row(2) planHomePut_ok(2)[OF plan] by (auto simp: is_retired_def)
qed

lemma put_settles_unique:
  assumes plan: "planHomePut planned live selected removed = plan" "distinct (map sel_provider selected)"
    and apart: "sel_provider ` set selected \<inter> set removed = {}"
    and rows: "distinct (map pl_id ps)" "ready_unique ps" "well_placed home ps" "same_identity planned ps"
    and ids: "distinct ids" "fresh_count (pp_writes plan) \<le> List.length ids"
      "set ids \<inter> pl_id ` set planned = {}" "set ids \<inter> pl_id ` set ps = {}"
    and start: "beginHomeWrite state runId home person now (assign_ids home (pp_writes plan) ids) keptKeys
        (pp_removes plan) (pp_removedKeys plan) = Begun begun_rows intent"
    and state: "hs_placements state = ps" "distinct (map pl_id begun_rows) \<Longrightarrow> loses begun_rows (hs_placements after)"
  shows "ready_unique begun_rows" "distinct (map pl_id begun_rows)"
    "ready_unique (fst (settleHomeWrite after intent outcome))"
proof -
  let ?ws = "assign_ids home (pp_writes plan) ids" and ?retired = "is_retired (pp_removes plan) (pp_removedKeys plan)"
  let ?ready = "filter (\<lambda>row. pl_state row = Ready) planned"
  note plan_ok = planHomePut_ok(1)[OF plan]
  obtain ps' intended where run: "begin_writes state runId home person now ?ws ps = Some (ps', intended)"
    and intent: "intent = \<lparr>in_writes = intended, in_retired = map pl_id (filter ?retired ps')\<rparr>"
    and begun_rows: "begun_rows = map (\<lambda>row. if pl_id row \<in> pl_id ` set (filter ?retired ps') then removing row else row) ps'"
    using start state(1) by (auto simp: beginHomeWrite_def Let_def split: if_splits option.splits)
  have new: "new_ids ?ws = take (fresh_count (pp_writes plan)) ids" by (rule assign_ids_new[OF ids(2)])
  have "writes_ok home ?ws ps"
    by (rule assigned_writes_ok[OF plan_ok _ rows(4) ids(2,3)]) simp
  then have begun: "begun home ps intended ps'" and writes: "writes_ok home ?ws ps"
    using begin_writes_begun[OF run rows(1-3)] ids(1,4) set_take_subset[of _ ids] by (auto simp: new)
  have ps': "distinct (map pl_id ps')" "ready_unique ps'" "well_placed home ps'"
    using begun by (simp_all add: begun_def)
  have lost: "loses ps' begun_rows" unfolding begun_rows by (rule loses_retire[OF ps'(1)])
  then show "ready_unique begun_rows" using loses_ready_unique ps'(1,2) by blast
  show "distinct (map pl_id begun_rows)" using lost by (simp add: loses_def)
  note after = state(2)[OF this]
  have providers: "map iw_provider intended = map sel_provider ?ws" using begin_writes_keep[OF run] by blast
  have "settling (hs_placements after) (in_writes intent)"
    using begun_settling[OF begun loses_trans[OF lost after]] writes providers
    by (simp add: intent writes_ok_def)
  moreover have "distinct (map (row_path ps') (in_retired intent))"
  proof -
    have "map (row_path ps') (in_retired intent) = map pl_path (filter ?retired (filter (\<lambda>row. pl_state row = Ready) ps'))"
    proof -
      have "filter ?retired (filter (\<lambda>row. pl_state row = Ready) ps') = filter ?retired ps'"
        by (induction ps') (simp_all add: is_retired_def)
      then show ?thesis unfolding intent by (simp add: row_path[OF ps'(1)])
    qed
    then show ?thesis using ps'(2) by (simp only: ready_unique_def distinct_map_filter)
  qed
  moreover have "no_ready (row_path ps' i) (hs_placements after) \<and> row_path ps' i \<notin> iw_path ` set (in_writes intent) \<and>
      (\<forall>row \<in> set (hs_placements after). pl_id row = i \<longrightarrow> pl_path row = row_path ps' i)"
    if i: "i \<in> set (in_retired intent)" for i
  proof -
    from i obtain row where row: "row \<in> set ps'" "?retired row" "i = pl_id row" by (auto simp: intent)
    then have "pl_state row = Ready" by (simp add: is_retired_def)
    then have at_begin: "row \<in> set ps" using begun row(1) by (simp add: begun_def)
    have path: "row_path ps' i = pl_path row" using row_path[OF ps'(1) row(1)] row(3) by simp
    have "no_ready (pl_path row) begun_rows"
      unfolding no_ready_def
    proof (intro ballI impI notI)
      fix other assume "other \<in> set begun_rows" "pl_state other = Ready" and same: "pl_path other = pl_path row"
      then have other: "other \<in> set ps'" "pl_id other \<notin> pl_id ` set (filter ?retired ps')" "pl_state other = Ready"
        unfolding begun_rows by (auto split: if_splits)
      have "pl_id other = pl_id row"
        using bspec[OF bspec[OF ps'(2)[unfolded ready_unique_alt[OF ps'(1)]] other(1)] row(1)] other(3) same
          \<open>pl_state row = Ready\<close> by simp
      then show False using other(2) row(1,2) by auto
    qed
    then have "no_ready (pl_path row) (hs_placements after)" by (rule loses_no_ready[OF after])
    moreover have "\<forall>r \<in> set ps'. pl_id r = i \<longrightarrow> pl_path r = pl_path row"
      using only_path[OF ps'(1)] row by blast
    then have "\<forall>r \<in> set (hs_placements after). pl_id r = i \<longrightarrow> pl_path r = pl_path row"
      using loses_path[OF loses_trans[OF lost after]] by blast
    moreover have "pl_path row \<noteq> iw_path w" if w: "w \<in> set intended" for w
    proof -
      from begun w obtain l j where "iw_path w = placementPath home (iw_provider w) l j" unfolding begun_def by blast
      moreover have "pl_path row = placementPath home (pl_provider row) (pl_login row) (pl_id row)"
        using ps'(3) row(1) by (simp add: well_placed_def)
      moreover have "iw_provider w \<in> sel_provider ` set selected"
      proof -
        have "iw_provider w \<in> set (map sel_provider ?ws)" unfolding providers[symmetric] using w by simp
        then show ?thesis using plan_ok unfolding assigned_providers by (auto simp: plan_ok_def)
      qed
      moreover have "pl_provider row \<in> set removed"
        by (rule retired_apart[OF plan apart rows(4,3) at_begin row(2)])
      ultimately show ?thesis
        using path_inject[of home "iw_provider w" l j "pl_provider row" "pl_login row" "pl_id row"] apart by auto
    qed
    ultimately show ?thesis unfolding path intent by auto
  qed
  ultimately show "ready_unique (fst (settleHomeWrite after intent outcome))"
    by (rule settled_ready_unique) simp_all
qed

lemma settleInDoubt_identity:
  "map pl_id (settleInDoubt ps) = map pl_id ps"
  "well_placed home ps \<Longrightarrow> well_placed home (settleInDoubt ps)"
  "same_identity qs ps \<Longrightarrow> same_identity qs (settleInDoubt ps)"
  by (auto simp: settleInDoubt_def Let_def well_placed_def same_identity_def)

lemma loses_refl: "distinct (map pl_id ps) \<Longrightarrow> loses ps ps"
  by (auto simp: loses_def)

text \<open>A Codex login ready at revision 1 of an account that has moved to revision 2.\<close>

definition home_example :: home_state where
  "home_example =
     \<lparr>hs_held = None,
      hs_placements = [\<lparr>pl_id = ''a'', pl_runId = ''r'', pl_home = ''/h'', pl_provider = Codex, pl_accountId = ''acc'',
        pl_revision = 1, pl_path = placementPath ''/h'' Codex Subscription ''a'', pl_login = Subscription,
        pl_state = Ready, pl_createdAt = 0\<rparr>],
      hs_accounts = [''acc'' \<mapsto> \<lparr>pa_id = ''acc'', pa_name = ''n'', pa_ownerUserId = ''u'', pa_provider = ''codex'',
        pa_revision = 2, pa_status = Active\<rparr>],
      hs_defaults = []\<rparr>"

definition selection_example :: home_selection where
  "selection_example =
     \<lparr>sel_provider = Codex, sel_accountId = ''acc'', sel_revision = 2, sel_login = Subscription\<rparr>"

text \<open>
  C9: A path of a home never has two ready logins, across a whole put. The plan comes from an
  earlier read (\<open>planned\<close>); the rows it meets at the first transaction and those the second
  transaction reads (\<open>later\<close>) may have moved on, as long as a row keeps its identity and none becomes
  ready meanwhile. It holds for whatever the script answers: done, some logins kept, refused part way,
  or nothing at all; reused rows, new rows, removed logins and keys included.
\<close>

theorem put_keeps_one_ready_login:
  assumes plan: "planHomePut planned live selected removed = plan"
    and providers: "distinct (map sel_provider selected)" "sel_provider ` set selected \<inter> set removed = {}"
    and rows: "distinct (map pl_id (hs_placements state))" "ready_unique (hs_placements state)"
      "well_placed home (hs_placements state)" "same_identity planned (hs_placements state)"
    and ids: "distinct ids" "fresh_count (pp_writes plan) \<le> List.length ids"
      "set ids \<inter> (pl_id ` set planned \<union> pl_id ` set (hs_placements state)) = {}"
    and later: "\<And>ps. distinct (map pl_id ps) \<Longrightarrow> loses ps (hs_placements (later ps))"
  shows "ready_unique (fst (writeIntoHome state later runId home person now ids taking (pp_writes plan) keptKeys
           (pp_removes plan) (pp_removedKeys plan) answer))"
proof -
  let ?ps = "settleInDoubt (hs_placements state)" and ?ws = "assign_ids home (pp_writes plan) ids"
  let ?state = "state\<lparr>hs_placements := settleInDoubt (hs_placements state)\<rparr>"
  have ps: "distinct (map pl_id ?ps)" "ready_unique ?ps" "well_placed home ?ps" "same_identity planned ?ps"
    using rows by (simp_all add: settleInDoubt_identity settleInDoubt_ready_unique)
  have ids': "set ids \<inter> pl_id ` set planned = {}" "set ids \<inter> pl_id ` set ?ps = {}"
    using ids(3) settleInDoubt_identity(1)[of "hs_placements state"] by (auto simp flip: set_map)
  show ?thesis
  proof (cases "beginHomeWrite ?state runId home person now ?ws keptKeys (pp_removes plan) (pp_removedKeys plan)")
    case Accounts_moved
    then show ?thesis using ps(2) by (simp add: writeIntoHome_def begin_put_def Let_def)
  next
    case (Begun begun_rows intent)
    have after: "distinct (map pl_id begun_rows) \<Longrightarrow> loses begun_rows (hs_placements (later begun_rows))"
      by (rule later)
    note settled = put_settles_unique[OF plan providers ps ids(1,2) ids' Begun _ after, simplified]
    have "ready_unique (hs_placements (later begun_rows))"
      using loses_ready_unique[OF later] settled(1,2) by blast
    then show ?thesis
      using settled(1,3) Begun by (auto simp: writeIntoHome_def begin_put_def Let_def split: home_script_run.splits)
  qed
qed

lemma put_keeps_one_ready_login_witness:
  "let plan = planHomePut (hs_placements home_example) None [selection_example] []
   in ready_unique (fst (writeIntoHome home_example (\<lambda>ps. home_example\<lparr>hs_placements := ps\<rparr>) ''r'' ''/h'' ''u'' 5 [''b'']
        False (pp_writes plan) [] (pp_removes plan) (pp_removedKeys plan) (Some (Some 0))))"
  unfolding Let_def
  by (rule put_keeps_one_ready_login[OF refl])
    (simp_all add: home_example_def selection_example_def ready_unique_def well_placed_def same_identity_def
      planHomePut_def plan_selection_def slot_def isClaudeKey_def sameLogin_def is_live_def plan_write_def loses_refl)

end
