(* ===== verification/Home_Script.thy ===== *)
theory Home_Script
  imports Home_Placements_Proofs
begin

text \<open>
  The owner's half of the home script (\<open>buildHomeCredentialScript\<close> in
  \<open>packages/workspaces/src/runtime/home-credentials.ts\<close>) as the commands it lists, in the order it
  lists them, each of which the executor may refuse. The shell text, the fence and the checks of the
  root half are not modelled; what each command answers is a parameter.
\<close>

section \<open>The commands\<close>

datatype home_op =
    Open_file provider
  | Check_key string
  | Write_file provider
  | Write_key string
  | Merge provider
  | Scrub provider
  | Remove_file provider
  | Remove_key string

datatype op_answer = Op_ok | Op_kept | Op_refused | Op_outside

fun FILE_EXITS :: "provider \<Rightarrow> nat" where
  "FILE_EXITS Claude = 86"
| "FILE_EXITS Codex = 87"
| "FILE_EXITS Github = 88"
| "FILE_EXITS _ = 0"

definition merged_unusable :: "provider \<Rightarrow> nat" where
  "merged_unusable p = (if p = Pi then 82 else 83)"

definition merged_outside :: "provider \<Rightarrow> nat" where
  "merged_outside p = (if p = Pi then 84 else 85)"

definition isMergedLogin :: "provider \<Rightarrow> bool" where
  "isMergedLogin p \<longleftrightarrow> p \<in> set MERGED_LOGIN_PROVIDERS"

text \<open>\<open>writes\<close> are the providers of the put's files, \<open>keys\<close> the ids of its key writes and restores.\<close>

definition inner_ops :: "provider list \<Rightarrow> string list \<Rightarrow> provider list \<Rightarrow> string list \<Rightarrow> home_op list" where
  "inner_ops writes keys removes keyRemoves =
     (let files = filter (\<lambda>p. homeCredentialProviderOf (HOME_CREDENTIAL_FILES p) \<noteq> None) writes in
      map Open_file files @ map Check_key keys @ map Write_file files @ map Write_key keys @
      map Merge (filter isMergedLogin writes) @
      map (\<lambda>p. if isMergedLogin p then Scrub p else Remove_file p) (filter (\<lambda>p. p \<notin> set writes) removes) @
      map Remove_key keyRemoves)"

text \<open>The exit a refused command ends the script with; a plain \<open>rm\<close> or file write has none of its own.\<close>

fun refusal_exit :: "home_op \<Rightarrow> op_answer \<Rightarrow> nat" where
  "refusal_exit (Open_file p) answer = FILE_EXITS p"
| "refusal_exit (Check_key i) answer = 89"
| "refusal_exit (Write_key i) answer = 89"
| "refusal_exit (Merge p) answer = (if answer = Op_outside then merged_outside p else merged_unusable p)"
| "refusal_exit (Scrub p) answer = merged_unusable p"
| "refusal_exit _ answer = 1"

fun run_ops :: "(home_op \<Rightarrow> op_answer) \<Rightarrow> home_op list \<Rightarrow> home_op list \<Rightarrow> provider list \<Rightarrow> home_op list \<times> nat" where
  "run_ops answer [] did kept = (did, if kept = [] then 0 else kept_exit_encode kept)"
| "run_ops answer (op # ops) did kept =
     (case (answer op, op) of
        (Op_ok, _) \<Rightarrow> run_ops answer ops (did @ [op]) kept
      | (Op_kept, Merge p) \<Rightarrow> run_ops answer ops did (kept @ [p])
      | (r, _) \<Rightarrow> (did, refusal_exit op r))"

section \<open>What an exit says\<close>

lemma sublists_of_two: "xs = [Pi, Opencode] \<Longrightarrow> filter P xs \<in> {[], [Pi], [Opencode], [Pi, Opencode]}"
  by simp

text \<open>
  The exit code names the kept logins exactly: for any logins the program kept, decoding the
  encoded exit gives those that are merged logins, in their order (no kept login at all is not
  encoded: the script then exits 0); and no exit is at once a kept one and a refusal.
\<close>

lemma kept_exit_roundtrip:
  "(filter (\<lambda>p. p \<in> set kept) MERGED_LOGIN_PROVIDERS = [] \<or>
      homeLoginsKept (Some (kept_exit_encode kept)) = Some (filter (\<lambda>p. p \<in> set kept) MERGED_LOGIN_PROVIDERS)) \<and>
    \<not> (homeScriptRefusal c \<and> homeLoginsKept (Some c) \<noteq> None)"
proof (intro conjI)
  show "filter (\<lambda>p. p \<in> set kept) MERGED_LOGIN_PROVIDERS = [] \<or>
      homeLoginsKept (Some (kept_exit_encode kept)) = Some (filter (\<lambda>p. p \<in> set kept) MERGED_LOGIN_PROVIDERS)"
    by (cases "Pi \<in> set kept"; cases "Opencode \<in> set kept")
      (simp_all add: MERGED_LOGIN_PROVIDERS_def homeLoginsKept_def kept_exit_encode_def kept_exit_decode_def KEPT_LOGIN_BITS_def)
  show "\<not> (homeScriptRefusal c \<and> homeLoginsKept (Some c) \<noteq> None)"
    by (auto simp: homeScriptRefusal_def homeLoginsKept_def kept_exit_decode_def split: if_splits)
qed

definition merge_exit :: "nat \<Rightarrow> bool" where
  "merge_exit c \<longleftrightarrow> c \<in> {82, 83, 84, 85}"

lemma landed_files: "landedBeforeRefusal writes c =
   (if merge_exit c then filter (\<lambda>p. homeCredentialProviderOf (HOME_CREDENTIAL_FILES p) \<noteq> None) writes else [])"
  by (auto simp: landedBeforeRefusal_def homeLoginOfRefusal_def merge_exit_def)

lemma early_exit:
  "refusal_exit op r = c \<Longrightarrow> merge_exit c \<Longrightarrow> (\<exists>p. op = Merge p) \<or> (\<exists>p. op = Scrub p)"
  by (cases op; cases "case op of Open_file p \<Rightarrow> p | _ \<Rightarrow> Pi") (auto simp: merge_exit_def)

lemma run_ops_prefix:
  "run_ops answer (ops @ ops_left) did kept = (done_ops, c) \<Longrightarrow> merge_exit c \<Longrightarrow>
   \<forall>op \<in> set ops. \<forall>p. op \<noteq> Merge p \<and> op \<noteq> Scrub p \<Longrightarrow>
   run_ops answer ops_left (did @ ops) kept = (done_ops, c)"
proof (induction ops arbitrary: did)
  case (Cons op ops)
  have "answer op = Op_ok"
  proof (rule ccontr)
    assume "answer op \<noteq> Op_ok"
    then have "refusal_exit op (answer op) = c"
      using Cons.prems(1,3) by (cases "answer op"; cases op) auto
    from early_exit[OF this Cons.prems(2)] Cons.prems(3) show False by auto
  qed
  then show ?case using Cons.IH[of "did @ [op]"] Cons.prems by simp
qed simp

lemma run_ops_grows: "run_ops answer ops did kept = (done_ops, c) \<Longrightarrow> set did \<subseteq> set done_ops"
  by (induction answer ops did kept rule: run_ops.induct) (auto split: op_answer.splits home_op.splits)

lemma landed_was_written:
  assumes "run_ops answer (inner_ops writes keys removes keyRemoves) [] [] = (done_ops, c)"
    and "p \<in> set (landedBeforeRefusal writes c)"
  shows "Write_file p \<in> set done_ops"
proof -
  have c: "merge_exit c" and p: "p \<in> set (filter (\<lambda>p. homeCredentialProviderOf (HOME_CREDENTIAL_FILES p) \<noteq> None) writes)"
    using assms(2) by (auto simp: landed_files split: if_splits)
  let ?files = "filter (\<lambda>p. homeCredentialProviderOf (HOME_CREDENTIAL_FILES p) \<noteq> None) writes"
  let ?first = "map Open_file ?files @ map Check_key keys @ map Write_file ?files @ map Write_key keys"
  obtain ops_left where "inner_ops writes keys removes keyRemoves = ?first @ ops_left"
    by (simp add: inner_ops_def Let_def)
  with assms(1) have "run_ops answer (?first @ ops_left) [] [] = (done_ops, c)" by simp
  from run_ops_prefix[OF this c] have "run_ops answer ops_left ([] @ ?first) [] = (done_ops, c)" by auto
  from run_ops_grows[OF this] show ?thesis using p by auto
qed

text \<open>
  What a refused write is taken to have placed, it has placed: for every script and every way
  the executor answers its commands, each login the code settles as landed was written before the
  command that was refused.
\<close>

lemma landed_before_refusal_is_written:
  assumes "run_ops answer (inner_ops writes keys removes keyRemoves) [] [] = (done_ops, c)"
    and "runHomeScript (Some (Some c)) = Script_refused c"
    and "outcome_of writes (Script_refused c) = Refused landed"
  shows "Write_file ` set landed \<subseteq> set done_ops"
  using landed_was_written[OF assms(1)] assms(3) by (auto simp: outcome_of_def)

text \<open>
  The converse fails for a merged login: a put that writes pi's login and is then refused at
  opencode's has written pi's, the code takes nothing to have landed, and settling forgets pi's row,
  so a login stays in the home that no row names.
\<close>

lemma merged_login_before_refusal_forgotten:
  "let answer = (\<lambda>op. if op = Merge Opencode then Op_refused else Op_ok);
       (did, c) = run_ops answer (inner_ops [Pi, Opencode] [] [] []) [] [];
       pending = \<lparr>pl_id = ''a'', pl_runId = ''r'', pl_home = ''/h'', pl_provider = Pi, pl_accountId = ''acc'',
         pl_revision = 1, pl_path = placementPath ''/h'' Pi Subscription ''a'', pl_login = Subscription,
         pl_state = Pending, pl_createdAt = 0\<rparr>;
       intent = \<lparr>in_writes = [\<lparr>iw_provider = Pi, iw_id = ''a'', iw_path = pl_path pending, iw_revision = 1,
         iw_inserted = True\<rparr>], in_retired = []\<rparr>
   in Merge Pi \<in> set did \<and> runHomeScript (Some (Some c)) = Script_refused c \<and>
      fst (settleHomeWrite (home_example\<lparr>hs_placements := [pending]\<rparr>) intent
             (outcome_of [Pi, Opencode] (Script_refused c))) = []"
  by code_simp

section \<open>Removal\<close>

lemma settleInDoubt_row:
  assumes "row \<in> set (settleInDoubt ps)" "pending \<in> set ps" "pl_state pending = Pending" "pl_path row = pl_path pending"
  shows "pl_state row = Removing"
  using assms by (auto simp: settleInDoubt_def Let_def split: if_splits)

lemma settled_pending:
  assumes "row \<in> set ps" "pl_state row = Pending"
  shows "removing row \<in> set (settleInDoubt ps)"
  using assms by (force simp: settleInDoubt_def Let_def)

text \<open>
  A write nobody confirmed is removed: once its home is next settled, its row is on the list of
  rows to forget, its key or its provider's file is on the list of files to remove, and no login at
  its path counts as ready any more (the file may hold either).
\<close>

lemma doubtful_write_is_removed:
  assumes "row \<in> set ps" "pl_state row = Pending"
  shows "pl_id row \<in> set (rw_forget (removalWork (settleInDoubt ps))) \<and>
    (if key_row row then pl_id row \<in> set (rw_removedKeys (removalWork (settleInDoubt ps)))
     else pl_provider row \<in> set (rw_removes (removalWork (settleInDoubt ps)))) \<and>
    no_ready (pl_path row) (settleInDoubt ps)"
proof -
  let ?ps = "settleInDoubt ps"
  have r: "removing row \<in> set ?ps" by (rule settled_pending[OF assms])
  have none: "no_ready (pl_path row) ?ps"
    using settleInDoubt_row[OF _ assms] by (force simp: no_ready_def)
  then have unheld: "pl_path (removing row) \<notin> set (map pl_path (filter (\<lambda>row. pl_state row = Ready) ?ps))"
    by (auto simp: no_ready_def)
  have "pl_id (removing row) \<in> set (rw_forget (removalWork ?ps))"
    using r unfolding removalWork_def Let_def removal_work.simps set_map set_filter by (intro imageI) simp
  moreover have "pl_id (removing row) \<in> set (rw_removedKeys (removalWork ?ps))" if "key_row row"
    using r that unheld unfolding removalWork_def Let_def removal_work.simps set_map set_filter by (intro imageI) simp
  moreover have "pl_provider (removing row) \<in> set (rw_removes (removalWork ?ps))" if "\<not> key_row row"
    using r that unheld unfolding removalWork_def Let_def removal_work.simps set_map set_filter set_to_set by (intro imageI) simp
  ultimately show ?thesis using none by simp
qed

lemma removal_spares:
  assumes "well_placed home ps" "distinct (map pl_id ps)" "row \<in> set ps" "pl_state row = Ready"
  shows "pl_id row \<notin> set (rw_forget (removalWork ps))"
    and "key_row row \<Longrightarrow> pl_id row \<notin> set (rw_removedKeys (removalWork ps))"
    and "\<not> key_row row \<Longrightarrow> pl_provider row \<notin> set (rw_removes (removalWork ps))"
proof -
  have other: "pl_id r \<noteq> pl_id row" if "r \<in> set ps" "pl_state r = Removing" for r
    using same_row[OF assms(2) that(1) assms(3)] that(2) assms(4) by auto
  then show "pl_id row \<notin> set (rw_forget (removalWork ps))"
    and "key_row row \<Longrightarrow> pl_id row \<notin> set (rw_removedKeys (removalWork ps))"
    by (force simp: removalWork_def Let_def)+
  show "pl_provider row \<notin> set (rw_removes (removalWork ps))" if "\<not> key_row row"
  proof
    assume "pl_provider row \<in> set (rw_removes (removalWork ps))"
    then obtain r where r: "r \<in> set ps" "\<not> key_row r" "pl_provider r = pl_provider row"
      "pl_path r \<notin> pl_path ` {r \<in> set ps. pl_state r = Ready}"
      by (auto simp: removalWork_def Let_def)
    have "pl_path r = pl_path row"
      using assms(1,3) r(1-3) that unfolding well_placed_def placementPath_def by auto
    then show False using r(4) assms(3,4) by auto
  qed
qed

text \<open>
  Removing what is left over never takes a login in use: in a home whose rows sit at their paths,
  a row that is ready is not forgotten, its key is not removed, and a file it holds is not removed
  even when an older row of the same file is waiting for removal; and whatever the removal script
  answers, a row that is ready when the second transaction reads the rows is still there after it.
\<close>

lemma removal_spares_ready:
  assumes "well_placed home ps" "distinct (map pl_id ps)" "row \<in> set ps" "pl_state row = Ready"
    and "hs_placements state = ps" "kept \<in> set (later (settleInDoubt ps))" "pl_state kept = Ready"
  shows "(if key_row row then pl_id row \<notin> set (rw_removedKeys (removalWork ps))
          else pl_provider row \<notin> set (rw_removes (removalWork ps))) \<and>
    pl_id row \<notin> set (rw_forget (removalWork ps)) \<and>
    (removeLeftovers state later False hasTarget answer = (rows, Leftovers_removed) \<longrightarrow> kept \<in> set rows)"
  using removal_spares[OF assms(1-4)] assms(5-7) by (auto simp: removeLeftovers_def Let_def split: if_splits)

text \<open>An older row of the file the ready login holds is waiting for removal.\<close>

definition leftover_home :: home_state where
  "leftover_home = home_example\<lparr>hs_placements := hs_placements home_example @
     [(hd (hs_placements home_example))\<lparr>pl_id := ''z'', pl_state := Removing\<rparr>]\<rparr>"

end
