(* ===== verification/Home_Put_Proofs.thy ===== *)
theory Home_Put_Proofs
  imports Home_Script
begin

text \<open>
  What the plan of a put spares, and what a put that reports itself up to date has placed.
\<close>

section \<open>Live logins\<close>

definition may_remove :: "placement list \<Rightarrow> string list option \<Rightarrow> provider \<Rightarrow> bool" where
  "may_remove ready live p = (case slot ready p of Some held \<Rightarrow> \<not> is_live live held | None \<Rightarrow> True)"

lemma plan_removals_may:
  "p \<in> set (pp_removes (fold (plan_removal ready live) removed plan)) \<Longrightarrow>
   p \<in> set (pp_removes plan) \<or> may_remove ready live p"
proof (induction removed arbitrary: plan)
  case (Cons q removed)
  have "p \<in> set (pp_removes (plan_removal ready live q plan)) \<Longrightarrow> p \<in> set (pp_removes plan) \<or> may_remove ready live p"
    by (auto simp: plan_removal_def may_remove_def Let_def split: option.splits if_splits)
  then show ?case using Cons.IH[of "plan_removal ready live q plan"] Cons.prems by auto
qed simp

definition may_write :: "placement list \<Rightarrow> string list option \<Rightarrow> planned_write \<Rightarrow> bool" where
  "may_write ready live w \<longleftrightarrow> isClaudeKey (sel_provider w) (sel_login w) \<or>
     (case slot ready (sel_provider w) of
        None \<Rightarrow> True
      | Some held \<Rightarrow> is_live live held \<longrightarrow> sameLogin held w \<and> pw_reuse w = Some (pl_id held))"

lemma sameLogin_plan [simp]: "sameLogin row (plan_write s r) = sameLogin row s"
  by (simp add: sameLogin_def)

lemma plan_selections_may:
  "w \<in> set (pp_writes (fold (plan_selection ready live) selected plan)) \<Longrightarrow>
   w \<in> set (pp_writes plan) \<or> may_write ready live w"
proof (induction selected arbitrary: plan)
  case (Cons s selected)
  have "w \<in> set (pp_writes (plan_selection ready live s plan)) \<Longrightarrow> w \<in> set (pp_writes plan) \<or> may_write ready live w"
    by (auto simp: plan_selection_def may_write_def split: option.splits if_splits)
  then show ?case using Cons.IH[of "plan_selection ready live s plan"] Cons.prems by auto
qed simp

lemma slot_is:
  assumes "distinct (map pl_id ps)" "ready_unique ps" "well_placed home ps" "row \<in> set ps" "pl_state row = Ready"
    "\<not> key_row row"
  shows "slot (filter (\<lambda>row. pl_state row = Ready) ps) (pl_provider row) = Some row"
proof -
  obtain r where r: "slot (filter (\<lambda>row. pl_state row = Ready) ps) (pl_provider row) = Some r"
    using assms(4-6) by (cases "slot (filter (\<lambda>row. pl_state row = Ready) ps) (pl_provider row)")
      (auto simp: slot_def find_None_iff)
  from slot_row[OF r] have r': "r \<in> set ps" "pl_state r = Ready" "pl_provider r = pl_provider row" "\<not> key_row r" by auto
  then have "pl_path r = pl_path row"
    using assms(3,4,6) unfolding well_placed_def placementPath_def by auto
  then have "pl_id r = pl_id row"
    using bspec[OF bspec[OF assms(2)[unfolded ready_unique_alt[OF assms(1)]] r'(1)] assms(4)] r'(2) assms(5) by simp
  then show ?thesis using r same_row[OF assms(1) r'(1) assms(4)] by simp
qed

text \<open>
  A put never takes away a login a live session is using: the plan neither removes its file or
  key nor writes another login over it; a selection of the very same login reuses its row.
\<close>

lemma plan_spares_live:
  assumes "distinct (map pl_id ps)" "ready_unique ps" "well_placed home ps"
    and row: "row \<in> set ps" "pl_state row = Ready" and live: "pl_id row \<in> set live"
    and plan: "planHomePut ps (Some live) selected removed = plan"
  shows "if key_row row then pl_id row \<notin> set (pp_removedKeys plan)
         else pl_provider row \<notin> set (pp_removes plan) \<and>
           (\<forall>w \<in> set (pp_writes plan). sel_provider w = pl_provider row \<and> \<not> isClaudeKey (sel_provider w) (sel_login w) \<longrightarrow>
              pw_reuse w = Some (pl_id row) \<and> sameLogin row w)"
proof -
  let ?ready = "filter (\<lambda>row. pl_state row = Ready) ps"
  let ?empty = "\<lparr>pp_writes = [], pp_keptKeys = [], pp_removes = [], pp_removedKeys = [], pp_pinned = []\<rparr>"
  let ?sel = "fold (plan_selection ?ready (Some live)) selected ?empty"
  have p: "plan = fold (plan_removal ?ready (Some live)) removed ?sel"
    using plan by (simp add: planHomePut_def Let_def)
  show ?thesis
  proof (cases "key_row row")
    case True
    have "i \<notin> set live" if "i \<in> set (pp_removedKeys plan)" for i
      using that unfolding p plan_removals_keys by (auto simp: plan_selection_removes is_live_def)
    then show ?thesis using True live by auto
  next
    case False
    note slot = slot_is[OF assms(1-3) row False]
    have is_live: "is_live (Some live) row" using live by (simp add: is_live_def)
    have "\<not> may_remove ?ready (Some live) (pl_provider row)" using slot is_live by (simp add: may_remove_def)
    then have "pl_provider row \<notin> set (pp_removes plan)"
      unfolding p using plan_removals_may[of "pl_provider row" ?ready "Some live" removed ?sel]
      by (auto simp: plan_selection_removes)
    moreover have "pw_reuse w = Some (pl_id row) \<and> sameLogin row w"
      if w: "w \<in> set (pp_writes plan)" "sel_provider w = pl_provider row" "\<not> isClaudeKey (sel_provider w) (sel_login w)" for w
    proof -
      have "may_write ?ready (Some live) w"
        using w(1) plan_selections_may[of w ?ready "Some live" selected ?empty] unfolding p plan_removals_writes by auto
      then show ?thesis using w(2,3) slot is_live by (simp add: may_write_def)
    qed
    ultimately show ?thesis unfolding if_not_P[OF False] by blast
  qed
qed

section \<open>A settled put\<close>

lemma settle_writes_spares:
  "settle_writes state written kept ws (ps, forget, stale) = (ps', forget', stale') \<Longrightarrow> row \<in> set ps \<Longrightarrow>
   pl_id row \<notin> iw_id ` set ws \<Longrightarrow> pl_path row \<notin> iw_path ` set ws \<Longrightarrow> row \<in> set ps'"
proof (induction ws arbitrary: ps forget stale)
  case (Cons w ws)
  let ?d = "if iw_provider w \<in> set written \<or> iw_provider w \<in> set kept then demote_others w ps else ps"
  have "row \<in> set ?d" "row \<in> set (land state w ?d)" "\<And>k. row \<in> set (restore state k (iw_id w) ?d)"
    using Cons.prems(2-4) by (force simp: demote_others_def land_def restore_def)+
  then show ?case using Cons.prems(1,3,4) by (auto simp: Let_def split: if_splits intro!: Cons.IH)
qed simp

lemma settle_writes_stale:
  "settle_writes state written kept ws (ps, forget, stale) = (ps', forget', stale') \<Longrightarrow> stale \<Longrightarrow> stale'"
proof (induction ws arbitrary: ps forget stale)
  case (Cons w ws)
  then show ?case by (fastforce simp: Let_def split: if_splits)
qed simp

lemma settle_writes_forget:
  "settle_writes state written kept ws (ps, forget, stale) = (ps', forget', stale') \<Longrightarrow>
   set forget' \<subseteq> set forget \<union> {iw_id w | w. w \<in> set ws \<and> iw_provider w \<notin> set written}"
proof (induction ws arbitrary: ps forget stale)
  case (Cons w ws)
  then show ?case by (fastforce simp: Let_def split: if_splits)
qed simp

definition placed :: "home_state \<Rightarrow> intended_write \<Rightarrow> placement \<Rightarrow> bool" where
  "placed state w row \<longleftrightarrow> pl_id row = iw_id w \<and> pl_path row = iw_path w \<and> pl_state row = Ready \<and>
     pl_revision row = iw_revision w \<and>
     (\<exists>a. hs_accounts state (pl_accountId row) = Some a \<and> pa_revision a = iw_revision w \<and> pa_status a \<noteq> Archived)"

lemma land_placed:
  assumes "\<not> landed_stale state w (land state w ps)" "\<forall>row \<in> set ps. pl_id row = iw_id w \<longrightarrow> pl_path row = iw_path w"
  shows "\<exists>row \<in> set (land state w ps). placed state w row"
proof -
  from assms(1) obtain row a where row: "find_row (land state w ps) (iw_id w) = Some row" "pl_state row = Ready"
    "hs_accounts state (pl_accountId row) = Some a" "pa_revision a = iw_revision w"
    by (auto simp: landed_stale_def split: option.splits)
  note found = find_row_Some[OF row(1)]
  then obtain old where "old \<in> set ps" "pl_id old = iw_id w" "row = old\<lparr>pl_revision := iw_revision w, pl_state :=
      (if pl_state old = Pending \<and> accountUnarchived state (pl_accountId old) then Ready else Removing)\<rparr>"
    by (auto simp: land_def split: if_splits)
  then have "placed state w row"
    using row(2-4) assms(2) by (auto simp: placed_def accountUnarchived_def split: if_splits option.splits)
  then show ?thesis using found by blast
qed

lemma settle_writes_placed:
  "settle_writes state written kept ws (ps, forget, stale) = (ps', forget', False) \<Longrightarrow> settling ps ws \<Longrightarrow>
   distinct (map iw_id ws) \<Longrightarrow> w \<in> set ws \<Longrightarrow> iw_provider w \<in> set written \<Longrightarrow> \<exists>row \<in> set ps'. placed state w row"
proof (induction ws arbitrary: ps forget stale)
  case (Cons v ws)
  note step = settling_step[OF Cons.prems(2)]
  let ?d = "if iw_provider v \<in> set written \<or> iw_provider v \<in> set kept then demote_others v ps else ps"
  have d: "settling ?d (v # ws)" using step(1) Cons.prems(2) by auto
  let ?next = "if iw_provider v \<in> set written then land state v ?d
    else if iw_inserted v then ?d else restore state (iw_provider v \<in> set kept) (iw_id v) ?d"
  obtain f s where call: "settle_writes state written kept ws (?next, f, s) = (ps', forget', False)"
    and stale: "iw_provider v \<in> set written \<Longrightarrow> landed_stale state v (land state v ?d) \<Longrightarrow> s"
    using Cons.prems(1) by (auto simp: Let_def split: if_splits)
  show ?case
  proof (cases "w = v")
    case True
    have "\<not> landed_stale state v (land state v ?d)"
      using settle_writes_stale[OF call] stale Cons.prems(5) True by auto
    from land_placed[OF this] d Cons.prems(5) True
    obtain row where row: "row \<in> set ?next" "placed state v row" by (auto simp: settling_def)
    have "iw_path v \<notin> iw_path ` set ws" using Cons.prems(2) by (auto simp: settling_def)
    then have "row \<in> set ps'"
      using row Cons.prems(3) by (intro settle_writes_spares[OF call]) (auto simp: placed_def)
    then show ?thesis using row(2) True by auto
  next
    case False
    have "settling ?next ws"
      using step(2) settling_step(3)[OF d] d by (auto simp: settling_def)
    then show ?thesis using Cons.IH[OF call] Cons.prems(3-5) False by auto
  qed
qed simp

text \<open>
  A put that is not reported stale placed what it says: every login the script wrote is, after the
  second transaction, ready at its path and its revision, and that is the revision its account still
  has, an account that is not archived; neither the clean-up of the put's other rows nor of the logins
  it removed drops it.
\<close>

lemma settled_not_stale_is_placed:
  assumes "settling (hs_placements state) (in_writes intent)" "distinct (map iw_id (in_writes intent))"
    and "iw_id ` set (in_writes intent) \<inter> set (in_retired intent) = {}"
    and "settleHomeWrite state intent (Done_write written kept) = (rows, False)"
    and "w \<in> set (in_writes intent)" "iw_provider w \<in> set written"
  shows "\<exists>row \<in> set rows. pl_id row = iw_id w \<and> pl_path row = iw_path w \<and> pl_state row = Ready \<and>
    pl_revision row = iw_revision w \<and>
    (\<exists>a. hs_accounts state (pl_accountId row) = Some a \<and> pa_revision a = iw_revision w \<and> pa_status a \<noteq> Archived)"
proof -
  obtain ps' forget where run: "settle_writes state written kept (in_writes intent) (hs_placements state, [], False) = (ps', forget, False)"
    and rows: "rows = filter (\<lambda>row. pl_id row \<notin> set (forget @ in_retired intent)) ps'"
    using assms(4) by (auto simp: settleHomeWrite_def split: prod.splits)
  from settle_writes_placed[OF run assms(1,2,5,6)] obtain row where row: "row \<in> set ps'" "placed state w row" by blast
  have "iw_id w \<noteq> iw_id v" if "v \<in> set (in_writes intent)" "iw_provider v \<notin> set written" for v
    using that assms(2,5,6) by (auto simp: distinct_map dest: inj_onD)
  then have "iw_id w \<notin> set forget" using settle_writes_forget[OF run] by auto
  then have "row \<in> set rows" using row assms(3,5) by (auto simp: rows placed_def)
  then show ?thesis using row(2) by (auto simp: placed_def)
qed

end
