(* ===== verification/Resource_Domains.thy ===== *)
theory Resource_Domains
  imports Prelude
begin

text \<open>
  Resource domains (\<open>packages/db/src/repositories/resource-domains.ts\<close>, with the tables and checks of
  \<open>packages/db/src/schema/resource-domains.ts\<close>): the budget of a project, the allocations that hold it,
  and the decisions about its people. Each operation is one transaction under the domain row's lock,
  so it is one function on the database; \<open>randomUUID()\<close> and the clock are arguments, and an amount is
  the integer it stands for.
\<close>

section \<open>Tables\<close>

datatype dimension = CpuMillicores | MemoryBytes | StorageBytes

definition DIMENSIONS :: "dimension list" where
  "DIMENSIONS = [CpuMillicores, MemoryBytes, StorageBytes]"

fun dimension_name :: "dimension \<Rightarrow> string" where
  "dimension_name CpuMillicores = ''cpuMillicores''"
| "dimension_name MemoryBytes = ''memoryBytes''"
| "dimension_name StorageBytes = ''storageBytes''"

text \<open>A ceiling (or an amount) in each dimension.\<close>

record budget =
  bu_cpuMillicores :: int
  bu_memoryBytes :: int
  bu_storageBytes :: int

fun amount_in :: "dimension \<Rightarrow> budget \<Rightarrow> int" where
  "amount_in CpuMillicores b = bu_cpuMillicores b"
| "amount_in MemoryBytes b = bu_memoryBytes b"
| "amount_in StorageBytes b = bu_storageBytes b"

definition zero_budget :: budget where
  "zero_budget = \<lparr>bu_cpuMillicores = 0, bu_memoryBytes = 0, bu_storageBytes = 0\<rparr>"

datatype owner_kind = Project | Organization | Instance_owned

datatype domain_state = Domain_active | Domain_fenced | Domain_archived

record resource_domain =
  rd_id :: string
  rd_key :: string
  rd_ownerKind :: owner_kind
  rd_state :: domain_state
  rd_budget :: budget
  rd_revision :: int
  rd_createdAt :: int

datatype member_state = Member | Revoked

record member_row =
  mb_domain :: string
  mb_userId :: string
  mb_state :: member_state
  mb_version :: int
  mb_updatedAt :: int

datatype allocation_use = Compute | Volume | Protection

datatype allocation_state = Reserved | In_use | Archived_volume | Released

record allocation =
  al_id :: string
  al_domain :: string
  al_use :: allocation_use
  al_objectKey :: string
  al_sourceKey :: "string option"
  al_source :: "string option"
  al_operationKey :: string
  al_cpu :: int
  al_memory :: int
  al_storage :: int
  al_protection :: int
  al_state :: allocation_state
  al_updatedAt :: int

record domains_db =
  db_domains :: "resource_domain list"
  db_members :: "member_row list"
  db_allocations :: "allocation list"
  db_users :: "string list"

definition MAX_SAFE_INTEGER :: int where
  "MAX_SAFE_INTEGER = 9007199254740991"

text \<open>The checks of the tables.\<close>

definition domain_check :: "resource_domain \<Rightarrow> bool" where
  "domain_check d \<longleftrightarrow>
     list_all (\<lambda>dim. 0 \<le> amount_in dim (rd_budget d) \<and> amount_in dim (rd_budget d) \<le> MAX_SAFE_INTEGER) DIMENSIONS \<and>
     1 \<le> rd_revision d \<and> rd_revision d \<le> MAX_SAFE_INTEGER"

definition member_check :: "member_row \<Rightarrow> bool" where
  "member_check m \<longleftrightarrow> 1 \<le> mb_version m \<and> mb_version m \<le> MAX_SAFE_INTEGER"

definition allocation_check :: "allocation \<Rightarrow> bool" where
  "allocation_check a \<longleftrightarrow>
     (al_state a = Archived_volume \<longrightarrow> al_use a = Volume) \<and>
     (al_use a = Protection \<longleftrightarrow> al_sourceKey a \<noteq> None) \<and>
     (case al_use a of
        Compute \<Rightarrow> al_cpu a > 0 \<and> al_memory a > 0 \<and> al_storage a = 0 \<and> al_protection a = 0 \<and> al_source a = None
      | Volume \<Rightarrow> al_cpu a = 0 \<and> al_memory a = 0 \<and> al_storage a > 0 \<and> al_protection a \<ge> 0 \<and> al_source a = None
      | Protection \<Rightarrow> al_cpu a = 0 \<and> al_memory a = 0 \<and> al_storage a = 0 \<and> al_protection a > 0 \<and> al_source a \<noteq> None) \<and>
     al_cpu a \<le> MAX_SAFE_INTEGER \<and> al_memory a \<le> MAX_SAFE_INTEGER \<and>
     al_storage a \<le> MAX_SAFE_INTEGER \<and> al_protection a \<le> MAX_SAFE_INTEGER"

definition live :: "allocation \<Rightarrow> bool" where
  "live a \<longleftrightarrow> al_state a \<noteq> Released"

text \<open>The unique indexes, as the clash an insert or update meets.\<close>

definition operation_clash :: "allocation \<Rightarrow> allocation \<Rightarrow> bool" where
  "operation_clash a b \<longleftrightarrow> al_domain a = al_domain b \<and> al_operationKey a = al_operationKey b"

definition object_clash :: "allocation \<Rightarrow> allocation \<Rightarrow> bool" where
  "object_clash a b \<longleftrightarrow> live a \<and> live b \<and> al_domain a = al_domain b \<and> al_use a = al_use b \<and>
     al_objectKey a = al_objectKey b"

datatype repo_error =
    Isolation_error
  | Constraint_error
  | Not_a_number
  | Key_not_found
  | Decision_not_found

section \<open>Reading a budget\<close>

definition find_domain :: "domains_db \<Rightarrow> string \<Rightarrow> resource_domain option" where
  "find_domain db i = List.find (\<lambda>d. rd_id d = i) (db_domains db)"

text \<open>What the live backups of a volume hold.\<close>

definition backups_of :: "allocation list \<Rightarrow> string \<Rightarrow> int" where
  "backups_of rows i = sum_list (map al_protection (filter (\<lambda>p. al_source p = Some i \<and> live p) rows))"

definition unused_reserve :: "allocation list \<Rightarrow> allocation \<Rightarrow> int" where
  "unused_reserve rows v = max 0 (al_protection v - backups_of rows (al_id v))"

text \<open>The charge of a live allocation in each dimension (\<open>DIMENSION_SQL\<close>).\<close>

fun charge_in :: "dimension \<Rightarrow> allocation list \<Rightarrow> allocation \<Rightarrow> int" where
  "charge_in CpuMillicores rows a = al_cpu a"
| "charge_in MemoryBytes rows a = al_memory a"
| "charge_in StorageBytes rows a =
     (case al_use a of
        Volume \<Rightarrow> al_storage a + unused_reserve rows a
      | Protection \<Rightarrow> al_protection a
      | Compute \<Rightarrow> 0)"

definition live_rows :: "allocation list \<Rightarrow> string \<Rightarrow> allocation list" where
  "live_rows rows i = filter (\<lambda>a. al_domain a = i \<and> live a) rows"

definition sum_where :: "(allocation \<Rightarrow> bool) \<Rightarrow> (allocation \<Rightarrow> int) \<Rightarrow> allocation list \<Rightarrow> int" where
  "sum_where P f rows = sum_list (map f (filter P rows))"

definition is_used :: "allocation \<Rightarrow> bool" where
  "is_used a \<longleftrightarrow> al_state a = In_use \<or> al_state a = Archived_volume"

definition is_reserved :: "allocation \<Rightarrow> bool" where
  "is_reserved a \<longleftrightarrow> al_state a = Reserved"

text \<open>The row the statement answers, every amount as text; none when there is no such domain.\<close>

definition budgetStatement :: "domains_db \<Rightarrow> string \<Rightarrow> (string \<times> string) list option" where
  "budgetStatement db i =
     map_option (\<lambda>d. let all = db_allocations db; rows = live_rows all i in
       (''revision'', show_int (rd_revision d)) #
       concat (map (\<lambda>dim.
         [(''limit_'' @ dimension_name dim, show_int (amount_in dim (rd_budget d))),
          (''used_'' @ dimension_name dim, show_int (sum_where is_used (charge_in dim all) rows)),
          (''reserved_'' @ dimension_name dim, show_int (sum_where is_reserved (charge_in dim all) rows))]) DIMENSIONS) @
       [(''archived'', show_int (sum_where (\<lambda>a. al_state a = Archived_volume) al_storage rows)),
        (''protection'', show_int (sum_where (\<lambda>a. al_use a = Protection) al_protection rows))])
       (find_domain db i)"

record budget_amounts =
  ba_revision :: int
  ba_limit :: budget
  ba_used :: budget
  ba_reserved :: budget
  ba_archived :: int
  ba_protection :: int

text \<open>\<open>BigInt(row[name] ?? "0")\<close>, which throws on text that is no number.\<close>

definition exact :: "(string \<times> string) list \<Rightarrow> string \<Rightarrow> (repo_error, int) res" where
  "exact row name =
     (case parse_bigint (case map_of row name of None \<Rightarrow> ''0'' | Some t \<Rightarrow> t) of
        None \<Rightarrow> Inl Not_a_number | Some n \<Rightarrow> Inr n)"

definition each :: "(string \<times> string) list \<Rightarrow> string \<Rightarrow> (repo_error, budget) res" where
  "each row prefix =
     bind_res (exact row (prefix @ ''_'' @ dimension_name CpuMillicores)) (\<lambda>c.
     bind_res (exact row (prefix @ ''_'' @ dimension_name MemoryBytes)) (\<lambda>m.
     bind_res (exact row (prefix @ ''_'' @ dimension_name StorageBytes)) (\<lambda>s.
       Inr \<lparr>bu_cpuMillicores = c, bu_memoryBytes = m, bu_storageBytes = s\<rparr>)))"

definition amounts :: "(string \<times> string) list \<Rightarrow> (repo_error, budget_amounts) res" where
  "amounts row =
     bind_res (exact row ''revision'') (\<lambda>revision.
     bind_res (each row ''limit'') (\<lambda>limit.
     bind_res (each row ''used'') (\<lambda>used.
     bind_res (each row ''reserved'') (\<lambda>reserved.
     bind_res (exact row ''archived'') (\<lambda>archived.
     bind_res (exact row ''protection'') (\<lambda>protection.
       Inr \<lparr>ba_revision = revision, ba_limit = limit, ba_used = used, ba_reserved = reserved,
            ba_archived = archived, ba_protection = protection\<rparr>))))))"

definition budgetOf :: "domains_db \<Rightarrow> string \<Rightarrow> (repo_error, budget_amounts option) res" where
  "budgetOf db i =
     (case budgetStatement db i of
        None \<Rightarrow> Inr None
      | Some row \<Rightarrow> bind_res (amounts row) (\<lambda>read. Inr (Some read)))"

record budget_charge =
  bc_used :: budget
  bc_reserved :: budget
  bc_archivedBytes :: int
  bc_protectionBytes :: int

record budget_record =
  br_budget :: budget
  br_revision :: int
  br_charge :: budget_charge

text \<open>\<open>Number\<close> of each amount: exact for a safe integer, which every amount read is (shown below).\<close>

definition toRecord :: "budget_amounts \<Rightarrow> budget_record" where
  "toRecord read =
     \<lparr>br_budget = ba_limit read, br_revision = ba_revision read,
      br_charge = \<lparr>bc_used = ba_used read, bc_reserved = ba_reserved read,
        bc_archivedBytes = ba_archived read, bc_protectionBytes = ba_protection read\<rparr>\<rparr>"

definition getBudget :: "domains_db \<Rightarrow> string \<Rightarrow> (repo_error, budget_record option) res" where
  "getBudget db i = bind_res (budgetOf db i) (\<lambda>read. Inr (map_option toRecord read))"

section \<open>Setting a budget\<close>

definition sameBudget :: "budget \<Rightarrow> budget \<Rightarrow> bool" where
  "sameBudget a b \<longleftrightarrow> list_all (\<lambda>dim. amount_in dim a = amount_in dim b) DIMENSIONS"

datatype set_budget_outcome = Budget_set budget_record | Budget_stale int | Budget_no_domain

definition setBudget ::
  "domains_db \<Rightarrow> string \<Rightarrow> int \<Rightarrow> budget \<Rightarrow> (repo_error, domains_db \<times> set_budget_outcome) res"
where
  "setBudget db i revision b =
     (let writes = (\<lambda>d. rd_id d = i \<and> rd_revision d = revision);
          change = (\<lambda>d. if writes d then d\<lparr>rd_budget := b, rd_revision := rd_revision d + 1\<rparr> else d);
          db' = db\<lparr>db_domains := map change (db_domains db)\<rparr>;
          written = list_ex writes (db_domains db)
      in if \<not> list_all (\<lambda>d. writes d \<longrightarrow> domain_check (change d)) (db_domains db) then Inl Constraint_error
         else bind_res (budgetOf db' i) (\<lambda>read.
           (case read of
              None \<Rightarrow> Inr (db', Budget_no_domain)
            | Some r \<Rightarrow>
                let answer = toRecord r in
                if written \<or> (br_revision answer = revision + 1 \<and> sameBudget (br_budget answer) b)
                then Inr (db', Budget_set answer)
                else Inr (db', Budget_stale (br_revision answer)))))"

section \<open>Ensuring a domain\<close>

datatype ensure_outcome =
    Ensured resource_domain bool
  | Owner_differs resource_domain
  | Budget_differs resource_domain int

definition ensure ::
  "domains_db \<Rightarrow> string \<Rightarrow> budget option \<Rightarrow> owner_kind option \<Rightarrow> string \<Rightarrow> int \<Rightarrow>
   (repo_error, domains_db \<times> ensure_outcome) res"
where
  "ensure db key b ownerKind newId now =
     (let kind = (case ownerKind of None \<Rightarrow> Project | Some k \<Rightarrow> k);
          fresh = \<lparr>rd_id = newId, rd_key = key, rd_ownerKind = kind, rd_state = Domain_active,
            rd_budget = (case b of None \<Rightarrow> zero_budget | Some b \<Rightarrow> b), rd_revision = 1, rd_createdAt = now\<rparr>
      in if \<not> domain_check fresh then Inl Constraint_error
         else case List.find (\<lambda>d. rd_key d = key) (db_domains db) of
           None \<Rightarrow>
             if newId \<in> set (map rd_id (db_domains db)) then Inl Constraint_error
             else Inr (db\<lparr>db_domains := db_domains db @ [fresh]\<rparr>, Ensured fresh True)
         | Some existing \<Rightarrow>
             if rd_ownerKind existing \<noteq> kind then Inr (db, Owner_differs existing)
             else if (case b of None \<Rightarrow> True | Some b \<Rightarrow> sameBudget (rd_budget existing) b)
             then Inr (db, Ensured existing False)
             else Inr (db, Budget_differs existing (rd_revision existing)))"

definition get_domain :: "domains_db \<Rightarrow> string \<Rightarrow> resource_domain option" where
  "get_domain db i = find_domain db i"

definition canUseImages :: "domains_db \<Rightarrow> string \<Rightarrow> string \<Rightarrow> bool" where
  "canUseImages db i owner \<longleftrightarrow>
     list_ex (\<lambda>d. rd_id d = i \<and> rd_state d = Domain_active \<and>
       list_ex (\<lambda>m. mb_domain m = i \<and> mb_userId m = owner \<and> mb_state m = Member) (db_members db)) (db_domains db)"

section \<open>Admission\<close>

datatype admission_request =
    Compute_request string int int
  | Volume_request string int int
  | Protection_request string string int

fun request_use :: "admission_request \<Rightarrow> allocation_use" where
  "request_use (Compute_request k c m) = Compute"
| "request_use (Volume_request k s p) = Volume"
| "request_use (Protection_request k s p) = Protection"

fun request_object :: "admission_request \<Rightarrow> string" where
  "request_object (Compute_request k c m) = k"
| "request_object (Volume_request k s p) = k"
| "request_object (Protection_request k s p) = k"

record allocation_values =
  av_use :: allocation_use
  av_objectKey :: string
  av_sourceKey :: "string option"
  av_cpu :: int
  av_memory :: int
  av_storage :: int
  av_protection :: int

fun values_of :: "admission_request \<Rightarrow> allocation_values" where
  "values_of (Compute_request k c m) =
     \<lparr>av_use = Compute, av_objectKey = k, av_sourceKey = None, av_cpu = c, av_memory = m, av_storage = 0, av_protection = 0\<rparr>"
| "values_of (Volume_request k s p) =
     \<lparr>av_use = Volume, av_objectKey = k, av_sourceKey = None, av_cpu = 0, av_memory = 0, av_storage = s, av_protection = p\<rparr>"
| "values_of (Protection_request k v p) =
     \<lparr>av_use = Protection, av_objectKey = k, av_sourceKey = Some v, av_cpu = 0, av_memory = 0, av_storage = 0, av_protection = p\<rparr>"

fun positive_amounts :: "admission_request \<Rightarrow> int list" where
  "positive_amounts (Compute_request k c m) = [c, m]"
| "positive_amounts (Volume_request k s p) = [s]"
| "positive_amounts (Protection_request k v p) = [p]"

definition isSafeInteger :: "int \<Rightarrow> bool" where
  "isSafeInteger n \<longleftrightarrow> - MAX_SAFE_INTEGER \<le> n \<and> n \<le> MAX_SAFE_INTEGER"

definition allocationValues :: "admission_request \<Rightarrow> allocation_values option" where
  "allocationValues request =
     (let values = values_of request in
      if list_all (\<lambda>n. isSafeInteger n \<and> n \<ge> 0) [av_cpu values, av_memory values, av_storage values, av_protection values] \<and>
         list_all (\<lambda>n. n > 0) (positive_amounts request) \<and> av_storage values + av_protection values \<le> MAX_SAFE_INTEGER
      then Some values else None)"

definition sameAllocation :: "allocation \<Rightarrow> allocation_values \<Rightarrow> bool" where
  "sameAllocation row values \<longleftrightarrow>
     al_use row = av_use values \<and> al_objectKey row = av_objectKey values \<and> al_sourceKey row = av_sourceKey values \<and>
     al_cpu row = av_cpu values \<and> al_memory row = av_memory values \<and> al_storage row = av_storage values \<and>
     al_protection row = av_protection values"

datatype refusal =
    Invalid_amount | Domain_not_active | Operation_key_reused | Operation_released | Object_held | No_source_volume

datatype admission =
    Admitted allocation bool
  | Over_budget dimension int int int int
  | Admission_refused refusal
  | No_such_domain

definition lockDomain :: "domains_db \<Rightarrow> string \<Rightarrow> string \<Rightarrow> (repo_error, domain_state option) res" where
  "lockDomain db isolation i =
     (case find_domain db i of
        None \<Rightarrow> Inr None
      | Some d \<Rightarrow> if isolation \<noteq> ''read committed'' then Inl Isolation_error else Inr (Some (rd_state d)))"

text \<open>The volume a backup draws on: its id and unused reserve.\<close>

definition source_volume :: "domains_db \<Rightarrow> string \<Rightarrow> string \<Rightarrow> (string \<times> int) option" where
  "source_volume db i objectKey =
     map_option (\<lambda>v. (al_id v, unused_reserve (db_allocations db) v))
       (List.find (\<lambda>v. al_domain v = i \<and> al_use v = Volume \<and> al_objectKey v = objectKey \<and> live v) (db_allocations db))"

definition requested_in :: "allocation_values \<Rightarrow> (string \<times> int) option \<Rightarrow> dimension \<Rightarrow> int" where
  "requested_in values source dim =
     (case dim of
        CpuMillicores \<Rightarrow> av_cpu values
      | MemoryBytes \<Rightarrow> av_memory values
      | StorageBytes \<Rightarrow>
          (case source of
             None \<Rightarrow> av_storage values + av_protection values
           | Some (v, unused) \<Rightarrow> if av_protection values > unused then av_protection values - unused else 0))"

fun first_over :: "budget_amounts \<Rightarrow> (dimension \<Rightarrow> int) \<Rightarrow> dimension list \<Rightarrow> admission option" where
  "first_over read ask [] = None"
| "first_over read ask (dim # dims) =
     (let used = amount_in dim (ba_used read); reserved = amount_in dim (ba_reserved read);
          limit = amount_in dim (ba_limit read)
      in if ask dim > 0 \<and> used + reserved + ask dim > limit
         then Some (Over_budget dim used reserved (ask dim) limit)
         else first_over read ask dims)"

definition new_allocation ::
  "string \<Rightarrow> string \<Rightarrow> string \<Rightarrow> string option \<Rightarrow> allocation_values \<Rightarrow> int \<Rightarrow> allocation"
where
  "new_allocation newId i operationKey source values now =
     \<lparr>al_id = newId, al_domain = i, al_use = av_use values, al_objectKey = av_objectKey values,
      al_sourceKey = av_sourceKey values, al_source = source, al_operationKey = operationKey,
      al_cpu = av_cpu values, al_memory = av_memory values, al_storage = av_storage values,
      al_protection = av_protection values, al_state = Reserved, al_updatedAt = now\<rparr>"

text \<open>The insert and the constraints it may meet.\<close>

definition insert_allocation :: "domains_db \<Rightarrow> allocation \<Rightarrow> (repo_error, domains_db) res" where
  "insert_allocation db a =
     (if allocation_check a \<and> al_domain a \<in> set (map rd_id (db_domains db)) \<and>
         (case al_source a of None \<Rightarrow> True | Some s \<Rightarrow> s \<in> set (map al_id (db_allocations db))) \<and>
         list_all (\<lambda>b. al_id b \<noteq> al_id a \<and> \<not> operation_clash a b \<and> \<not> object_clash a b) (db_allocations db)
      then Inr (db\<lparr>db_allocations := db_allocations db @ [a]\<rparr>)
      else Inl Constraint_error)"

definition admit_new ::
  "domains_db \<Rightarrow> string \<Rightarrow> string \<Rightarrow> allocation_values \<Rightarrow> (string \<times> int) option \<Rightarrow> string \<Rightarrow> int \<Rightarrow>
   (repo_error, domains_db \<times> admission) res"
where
  "admit_new db i operationKey values source newId now =
     bind_res (budgetOf db i) (\<lambda>budget.
       (case budget of
          None \<Rightarrow> Inr (db, No_such_domain)
        | Some read \<Rightarrow>
            (case first_over read (requested_in values source) DIMENSIONS of
               Some over \<Rightarrow> Inr (db, over)
             | None \<Rightarrow>
                 let a = new_allocation newId i operationKey (map_option fst source) values now in
                 bind_res (insert_allocation db a) (\<lambda>db'. Inr (db', Admitted a False)))))"

definition admit ::
  "domains_db \<Rightarrow> string \<Rightarrow> string \<Rightarrow> string \<Rightarrow> admission_request \<Rightarrow> string \<Rightarrow> int \<Rightarrow>
   (repo_error, domains_db \<times> admission) res"
where
  "admit db isolation i operationKey request newId now =
     (case allocationValues request of
        None \<Rightarrow> Inr (db, Admission_refused Invalid_amount)
      | Some values \<Rightarrow>
          bind_res (lockDomain db isolation i) (\<lambda>locked.
            (case locked of
               None \<Rightarrow> Inr (db, No_such_domain)
             | Some state \<Rightarrow>
                 (case List.find (\<lambda>a. al_domain a = i \<and> al_operationKey a = operationKey) (db_allocations db) of
                    Some prior \<Rightarrow>
                      if \<not> sameAllocation prior values then Inr (db, Admission_refused Operation_key_reused)
                      else if al_state prior = Released then Inr (db, Admission_refused Operation_released)
                      else Inr (db, Admitted prior True)
                  | None \<Rightarrow>
                      if state \<noteq> Domain_active \<and> request_use request \<noteq> Protection
                      then Inr (db, Admission_refused Domain_not_active)
                      else if list_ex (\<lambda>a. al_domain a = i \<and> al_use a = request_use request \<and>
                             al_objectKey a = request_object request \<and> live a) (db_allocations db)
                      then Inr (db, Admission_refused Object_held)
                      else (case av_sourceKey values of
                         None \<Rightarrow> admit_new db i operationKey values None newId now
                       | Some objectKey \<Rightarrow>
                           (case source_volume db i objectKey of
                              None \<Rightarrow> Inr (db, Admission_refused No_source_volume)
                            | Some source \<Rightarrow> admit_new db i operationKey values (Some source) newId now))))))"

section \<open>Events\<close>

datatype allocation_event = Created | Archived_event | Stopped | Purged

fun event_to :: "allocation_event \<Rightarrow> allocation_state" where
  "event_to Created = In_use"
| "event_to Archived_event = Archived_volume"
| "event_to Stopped = Released"
| "event_to Purged = Released"

fun event_from :: "allocation_event \<Rightarrow> allocation_state list" where
  "event_from Created = [Reserved]"
| "event_from Archived_event = [In_use]"
| "event_from Stopped = [Reserved, In_use]"
| "event_from Purged = [Reserved, In_use, Archived_volume]"

fun event_uses :: "allocation_event \<Rightarrow> allocation_use list" where
  "event_uses Created = [Compute, Volume, Protection]"
| "event_uses Archived_event = [Volume]"
| "event_uses Stopped = [Compute]"
| "event_uses Purged = [Volume, Protection]"

definition applies :: "allocation_event \<Rightarrow> allocation \<Rightarrow> bool" where
  "applies event a \<longleftrightarrow> al_state a \<in> set (event_from event) \<and> al_use a \<in> set (event_uses event)"

datatype record_outcome = Recorded allocation | Event_refused allocation | No_such_allocation

definition move :: "allocation_event \<Rightarrow> int \<Rightarrow> allocation \<Rightarrow> allocation" where
  "move event now a = a\<lparr>al_state := event_to event, al_updatedAt := now\<rparr>"

definition record_event ::
  "domains_db \<Rightarrow> string \<Rightarrow> string \<Rightarrow> string \<Rightarrow> allocation_event \<Rightarrow> int \<Rightarrow>
   (repo_error, domains_db \<times> record_outcome) res"
where
  "record_event db isolation i allocationId event now =
     bind_res (lockDomain db isolation i) (\<lambda>locked.
       (case locked of
          None \<Rightarrow> Inr (db, No_such_allocation)
        | Some state \<Rightarrow>
            (let at = (\<lambda>a. al_id a = allocationId \<and> al_domain a = i) in
             case List.find (\<lambda>a. at a \<and> applies event a) (db_allocations db) of
               Some a \<Rightarrow>
                 Inr (db\<lparr>db_allocations := map (\<lambda>a. if at a \<and> applies event a then move event now a else a)
                        (db_allocations db)\<rparr>, Recorded (move event now a))
             | None \<Rightarrow>
                 (case List.find at (db_allocations db) of
                    None \<Rightarrow> Inr (db, No_such_allocation)
                  | Some current \<Rightarrow>
                      if al_state current = event_to event \<and> al_use current \<in> set (event_uses event)
                      then Inr (db, Recorded current) else Inr (db, Event_refused current)))))"

text \<open>\<open>setDomainState\<close> (\<open>repositories/resource-instances.ts\<close>): fencing, archiving and reopening.\<close>

definition setDomainState :: "domains_db \<Rightarrow> string \<Rightarrow> domain_state \<Rightarrow> domains_db" where
  "setDomainState db i state =
     db\<lparr>db_domains := map (\<lambda>d. if rd_id d = i then d\<lparr>rd_state := state\<rparr> else d) (db_domains db)\<rparr>"

section \<open>The service on top\<close>

text \<open>\<open>apps/api/src/services/resource-domain-admission.ts\<close>: outcomes as the errors a route answers.\<close>

datatype freed_by = Stop_objects | Purge_objects

fun freedBy :: "dimension \<Rightarrow> freed_by" where
  "freedBy StorageBytes = Purge_objects"
| "freedBy _ = Stop_objects"

datatype remedy = Raise_budget | Free freed_by

datatype service_error =
    Service_internal
  | Service_not_found
  | Service_refused refusal
  | Service_budget_reached dimension int int int int "remedy list"
  | Event_does_not_apply
  | Event_no_allocation

definition admitToResourceDomain ::
  "domains_db \<Rightarrow> string \<Rightarrow> string \<Rightarrow> string \<Rightarrow> admission_request \<Rightarrow> string \<Rightarrow> int \<Rightarrow>
   domains_db \<times> (service_error, allocation \<times> bool) res"
where
  "admitToResourceDomain db isolation i k request newId now =
     (case admit db isolation i k request newId now of
        Inl e \<Rightarrow> (db, Inl Service_internal)
      | Inr (db', Admitted a replayed) \<Rightarrow> (db', Inr (a, replayed))
      | Inr (db', No_such_domain) \<Rightarrow> (db', Inl Service_not_found)
      | Inr (db', Admission_refused reason) \<Rightarrow> (db', Inl (Service_refused reason))
      | Inr (db', Over_budget dim used reserved requested limit) \<Rightarrow>
          (db', Inl (Service_budget_reached dim used reserved requested limit [Raise_budget, Free (freedBy dim)])))"

definition recordResourceDomainAllocation ::
  "domains_db \<Rightarrow> string \<Rightarrow> string \<Rightarrow> string \<Rightarrow> allocation_event \<Rightarrow> int \<Rightarrow>
   domains_db \<times> (service_error, allocation) res"
where
  "recordResourceDomainAllocation db isolation i allocationId event now =
     (case record_event db isolation i allocationId event now of
        Inl e \<Rightarrow> (db, Inl Service_internal)
      | Inr (db', Recorded a) \<Rightarrow> (db', Inr a)
      | Inr (db', No_such_allocation) \<Rightarrow> (db', Inl Event_no_allocation)
      | Inr (db', Event_refused a) \<Rightarrow> (db', Inl Event_does_not_apply))"

end
