(* ===== verification/Resource_Members.thy ===== *)
theory Resource_Members
  imports Resource_Domains "HOL-Library.Multiset"
begin

text \<open>
  The people of a resource domain: decisions under the application's own versions, their lookup and
  their pages (\<open>decideMember\<close>, \<open>getMember\<close> and \<open>listMembers\<close> in
  \<open>packages/db/src/repositories/resource-domains.ts\<close>). The order the database sorts text in
  (its collation) is the parameter \<open>rank\<close>.
\<close>

section \<open>Operations\<close>

text \<open>
  An error as \<open>namesPersonKey\<close> walks it: no object, an object with a constraint's name, a cause and a
  reason, or a runtime cause with the errors of its reasons that are failures.
\<close>

datatype thrown =
    Not_object
  | Error_object "string option" "thrown option" "thrown option"
  | Cause_of "thrown list"

definition PERSON_KEY :: string where
  "PERSON_KEY = ''resource_domain_members_user_id_user_id_fkey''"

definition DOMAIN_KEY :: string where
  "DOMAIN_KEY = ''resource_domain_members_resource_domain_id_resource_domains_id_fkey''"

fun namesPersonKey :: "thrown \<Rightarrow> nat \<Rightarrow> bool" where
  "namesPersonKey Not_object depth = False"
| "namesPersonKey (Error_object c cause reason) depth =
     (depth \<le> 8 \<and>
      (c = Some PERSON_KEY \<or>
       (case cause of None \<Rightarrow> False | Some e \<Rightarrow> namesPersonKey e (depth + 1)) \<or>
       (case reason of None \<Rightarrow> False | Some e \<Rightarrow> namesPersonKey e (depth + 1))))"
| "namesPersonKey (Cause_of errors) depth = (depth \<le> 8 \<and> (\<exists>e \<in> set errors. namesPersonKey e (depth + 1)))"

record decision =
  dc_domain :: string
  dc_userId :: string
  dc_state :: member_state
  dc_version :: int

definition of_member :: "string \<Rightarrow> string \<Rightarrow> member_row \<Rightarrow> bool" where
  "of_member i userId m \<longleftrightarrow> mb_domain m = i \<and> mb_userId m = userId"

definition find_member :: "domains_db \<Rightarrow> string \<Rightarrow> string \<Rightarrow> member_row option" where
  "find_member db i userId = List.find (of_member i userId) (db_members db)"

definition member_of_decision :: "decision \<Rightarrow> int \<Rightarrow> member_row" where
  "member_of_decision d now =
     \<lparr>mb_domain = dc_domain d, mb_userId = dc_userId d, mb_state = dc_state d, mb_version = dc_version d, mb_updatedAt = now\<rparr>"

text \<open>
  The one statement that writes a decision: \<^const>\<open>Inl\<close> is the error it throws, and \<^const>\<open>None\<close>
  that no row was returned (the row on record has this version or a newer one). Foreign keys are
  checked where a row is inserted.
\<close>

definition write_decision :: "domains_db \<Rightarrow> decision \<Rightarrow> int \<Rightarrow> (thrown, domains_db \<times> member_row option) res" where
  "write_decision db d now =
     (let row = member_of_decision d now in
      if \<not> member_check row then Inl (Error_object (Some ''resource_domain_members_version'') None None)
      else case find_member db (dc_domain d) (dc_userId d) of
        Some m \<Rightarrow>
          if mb_version m < dc_version d
          then Inr (db\<lparr>db_members := map (\<lambda>m. if of_member (dc_domain d) (dc_userId d) m then row else m) (db_members db)\<rparr>,
                    Some row)
          else Inr (db, None)
      | None \<Rightarrow>
          if dc_domain d \<notin> set (map rd_id (db_domains db)) then Inl (Error_object (Some DOMAIN_KEY) None None)
          else if dc_userId d \<notin> set (db_users db) then Inl (Error_object (Some PERSON_KEY) None None)
          else Inr (db\<lparr>db_members := db_members db @ [row]\<rparr>, Some row))"

definition repeats :: "member_row \<Rightarrow> decision \<Rightarrow> bool" where
  "repeats current d \<longleftrightarrow> mb_version current = dc_version d \<and> mb_state current = dc_state d"

datatype member_outcome = Decided member_row | Stale_decision member_row | No_such_person

text \<open>
  \<open>decideMember\<close>: \<open>wrap\<close> is how the driver wraps the error the database throws, and \<open>later\<close> the
  database the two reads after the write see.
\<close>

definition decideMember ::
  "domains_db \<Rightarrow> (thrown \<Rightarrow> thrown) \<Rightarrow> (domains_db \<Rightarrow> domains_db) \<Rightarrow> decision \<Rightarrow> int \<Rightarrow>
   domains_db \<times> (thrown + repo_error, member_outcome) res"
where
  "decideMember db wrap later d now =
     (case write_decision db d now of
        Inl e \<Rightarrow> (db, if namesPersonKey (wrap e) 0 then Inr No_such_person else Inl (Inl (wrap e)))
      | Inr (db', Some row) \<Rightarrow> (db', Inr (Decided row))
      | Inr (db', None) \<Rightarrow>
          (db', (case find_member (later db') (dc_domain d) (dc_userId d) of
             None \<Rightarrow> if dc_userId d \<in> set (db_users (later db')) then Inl (Inr Decision_not_found) else Inr No_such_person
           | Some current \<Rightarrow> Inr (if repeats current d then Decided current else Stale_decision current))))"

datatype member_lookup = Member_found member_row | No_decision | Lookup_no_such_person

definition getMember :: "domains_db \<Rightarrow> string \<Rightarrow> string \<Rightarrow> member_lookup" where
  "getMember db i userId =
     (case find_member db i userId of
        Some m \<Rightarrow> Member_found m
      | None \<Rightarrow> if userId \<in> set (db_users db) then No_decision else Lookup_no_such_person)"

definition listMembers ::
  "(string \<Rightarrow> nat) \<Rightarrow> domains_db \<Rightarrow> string \<Rightarrow> string option \<Rightarrow> nat \<Rightarrow> member_row list \<times> string option"
where
  "listMembers rank db i after limit =
     (let rows = take (limit + 1) (sort_key (\<lambda>m. rank (mb_userId m))
            (filter (\<lambda>m. mb_domain m = i \<and> (case after of None \<Rightarrow> True | Some a \<Rightarrow> rank a < rank (mb_userId m)))
               (db_members db)));
          members = take limit rows
      in (members, if length rows > limit \<and> members \<noteq> [] then Some (mb_userId (last members)) else None))"

text \<open>A client that reads page after page, at most \<open>fuel\<close> of them.\<close>

fun read_pages :: "nat \<Rightarrow> (string \<Rightarrow> nat) \<Rightarrow> domains_db \<Rightarrow> string \<Rightarrow> string option \<Rightarrow> nat \<Rightarrow> member_row list option" where
  "read_pages 0 rank db i after limit = None"
| "read_pages (Suc fuel) rank db i after limit =
     (case listMembers rank db i after limit of
        (members, None) \<Rightarrow> Some members
      | (members, Some cursor) \<Rightarrow>
          map_option (\<lambda>others. members @ others) (read_pages fuel rank db i (Some cursor) limit))"

section \<open>The highest version stands\<close>

definition members_ok :: "domains_db \<Rightarrow> bool" where
  "members_ok db \<longleftrightarrow> distinct (map (\<lambda>m. (mb_domain m, mb_userId m)) (db_members db))"

lemma find_memberD: "find_member db i u = Some m \<Longrightarrow> m \<in> set (db_members db) \<and> mb_domain m = i \<and> mb_userId m = u"
  by (auto simp: find_member_def of_member_def dest: find_SomeD)

definition verdict :: "domains_db \<Rightarrow> string \<Rightarrow> string \<Rightarrow> (int \<times> member_state) option" where
  "verdict db i u = map_option (\<lambda>m. (mb_version m, mb_state m)) (find_member db i u)"

lemma find_update:
  assumes "P row"
  shows "List.find P (map (\<lambda>m. if P m then row else m) ms) = (if List.find P ms = None then None else Some row)"
  using assms by (induction ms) auto

lemma find_other:
  assumes "\<And>m. P m \<Longrightarrow> \<not> Q m" "\<not> Q row"
  shows "List.find Q (map (\<lambda>m. if P m then row else m) ms) = List.find Q ms"
  using assms by (induction ms) auto

lemma find_append: "List.find P (xs @ ys) = (case List.find P xs of None \<Rightarrow> List.find P ys | Some x \<Rightarrow> Some x)"
  by (induction xs) auto

definition ready_for :: "domains_db \<Rightarrow> decision \<Rightarrow> bool" where
  "ready_for db d \<longleftrightarrow> dc_domain d \<in> set (map rd_id (db_domains db)) \<and> dc_userId d \<in> set (db_users db) \<and>
     1 \<le> dc_version d \<and> dc_version d \<le> MAX_SAFE_INTEGER"

definition wins :: "decision \<Rightarrow> (int \<times> member_state) option \<Rightarrow> (int \<times> member_state) option" where
  "wins d v = (case v of
     None \<Rightarrow> Some (dc_version d, dc_state d)
   | Some (version, state) \<Rightarrow> if version < dc_version d then Some (dc_version d, dc_state d) else Some (version, state))"

lemma decide_verdict:
  assumes "ready_for db d" "decideMember db wrap later d now = (db', r)"
  shows "verdict db' (dc_domain d) (dc_userId d) = wins d (verdict db (dc_domain d) (dc_userId d))"
    and "(i, u) \<noteq> (dc_domain d, dc_userId d) \<Longrightarrow> verdict db' i u = verdict db i u"
    and "db_domains db' = db_domains db \<and> db_users db' = db_users db"
proof -
  let ?row = "member_of_decision d now"
  have row: "of_member (dc_domain d) (dc_userId d) ?row" "member_check ?row"
    using assms(1) by (simp_all add: of_member_def member_of_decision_def member_check_def ready_for_def)
  have apart: "\<not> of_member i u m" if "(i, u) \<noteq> (dc_domain d, dc_userId d)" "of_member (dc_domain d) (dc_userId d) m" for m
    using that by (auto simp: of_member_def)
  note split = option.splits if_splits prod.splits sum.splits
  have written: "write_decision db d now =
      (case find_member db (dc_domain d) (dc_userId d) of
         Some m \<Rightarrow>
           if mb_version m < dc_version d
           then Inr (db\<lparr>db_members := map (\<lambda>m. if of_member (dc_domain d) (dc_userId d) m then ?row else m) (db_members db)\<rparr>,
                     Some ?row)
           else Inr (db, None)
       | None \<Rightarrow> Inr (db\<lparr>db_members := db_members db @ [?row]\<rparr>, Some ?row))"
    using assms(1) row by (simp add: write_decision_def ready_for_def Let_def)
  consider (first) "find_member db (dc_domain d) (dc_userId d) = None" "db' = db\<lparr>db_members := db_members db @ [?row]\<rparr>"
    | (newer) m where "find_member db (dc_domain d) (dc_userId d) = Some m" "mb_version m < dc_version d"
        "db' = db\<lparr>db_members := map (\<lambda>m. if of_member (dc_domain d) (dc_userId d) m then ?row else m) (db_members db)\<rparr>"
    | (older) m where "find_member db (dc_domain d) (dc_userId d) = Some m" "\<not> mb_version m < dc_version d" "db' = db"
    using assms(2) unfolding decideMember_def written by (auto split: split)
  note cases = this
  show "verdict db' (dc_domain d) (dc_userId d) = wins d (verdict db (dc_domain d) (dc_userId d))"
    using cases
    by cases (use row in \<open>auto simp: verdict_def find_member_def wins_def find_append find_update member_of_decision_def\<close>)
  show "verdict db' i u = verdict db i u" if "(i, u) \<noteq> (dc_domain d, dc_userId d)"
    using cases
    by cases (use apart[OF that] row in \<open>auto simp: verdict_def find_member_def find_append find_other split: option.splits\<close>)
  show "db_domains db' = db_domains db \<and> db_users db' = db_users db"
    using cases by cases auto
qed

text \<open>Decisions as they arrive, each with the time it was written.\<close>

fun decide_all :: "(thrown \<Rightarrow> thrown) \<Rightarrow> (decision \<times> int) list \<Rightarrow> domains_db \<Rightarrow> domains_db" where
  "decide_all wrap [] db = db"
| "decide_all wrap ((d, now) # ds) db = decide_all wrap ds (fst (decideMember db wrap (\<lambda>db. db) d now))"

definition of_person :: "string \<Rightarrow> string \<Rightarrow> decision \<Rightarrow> bool" where
  "of_person i u d \<longleftrightarrow> dc_domain d = i \<and> dc_userId d = u"

lemma decide_all_verdict:
  "\<forall>(d, now) \<in> set ds. ready_for db d \<Longrightarrow>
   verdict (decide_all wrap ds db) i u = fold wins (filter (of_person i u) (map fst ds)) (verdict db i u)"
proof (induction ds arbitrary: db)
  case (Cons x ds)
  obtain d now where x: "x = (d, now)" by (cases x)
  obtain db' r where run: "decideMember db wrap (\<lambda>db. db) d now = (db', r)" by (meson surj_pair)
  have d: "ready_for db d" using Cons.prems x by simp
  note step = decide_verdict[OF d run]
  have "\<forall>(d, now) \<in> set ds. ready_for db' d" using Cons.prems step(3) by (auto simp: ready_for_def)
  from Cons.IH[OF this] show ?case
    using step(1,2) by (cases "of_person i u d") (auto simp: x run of_person_def)
qed simp

definition coherent :: "decision list \<Rightarrow> bool" where
  "coherent ds \<longleftrightarrow> (\<forall>d \<in> set ds. \<forall>e \<in> set ds. dc_domain d = dc_domain e \<and> dc_userId d = dc_userId e \<and>
     dc_version d = dc_version e \<longrightarrow> dc_state d = dc_state e)"

lemma wins_commute:
  "of_person i u d \<Longrightarrow> of_person i u e \<Longrightarrow> coherent ds \<Longrightarrow> d \<in> set ds \<Longrightarrow> e \<in> set ds \<Longrightarrow>
   wins d (wins e v) = wins e (wins d v)"
proof -
  assume "of_person i u d" "of_person i u e" "coherent ds" "d \<in> set ds" "e \<in> set ds"
  then have "dc_version d = dc_version e \<longrightarrow> dc_state d = dc_state e"
    unfolding coherent_def of_person_def by metis
  then show ?thesis by (cases v) (auto simp: wins_def)
qed

lemma wins_bound:
  "fold wins ds v = Some (version, state) \<Longrightarrow>
     (\<forall>d \<in> set ds. dc_version d \<le> version) \<and>
     (\<forall>version0 state0. v = Some (version0, state0) \<longrightarrow> version0 \<le> version) \<and>
     (v = Some (version, state) \<or> (\<exists>d \<in> set ds. dc_version d = version \<and> dc_state d = state))"
proof (induction ds arbitrary: v)
  case (Cons d ds)
  then have "fold wins ds (wins d v) = Some (version, state)" by simp
  from Cons.IH[OF this] show ?case
    by (auto simp: wins_def split: option.splits prod.splits if_splits)
qed simp

text \<open>
  C36: Whatever order the decisions about a domain's people arrive in, and however often each is
  retried, the highest version stands: the outcome is the same for any two orders, no decision that
  arrived is above it, and it is the state of the decision with that version, or of the row that was
  there when none was newer. So a delayed grant never undoes a newer revoke.
\<close>

theorem highest_version_stands:
  assumes "\<forall>(d, now) \<in> set ds. ready_for db d" "mset (map fst ds) = mset (map fst es)" "coherent (map fst ds)"
    and "d \<in> set (map fst ds)" "of_person i u d"
  shows "\<exists>version state. verdict (decide_all wrap ds db) i u = Some (version, state) \<and>
    verdict (decide_all wrap es db) i u = Some (version, state) \<and>
    dc_version d \<le> version \<and>
    (verdict db i u = Some (version, state) \<or>
     (\<exists>e \<in> set (map fst ds). of_person i u e \<and> dc_version e = version \<and> dc_state e = state))"
proof -
  let ?of = "\<lambda>ds. filter (of_person i u) (map fst ds)"
  have same: "set (map fst ds) = set (map fst es)" using assms(2) by (rule mset_eq_setD)
  have es: "\<forall>(d, now) \<in> set es. ready_for db d"
  proof
    fix x assume "x \<in> set es"
    then have "fst x \<in> set (map fst ds)" using same by simp
    then show "case x of (d, now) \<Rightarrow> ready_for db d" using assms(1) by (cases x) auto
  qed
  have folds: "fold wins (?of ds) = fold wins (?of es)"
  proof (rule fold_multiset_equiv)
    show "mset (?of ds) = mset (?of es)" using assms(2) by simp
    show "wins d \<circ> wins e = wins e \<circ> wins d" if "d \<in> set (?of ds)" "e \<in> set (?of ds)" for d e
      using that wins_commute[OF _ _ assms(3), of i u d e] by (auto simp: fun_eq_iff)
  qed
  have "fold wins (?of ds) (verdict db i u) \<noteq> None"
  proof -
    have "fold wins es (Some x) \<noteq> None" for es x
      by (induction es arbitrary: x) (auto simp: wins_def split: prod.splits)
    moreover have "?of ds \<noteq> []" using assms(4,5) by (auto simp: filter_empty_conv)
    moreover have "wins d v \<noteq> None" for d v by (auto simp: wins_def split: option.splits prod.splits)
    ultimately show ?thesis by (cases "?of ds") (simp_all, metis not_Some_eq)
  qed
  then obtain version state where result: "fold wins (?of ds) (verdict db i u) = Some (version, state)" by auto
  have "d \<in> set (?of ds)" using assms(4,5) by simp
  then have "dc_version d \<le> version" using wins_bound[OF result] by blast
  moreover have "verdict db i u = Some (version, state) \<or>
     (\<exists>e \<in> set (map fst ds). of_person i u e \<and> dc_version e = version \<and> dc_state e = state)"
    using wins_bound[OF result] unfolding set_filter by blast
  moreover have "verdict (decide_all wrap ds db) i u = Some (version, state)"
    unfolding decide_all_verdict[OF assms(1)] by (rule result)
  moreover have "verdict (decide_all wrap es db) i u = Some (version, state)"
    unfolding decide_all_verdict[OF es] folds[symmetric] by (rule result)
  ultimately show ?thesis by blast
qed

definition members_example :: domains_db where
  "members_example = \<lparr>db_domains = [\<lparr>rd_id = ''rdm:1'', rd_key = ''app:x'', rd_ownerKind = Project,
      rd_state = Domain_active, rd_budget = zero_budget, rd_revision = 1, rd_createdAt = 0\<rparr>],
    db_members = [], db_allocations = [], db_users = [''ann'', ''bob'', ''cy'']\<rparr>"

abbreviation decision_example :: "member_state \<Rightarrow> int \<Rightarrow> decision" where
  "decision_example s v \<equiv> \<lparr>dc_domain = ''rdm:1'', dc_userId = ''ann'', dc_state = s, dc_version = v\<rparr>"

theorem highest_version_stands_witness:
  "\<exists>version state.
     verdict (decide_all (\<lambda>e. e) [(decision_example Revoked 2, 5), (decision_example Member 1, 6)] members_example)
       ''rdm:1'' ''ann'' = Some (version, state) \<and>
     verdict (decide_all (\<lambda>e. e) [(decision_example Member 1, 7), (decision_example Revoked 2, 8)] members_example)
       ''rdm:1'' ''ann'' = Some (version, state) \<and> 2 \<le> version"
proof -
  have ready: "\<forall>(d, now) \<in> set [(decision_example Revoked 2, 5 :: int), (decision_example Member 1, 6)]. ready_for members_example d"
    by (simp add: ready_for_def members_example_def MAX_SAFE_INTEGER_def)
  have "\<exists>version state.
     verdict (decide_all (\<lambda>e. e) [(decision_example Revoked 2, 5), (decision_example Member 1, 6)] members_example)
       ''rdm:1'' ''ann'' = Some (version, state) \<and>
     verdict (decide_all (\<lambda>e. e) [(decision_example Member 1, 7), (decision_example Revoked 2, 8)] members_example)
       ''rdm:1'' ''ann'' = Some (version, state) \<and> dc_version (decision_example Revoked 2) \<le> version \<and>
     (verdict members_example ''rdm:1'' ''ann'' = Some (version, state) \<or>
      (\<exists>e \<in> set (map fst [(decision_example Revoked 2, 5 :: int), (decision_example Member 1, 6)]).
         of_person ''rdm:1'' ''ann'' e \<and> dc_version e = version \<and> dc_state e = state))"
  proof (rule highest_version_stands[OF ready, where d = "decision_example Revoked 2"])
    show "mset (map fst [(decision_example Revoked 2, 5 :: int), (decision_example Member 1, 6)]) =
        mset (map fst [(decision_example Member 1, 7 :: int), (decision_example Revoked 2, 8)])" by simp
  qed (simp_all add: coherent_def of_person_def)
  then show ?thesis by auto
qed

section \<open>Pages\<close>

definition by_rank :: "(string \<Rightarrow> nat) \<Rightarrow> member_row list \<Rightarrow> bool" where
  "by_rank rank ms \<longleftrightarrow> sorted_wrt (\<lambda>a b. rank (mb_userId a) < rank (mb_userId b)) ms"

lemma after_last:
  assumes "by_rank rank (xs @ ys)" "xs \<noteq> []"
  shows "filter (\<lambda>m. rank (mb_userId (last xs)) < rank (mb_userId m)) (xs @ ys) = ys"
proof -
  have "\<not> rank (mb_userId (last xs)) < rank (mb_userId m)" if "m \<in> set xs" for m
  proof -
    obtain zs where xs: "xs = zs @ [last xs]" using assms(2) by (metis append_butlast_last_id)
    from that have "m \<in> set zs \<or> m = last xs" by (subst (asm) xs) auto
    moreover have "rank (mb_userId z) < rank (mb_userId (last xs))" if "z \<in> set zs" for z
      using assms(1) that by (subst (asm) xs) (auto simp: by_rank_def sorted_wrt_append)
    ultimately show ?thesis by force
  qed
  then have "filter (\<lambda>m. rank (mb_userId (last xs)) < rank (mb_userId m)) xs = []" by (simp add: filter_empty_conv)
  moreover have "rank (mb_userId (last xs)) < rank (mb_userId m)" if "m \<in> set ys" for m
    using assms that by (auto simp: by_rank_def sorted_wrt_append)
  ultimately show ?thesis by (simp add: filter_True)
qed

definition members_of :: "(string \<Rightarrow> nat) \<Rightarrow> domains_db \<Rightarrow> string \<Rightarrow> member_row list" where
  "members_of rank db i = sort_key (\<lambda>m. rank (mb_userId m)) (filter (\<lambda>m. mb_domain m = i) (db_members db))"

lemma page_shape:
  "(take limit (take (limit + 1) rows),
    if length (take (limit + 1) rows) > limit \<and> take limit (take (limit + 1) rows) \<noteq> []
    then Some (mb_userId (last (take limit (take (limit + 1) rows)))) else None) =
   (take limit rows, if length rows > limit \<and> limit > 0 then Some (mb_userId (last (take limit rows))) else None)"
  by (cases rows) (auto simp: min_def take_Cons')

lemma page_of:
  "listMembers rank db i after limit =
     (let rows = filter (\<lambda>m. case after of None \<Rightarrow> True | Some a \<Rightarrow> rank a < rank (mb_userId m)) (members_of rank db i)
      in (take limit rows,
          if length rows > limit \<and> limit > 0 then Some (mb_userId (last (take limit rows))) else None))"
proof -
  have "filter (\<lambda>m. mb_domain m = i \<and> (case after of None \<Rightarrow> True | Some a \<Rightarrow> rank a < rank (mb_userId m))) (db_members db) =
      filter (\<lambda>m. case after of None \<Rightarrow> True | Some a \<Rightarrow> rank a < rank (mb_userId m)) (filter (\<lambda>m. mb_domain m = i) (db_members db))"
    by (simp add: conj_commute)
  then show ?thesis
    unfolding listMembers_def members_of_def filter_sort Let_def by (simp only: page_shape)
qed

lemma pages_of_suffix:
  assumes "by_rank rank (members_of rank db i)" "limit > 0" "members_of rank db i = xs @ ys"
    and "after = (if xs = [] then None else Some (mb_userId (last xs)))" "length ys < fuel"
  shows "read_pages fuel rank db i after limit = Some ys"
  using assms(3-)
proof (induction fuel arbitrary: xs ys after)
  case (Suc fuel)
  have rows: "filter (\<lambda>m. case after of None \<Rightarrow> True | Some a \<Rightarrow> rank a < rank (mb_userId m)) (members_of rank db i) = ys"
  proof (cases "xs = []")
    case True
    then show ?thesis using Suc.prems by simp
  next
    case False
    then show ?thesis using Suc.prems(1,2) after_last[of rank xs ys] assms(1) by simp
  qed
  show ?case
  proof (cases "length ys > limit")
    case True
    have "members_of rank db i = (xs @ take limit ys) @ drop limit ys" using Suc.prems(1) by simp
    moreover have "take limit ys \<noteq> []" using True assms(2) by auto
    ultimately have "read_pages fuel rank db i (Some (mb_userId (last (take limit ys)))) limit = Some (drop limit ys)"
      using True Suc.prems(3) assms(2) by (intro Suc.IH[of "xs @ take limit ys"]) auto
    then show ?thesis using True assms(2) by (simp add: page_of rows Let_def)
  next
    case False
    then show ?thesis by (simp add: page_of rows Let_def)
  qed
qed simp

text \<open>
  Reading the members of a domain page by page gives exactly all of them, in the database's order,
  each once: for any page size, any order of text that tells two people apart, and as many pages as
  there are people at most.
\<close>

lemma pages_are_the_members:
  assumes "members_ok db" "inj_on rank (mb_userId ` set (db_members db))" "limit > 0"
    and "length (db_members db) < fuel"
  shows "read_pages fuel rank db i None limit =
      Some (sort_key (\<lambda>m. rank (mb_userId m)) (filter (\<lambda>m. mb_domain m = i) (db_members db)))"
proof -
  let ?rows = "filter (\<lambda>m. mb_domain m = i) (db_members db)"
  have "distinct (map mb_userId ?rows)"
  proof -
    have "distinct (map (\<lambda>m. (mb_domain m, mb_userId m)) ?rows)" using assms(1) by (simp add: members_ok_def distinct_map_filter)
    moreover have "map (\<lambda>m. (mb_domain m, mb_userId m)) ?rows = map (Pair i) (map mb_userId ?rows)" by simp
    ultimately show ?thesis by (simp only: distinct_map)
  qed
  then have "distinct (map rank (map mb_userId ?rows))" using assms(2) by (simp only: distinct_map) (auto intro: inj_on_subset)
  then have "distinct (map (\<lambda>m. rank (mb_userId m)) (members_of rank db i))"
    unfolding members_of_def by (simp add: comp_def distinct_map)
  moreover have "sorted (map (\<lambda>m. rank (mb_userId m)) (members_of rank db i))" by (simp add: members_of_def)
  ultimately have "sorted_wrt (<) (map (\<lambda>m. rank (mb_userId m)) (members_of rank db i))"
    by (simp only: strict_sorted_iff)
  then have "by_rank rank (members_of rank db i)" by (simp add: by_rank_def sorted_wrt_map)
  moreover have "length (members_of rank db i) < fuel"
    using le_less_trans[OF length_filter_le assms(4)] by (simp add: members_of_def)
  ultimately have "read_pages fuel rank db i None limit = Some (members_of rank db i)"
    by (intro pages_of_suffix[OF _ assms(3), of _ _ _ "[]"]) simp_all
  then show ?thesis by (simp only: members_of_def)
qed

definition paged_example :: domains_db where
  "paged_example = members_example\<lparr>db_members :=
     map (\<lambda>u. \<lparr>mb_domain = ''rdm:1'', mb_userId = u, mb_state = Member, mb_version = 1, mb_updatedAt = 0\<rparr>)
       [''carl'', ''ann'', ''al'']\<rparr>"

end
