(* ===== verification/Resource_Ledger.thy ===== *)
theory Resource_Ledger
  imports Resource_Domains
begin

text \<open>
  What the ledger of a resource domain promises: an admission holds exactly what it asks for and never
  beyond the budget, an event never adds to what is held, the tables' constraints are never what
  refuses an admission, and every amount a budget read answers is exact.
\<close>

section \<open>Reading back\<close>

text \<open>What a domain's live allocations add up to.\<close>

definition held :: "allocation list \<Rightarrow> string \<Rightarrow> dimension \<Rightarrow> int" where
  "held rows i dim = sum_list (map (charge_in dim rows) (live_rows rows i))"

definition budget_from :: "(dimension \<Rightarrow> int) \<Rightarrow> budget" where
  "budget_from f = \<lparr>bu_cpuMillicores = f CpuMillicores, bu_memoryBytes = f MemoryBytes, bu_storageBytes = f StorageBytes\<rparr>"

lemma amount_in_budget_from [simp]: "amount_in dim (budget_from f) = f dim"
  by (cases dim) (simp_all add: budget_from_def)

lemma budget_from_amounts: "budget_from (\<lambda>dim. amount_in dim b) = b"
  by (simp add: budget_from_def)

text \<open>Amounts travel as text and come back exact.\<close>

lemma budgetOf_exact:
  "budgetOf db i = Inr (map_option (\<lambda>d. let all = db_allocations db; rows = live_rows all i in
     \<lparr>ba_revision = rd_revision d, ba_limit = rd_budget d,
      ba_used = budget_from (\<lambda>dim. sum_where is_used (charge_in dim all) rows),
      ba_reserved = budget_from (\<lambda>dim. sum_where is_reserved (charge_in dim all) rows),
      ba_archived = sum_where (\<lambda>a. al_state a = Archived_volume) al_storage rows,
      ba_protection = sum_where (\<lambda>a. al_use a = Protection) al_protection rows\<rparr>) (find_domain db i))"
proof (cases "find_domain db i")
  case (Some d)
  then show ?thesis
    by (simp add: budgetOf_def budgetStatement_def amounts_def each_def exact_def DIMENSIONS_def text_simps
        Let_def budget_from_def)
qed (simp add: budgetOf_def budgetStatement_def)

lemma used_and_reserved:
  "sum_where is_used (charge_in dim rows) (live_rows rows i) + sum_where is_reserved (charge_in dim rows) (live_rows rows i) =
   held rows i dim"
proof -
  have "is_used a = (\<not> is_reserved a)" if "a \<in> set (live_rows rows i)" for a
    using that by (cases "al_state a") (auto simp: live_rows_def live_def is_used_def is_reserved_def)
  then have "filter is_used (live_rows rows i) = filter (\<lambda>a. \<not> is_reserved a) (live_rows rows i)"
    by (simp cong: filter_cong)
  moreover have "sum_list (map f (filter (\<lambda>a. \<not> P a) xs)) + sum_list (map f (filter P xs)) = sum_list (map f xs)"
    for f :: "allocation \<Rightarrow> int" and P xs by (induction xs) auto
  ultimately show ?thesis by (simp add: held_def sum_where_def)
qed

section \<open>The tables' consistency\<close>

definition source_ok :: "allocation list \<Rightarrow> allocation \<Rightarrow> bool" where
  "source_ok rows a \<longleftrightarrow> (\<forall>s. al_source a = Some s \<longrightarrow>
     (\<exists>v \<in> set rows. al_id v = s \<and> al_use v = Volume \<and> al_domain v = al_domain a))"

definition no_clash :: "allocation \<Rightarrow> allocation \<Rightarrow> bool" where
  "no_clash a b \<longleftrightarrow> al_id a \<noteq> al_id b \<and> \<not> operation_clash a b \<and> \<not> object_clash a b"

definition ledger_ok :: "domains_db \<Rightarrow> bool" where
  "ledger_ok db \<longleftrightarrow>
     distinct (map rd_id (db_domains db)) \<and> distinct (map rd_key (db_domains db)) \<and>
     (\<forall>d \<in> set (db_domains db). domain_check d) \<and>
     sorted_wrt no_clash (db_allocations db) \<and>
     (\<forall>a \<in> set (db_allocations db). allocation_check a \<and> source_ok (db_allocations db) a \<and>
        al_storage a + al_protection a \<le> MAX_SAFE_INTEGER \<and> al_domain a \<in> rd_id ` set (db_domains db))"

lemma no_clash_sym: "no_clash a b = no_clash b a"
  by (auto simp: no_clash_def operation_clash_def object_clash_def)

lemma ledger_ids: "ledger_ok db \<Longrightarrow> distinct (map al_id (db_allocations db))"
proof -
  have "sorted_wrt no_clash rows \<Longrightarrow> distinct (map al_id rows)" for rows
    by (induction rows) (auto simp: no_clash_def)
  then show "ledger_ok db \<Longrightarrow> ?thesis" by (simp add: ledger_ok_def)
qed

lemma same_allocation:
  "ledger_ok db \<Longrightarrow> a \<in> set (db_allocations db) \<Longrightarrow> b \<in> set (db_allocations db) \<Longrightarrow> al_id a = al_id b \<Longrightarrow> a = b"
  using ledger_ids[of db] by (auto simp: distinct_map dest: inj_onD)

lemma find_domain_Some: "find_domain db i = Some d \<Longrightarrow> d \<in> set (db_domains db) \<and> rd_id d = i"
  by (auto simp: find_domain_def dest: find_SomeD)

section \<open>Charges are not negative\<close>

lemma backups_nonneg:
  "\<forall>a \<in> set rows. allocation_check a \<Longrightarrow> 0 \<le> backups_of rows i"
proof -
  assume ok: "\<forall>a \<in> set rows. allocation_check a"
  have "0 \<le> al_protection a" if "a \<in> set rows" for a
    using ok that by (cases "al_use a") (auto simp: allocation_check_def)
  then show ?thesis unfolding backups_of_def by (intro sum_list_nonneg) auto
qed

lemma charge_nonneg: "allocation_check a \<Longrightarrow> 0 \<le> charge_in dim rows a"
  by (cases dim; cases "al_use a") (auto simp: allocation_check_def unused_reserve_def)

lemma held_nonneg: "\<forall>a \<in> set rows. allocation_check a \<Longrightarrow> 0 \<le> held rows i dim"
  unfolding held_def by (intro sum_list_nonneg) (auto simp: live_rows_def charge_nonneg)

section \<open>What an admission adds\<close>

lemma backups_append:
  "backups_of (rows @ [a]) i = backups_of rows i + (if al_source a = Some i \<and> live a then al_protection a else 0)"
  by (simp add: backups_of_def)

lemma held_append:
  "held (rows @ [a]) i dim =
     sum_list (map (charge_in dim (rows @ [a])) (live_rows rows i)) +
     (if al_domain a = i \<and> live a then charge_in dim (rows @ [a]) a else 0)"
  by (simp add: held_def live_rows_def)

lemma charge_append_other:
  "dim \<noteq> StorageBytes \<or> al_source a \<noteq> Some (al_id b) \<or> al_use b \<noteq> Volume \<Longrightarrow>
   charge_in dim (rows @ [a]) b = charge_in dim rows b"
  by (cases dim) (auto simp: unused_reserve_def backups_append split: allocation_use.splits)

lemma sum_list_one_changed:
  fixes f g :: "'a \<Rightarrow> int"
  assumes "distinct xs" "x \<in> set xs" "\<And>y. y \<in> set xs \<Longrightarrow> y \<noteq> x \<Longrightarrow> f y = g y"
  shows "sum_list (map f xs) = sum_list (map g xs) + (f x - g x)"
  using assms
proof (induction xs)
  case (Cons y ys)
  show ?case
  proof (cases "y = x")
    case True
    then have "map f ys = map g ys" using Cons.prems by auto
    then have "sum_list (map f ys) = sum_list (map g ys)" by (rule arg_cong)
    then show ?thesis using True by simp
  next
    case False
    then show ?thesis using Cons by auto
  qed
qed simp

lemma held_plain_append:
  assumes "al_source a = None" "live a" "al_domain a = i" "\<forall>b \<in> set rows. allocation_check b" "allocation_check a"
    and "\<forall>b \<in> set rows. al_source b \<noteq> Some (al_id a)"
  shows "held (rows @ [a]) i dim = held rows i dim +
    (case dim of CpuMillicores \<Rightarrow> al_cpu a | MemoryBytes \<Rightarrow> al_memory a | StorageBytes \<Rightarrow> al_storage a + al_protection a)"
proof -
  have "map (charge_in dim (rows @ [a])) (live_rows rows i) = map (charge_in dim rows) (live_rows rows i)"
    using assms(1) by (intro map_cong) (auto simp: charge_append_other)
  then have "sum_list (map (charge_in dim (rows @ [a])) (live_rows rows i)) = held rows i dim"
    unfolding held_def by (rule arg_cong)
  moreover have "backups_of rows (al_id a) = 0"
    using assms(6) by (auto simp: backups_of_def filter_empty_conv)
  then have "charge_in dim (rows @ [a]) a =
      (case dim of CpuMillicores \<Rightarrow> al_cpu a | MemoryBytes \<Rightarrow> al_memory a | StorageBytes \<Rightarrow> al_storage a + al_protection a)"
    using assms(1,5) by (cases dim; cases "al_use a")
      (auto simp: unused_reserve_def backups_append allocation_check_def)
  ultimately show ?thesis unfolding held_append using assms(2,3) by simp
qed

lemma held_backup_append:
  assumes "ledger_ok db" "v \<in> set (db_allocations db)" "al_use v = Volume" "live v" "al_domain v = i"
    and "al_source a = Some (al_id v)" "al_use a = Protection" "live a" "al_domain a = i" "allocation_check a"
  shows "held (db_allocations db @ [a]) i dim = held (db_allocations db) i dim +
    (case dim of CpuMillicores \<Rightarrow> 0 | MemoryBytes \<Rightarrow> 0
     | StorageBytes \<Rightarrow> if al_protection a > unused_reserve (db_allocations db) v
         then al_protection a - unused_reserve (db_allocations db) v else 0)"
proof -
  let ?rows = "db_allocations db" and ?live = "live_rows (db_allocations db) i"
  have v: "v \<in> set ?live" using assms(2,4,5) by (simp add: live_rows_def)
  have "distinct ?rows" using ledger_ids[OF assms(1)] by (simp add: distinct_map)
  then have dist: "distinct ?live" by (simp add: live_rows_def)
  have other: "charge_in dim (?rows @ [a]) b = charge_in dim ?rows b" if "b \<in> set ?live" "b \<noteq> v" for b
  proof (rule charge_append_other)
    have "al_id b \<noteq> al_id v" using same_allocation[OF assms(1)] that assms(2) by (auto simp: live_rows_def)
    then show "dim \<noteq> StorageBytes \<or> al_source a \<noteq> Some (al_id b) \<or> al_use b \<noteq> Volume" using assms(6) by simp
  qed
  have sum: "sum_list (map (charge_in dim (?rows @ [a])) ?live) =
      sum_list (map (charge_in dim ?rows) ?live) + (charge_in dim (?rows @ [a]) v - charge_in dim ?rows v)"
    by (rule sum_list_one_changed[OF dist v other])
  have "allocation_check v" using assms(1,2) by (simp add: ledger_ok_def)
  moreover have "al_protection a > 0" "al_cpu a = 0" "al_memory a = 0"
    using assms(7,10) by (simp_all add: allocation_check_def)
  ultimately show ?thesis
    unfolding held_append sum using assms(3,6-9)
    by (cases dim) (auto simp: held_def unused_reserve_def backups_append allocation_check_def)
qed

section \<open>Admission\<close>

lemma admitted_values:
  assumes "allocationValues request = Some values"
  shows "values = values_of request" "av_use values = request_use request" "av_objectKey values = request_object request"
    "av_sourceKey values \<noteq> None \<longleftrightarrow> request_use request = Protection"
    "av_storage values + av_protection values \<le> MAX_SAFE_INTEGER"
  using assms by (cases request; auto simp: allocationValues_def Let_def split: if_splits)+

lemma admitted_check:
  assumes "allocationValues request = Some values" "source \<noteq> None \<longleftrightarrow> request_use request = Protection"
  shows "allocation_check (new_allocation newId i k source values now)"
  using assms
  by (cases request) (auto simp: allocationValues_def Let_def allocation_check_def new_allocation_def isSafeInteger_def split: if_splits)

lemma first_over_None:
  "first_over read ask dims = None \<Longrightarrow> dim \<in> set dims \<Longrightarrow> ask dim > 0 \<Longrightarrow>
   amount_in dim (ba_used read) + amount_in dim (ba_reserved read) + ask dim \<le> amount_in dim (ba_limit read)"
  by (induction dims) (auto simp: Let_def split: if_splits)

lemma first_over_Some:
  "first_over read ask dims = Some r \<Longrightarrow> \<exists>dim \<in> set dims. r = Over_budget dim (amount_in dim (ba_used read))
     (amount_in dim (ba_reserved read)) (ask dim) (amount_in dim (ba_limit read)) \<and> ask dim > 0 \<and>
     amount_in dim (ba_used read) + amount_in dim (ba_reserved read) + ask dim > amount_in dim (ba_limit read)"
  by (induction dims) (auto simp: Let_def split: if_splits)

lemma all_dimensions [simp]: "dim \<in> set DIMENSIONS"
  by (cases dim) (simp_all add: DIMENSIONS_def)

lemma source_volume_Some:
  assumes "source_volume db i key = Some (s, unused)"
  obtains v where "v \<in> set (db_allocations db)" "al_id v = s" "al_use v = Volume" "live v" "al_domain v = i"
    "unused = unused_reserve (db_allocations db) v"
  using assms by (auto simp: source_volume_def dest: find_SomeD)

text \<open>What an admission may answer, and what it leaves.\<close>

definition admission_ok ::
  "domains_db \<Rightarrow> string \<Rightarrow> (string \<times> int) option \<Rightarrow> allocation_values \<Rightarrow> domains_db \<Rightarrow> admission \<Rightarrow> bool"
where
  "admission_ok db i source values db' r \<longleftrightarrow>
     (case r of
        Admitted a False \<Rightarrow>
          db' = db\<lparr>db_allocations := db_allocations db @ [a]\<rparr> \<and> al_domain a = i \<and> al_state a = Reserved \<and> sameAllocation a values \<and>
          (\<forall>dim. held (db_allocations db') i dim = held (db_allocations db) i dim + requested_in values source dim \<and>
             0 \<le> requested_in values source dim \<and>
             (requested_in values source dim > 0 \<longrightarrow>
                (\<exists>d. find_domain db i = Some d \<and> held (db_allocations db') i dim \<le> amount_in dim (rd_budget d)))) \<and>
          (\<forall>j dim. j \<noteq> i \<longrightarrow> held (db_allocations db') j dim = held (db_allocations db) j dim)
      | Admitted a True \<Rightarrow> db' = db \<and> a \<in> set (db_allocations db) \<and> live a \<and> sameAllocation a values
      | Over_budget dim used reserved requested limit \<Rightarrow>
          db' = db \<and> (\<exists>d. find_domain db i = Some d \<and> limit = amount_in dim (rd_budget d)) \<and>
          used + reserved = held (db_allocations db) i dim \<and> requested = requested_in values source dim \<and>
          requested > 0 \<and> used + reserved + requested > limit
      | _ \<Rightarrow> db' = db)"

lemma held_elsewhere:
  assumes "ledger_ok db" "al_domain a = i" "j \<noteq> i"
    and "\<forall>s. al_source a = Some s \<longrightarrow> (\<exists>v \<in> set (db_allocations db). al_id v = s \<and> al_domain v = i)"
  shows "held (db_allocations db @ [a]) j dim = held (db_allocations db) j dim"
proof -
  let ?rows = "db_allocations db"
  have "charge_in dim (?rows @ [a]) b = charge_in dim ?rows b" if "b \<in> set (live_rows ?rows j)" for b
  proof (rule charge_append_other)
    have "al_source a \<noteq> Some (al_id b)"
    proof
      assume "al_source a = Some (al_id b)"
      with assms(4) obtain v where "v \<in> set ?rows" "al_id v = al_id b" "al_domain v = i" by blast
      then show False using same_allocation[OF assms(1), of v b] that assms(3) by (auto simp: live_rows_def)
    qed
    then show "dim \<noteq> StorageBytes \<or> al_source a \<noteq> Some (al_id b) \<or> al_use b \<noteq> Volume" by simp
  qed
  then have "map (charge_in dim (?rows @ [a])) (live_rows ?rows j) = map (charge_in dim ?rows) (live_rows ?rows j)"
    by simp
  then have "sum_list (map (charge_in dim (?rows @ [a])) (live_rows ?rows j)) = held ?rows j dim"
    unfolding held_def by (rule arg_cong)
  then show ?thesis unfolding held_append using assms(2,3) by simp
qed

text \<open>A new row beside consistent ones: nothing refers to it and nothing clashes with it.\<close>

lemma admit_new_ok:
  assumes "ledger_ok db" "find_domain db i = Some d" "allocationValues request = Some values"
    and "newId \<notin> al_id ` set (db_allocations db)"
    and "\<forall>b \<in> set (db_allocations db). \<not> (al_domain b = i \<and> al_operationKey b = k)"
    and "\<forall>b \<in> set (db_allocations db). \<not> (al_domain b = i \<and> al_use b = request_use request \<and>
           al_objectKey b = request_object request \<and> live b)"
    and "source = (case av_sourceKey values of None \<Rightarrow> None | Some key \<Rightarrow> source_volume db i key)"
    and "source \<noteq> None \<longleftrightarrow> request_use request = Protection"
  shows "\<exists>db' r. admit_new db i k values source newId now = Inr (db', r) \<and> admission_ok db i source values db' r \<and>
    ledger_ok db'"
proof -
  let ?rows = "db_allocations db" and ?a = "new_allocation newId i k (map_option fst source) values now"
  obtain read where read: "budgetOf db i = Inr (Some read)"
    and parts: "\<And>dim. amount_in dim (ba_used read) + amount_in dim (ba_reserved read) = held ?rows i dim"
      "\<And>dim. amount_in dim (ba_limit read) = amount_in dim (rd_budget d)"
    using budgetOf_exact[of db i] used_and_reserved assms(2) by (simp add: Let_def)
  show ?thesis
  proof (cases "first_over read (requested_in values source) DIMENSIONS")
    case (Some r)
    from first_over_Some[OF this] obtain dim where r: "r = Over_budget dim (amount_in dim (ba_used read))
        (amount_in dim (ba_reserved read)) (requested_in values source dim) (amount_in dim (ba_limit read))"
      "requested_in values source dim > 0"
      "amount_in dim (ba_used read) + amount_in dim (ba_reserved read) + requested_in values source dim > amount_in dim (ba_limit read)"
      by blast
    have "admission_ok db i source values db r"
      unfolding admission_ok_def r(1) using r(2,3) parts assms(2) by simp
    then show ?thesis using Some read assms(1) by (simp add: admit_new_def)
  next
    case None
    note vals = admitted_values[OF assms(3)]
    have a: "al_id ?a = newId" "al_domain ?a = i" "al_use ?a = request_use request" "al_objectKey ?a = request_object request"
      "al_operationKey ?a = k" "al_state ?a = Reserved" "al_source ?a = map_option fst source"
      "al_storage ?a + al_protection ?a \<le> MAX_SAFE_INTEGER" "live ?a" "sameAllocation ?a values"
      using vals by (simp_all add: new_allocation_def live_def sameAllocation_def)
    have check: "allocation_check ?a" by (rule admitted_check[OF assms(3)]) (use assms(8) in auto)
    have volume: "\<exists>v \<in> set ?rows. al_id v = s \<and> al_use v = Volume \<and> live v \<and> al_domain v = i \<and>
        unused = unused_reserve ?rows v" if "source = Some (s, unused)" for s unused
    proof -
      from that assms(7) obtain key where "source_volume db i key = Some (s, unused)" by (auto split: option.splits)
      then show ?thesis by (rule source_volume_Some) auto
    qed
    have "no_clash b ?a" if "b \<in> set ?rows" for b
      using that assms(4-6) a by (auto simp: no_clash_def operation_clash_def object_clash_def)
    then have clash: "\<forall>b \<in> set ?rows. no_clash b ?a" by blast
    have domain: "i \<in> rd_id ` set (db_domains db)" using find_domain_Some[OF assms(2)] by auto
    have insert: "insert_allocation db ?a = Inr (db\<lparr>db_allocations := ?rows @ [?a]\<rparr>)"
    proof -
      have "list_all (\<lambda>b. al_id b \<noteq> al_id ?a \<and> \<not> operation_clash ?a b \<and> \<not> object_clash ?a b) ?rows"
        using clash by (auto simp: list_all_iff no_clash_def operation_clash_def object_clash_def)
      moreover have "case al_source ?a of None \<Rightarrow> True | Some s \<Rightarrow> s \<in> set (map al_id ?rows)"
        using volume a(7) by (cases source) force+
      ultimately show ?thesis using check domain a(2) by (simp add: insert_allocation_def)
    qed
    let ?db = "db\<lparr>db_allocations := ?rows @ [?a]\<rparr>"
    have source: "source_ok (?rows @ [?a]) ?a"
      using volume a(2,7) by (cases source) (force simp: source_ok_def)+
    have "ledger_ok ?db"
      using assms(1) clash check source domain a(2,8) by (auto simp: ledger_ok_def sorted_wrt_append source_ok_def)
    moreover have grown: "held (?rows @ [?a]) i dim = held ?rows i dim + requested_in values source dim" for dim
    proof (cases source)
      case None
      have "\<forall>b \<in> set ?rows. al_source b \<noteq> Some (al_id ?a)"
      proof (intro ballI notI)
        fix b assume "b \<in> set ?rows" "al_source b = Some (al_id ?a)"
        moreover from this(1) have "source_ok ?rows b" using assms(1) by (simp add: ledger_ok_def)
        ultimately obtain v where "v \<in> set ?rows" "al_id v = newId" using a(1) by (auto simp: source_ok_def)
        then show False using assms(4) by auto
      qed
      then have "held (?rows @ [?a]) i dim = held ?rows i dim +
          (case dim of CpuMillicores \<Rightarrow> al_cpu ?a | MemoryBytes \<Rightarrow> al_memory ?a | StorageBytes \<Rightarrow> al_storage ?a + al_protection ?a)"
        using assms(1) a(2,7,9) check None by (intro held_plain_append) (auto simp: ledger_ok_def)
      then show ?thesis using None by (simp add: requested_in_def new_allocation_def split: dimension.splits)
    next
      case (Some x)
      obtain s unused where x: "x = (s, unused)" by (cases x)
      from volume[OF Some[unfolded x]] obtain v where v: "v \<in> set ?rows" "al_id v = s" "al_use v = Volume" "live v"
        "al_domain v = i" "unused = unused_reserve ?rows v" by blast
      have "al_use ?a = Protection" using Some assms(8) a(3) by simp
      then have "held (?rows @ [?a]) i dim = held ?rows i dim + (case dim of CpuMillicores \<Rightarrow> 0 | MemoryBytes \<Rightarrow> 0
          | StorageBytes \<Rightarrow> if al_protection ?a > unused_reserve ?rows v then al_protection ?a - unused_reserve ?rows v else 0)"
        using a(2,7,9) check Some x v by (intro held_backup_append[OF assms(1)]) auto
      moreover have "al_cpu ?a = 0" "al_memory ?a = 0" using check \<open>al_use ?a = Protection\<close> by (simp_all add: allocation_check_def)
      ultimately show ?thesis using Some x v(6) by (simp add: requested_in_def new_allocation_def split: dimension.splits)
    qed
    moreover have "0 \<le> requested_in values source dim" for dim
      using assms(3) by (cases dim) (auto simp: requested_in_def allocationValues_def Let_def split: if_splits option.splits)
    moreover have "held (?rows @ [?a]) i dim \<le> amount_in dim (rd_budget d)" if "requested_in values source dim > 0" for dim
      using first_over_None[OF None, of dim] that parts grown[of dim] by simp
    moreover have "held (?rows @ [?a]) j dim = held ?rows j dim" if "j \<noteq> i" for j dim
      using that volume a(7) by (intro held_elsewhere[OF assms(1) a(2)]) (cases source; force)+
    ultimately show ?thesis
      using None read insert assms(2) a(2,6,10) by (simp add: admit_new_def Let_def admission_ok_def)
  qed
qed

section \<open>Events\<close>

definition moved_at :: "string \<Rightarrow> string \<Rightarrow> allocation_event \<Rightarrow> int \<Rightarrow> allocation \<Rightarrow> allocation" where
  "moved_at i allocationId event now a =
     (if (al_id a = allocationId \<and> al_domain a = i) \<and> applies event a then move event now a else a)"

lemma moved_at_simps [simp]:
  "al_id (moved_at i x e now a) = al_id a" "al_domain (moved_at i x e now a) = al_domain a"
  "al_use (moved_at i x e now a) = al_use a" "al_objectKey (moved_at i x e now a) = al_objectKey a"
  "al_sourceKey (moved_at i x e now a) = al_sourceKey a" "al_source (moved_at i x e now a) = al_source a"
  "al_operationKey (moved_at i x e now a) = al_operationKey a" "al_cpu (moved_at i x e now a) = al_cpu a"
  "al_memory (moved_at i x e now a) = al_memory a" "al_storage (moved_at i x e now a) = al_storage a"
  "al_protection (moved_at i x e now a) = al_protection a"
  by (simp_all add: moved_at_def move_def)

lemma applies_live: "applies e a \<Longrightarrow> live a"
  by (cases e) (auto simp: applies_def live_def)

lemma moved_at_live: "live (moved_at i x e now a) \<Longrightarrow> live a"
  by (auto simp: moved_at_def applies_live split: if_splits)

lemma moved_at_check: "allocation_check a \<Longrightarrow> allocation_check (moved_at i x e now a)"
  by (cases e) (auto simp: moved_at_def move_def applies_def allocation_check_def split: allocation_use.splits)

lemma record_event_rows:
  assumes "record_event db isolation i x event now = Inr (db', r)"
  shows "db' = db \<or> db' = db\<lparr>db_allocations := map (moved_at i x event now) (db_allocations db)\<rparr>"
  using assms
  by (auto simp: record_event_def res_simps lockDomain_def moved_at_def[abs_def] split: option.splits if_splits)

lemma backups_kept:
  assumes "event_to event \<noteq> Released"
  shows "backups_of (map (moved_at i x event now) rows) s = backups_of rows s"
proof -
  have live: "live (moved_at i x event now a) = live a" for a
    using assms moved_at_live[of i x event now a] by (auto simp: moved_at_def move_def live_def)
  show ?thesis unfolding backups_of_def by (induction rows) (auto simp: live)
qed

lemma held_moved:
  "held (map (moved_at i x event now) rows) j dim =
   sum_list (map (\<lambda>a. charge_in dim (map (moved_at i x event now) rows) (moved_at i x event now a))
     (filter (\<lambda>a. live (moved_at i x event now a)) (live_rows rows j)))"
proof -
  have "filter (\<lambda>a. al_domain a = j \<and> live a) (map (moved_at i x event now) rows) =
      map (moved_at i x event now) (filter (\<lambda>a. live (moved_at i x event now a)) (live_rows rows j))"
    unfolding live_rows_def by (induction rows) (auto dest: moved_at_live)
  then show ?thesis by (simp add: held_def live_rows_def comp_def)
qed

lemma charge_moved:
  "charge_in dim rows (moved_at i x event now a) = charge_in dim rows a"
  by (cases dim) (simp_all add: unused_reserve_def split: allocation_use.splits)

lemma held_kept:
  assumes "event_to event \<noteq> Released"
  shows "held (map (moved_at i x event now) rows) j dim = held rows j dim"
proof -
  have "live (moved_at i x event now a)" if "a \<in> set (live_rows rows j)" for a
    using that assms by (auto simp: live_rows_def moved_at_def move_def live_def)
  then have all: "filter (\<lambda>a. live (moved_at i x event now a)) (live_rows rows j) = live_rows rows j"
    by (simp add: filter_True)
  have "charge_in dim (map (moved_at i x event now) rows) a = charge_in dim rows a" for a
    by (cases dim) (simp_all add: unused_reserve_def backups_kept[OF assms] split: allocation_use.splits)
  then show ?thesis unfolding held_moved all by (simp add: held_def charge_moved)
qed

lemma backups_released:
  assumes "distinct (map al_id rows)" "r \<in> set rows" "al_id r = x" "al_domain r = i" "applies event r" "event_to event = Released"
  shows "backups_of (map (moved_at i x event now) rows) s =
    backups_of rows s - (if al_source r = Some s then al_protection r else 0)"
  using assms(1,2)
proof (induction rows)
  case (Cons a rows)
  show ?case
  proof (cases "a = r")
    case True
    then have "al_id b \<noteq> x" if "b \<in> set rows" for b
      using Cons.prems(1) assms(3) imageI[OF that, of al_id] by auto
    then have "moved_at i x event now b = b" if "b \<in> set rows" for b
      using that by (simp add: moved_at_def)
    then have "map (moved_at i x event now) rows = rows" by (simp add: map_idI)
    moreover have "\<not> live (moved_at i x event now r)"
      using assms(3-6) by (simp add: moved_at_def move_def live_def)
    ultimately show ?thesis using True applies_live[OF assms(5)] by (simp add: backups_of_def)
  next
    case False
    then have "al_id a \<noteq> x" using Cons.prems assms(3) by auto
    then show ?thesis using Cons False by (simp add: backups_of_def moved_at_def)
  qed
qed simp

lemma held_released:
  assumes ok: "ledger_ok db" and r: "r \<in> set (db_allocations db)" "al_id r = x" "al_domain r = i" "applies event r"
    and event: "event_to event = Released"
  shows "held (map (moved_at i x event now) (db_allocations db)) j dim \<le> held (db_allocations db) j dim"
proof -
  let ?rows = "db_allocations db" and ?rows' = "map (moved_at i x event now) (db_allocations db)"
  let ?L = "live_rows (db_allocations db) j" and ?f = "charge_in dim (db_allocations db)"
  let ?kept = "filter (\<lambda>a. live (moved_at i x event now a)) ?L"
  have dist: "distinct ?L" using ledger_ids[OF ok] by (simp add: live_rows_def distinct_map)
  have checks: "allocation_check b" if "b \<in> set ?rows" for b using ok that by (simp add: ledger_ok_def)
  have kept: "set ?kept = set ?L - {r}"
  proof -
    have "live (moved_at i x event now a) = (a \<noteq> r)" if a: "a \<in> set ?L" for a
    proof (cases "a = r")
      case True
      then show ?thesis using r(2-4) event by (simp add: moved_at_def move_def live_def)
    next
      case False
      then have "al_id a \<noteq> x" using same_allocation[OF ok _ r(1), of a] a r(2) by (auto simp: live_rows_def)
      then show ?thesis using False a by (simp add: moved_at_def live_rows_def)
    qed
    then show ?thesis by auto
  qed
  define extra :: "allocation \<Rightarrow> int" where "extra b = (if al_source r = Some (al_id b) \<and> dim = StorageBytes then al_protection r else 0)" for b
  have r_pos: "0 \<le> al_protection r" using checks[OF r(1)] by (cases "al_use r") (auto simp: allocation_check_def)
  have step: "charge_in dim ?rows' b \<le> ?f b + extra b" for b
    using backups_released[OF ledger_ids[OF ok] r event, of now "al_id b"] r_pos
    by (cases dim; cases "al_use b") (auto simp: unused_reserve_def extra_def)
  have "held ?rows' j dim = sum (charge_in dim ?rows') (set ?L - {r})"
    unfolding held_moved charge_moved using dist by (simp add: kept[symmetric] sum_list_distinct_conv_sum_set)
  also have "\<dots> \<le> sum ?f (set ?L - {r}) + sum extra (set ?L - {r})"
    unfolding sum.distrib[symmetric] by (rule sum_mono[OF step])
  also have "\<dots> \<le> sum ?f (set ?L)"
  proof (cases "al_source r")
    case None
    then have "sum extra (set ?L - {r}) = 0" by (simp add: extra_def)
    moreover have "sum ?f (set ?L - {r}) \<le> sum ?f (set ?L)"
      by (rule sum_mono2) (auto simp: live_rows_def checks charge_nonneg)
    ultimately show ?thesis by simp
  next
    case (Some s)
    have "source_ok ?rows r" using ok r(1) by (simp add: ledger_ok_def)
    then obtain v where v: "v \<in> set ?rows" "al_id v = s" "al_domain v = i" using Some r(3) by (auto simp: source_ok_def)
    have use: "al_use r = Protection" using checks[OF r(1)] Some by (cases "al_use r") (auto simp: allocation_check_def)
    have one: "extra b = (if b = v then (if dim = StorageBytes then al_protection r else 0) else 0)" if b: "b \<in> set ?rows" for b
    proof -
      have "(al_source r = Some (al_id b)) = (b = v)"
        by (metis same_allocation[OF ok b v(1)] v(2) Some option.inject)
      then show ?thesis by (simp add: extra_def)
    qed
    have "sum extra (set ?L - {r}) = sum (\<lambda>b. if b = v then (if dim = StorageBytes then al_protection r else 0) else 0) (set ?L - {r})"
      by (rule sum.cong) (auto simp: one live_rows_def)
    also have "\<dots> = (if v \<in> set ?L - {r} then (if dim = StorageBytes then al_protection r else 0) else 0)" by simp
    also have "\<dots> \<le> (if r \<in> set ?L then ?f r else 0)"
    proof (cases "j = i")
      case True
      then have "r \<in> set ?L" using r applies_live by (simp add: live_rows_def)
      moreover have "?f r = (if dim = StorageBytes then al_protection r else 0)"
        using use checks[OF r(1)] by (cases dim) (auto simp: allocation_check_def)
      ultimately show ?thesis using r_pos by simp
    next
      case False
      then have "v \<notin> set ?L" using v(3) by (auto simp: live_rows_def)
      then show ?thesis using charge_nonneg[OF checks[OF r(1)]] by simp
    qed
    finally have "sum extra (set ?L - {r}) \<le> (if r \<in> set ?L then ?f r else 0)" .
    moreover have "sum ?f (set ?L) = sum ?f (set ?L - {r}) + (if r \<in> set ?L then ?f r else 0)"
      by (simp add: sum.remove)
    ultimately show ?thesis by simp
  qed
  also have "sum ?f (set ?L) = held ?rows j dim"
    using dist by (simp add: held_def sum_list_distinct_conv_sum_set)
  finally show ?thesis .
qed

lemma record_held:
  assumes "ledger_ok db" "record_event db isolation i x event now = Inr (db', r)"
  shows "held (db_allocations db') j dim \<le> held (db_allocations db) j dim"
    and "event_to event \<noteq> Released \<Longrightarrow> held (db_allocations db') j dim = held (db_allocations db) j dim"
proof -
  let ?moved = "map (moved_at i x event now) (db_allocations db)"
  have rows: "db_allocations db' = db_allocations db \<or> db_allocations db' = ?moved"
    using record_event_rows[OF assms(2)] by auto
  show "event_to event \<noteq> Released \<Longrightarrow> held (db_allocations db') j dim = held (db_allocations db) j dim"
    using rows held_kept by auto
  have "held ?moved j dim \<le> held (db_allocations db) j dim"
  proof (cases "\<exists>r \<in> set (db_allocations db). al_id r = x \<and> al_domain r = i \<and> applies event r")
    case True
    then show ?thesis using held_released[OF assms(1)] held_kept[of event] by (cases "event_to event = Released") fastforce+
  next
    case False
    then have "moved_at i x event now a = a" if "a \<in> set (db_allocations db)" for a
      using that by (auto simp: moved_at_def)
    then have "?moved = db_allocations db" by (simp add: map_idI)
    then show ?thesis by simp
  qed
  then show "held (db_allocations db') j dim \<le> held (db_allocations db) j dim" using rows by auto
qed

lemma record_ok:
  assumes "ledger_ok db" "record_event db isolation i x event now = Inr (db', r)"
  shows "ledger_ok db'"
proof -
  let ?m = "moved_at i x event now"
  have clash: "no_clash (?m a) (?m b)" if "no_clash a b" for a b
    using that moved_at_live[of i x event now a] moved_at_live[of i x event now b]
    by (auto simp: no_clash_def operation_clash_def object_clash_def)
  have "sorted_wrt no_clash (map ?m rows)" if "sorted_wrt no_clash rows" for rows
    using that clash by (induction rows) auto
  moreover have "source_ok (map ?m rows) (?m a)" if "source_ok rows a" for rows a
    using that unfolding source_ok_def by fastforce
  ultimately have "ledger_ok (db\<lparr>db_allocations := map ?m (db_allocations db)\<rparr>)"
    using assms(1) moved_at_check by (auto simp: ledger_ok_def)
  then show ?thesis using record_event_rows[OF assms(2)] assms(1) by auto
qed

end
