(* ===== verification/Resource_Ledger_Proofs.thy ===== *)
theory Resource_Ledger_Proofs
  imports Resource_Ledger Resource_Members
begin

text \<open>
  The ledger over any history: the step relation of a database of resource domains, its invariant, and
  the properties of admission, events and budgets that rest on it.
\<close>

section \<open>Histories\<close>

inductive domain_step :: "domains_db \<Rightarrow> domains_db \<Rightarrow> bool" where
  ensures: "ensure db key b kind newId now = Inr (db', r) \<Longrightarrow> domain_step db db'"
| sets_budget: "setBudget db i revision b = Inr (db', r) \<Longrightarrow> domain_step db db'"
| admits: "admit db isolation i k request newId now = Inr (db', r) \<Longrightarrow>
    newId \<notin> al_id ` set (db_allocations db) \<Longrightarrow> domain_step db db'"
| records: "record_event db isolation i x event now = Inr (db', r) \<Longrightarrow> domain_step db db'"
| fences: "domain_step db (setDomainState db i state)"
| decides: "decideMember db wrap later d now = (db', r) \<Longrightarrow> domain_step db db'"

definition new_database :: "string list \<Rightarrow> domains_db" where
  "new_database users = \<lparr>db_domains = [], db_members = [], db_allocations = [], db_users = users\<rparr>"

definition reachable_db :: "domains_db \<Rightarrow> bool" where
  "reachable_db db \<longleftrightarrow> (\<exists>users. domain_step\<^sup>*\<^sup>* (new_database users) db)"

definition within_safe :: "domains_db \<Rightarrow> bool" where
  "within_safe db \<longleftrightarrow> (\<forall>i dim. held (db_allocations db) i dim \<le> MAX_SAFE_INTEGER)"

definition asked :: "domains_db \<Rightarrow> string \<Rightarrow> admission_request \<Rightarrow> dimension \<Rightarrow> int" where
  "asked db i request = requested_in (values_of request)
     (case av_sourceKey (values_of request) of None \<Rightarrow> None | Some key \<Rightarrow> source_volume db i key)"

lemma admit_new_key:
  assumes "admit_new db i k vals source newId now = Inr (db', Admitted a False)"
  shows "al_operationKey a = k"
proof -
  from assms obtain budget where "(case budget of
          None \<Rightarrow> Inr (db, No_such_domain)
        | Some read \<Rightarrow>
            (case first_over read (requested_in vals source) DIMENSIONS of
               Some over \<Rightarrow> Inr (db, over)
             | None \<Rightarrow>
                 let a = new_allocation newId i k (map_option fst source) vals now in
                 bind_res (insert_allocation db a) (\<lambda>db'. Inr (db', Admitted a False)))) = Inr (db', Admitted a False)"
    unfolding admit_new_def bind_res_Inr by blast
  then obtain read where run: "(case first_over read (requested_in vals source) DIMENSIONS of
        Some over \<Rightarrow> Inr (db, over)
      | None \<Rightarrow> bind_res (insert_allocation db (new_allocation newId i k (map_option fst source) vals now))
          (\<lambda>db'. Inr (db', Admitted (new_allocation newId i k (map_option fst source) vals now) False))) =
      Inr (db', Admitted a False)"
    unfolding Let_def by (cases budget) auto
  show ?thesis
  proof (cases "first_over read (requested_in vals source) DIMENSIONS")
    case None
    then show ?thesis using run by (auto simp: res_simps new_allocation_def)
  next
    case (Some over)
    then show ?thesis using run first_over_Some[OF Some] by auto
  qed
qed

lemma ledger_domains:
  assumes "ledger_ok db" "map rd_id ds = map rd_id (db_domains db)" "map rd_key ds = map rd_key (db_domains db)"
    "\<forall>d \<in> set ds. domain_check d"
  shows "ledger_ok (db\<lparr>db_domains := ds\<rparr>)"
proof -
  have "rd_id ` set ds = rd_id ` set (db_domains db)" using assms(2) by (metis set_map)
  then show ?thesis using assms by (simp add: ledger_ok_def)
qed

lemma admit_cases:
  assumes "ledger_ok db" "newId \<notin> al_id ` set (db_allocations db)" "isolation = ''read committed''"
  shows "\<exists>db' r. admit db isolation i k request newId now = Inr (db', r) \<and> ledger_ok db' \<and>
    admission_ok db i (case av_sourceKey (values_of request) of None \<Rightarrow> None | Some key \<Rightarrow> source_volume db i key)
      (values_of request) db' r \<and>
    (\<forall>a. r = Admitted a False \<longrightarrow> al_operationKey a = k \<and>
       (\<forall>b \<in> set (db_allocations db). \<not> (al_domain b = i \<and> al_operationKey b = k)))"
proof (cases "allocationValues request")
  case None
  then show ?thesis using assms(1) by (simp add: admit_def admission_ok_def)
next
  case (Some vals)
  note vals = admitted_values[OF Some]
  show ?thesis
  proof (cases "find_domain db i")
    case None
    then show ?thesis using assms(1) Some by (simp add: admit_def lockDomain_def admission_ok_def)
  next
    case domain: (Some d)
    show ?thesis
    proof (cases "List.find (\<lambda>a. al_domain a = i \<and> al_operationKey a = k) (db_allocations db)")
      case prior: (Some p)
      then show ?thesis using assms(1,3) Some domain vals(1) find_SomeD[OF prior]
        by (auto simp: admit_def lockDomain_def admission_ok_def live_def)
    next
      case fresh: None
      let ?source = "case av_sourceKey vals of None \<Rightarrow> None | Some key \<Rightarrow> source_volume db i key"
      consider (inactive) "rd_state d \<noteq> Domain_active \<and> request_use request \<noteq> Protection"
        | (held) "list_ex (\<lambda>a. al_domain a = i \<and> al_use a = request_use request \<and>
             al_objectKey a = request_object request \<and> live a) (db_allocations db)"
        | (orphan) key where "av_sourceKey vals = Some key" "source_volume db i key = None"
        | (new) "\<not> (rd_state d \<noteq> Domain_active \<and> request_use request \<noteq> Protection)"
            "\<not> list_ex (\<lambda>a. al_domain a = i \<and> al_use a = request_use request \<and>
             al_objectKey a = request_object request \<and> live a) (db_allocations db)"
            "?source \<noteq> None \<longleftrightarrow> request_use request = Protection"
      proof (cases "av_sourceKey vals")
        case None
        then show ?thesis using that(1,2,4) vals(4) by auto
      next
        case (Some key)
        then show ?thesis using that vals(4) by (cases "source_volume db i key") auto
      qed
      then show ?thesis
      proof cases
        case inactive
        then show ?thesis using assms(1,3) Some domain fresh by (simp add: admit_def lockDomain_def admission_ok_def)
      next
        case held
        then show ?thesis using assms(1,3) Some domain fresh by (simp add: admit_def lockDomain_def admission_ok_def)
      next
        case orphan
        then show ?thesis using assms(1,3) Some domain fresh by (simp add: admit_def lockDomain_def admission_ok_def)
      next
        case new
        have run: "admit db isolation i k request newId now = admit_new db i k vals ?source newId now"
          using assms(3) Some domain fresh new vals(4)
          by (cases "av_sourceKey vals") (auto simp: admit_def lockDomain_def split: option.splits)
        have "\<forall>b \<in> set (db_allocations db). \<not> (al_domain b = i \<and> al_operationKey b = k)"
          using fresh by (auto simp: find_None_iff)
        moreover have "\<forall>b \<in> set (db_allocations db). \<not> (al_domain b = i \<and> al_use b = request_use request \<and>
           al_objectKey b = request_object request \<and> live b)"
          using new(2) by (auto simp: list_ex_iff)
        ultimately obtain db' r where "admit_new db i k vals ?source newId now = Inr (db', r)"
            "admission_ok db i ?source vals db' r" "ledger_ok db'"
          using admit_new_ok[OF assms(1) domain Some assms(2), of k ?source now] new(3) by blast
        moreover from this(1) have "r = Admitted a False \<Longrightarrow> al_operationKey a = k" for a
          by (auto dest: admit_new_key)
        ultimately show ?thesis
          unfolding run vals(1)[symmetric]
          using \<open>\<forall>b \<in> set (db_allocations db). \<not> (al_domain b = i \<and> al_operationKey b = k)\<close> by blast
      qed
    qed
  qed
qed

lemma admit_isolation:
  assumes "admit db isolation i k request newId now = Inr (db', r)" "isolation \<noteq> ''read committed''"
  shows "db' = db \<and> (\<forall>a b. r \<noteq> Admitted a b)"
  using assms by (auto simp: admit_def lockDomain_def res_simps split: option.splits)

lemma setBudget_rows:
  assumes "setBudget db i revision b = Inr (db', r)"
  shows "db' = db\<lparr>db_domains := map (\<lambda>d. if rd_id d = i \<and> rd_revision d = revision
       then d\<lparr>rd_budget := b, rd_revision := rd_revision d + 1\<rparr> else d) (db_domains db)\<rparr>"
    and "\<forall>d \<in> set (db_domains db). rd_id d = i \<and> rd_revision d = revision \<longrightarrow>
       domain_check (d\<lparr>rd_budget := b, rd_revision := rd_revision d + 1\<rparr>)"
  using assms
  by (auto simp: setBudget_def Let_def res_simps list_all_iff split: if_splits option.splits)

lemma step_ok:
  assumes "domain_step db db'" "ledger_ok db" "within_safe db"
  shows "ledger_ok db' \<and> within_safe db'"
  using assms
proof (cases rule: domain_step.cases)
  case (ensures key b kind newId now r)
  then have "db_allocations db' = db_allocations db" "db_domains db' = db_domains db \<or>
      (\<exists>d. db_domains db' = db_domains db @ [d] \<and> domain_check d \<and> rd_id d \<notin> rd_id ` set (db_domains db) \<and>
         rd_key d \<notin> rd_key ` set (db_domains db))"
    by (auto simp: ensure_def Let_def find_None_iff split: if_splits option.splits)
  then show ?thesis using assms(2,3) by (fastforce simp: ledger_ok_def within_safe_def)
next
  case (sets_budget i revision b r)
  let ?f = "\<lambda>d. if rd_id d = i \<and> rd_revision d = revision then d\<lparr>rd_budget := b, rd_revision := rd_revision d + 1\<rparr> else d"
  note rows = setBudget_rows[OF sets_budget]
  have f: "rd_id (?f d) = rd_id d" "rd_key (?f d) = rd_key d" for d by simp_all
  have "domain_check (?f d)" if "d \<in> set (db_domains db)" for d
    using that rows(2) assms(2) by (simp add: ledger_ok_def)
  then have "\<forall>d \<in> set (map ?f (db_domains db)). domain_check d" unfolding set_map ball_simps by blast
  moreover have "map rd_id (map ?f (db_domains db)) = map rd_id (db_domains db)"
    "map rd_key (map ?f (db_domains db)) = map rd_key (db_domains db)"
    by (simp_all add: f comp_def)
  ultimately have "ledger_ok db'"
    unfolding rows(1) by (intro ledger_domains[OF assms(2)])
  then show ?thesis using assms(3) by (simp add: rows(1) within_safe_def)
next
  case (admits isolation i k request newId now r)
  show ?thesis
  proof (cases "isolation = ''read committed''")
    case True
    from admit_cases[OF assms(2) admits(2) True, of i k request now] admits(1)
    have ok: "ledger_ok db'" and r: "admission_ok db i (case av_sourceKey (values_of request) of None \<Rightarrow> None | Some key \<Rightarrow> source_volume db i key)
      (values_of request) db' r" by auto
    have "held (db_allocations db') j dim \<le> MAX_SAFE_INTEGER" for j dim
    proof (cases "db' = db")
      case True
      then show ?thesis using assms(3) by (simp add: within_safe_def)
    next
      case False
      then obtain a where a: "r = Admitted a False" using r by (cases r) (auto simp: admission_ok_def split: bool.splits)
      show ?thesis
      proof (cases "j = i")
        case False
        then have "held (db_allocations db') j dim = held (db_allocations db) j dim"
          using r unfolding a admission_ok_def admission.case bool.case by blast
        then show ?thesis using assms(3) by (simp add: within_safe_def)
      next
        case True
        let ?ask = "requested_in (values_of request) (case av_sourceKey (values_of request) of None \<Rightarrow> None | Some key \<Rightarrow> source_volume db i key) dim"
        show ?thesis
        proof (cases "?ask > 0")
          case True
          then obtain d where "find_domain db i = Some d" "held (db_allocations db') i dim \<le> amount_in dim (rd_budget d)"
            using r a by (auto simp: admission_ok_def)
          moreover from this(1) have "domain_check d" using find_domain_Some assms(2) by (auto simp: ledger_ok_def)
          then have "amount_in dim (rd_budget d) \<le> MAX_SAFE_INTEGER" by (simp add: domain_check_def list_all_iff)
          ultimately show ?thesis using \<open>j = i\<close> by simp
        next
          case False
          moreover have "held (db_allocations db') i dim = held (db_allocations db) i dim + ?ask"
            using r unfolding a admission_ok_def admission.case bool.case by blast
          ultimately have "held (db_allocations db') i dim \<le> held (db_allocations db) i dim" by linarith
          then show ?thesis using assms(3) \<open>j = i\<close> by (auto simp: within_safe_def intro: order_trans)
        qed
      qed
    qed
    then show ?thesis using ok by (simp add: within_safe_def)
  next
    case False
    then show ?thesis using admit_isolation[OF admits(1)] assms(2,3) by simp
  qed
next
  case (records isolation i x event now r)
  then show ?thesis
    using record_ok[OF assms(2) records] record_held(1)[OF assms(2) records] assms(3)
    unfolding within_safe_def by (meson order_trans)
next
  case (fences i state)
  have "ledger_ok (setDomainState db i state)"
    unfolding setDomainState_def
    using assms(2) by (intro ledger_domains) (auto simp: comp_def ledger_ok_def domain_check_def if_distrib[of rd_id] if_distrib[of rd_key])
  then show ?thesis using assms(3) fences by (simp add: within_safe_def setDomainState_def)
next
  case (decides wrap later d now r)
  then have "db_allocations db' = db_allocations db \<and> db_domains db' = db_domains db"
    by (auto simp: decideMember_def write_decision_def Let_def split: sum.splits prod.splits option.splits if_splits)
  then show ?thesis using assms(2,3) by (simp add: ledger_ok_def within_safe_def)
qed

lemma reachable_ok:
  assumes "reachable_db db"
  shows "ledger_ok db" "within_safe db"
proof -
  from assms obtain users where "domain_step\<^sup>*\<^sup>* (new_database users) db" by (auto simp: reachable_db_def)
  then have "ledger_ok db \<and> within_safe db"
  proof (induction rule: rtranclp_induct)
    case base
    show ?case by (simp add: new_database_def ledger_ok_def within_safe_def held_def live_rows_def MAX_SAFE_INTEGER_def)
  next
    case (step db db')
    then show ?case using step_ok by blast
  qed
  then show "ledger_ok db" "within_safe db" by auto
qed

section \<open>Admission\<close>

lemma admission_exact:
  assumes "reachable_db db" "newId \<notin> al_id ` set (db_allocations db)"
  shows "\<exists>db' r. admit db ''read committed'' i k request newId now = Inr (db', r) \<and>
    (\<forall>a. r = Admitted a False \<longrightarrow>
       (\<forall>dim. held (db_allocations db') i dim = held (db_allocations db) i dim + asked db i request dim \<and>
          0 \<le> asked db i request dim \<and>
          (asked db i request dim > 0 \<longrightarrow>
             (\<exists>d. find_domain db i = Some d \<and> held (db_allocations db') i dim \<le> amount_in dim (rd_budget d)))) \<and>
       (\<forall>j dim. j \<noteq> i \<longrightarrow> held (db_allocations db') j dim = held (db_allocations db) j dim)) \<and>
    (\<forall>dim used reserved requested limit. r = Over_budget dim used reserved requested limit \<longrightarrow>
       used + reserved = held (db_allocations db) i dim \<and> requested = asked db i request dim \<and>
       used + reserved + requested > limit \<and> requested > 0) \<and>
    ((\<forall>a. r \<noteq> Admitted a False) \<longrightarrow> db' = db)"
proof -
  from admit_cases[OF reachable_ok(1)[OF assms(1)] assms(2) refl, of i k request now]
  obtain db' r where run: "admit db ''read committed'' i k request newId now = Inr (db', r)"
    and r: "admission_ok db i (case av_sourceKey (values_of request) of None \<Rightarrow> None | Some key \<Rightarrow> source_volume db i key)
      (values_of request) db' r" by blast
  note r' = r[folded asked_def, unfolded admission_ok_def]
  have "\<forall>a. r = Admitted a False \<longrightarrow>
       (\<forall>dim. held (db_allocations db') i dim = held (db_allocations db) i dim + asked db i request dim \<and>
          0 \<le> asked db i request dim \<and>
          (asked db i request dim > 0 \<longrightarrow>
             (\<exists>d. find_domain db i = Some d \<and> held (db_allocations db') i dim \<le> amount_in dim (rd_budget d)))) \<and>
       (\<forall>j dim. j \<noteq> i \<longrightarrow> held (db_allocations db') j dim = held (db_allocations db) j dim)"
  proof (intro allI impI)
    fix a assume a: "r = Admitted a False"
    show "(\<forall>dim. held (db_allocations db') i dim = held (db_allocations db) i dim + asked db i request dim \<and>
          0 \<le> asked db i request dim \<and>
          (asked db i request dim > 0 \<longrightarrow>
             (\<exists>d. find_domain db i = Some d \<and> held (db_allocations db') i dim \<le> amount_in dim (rd_budget d)))) \<and>
       (\<forall>j dim. j \<noteq> i \<longrightarrow> held (db_allocations db') j dim = held (db_allocations db) j dim)"
      using r' unfolding a admission.case bool.case asked_def by blast
  qed
  moreover have "\<forall>dim used reserved requested limit. r = Over_budget dim used reserved requested limit \<longrightarrow>
       used + reserved = held (db_allocations db) i dim \<and> requested = asked db i request dim \<and>
       used + reserved + requested > limit \<and> requested > 0"
    using r by (auto simp: admission_ok_def asked_def)
  moreover have "(\<forall>a. r \<noteq> Admitted a False) \<longrightarrow> db' = db"
    using r by (cases r) (auto simp: admission_ok_def split: bool.splits)
  ultimately show ?thesis using run by blast
qed

text \<open>
  C35: An admission holds exactly what it asks for and never beyond the budget. After any history of
  domains, budgets, admissions and events, at read committed, the admission always answers (no
  constraint of the tables ever stops it), and if it admits anew then the domain holds just what was
  asked more, in every dimension it asked in it is within the budget afterwards, and no other domain
  holds anything else; a backup asks only for what its volume's unused reserve does not cover. If it
  is over the budget the numbers it answers are the sums, and nothing was written; nor by any other
  answer.
\<close>

theorem admission_within_budget:
  assumes "reachable_db db" "newId \<notin> al_id ` set (db_allocations db)"
  shows "\<exists>db' r. admit db ''read committed'' i k request newId now = Inr (db', r) \<and>
    (\<forall>a. r = Admitted a False \<longrightarrow>
       (\<forall>dim. held (db_allocations db') i dim = held (db_allocations db) i dim + asked db i request dim \<and>
          0 \<le> asked db i request dim \<and>
          (asked db i request dim > 0 \<longrightarrow>
             (\<exists>d. find_domain db i = Some d \<and> held (db_allocations db') i dim \<le> amount_in dim (rd_budget d)))) \<and>
       (\<forall>j dim. j \<noteq> i \<longrightarrow> held (db_allocations db') j dim = held (db_allocations db) j dim)) \<and>
    (\<forall>dim used reserved requested limit. r = Over_budget dim used reserved requested limit \<longrightarrow>
       used + reserved = held (db_allocations db) i dim \<and> requested = asked db i request dim \<and>
       used + reserved + requested > limit \<and> requested > 0) \<and>
    ((\<forall>a. r \<noteq> Admitted a False) \<longrightarrow> db' = db)"
  by (rule admission_exact[OF assms])

definition scope_example :: domains_db where
  "scope_example = \<lparr>db_domains = [\<lparr>rd_id = ''rdm:1'', rd_key = ''app:x'', rd_ownerKind = Project, rd_state = Domain_active,
      rd_budget = \<lparr>bu_cpuMillicores = 1000, bu_memoryBytes = 100, bu_storageBytes = 50\<rparr>, rd_revision = 1, rd_createdAt = 0\<rparr>],
    db_members = [], db_allocations = [], db_users = [''ann'']\<rparr>"

definition volume_row :: allocation where
  "volume_row = \<lparr>al_id = ''al1'', al_domain = ''rdm:1'', al_use = Volume, al_objectKey = ''vol'', al_sourceKey = None,
     al_source = None, al_operationKey = ''op1'', al_cpu = 0, al_memory = 0, al_storage = 30, al_protection = 10,
     al_state = Reserved, al_updatedAt = 1\<rparr>"

definition volume_example :: domains_db where
  "volume_example = scope_example\<lparr>db_allocations := [volume_row]\<rparr>"

lemma scope_example_reachable: "reachable_db scope_example"
proof -
  have "ensure (new_database [''ann'']) ''app:x'' (Some \<lparr>bu_cpuMillicores = 1000, bu_memoryBytes = 100, bu_storageBytes = 50\<rparr>)
      None ''rdm:1'' 0 = Inr (scope_example, Ensured (hd (db_domains scope_example)) True)"
    by code_simp
  from domain_step.ensures[OF this] show ?thesis unfolding reachable_db_def by blast
qed

lemma volume_example_reachable: "reachable_db volume_example"
proof -
  have "admit scope_example ''read committed'' ''rdm:1'' ''op1'' (Volume_request ''vol'' 30 10) ''al1'' 1 =
      Inr (volume_example, Admitted volume_row False)"
    by code_simp
  moreover have "''al1'' \<notin> al_id ` set (db_allocations scope_example)" by (simp add: scope_example_def)
  ultimately have "domain_step scope_example volume_example" by (rule domain_step.admits)
  then show ?thesis
    using scope_example_reachable unfolding reachable_db_def by (meson rtranclp.rtrancl_into_rtrancl)
qed

theorem admission_within_budget_witness:
  "\<exists>db' a. admit volume_example ''read committed'' ''rdm:1'' ''op2'' (Protection_request ''bak'' ''vol'' 12) ''al2'' 2 =
      Inr (db', Admitted a False) \<and>
    held (db_allocations db') ''rdm:1'' StorageBytes = held (db_allocations volume_example) ''rdm:1'' StorageBytes + 2"
proof -
  obtain db' r where run: "admit volume_example ''read committed'' ''rdm:1'' ''op2'' (Protection_request ''bak'' ''vol'' 12) ''al2'' 2 =
      Inr (db', r)"
    and grown: "\<And>a. r = Admitted a False \<Longrightarrow> held (db_allocations db') ''rdm:1'' StorageBytes =
      held (db_allocations volume_example) ''rdm:1'' StorageBytes +
        asked volume_example ''rdm:1'' (Protection_request ''bak'' ''vol'' 12) StorageBytes"
    using admission_within_budget[OF volume_example_reachable, of "''al2''" "''rdm:1''" "''op2''"
        "Protection_request ''bak'' ''vol'' 12" 2]
    by (force simp: volume_example_def volume_row_def)
  have "(case admit volume_example ''read committed'' ''rdm:1'' ''op2'' (Protection_request ''bak'' ''vol'' 12) ''al2'' 2 of
      Inr (db', Admitted a b) \<Rightarrow> \<not> b | _ \<Rightarrow> False)"
    by code_simp
  then obtain a where "r = Admitted a False" using run by (auto split: admission.splits)
  moreover have "asked volume_example ''rdm:1'' (Protection_request ''bak'' ''vol'' 12) StorageBytes = 2" by code_simp
  ultimately show ?thesis using run grown by auto
qed

section \<open>Every amount is exact\<close>

lemma sum_where_bound:
  assumes "\<And>a. a \<in> set rows \<Longrightarrow> 0 \<le> f a" "\<And>a. a \<in> set rows \<Longrightarrow> P a \<Longrightarrow> g a \<le> f a" "\<And>a. a \<in> set rows \<Longrightarrow> P a \<Longrightarrow> 0 \<le> g a"
  shows "0 \<le> sum_where P g rows \<and> sum_where P g rows \<le> sum_list (map f rows)"
  using assms unfolding sum_where_def
proof (induction rows)
  case (Cons a rows)
  have "0 \<le> sum_list (map g (filter P rows)) \<and> sum_list (map g (filter P rows)) \<le> sum_list (map f rows)"
    using Cons by simp
  then show ?case using Cons.prems[of a] by (cases "P a") auto
qed simp

text \<open>
  A budget read is exact: it never fails, what it reports as used and reserved is together what the
  domain holds, every amount, limits and revision included, is a safe integer (so no conversion rounds
  it), and archived and protection bytes are part of the storage held.
\<close>

lemma budget_read_is_exact:
  assumes "reachable_db db"
  shows "\<exists>answer. getBudget db i = Inr answer \<and>
    (\<forall>r. answer = Some r \<longrightarrow>
      (\<forall>dim. amount_in dim (bc_used (br_charge r)) + amount_in dim (bc_reserved (br_charge r)) = held (db_allocations db) i dim \<and>
         isSafeInteger (amount_in dim (bc_used (br_charge r))) \<and> isSafeInteger (amount_in dim (bc_reserved (br_charge r))) \<and>
         isSafeInteger (amount_in dim (br_budget r))) \<and>
      isSafeInteger (br_revision r) \<and>
      0 \<le> bc_archivedBytes (br_charge r) \<and> bc_archivedBytes (br_charge r) \<le> held (db_allocations db) i StorageBytes \<and>
      0 \<le> bc_protectionBytes (br_charge r) \<and> bc_protectionBytes (br_charge r) \<le> held (db_allocations db) i StorageBytes \<and>
      held (db_allocations db) i StorageBytes \<le> MAX_SAFE_INTEGER)"
proof (cases "find_domain db i")
  case None
  then show ?thesis by (simp add: getBudget_def budgetOf_exact)
next
  case (Some d)
  let ?all = "db_allocations db" and ?rows = "live_rows (db_allocations db) i"
  note ok = reachable_ok[OF assms]
  have check: "allocation_check a" if "a \<in> set ?all" for a using ok(1) that by (simp add: ledger_ok_def)
  have charge: "0 \<le> charge_in dim ?all a" if "a \<in> set ?rows" for a dim
    using check charge_nonneg that by (simp add: live_rows_def)
  have bound: "0 \<le> sum_where P (charge_in dim ?all) ?rows \<and> sum_where P (charge_in dim ?all) ?rows \<le> MAX_SAFE_INTEGER" for P dim
    using sum_where_bound[of ?rows "charge_in dim ?all" P "charge_in dim ?all"] charge ok(2)
    by (fastforce simp: within_safe_def held_def intro: order_trans)
  have storage: "al_use a = Volume \<Longrightarrow> 0 \<le> al_storage a \<and> al_storage a \<le> charge_in StorageBytes ?all a"
    "al_use a = Protection \<Longrightarrow> 0 \<le> al_protection a \<and> al_protection a \<le> charge_in StorageBytes ?all a"
    "al_state a = Archived_volume \<Longrightarrow> al_use a = Volume" if "a \<in> set ?rows" for a
    using check[of a] that by (auto simp: live_rows_def allocation_check_def unused_reserve_def)
  have archived: "0 \<le> sum_where (\<lambda>a. al_state a = Archived_volume) al_storage ?rows \<and>
      sum_where (\<lambda>a. al_state a = Archived_volume) al_storage ?rows \<le> held ?all i StorageBytes"
    unfolding held_def by (rule sum_where_bound) (use charge storage in \<open>auto simp del: charge_in.simps\<close>)
  have protection: "0 \<le> sum_where (\<lambda>a. al_use a = Protection) al_protection ?rows \<and>
      sum_where (\<lambda>a. al_use a = Protection) al_protection ?rows \<le> held ?all i StorageBytes"
    unfolding held_def by (rule sum_where_bound) (use charge storage in \<open>auto simp del: charge_in.simps\<close>)
  have "domain_check d" using find_domain_Some[OF Some] ok(1) by (auto simp: ledger_ok_def)
  then have "isSafeInteger (amount_in dim (rd_budget d))" "isSafeInteger (rd_revision d)" for dim
    by (auto simp: domain_check_def list_all_iff isSafeInteger_def MAX_SAFE_INTEGER_def
        dest!: bspec[OF _ all_dimensions[of dim]])
  moreover have "isSafeInteger (sum_where P (charge_in dim ?all) ?rows)" for P dim
    using bound[of P dim] by (simp add: isSafeInteger_def MAX_SAFE_INTEGER_def)
  moreover have "held ?all i StorageBytes \<le> MAX_SAFE_INTEGER" using ok(2) by (simp add: within_safe_def)
  ultimately show ?thesis
    using Some archived protection used_and_reserved
    by (simp add: getBudget_def budgetOf_exact toRecord_def Let_def)
qed

section \<open>Operations and events settle once\<close>

lemma admit_rows:
  assumes "admit db isolation i k request newId now = Inr (db', r)"
  shows "db_allocations db' = db_allocations db \<or> (\<exists>a. db_allocations db' = db_allocations db @ [a])"
proof -
  have new: "db_allocations db' = db_allocations db \<or> (\<exists>a. db_allocations db' = db_allocations db @ [a])"
    if "admit_new db i k vals source newId now = Inr (db', r)" for vals source
    using that unfolding admit_new_def bind_res_Inr insert_allocation_def
    by (auto simp: Let_def res_simps split: option.splits if_splits)
  show ?thesis
    using assms unfolding admit_def
    by (auto simp: res_simps lockDomain_def split: option.splits if_splits dest!: new)
qed

text \<open>A row keeps its identity and, once released, its state.\<close>

definition keeps_row :: "domains_db \<Rightarrow> domains_db \<Rightarrow> bool" where
  "keeps_row db db' \<longleftrightarrow> (\<forall>a \<in> set (db_allocations db). \<exists>b \<in> set (db_allocations db').
     al_id b = al_id a \<and> al_domain b = al_domain a \<and> al_operationKey b = al_operationKey a \<and>
     (al_state a = Released \<longrightarrow> b = a))"

lemma step_keeps_row:
  assumes "domain_step db db'"
  shows "keeps_row db db'"
proof -
  have same: "keeps_row db db'" if "set (db_allocations db) \<subseteq> set (db_allocations db')"
    using that by (auto simp: keeps_row_def)
  from assms show ?thesis
  proof (cases rule: domain_step.cases)
    case (ensures key b kind newId now r)
    then have "db_allocations db' = db_allocations db"
      by (auto simp: ensure_def Let_def split: if_splits option.splits)
    then show ?thesis by (intro same) simp
  next
    case (sets_budget i revision b r)
    then show ?thesis by (intro same) (simp add: setBudget_rows(1)[OF sets_budget])
  next
    case (admits isolation i k request newId now r)
    then show ?thesis using admit_rows[OF admits(1)] by (intro same) auto
  next
    case (records isolation i x event now r)
    have "moved_at i x event now a = a" if "al_state a = Released" for a
      using that applies_live[of event a] by (auto simp: moved_at_def live_def)
    then have "keeps_row db (db\<lparr>db_allocations := map (moved_at i x event now) (db_allocations db)\<rparr>)"
      by (fastforce simp: keeps_row_def)
    then show ?thesis using record_event_rows[OF records] same by auto
  next
    case (fences i state)
    then show ?thesis by (intro same) (simp add: setDomainState_def)
  next
    case (decides wrap later d now r)
    then have "db_allocations db' = db_allocations db"
      by (auto simp: decideMember_def write_decision_def Let_def split: sum.splits prod.splits option.splits if_splits)
    then show ?thesis by (intro same) simp
  qed
qed

lemma keeps_row_trans: "keeps_row a b \<Longrightarrow> keeps_row b c \<Longrightarrow> keeps_row a c"
  unfolding keeps_row_def by metis

lemma steps_keep_row: "domain_step\<^sup>*\<^sup>* db db' \<Longrightarrow> keeps_row db db'"
proof (induction rule: rtranclp_induct)
  case base
  show ?case by (auto simp: keeps_row_def)
next
  case (step y z)
  then show ?case using keeps_row_trans step_keeps_row by blast
qed

lemma prior_operation:
  assumes "a \<in> set (db_allocations db)" "al_domain a = i" "al_operationKey a = k"
    and "admit db isolation i k request newId now = Inr (db', r)"
  shows "db' = db \<and> (\<forall>b. r \<noteq> Admitted b False) \<and>
    (\<forall>b. r = Admitted b True \<longrightarrow> b \<in> set (db_allocations db) \<and> al_domain b = i \<and> al_operationKey b = k \<and>
       sameAllocation b (values_of request))"
proof (cases "List.find (\<lambda>a. al_domain a = i \<and> al_operationKey a = k) (db_allocations db)")
  case None
  then show ?thesis using assms(1-3) by (auto simp: find_None_iff)
next
  case (Some p)
  then show ?thesis
    using assms(4) find_SomeD[OF Some] admitted_values(1)[of request]
    by (auto simp: admit_def res_simps lockDomain_def split: option.splits if_splits)
qed

text \<open>
  An operation key is charged once. After an admission under it, whatever happens to the domain
  (other admissions, events that release it, budget changes), the same key never admits anew: it
  answers the allocation already there when the request is the same, or refuses, and writes nothing.
\<close>

lemma operation_charged_once:
  assumes "admit db isolation i k request newId now = Inr (db1, Admitted a False)"
    and "reachable_db db" "newId \<notin> al_id ` set (db_allocations db)"
    and "domain_step\<^sup>*\<^sup>* db1 db2"
    and "admit db2 isolation2 i k request2 newId2 now2 = Inr (db3, r)"
  shows "db3 = db2 \<and> (\<forall>b. r \<noteq> Admitted b False) \<and>
    (\<forall>b. r = Admitted b True \<longrightarrow> b \<in> set (db_allocations db2) \<and> al_domain b = i \<and> al_operationKey b = k \<and>
       sameAllocation b (values_of request2))"
proof -
  have iso: "isolation = ''read committed''" using admit_isolation[OF assms(1)] by auto
  from admit_cases[OF reachable_ok(1)[OF assms(2)] assms(3) iso, of i k request now] assms(1)
  have "admission_ok db i (case av_sourceKey (values_of request) of None \<Rightarrow> None | Some key \<Rightarrow> source_volume db i key)
      (values_of request) db1 (Admitted a False)" "al_operationKey a = k" by auto
  then have "a \<in> set (db_allocations db1)" "al_domain a = i" "al_operationKey a = k"
    by (simp_all add: admission_ok_def)
  moreover from this(1) steps_keep_row[OF assms(4)] obtain b where "b \<in> set (db_allocations db2)"
    "al_domain b = al_domain a" "al_operationKey b = al_operationKey a" unfolding keeps_row_def by blast
  ultimately show ?thesis using assms(5) by (intro prior_operation[of b]) simp_all
qed

lemma find_moved:
  assumes "ledger_ok db" "List.find (\<lambda>a. (al_id a = x \<and> al_domain a = i) \<and> applies event a) (db_allocations db) = Some a"
  shows "List.find (\<lambda>a. al_id a = x \<and> al_domain a = i) (map (moved_at i x event now) (db_allocations db)) = Some (move event now a)"
proof -
  have "List.find (\<lambda>a. al_id a = x \<and> al_domain a = i) (map (moved_at i x event now) rows) = Some (move event now a)"
    if "distinct (map al_id rows)" "List.find (\<lambda>a. (al_id a = x \<and> al_domain a = i) \<and> applies event a) rows = Some a" for rows
    using that
  proof (induction rows)
    case (Cons b rows)
    show ?case
    proof (cases "al_id b = x \<and> al_domain b = i")
      case True
      have "applies event b"
      proof (rule ccontr)
        assume "\<not> applies event b"
        then have "List.find (\<lambda>a. (al_id a = x \<and> al_domain a = i) \<and> applies event a) rows = Some a" using Cons.prems(2) by simp
        from find_SomeD[OF this] have "a \<in> set rows" "al_id a = al_id b" using True by auto
        then show False using Cons.prems(1) imageI[of a "set rows" al_id] by simp
      qed
      then show ?thesis using True Cons.prems by (simp add: moved_at_def move_def)
    next
      case False
      then show ?thesis using Cons by auto
    qed
  qed simp
  then show ?thesis using ledger_ids[OF assms(1)] assms(2) by blast
qed

lemma moved_done: "al_state a \<in> set (event_from event) \<Longrightarrow> \<not> applies event (move event now a)"
  by (cases event) (auto simp: applies_def move_def)

lemma event_recorded:
  assumes "ledger_ok db" "record_event db ''read committed'' i x event now = Inr (db', Recorded a)"
  shows "List.find (\<lambda>a. al_id a = x \<and> al_domain a = i) (db_allocations db') = Some a"
    "al_state a = event_to event" "al_use a \<in> set (event_uses event)" "\<not> applies event a"
    "find_domain db' i \<noteq> None"
proof -
  note ok = assms(1)
  let ?at = "\<lambda>a. al_id a = x \<and> al_domain a = i"
  obtain d where d: "find_domain db i = Some d"
    using assms(2) by (auto simp: record_event_def lockDomain_def res_simps split: option.splits)
  have domains: "db_domains db' = db_domains db" using record_event_rows[OF assms(2)] by auto
  then show "find_domain db' i \<noteq> None" using d by (simp add: find_domain_def)
  have all: "List.find ?at (db_allocations db') = Some a \<and> al_state a = event_to event \<and>
      al_use a \<in> set (event_uses event) \<and> \<not> applies event a"
  proof (cases "List.find (\<lambda>a. ?at a \<and> applies event a) (db_allocations db)")
    case (Some b)
    then have "a = move event now b" "db' = db\<lparr>db_allocations := map (moved_at i x event now) (db_allocations db)\<rparr>"
      using assms(2) d by (auto simp: record_event_def lockDomain_def moved_at_def[abs_def])
    moreover have "applies event b" using find_SomeD[OF Some] by simp
    ultimately show ?thesis
      using find_moved[OF ok Some] moved_done[of b event now] by (auto simp: applies_def move_def)
  next
    case None
    then obtain b where b: "List.find ?at (db_allocations db) = Some b" "a = b" "db' = db"
      "al_state b = event_to event" "al_use b \<in> set (event_uses event)"
      using assms(2) d by (auto simp: record_event_def lockDomain_def split: option.splits if_splits)
    moreover have "\<not> applies event b" using None find_SomeD[OF b(1)] by (auto simp: find_None_iff)
    ultimately show ?thesis by auto
  qed
  then show "List.find ?at (db_allocations db') = Some a" "al_state a = event_to event"
    "al_use a \<in> set (event_uses event)" "\<not> applies event a" by blast+
qed

text \<open>
  An event is recorded once and for good. Recording it again, at any time, answers the very same
  row and writes nothing; it never adds to what any domain holds, and only a stop or a purge takes
  anything off; an event that does not apply writes nothing; and a released allocation stays as it is
  whatever happens afterwards.
\<close>

lemma event_settles_once:
  assumes "reachable_db db" "record_event db ''read committed'' i x event now = Inr (db', outcome)"
  shows "(\<forall>a. outcome = Recorded a \<longrightarrow>
      a \<in> set (db_allocations db') \<and> al_id a = x \<and> al_domain a = i \<and> al_state a = event_to event \<and>
      record_event db' ''read committed'' i x event later = Inr (db', Recorded a) \<and>
      (al_state a = Released \<longrightarrow> (\<forall>db2. domain_step\<^sup>*\<^sup>* db' db2 \<longrightarrow> a \<in> set (db_allocations db2)))) \<and>
    (\<forall>j dim. held (db_allocations db') j dim \<le> held (db_allocations db) j dim \<and>
      (event_to event \<noteq> Released \<longrightarrow> held (db_allocations db') j dim = held (db_allocations db) j dim)) \<and>
    ((\<forall>a. outcome \<noteq> Recorded a) \<longrightarrow> db' = db)"
proof (intro conjI)
  show "\<forall>j dim. held (db_allocations db') j dim \<le> held (db_allocations db) j dim \<and>
      (event_to event \<noteq> Released \<longrightarrow> held (db_allocations db') j dim = held (db_allocations db) j dim)"
    using record_held[OF reachable_ok(1)[OF assms(1)] assms(2)] by blast
  show "(\<forall>a. outcome \<noteq> Recorded a) \<longrightarrow> db' = db"
    using assms(2) by (auto simp: record_event_def lockDomain_def res_simps Let_def split: option.splits if_splits)
  show "\<forall>a. outcome = Recorded a \<longrightarrow>
      a \<in> set (db_allocations db') \<and> al_id a = x \<and> al_domain a = i \<and> al_state a = event_to event \<and>
      record_event db' ''read committed'' i x event later = Inr (db', Recorded a) \<and>
      (al_state a = Released \<longrightarrow> (\<forall>db2. domain_step\<^sup>*\<^sup>* db' db2 \<longrightarrow> a \<in> set (db_allocations db2)))"
  proof (intro allI impI)
    fix a assume "outcome = Recorded a"
    note recorded = event_recorded[OF reachable_ok(1)[OF assms(1)] assms(2)[unfolded this]]
    note found = find_SomeD[OF recorded(1)]
    have "reachable_db db'"
      using assms(1) domain_step.records[OF assms(2)] unfolding reachable_db_def by (meson rtranclp.rtrancl_into_rtrancl)
    note ok = reachable_ok(1)[OF this]
    have "List.find (\<lambda>a. (al_id a = x \<and> al_domain a = i) \<and> applies event a) (db_allocations db') = None"
      using recorded(4) same_allocation[OF ok] found by (auto simp: find_None_iff)
    then have again: "record_event db' ''read committed'' i x event later = Inr (db', Recorded a)"
      using recorded by (auto simp: record_event_def lockDomain_def)
    have "a \<in> set (db_allocations db2)" if "al_state a = Released" "domain_step\<^sup>*\<^sup>* db' db2" for db2
      using steps_keep_row[OF that(2)] that(1) found unfolding keeps_row_def by blast
    then show "a \<in> set (db_allocations db') \<and> al_id a = x \<and> al_domain a = i \<and> al_state a = event_to event \<and>
      record_event db' ''read committed'' i x event later = Inr (db', Recorded a) \<and>
      (al_state a = Released \<longrightarrow> (\<forall>db2. domain_step\<^sup>*\<^sup>* db' db2 \<longrightarrow> a \<in> set (db_allocations db2)))"
      using found recorded(2) again by blast
  qed
qed

section \<open>Changing a budget\<close>

definition record_of :: "domains_db \<Rightarrow> string \<Rightarrow> resource_domain \<Rightarrow> budget_record" where
  "record_of db i d = toRecord (let all = db_allocations db; rows = live_rows all i in
     \<lparr>ba_revision = rd_revision d, ba_limit = rd_budget d,
      ba_used = budget_from (\<lambda>dim. sum_where is_used (charge_in dim all) rows),
      ba_reserved = budget_from (\<lambda>dim. sum_where is_reserved (charge_in dim all) rows),
      ba_archived = sum_where (\<lambda>a. al_state a = Archived_volume) al_storage rows,
      ba_protection = sum_where (\<lambda>a. al_use a = Protection) al_protection rows\<rparr>)"

definition changed :: "string \<Rightarrow> int \<Rightarrow> budget \<Rightarrow> resource_domain \<Rightarrow> resource_domain" where
  "changed i revision b d =
     (if rd_id d = i \<and> rd_revision d = revision then d\<lparr>rd_budget := b, rd_revision := rd_revision d + 1\<rparr> else d)"

lemma setBudget_found:
  assumes "setBudget db i revision b = Inr (db', outcome)"
    and "find_domain (db\<lparr>db_domains := map (changed i revision b) (db_domains db)\<rparr>) i = Some e"
  shows "db' = db\<lparr>db_domains := map (changed i revision b) (db_domains db)\<rparr>"
    and "outcome = (if list_ex (\<lambda>d. rd_id d = i \<and> rd_revision d = revision) (db_domains db) \<or>
          (rd_revision e = revision + 1 \<and> sameBudget (rd_budget e) b)
        then Budget_set (record_of db i e) else Budget_stale (rd_revision e))"
  using assms
  by (auto simp: setBudget_def Let_def res_simps budgetOf_exact changed_def[abs_def] record_of_def toRecord_def split: if_splits)

lemma setBudget_again:
  assumes "map (changed i revision b) (db_domains db) = db_domains db"
    and "\<not> list_ex (\<lambda>d. rd_id d = i \<and> rd_revision d = revision) (db_domains db)"
    and "find_domain db i = Some e" "rd_revision e = revision + 1" "sameBudget (rd_budget e) b"
  shows "setBudget db i revision b = Inr (db, Budget_set (record_of db i e))"
proof -
  have "db\<lparr>db_domains := map (changed i revision b) (db_domains db)\<rparr> = db" unfolding assms(1) by simp
  moreover have "list_all (\<lambda>d. rd_id d = i \<and> rd_revision d = revision \<longrightarrow>
      domain_check (d\<lparr>rd_budget := b, rd_revision := rd_revision d + 1\<rparr>)) (db_domains db)"
    using assms(2) by (auto simp: list_ex_iff list_all_iff)
  ultimately show ?thesis
    using assms(3-5) by (simp add: setBudget_def Let_def budgetOf_exact changed_def[abs_def] record_of_def toRecord_def)
qed

lemma sameBudget_eq: "sameBudget a b \<longleftrightarrow> a = b"
  by (cases a; cases b) (auto simp: sameBudget_def DIMENSIONS_def)

lemma find_changed:
  "find_domain (db\<lparr>db_domains := map (changed i revision b) (db_domains db)\<rparr>) i =
    map_option (changed i revision b) (find_domain db i)"
proof -
  have f: "rd_id (changed i revision b d) = rd_id d" for d by (simp add: changed_def)
  have "List.find (\<lambda>d. rd_id d = i) (map (changed i revision b) ds) =
      map_option (changed i revision b) (List.find (\<lambda>d. rd_id d = i) ds)" for ds
    by (induction ds) (auto simp: f)
  then show ?thesis by (simp add: find_domain_def)
qed

lemma setBudget_domains:
  "setBudget db i revision b = Inr (db', outcome) \<Longrightarrow> db' = db\<lparr>db_domains := map (changed i revision b) (db_domains db)\<rparr>"
  using setBudget_rows(1) by (simp add: changed_def[abs_def])

lemma setBudget_missing:
  assumes "setBudget db i revision b = Inr (db', outcome)" "find_domain db i = None"
  shows "db' = db \<and> outcome = Budget_no_domain"
proof
  have none: "rd_id d \<noteq> i" if "d \<in> set (db_domains db)" for d
    using assms(2) that by (auto simp: find_domain_def find_None_iff)
  then show "db' = db" unfolding setBudget_domains[OF assms(1)] by (simp add: changed_def map_idI)
  have "\<not> list_ex (\<lambda>d. rd_id d = i \<and> rd_revision d = revision) (db_domains db)" using none by (auto simp: list_ex_iff)
  then show "outcome = Budget_no_domain"
    using assms find_changed[where db = db and i = i and revision = revision and b = b]
    by (auto simp: setBudget_def Let_def res_simps budgetOf_exact changed_def[abs_def] split: if_splits)
qed

text \<open>The domain a change is written to: once written, no row of it has the revision it named.\<close>

lemma setBudget_repeat:
  assumes "db' = db\<lparr>db_domains := map (changed i revision b) (db_domains db)\<rparr>" "find_domain db i = Some d"
    "rd_revision d = revision" "\<And>e. e \<in> set (db_domains db) \<Longrightarrow> rd_id e = i \<Longrightarrow> e = d"
  shows "setBudget db' i revision b = Inr (db', Budget_set (record_of db' i (changed i revision b d)))"
proof -
  let ?f = "changed i revision b"
  note d = find_domain_Some[OF assms(2)]
  have f: "rd_id (?f x) = rd_id x" for x by (simp add: changed_def)
  have e: "?f d = d\<lparr>rd_budget := b, rd_revision := revision + 1\<rparr>" using d assms(3) by (simp add: changed_def)
  have found: "find_domain db' i = Some (?f d)" using find_changed[where db = db and i = i and revision = revision and b = b] by (simp add: assms(1,2))
  have passed: "\<not> (rd_id x = i \<and> rd_revision x = revision)" if "x \<in> set (db_domains db')" for x
  proof
    assume x: "rd_id x = i \<and> rd_revision x = revision"
    from that obtain y where y: "y \<in> set (db_domains db)" "x = ?f y" by (auto simp: assms(1))
    then have "x = ?f d" using assms(4)[of y] f[of y] x by simp
    then show False using x e by simp
  qed
  have "?f x = x" if "x \<in> set (db_domains db')" for x
    using passed[OF that] unfolding changed_def by (rule if_not_P)
  then have stays: "map ?f (db_domains db') = db_domains db'" by (intro map_idI) auto
  have none: "\<not> list_ex (\<lambda>d. rd_id d = i \<and> rd_revision d = revision) (db_domains db')"
    using passed unfolding list_ex_iff by blast
  show ?thesis by (rule setBudget_again[OF stays none found]) (simp_all add: e sameBudget_eq)
qed

text \<open>
  A budget change is made under the revision it read, once. When it is answered as set, the budget
  is the one asked for at the next revision, and sending the very same change again (its answer was
  lost) is answered the same and changes nothing; a change under a revision that has passed, or of a
  domain that does not exist, changes nothing.
\<close>

lemma budget_change_once:
  assumes "reachable_db db" "setBudget db i revision b = Inr (db', outcome)"
  shows "(\<forall>r. outcome = Budget_set r \<longrightarrow> br_budget r = b \<and> br_revision r = revision + 1 \<and>
      setBudget db' i revision b = Inr (db', Budget_set r)) \<and>
    ((\<forall>r. outcome \<noteq> Budget_set r) \<longrightarrow> db' = db)"
proof (cases "find_domain db i")
  case None
  then show ?thesis using setBudget_missing[OF assms(2)] by simp
next
  case (Some d)
  let ?f = "changed i revision b"
  note db' = setBudget_domains[OF assms(2)] and d = find_domain_Some[OF Some]
  have only: "e = d" if "e \<in> set (db_domains db)" "rd_id e = i" for e
    using reachable_ok(1)[OF assms(1)] that d by (auto simp: ledger_ok_def distinct_map dest: inj_onD)
  have written: "list_ex (\<lambda>d. rd_id d = i \<and> rd_revision d = revision) (db_domains db) \<longleftrightarrow> rd_revision d = revision"
    using only d by (auto simp: list_ex_iff)
  note outcome = setBudget_found(2)[OF assms(2), unfolded find_changed Some, simplified option.map, OF refl, unfolded written]
  show ?thesis
  proof (cases "rd_revision d = revision")
    case True
    then have e: "?f d = d\<lparr>rd_budget := b, rd_revision := revision + 1\<rparr>" using d by (simp add: changed_def)
    have "record_of db i e = record_of db' i e" for e by (simp add: record_of_def db')
    then show ?thesis using outcome True setBudget_repeat[OF db' Some True only]
      by simp (simp add: e record_of_def toRecord_def Let_def)
  next
    case False
    then have same: "?f x = x" if "x \<in> set (db_domains db)" for x using that only by (auto simp: changed_def)
    then have map: "map ?f (db_domains db) = db_domains db" by (intro map_idI) auto
    have "db' = db" unfolding db' map by simp
    moreover have "?f d = d" using same d by simp
    ultimately show ?thesis
      using outcome False setBudget_again[OF map _ Some] written
      by (auto simp: sameBudget_eq record_of_def toRecord_def Let_def split: if_splits)
  qed
qed

end
