(* ===== verification/Resource_Instances.thy ===== *)
theory Resource_Instances
  imports Resource_Ledger_Proofs
begin

text \<open>
  The rows of resource instances (\<open>packages/db/src/repositories/resource-instances.ts\<close>, with
  \<open>schema/resource-instances.ts\<close>): what was asked of an instance, what was last seen of it, the links of
  workspaces to a domain, and which of them reaches which instance
  (\<open>packages/workspaces/src/resources/reach.ts\<close>). The sha256 of a spec's canonical JSON is the parameter
  \<open>digest\<close>; the fields of a spec that only the container runtime reads are one value.
\<close>

section \<open>Rows\<close>

datatype stop_reason = Idle_stop | Person_stop string

datatype desired = Running | Stopped_asked | Archived_asked

datatype observed =
    Not_started | Starting int | Running_since int | Stopped_at int stop_reason | Exited int "int option" | Failed int string
  | Observed_archived int

record spec_volume =
  sv_name :: string
  sv_mountPath :: string
  sv_storageBytes :: "int option"

record instance_spec =
  sp_caller :: bool
  sp_alias :: string
  sp_worktreeKey :: "string option"
  sp_volumes :: "spec_volume list"
  sp_cpuMillicores :: int
  sp_memoryBytes :: int
  sp_idleStopAfterSeconds :: "int option"
  sp_container :: string

datatype hold_use = Hold_compute | Hold_volume

record hold =
  ho_id :: string
  ho_use :: hold_use
  ho_name :: string
  ho_cpuMillicores :: int
  ho_memoryBytes :: int
  ho_storageBytes :: int

record inst =
  is_id :: string
  is_domain :: string
  is_key :: string
  is_spec :: instance_spec
  is_specDigest :: string
  is_secretEnvSealed :: "string option"
  is_secretRevision :: "string option"
  is_allocations :: "hold list"
  is_desired :: desired
  is_stopReason :: "stop_reason option"
  is_observed :: observed
  is_observedAt :: int
  is_volumes :: "spec_volume list"
  is_startedAt :: "int option"
  is_lastReachedAt :: "int option"
  is_createdAt :: int
  is_archivedAt :: "int option"

datatype reach_level = Level_project | Level_worktree

record workspace_link =
  wl_workspaceId :: string
  wl_domain :: string
  wl_worktreeKey :: string
  wl_aliases :: "(string \<times> reach_level) list option"

record instances_db =
  id_ledger :: domains_db
  id_instances :: "inst list"
  id_links :: "workspace_link list"
  id_workspaces :: "string list"

text \<open>The checks of the table and its unique indexes.\<close>

definition instance_check :: "inst \<Rightarrow> bool" where
  "instance_check x \<longleftrightarrow> (is_desired x = Stopped_asked \<longleftrightarrow> is_stopReason x \<noteq> None) \<and>
     (is_desired x = Archived_asked \<longleftrightarrow> is_archivedAt x \<noteq> None)"

definition key_clash :: "inst \<Rightarrow> inst \<Rightarrow> bool" where
  "key_clash x y \<longleftrightarrow> is_domain x = is_domain y \<and> is_key x = is_key y"

definition alias_clash :: "inst \<Rightarrow> inst \<Rightarrow> bool" where
  "alias_clash x y \<longleftrightarrow> is_desired x \<noteq> Archived_asked \<and> is_desired y \<noteq> Archived_asked \<and>
     is_domain x = is_domain y \<and> sp_alias (is_spec x) = sp_alias (is_spec y) \<and>
     (case sp_worktreeKey (is_spec x) of None \<Rightarrow> [] | Some k \<Rightarrow> k) = (case sp_worktreeKey (is_spec y) of None \<Rightarrow> [] | Some k \<Rightarrow> k)"

section \<open>Asking for an instance\<close>

datatype up_cause = Use | Person

datatype up_outcome =
    Upserted inst
  | Up_archived inst
  | Alias_taken
  | Up_domain_not_active domain_state
  | Up_no_such_domain

definition select_instance :: "instances_db \<Rightarrow> string \<Rightarrow> string \<Rightarrow> inst option" where
  "select_instance db i key = List.find (\<lambda>x. is_domain x = i \<and> is_key x = key) (id_instances db)"

definition domain_state_of :: "instances_db \<Rightarrow> string \<Rightarrow> domain_state option" where
  "domain_state_of db i = map_option rd_state (find_domain (id_ledger db) i)"

definition heldByPerson :: "inst \<Rightarrow> bool" where
  "heldByPerson x \<longleftrightarrow> is_desired x = Stopped_asked \<and> (case is_stopReason x of Some (Person_stop by) \<Rightarrow> True | _ \<Rightarrow> False)"

text \<open>The row of an insert, and the row an existing one becomes.\<close>

definition inserted_instance ::
  "string \<Rightarrow> string \<Rightarrow> string \<Rightarrow> instance_spec \<Rightarrow> string \<Rightarrow> (string \<times> string) option \<Rightarrow> int \<Rightarrow> inst"
where
  "inserted_instance newId i key spec digest secrets now =
     \<lparr>is_id = newId, is_domain = i, is_key = key, is_spec = spec, is_specDigest = digest,
      is_secretEnvSealed = map_option fst secrets, is_secretRevision = map_option snd secrets,
      is_allocations = [], is_desired = Running, is_stopReason = None, is_observed = Not_started,
      is_observedAt = now, is_volumes = [], is_startedAt = None, is_lastReachedAt = None,
      is_createdAt = now, is_archivedAt = None\<rparr>"

definition updated_instance ::
  "up_cause \<Rightarrow> instance_spec \<Rightarrow> string \<Rightarrow> (string \<times> string) option \<Rightarrow> inst \<Rightarrow> inst"
where
  "updated_instance cause spec digest secrets x =
     (let written = x\<lparr>is_spec := spec, is_specDigest := digest,
            is_secretEnvSealed := (case secrets of None \<Rightarrow> is_secretEnvSealed x | Some s \<Rightarrow> Some (fst s)),
            is_secretRevision := (case secrets of None \<Rightarrow> is_secretRevision x | Some s \<Rightarrow> Some (snd s))\<rparr>
      in if cause = Use \<and> heldByPerson x then written
         else written\<lparr>is_desired := Running, is_stopReason := None\<rparr>)"

text \<open>
  \<open>up\<close>. The unique index on aliases refuses the write as no row; the read after it sees \<open>later\<close>. The
  upsert either inserts or updates the row of the key, so the row's other fields are as they were.
\<close>

definition up ::
  "instances_db \<Rightarrow> (instance_spec \<Rightarrow> string option \<Rightarrow> string) \<Rightarrow> (instances_db \<Rightarrow> instances_db) \<Rightarrow> string \<Rightarrow> string \<Rightarrow>
   instance_spec \<Rightarrow> up_cause \<Rightarrow> (string \<times> string) option \<Rightarrow> string \<Rightarrow> int \<Rightarrow> instances_db \<times> up_outcome"
where
  "up db digest later i key spec cause secrets newId now =
     (case domain_state_of db i of
        None \<Rightarrow> (db, Up_no_such_domain)
      | Some state \<Rightarrow>
          if state \<noteq> Domain_active then (db, Up_domain_not_active state)
          else
            (let previous = select_instance db i key;
                 revision = (case secrets of Some s \<Rightarrow> Some (snd s)
                   | None \<Rightarrow> (case previous of None \<Rightarrow> None | Some p \<Rightarrow> is_secretRevision p));
                 d = digest spec revision;
                 refused = (case select_instance (later db) i key of
                     Some x \<Rightarrow> if is_desired x = Archived_asked then Up_archived x else Alias_taken
                   | None \<Rightarrow> Alias_taken)
             in (case previous of
                   None \<Rightarrow>
                     let row = inserted_instance newId i key spec d secrets now in
                     if list_ex (alias_clash row) (id_instances db) then (db, refused)
                     else (db\<lparr>id_instances := id_instances db @ [row]\<rparr>, Upserted row)
                 | Some x \<Rightarrow>
                     let row = updated_instance cause spec d secrets x in
                     if is_desired x = Archived_asked then (db, refused)
                     else if list_ex (\<lambda>y. \<not> key_clash y x \<and> alias_clash row y) (id_instances db) then (db, refused)
                     else (db\<lparr>id_instances := map (\<lambda>y. if key_clash y x then row else y) (id_instances db)\<rparr>, Upserted row))))"

datatype desire = Desire_run | Desire_stop stop_reason | Desire_archive

definition desire_row :: "desire \<Rightarrow> int \<Rightarrow> inst \<Rightarrow> inst" where
  "desire_row desire now x =
     (case desire of
        Desire_run \<Rightarrow> x\<lparr>is_desired := Running, is_stopReason := None\<rparr>
      | Desire_stop reason \<Rightarrow> x\<lparr>is_desired := Stopped_asked, is_stopReason := Some reason\<rparr>
      | Desire_archive \<Rightarrow> x\<lparr>is_desired := Archived_asked, is_stopReason := None, is_archivedAt := Some now\<rparr>)"

definition update_where :: "(inst \<Rightarrow> bool) \<Rightarrow> (inst \<Rightarrow> inst) \<Rightarrow> instances_db \<Rightarrow> instances_db" where
  "update_where P f db = db\<lparr>id_instances := map (\<lambda>x. if P x then f x else x) (id_instances db)\<rparr>"

definition find_instance :: "instances_db \<Rightarrow> string \<Rightarrow> inst option" where
  "find_instance db x = List.find (\<lambda>r. is_id r = x) (id_instances db)"

definition setDesired :: "instances_db \<Rightarrow> string \<Rightarrow> desire \<Rightarrow> int \<Rightarrow> instances_db \<times> inst option" where
  "setDesired db x desire now =
     (let db' = update_where (\<lambda>r. is_id r = x \<and> is_desired r \<noteq> Archived_asked) (desire_row desire now) db
      in (db', find_instance db' x))"

definition preparePurge :: "instances_db \<Rightarrow> string \<Rightarrow> int \<Rightarrow> instances_db \<times> inst option" where
  "preparePurge db x now =
     (let P = (\<lambda>r. is_id r = x \<and> is_desired r \<noteq> Running);
          f = (\<lambda>r. r\<lparr>is_desired := Archived_asked, is_stopReason := None, is_archivedAt := Some now,
                 is_observed := Observed_archived now, is_observedAt := now,
                 is_secretEnvSealed := None, is_secretRevision := None\<rparr>)
      in (update_where P f db, map_option f (List.find P (id_instances db))))"

definition delete_instance :: "instances_db \<Rightarrow> string \<Rightarrow> instances_db" where
  "delete_instance db x = db\<lparr>id_instances := filter (\<lambda>r. is_id r \<noteq> x) (id_instances db)\<rparr>"

definition is_archived_state :: "observed \<Rightarrow> bool" where
  "is_archived_state s \<longleftrightarrow> (case s of Observed_archived t \<Rightarrow> True | _ \<Rightarrow> False)"

definition recordObserved ::
  "instances_db \<Rightarrow> string \<Rightarrow> observed \<Rightarrow> int option \<Rightarrow> spec_volume list option \<Rightarrow> hold list option \<Rightarrow> int \<Rightarrow> instances_db"
where
  "recordObserved db x observed startedAt volumes allocations now =
     update_where
       (\<lambda>r. is_id r = x \<and> (is_archived_state observed \<or> allocations \<noteq> None \<or> is_desired r \<noteq> Archived_asked))
       (\<lambda>r. r\<lparr>is_observed := observed, is_observedAt := now,
          is_startedAt := (case startedAt of None \<Rightarrow> is_startedAt r | Some t \<Rightarrow> Some t),
          is_volumes := (case volumes of None \<Rightarrow> is_volumes r | Some v \<Rightarrow> v),
          is_allocations := (case allocations of None \<Rightarrow> is_allocations r | Some a \<Rightarrow> a)\<rparr>) db"

definition touchReached :: "instances_db \<Rightarrow> string list \<Rightarrow> int \<Rightarrow> instances_db" where
  "touchReached db ids at = update_where (\<lambda>r. is_id r \<in> set ids) (\<lambda>r. r\<lparr>is_lastReachedAt := Some at\<rparr>) db"

definition list_instances :: "(string \<Rightarrow> nat) \<Rightarrow> instances_db \<Rightarrow> string \<Rightarrow> bool \<Rightarrow> inst list" where
  "list_instances rank db i archived =
     sort_key (\<lambda>x. rank (is_key x)) (filter (\<lambda>x. is_domain x = i \<and> (is_desired x = Archived_asked) = archived) (id_instances db))"

definition listLive :: "instances_db \<Rightarrow> inst list" where
  "listLive db = sort_key is_createdAt
     (filter (\<lambda>x. is_desired x \<noteq> Archived_asked \<or> \<not> is_archived_state (is_observed x)) (id_instances db))"

section \<open>Links and reach\<close>

datatype link_outcome =
    Caller_only
  | Linked workspace_link
  | Other_domain string
  | No_such_workspace
  | Link_domain_not_active domain_state
  | Link_no_such_domain

text \<open>\<open>link\<close>; \<^const>\<open>Inl\<close> is a link that vanished between the write and the read after it (\<open>later\<close>).\<close>

definition link ::
  "instances_db \<Rightarrow> (instances_db \<Rightarrow> instances_db) \<Rightarrow> workspace_link \<Rightarrow> instances_db \<times> (unit, link_outcome) res"
where
  "link db later l =
     (case find_domain (id_ledger db) (wl_domain l) of
        None \<Rightarrow> (db, Inr Link_no_such_domain)
      | Some d \<Rightarrow>
          if rd_state d \<noteq> Domain_active then (db, Inr (Link_domain_not_active (rd_state d)))
          else if rd_ownerKind d \<noteq> Project then (db, Inr Caller_only)
          else if wl_workspaceId l \<notin> set (id_workspaces db) then (db, Inr No_such_workspace)
          else (case List.find (\<lambda>m. wl_workspaceId m = wl_workspaceId l) (id_links db) of
             None \<Rightarrow> (db\<lparr>id_links := id_links db @ [l]\<rparr>, Inr (Linked l))
           | Some m \<Rightarrow>
               if wl_domain m = wl_domain l
               then (db\<lparr>id_links := map (\<lambda>n. if wl_workspaceId n = wl_workspaceId l then l else n) (id_links db)\<rparr>, Inr (Linked l))
               else (case List.find (\<lambda>m. wl_workspaceId m = wl_workspaceId l) (id_links (later db)) of
                   None \<Rightarrow> (db, Inl ()) | Some other \<Rightarrow> (db, Inr (Other_domain (wl_domain other))))))"

definition unlink :: "instances_db \<Rightarrow> string \<Rightarrow> instances_db" where
  "unlink db w = db\<lparr>id_links := filter (\<lambda>l. wl_workspaceId l \<noteq> w) (id_links db)\<rparr>"

definition links :: "(string \<Rightarrow> nat) \<Rightarrow> instances_db \<Rightarrow> string \<Rightarrow> workspace_link list" where
  "links rank db i = sort_key (\<lambda>l. rank (wl_workspaceId l)) (filter (\<lambda>l. wl_domain l = i) (id_links db))"

text \<open>Runs of workspaces and their runtime instances, the tables the joins read.\<close>

record run_instance =
  ri_runId :: string
  ri_reference :: "string option"
  ri_docker :: bool
  ri_live :: bool

definition linkOfRun :: "instances_db \<Rightarrow> (string \<times> string) list \<Rightarrow> string \<Rightarrow> workspace_link option" where
  "linkOfRun db runs runId =
     (case concat (map (\<lambda>(run, w). if run = runId then filter (\<lambda>l. wl_workspaceId l = w) (id_links db) else []) runs) of
        [] \<Rightarrow> None | l # ls \<Rightarrow> Some l)"

definition linkedExecutors ::
  "(string \<Rightarrow> nat) \<Rightarrow> instances_db \<Rightarrow> (string \<times> string) list \<Rightarrow> run_instance list \<Rightarrow> string option \<Rightarrow>
   (workspace_link \<times> string) list"
where
  "linkedExecutors rank db runs executors i =
     sort_key (\<lambda>(l, r). rank r) (concat (map (\<lambda>l. concat (map (\<lambda>(run, w).
       if w = wl_workspaceId l \<and> (case i of None \<Rightarrow> True | Some i \<Rightarrow> wl_domain l = i)
       then concat (map (\<lambda>e. if ri_runId e = run \<and> ri_docker e \<and> ri_live e
              then (case ri_reference e of None \<Rightarrow> [] | Some r \<Rightarrow> [(l, r)]) else []) executors)
       else []) runs)) (id_links db)))"

definition reaches :: "workspace_link \<Rightarrow> inst \<Rightarrow> bool" where
  "reaches l x =
     (if sp_caller (is_spec x) then False
      else if wl_domain l \<noteq> is_domain x then False
      else (let worktree = sp_worktreeKey (is_spec x) in
        if worktree \<noteq> None \<and> worktree \<noteq> Some (wl_worktreeKey l) then False
        else (case wl_aliases l of
            None \<Rightarrow> True
          | Some aliases \<Rightarrow>
              map_of aliases (sp_alias (is_spec x)) =
                Some (if worktree = None then Level_project else Level_worktree))))"

record attachment =
  at_network :: string
  at_executor :: string
  at_instanceId :: string
  at_container :: string
  at_alias :: string

text \<open>The names come from \<open>docker-resource-argv.ts\<close>, as functions.\<close>

definition desiredAttachments ::
  "(string \<Rightarrow> string) \<Rightarrow> (string \<Rightarrow> string) \<Rightarrow> (workspace_link \<times> string) list \<Rightarrow> inst list \<Rightarrow> attachment list"
where
  "desiredAttachments reachNetworkName instanceContainerName executors instances =
     concat (map (\<lambda>(l, executor).
       map (\<lambda>x. \<lparr>at_network = reachNetworkName executor, at_executor = executor, at_instanceId = is_id x,
             at_container = instanceContainerName (is_id x), at_alias = sp_alias (is_spec x)\<rparr>)
         (filter (\<lambda>x. is_desired x = Running \<and> reaches l x) instances)) executors)"

datatype idle_verdict = Idle_reached | Idle_waiting int | Idle_stop_now

definition later_of :: "int option \<Rightarrow> int option \<Rightarrow> int option" where
  "later_of a b = (case (a, b) of (None, b) \<Rightarrow> b | (a, None) \<Rightarrow> a | (Some x, Some y) \<Rightarrow> Some (max x y))"

definition idleVerdict :: "inst \<Rightarrow> bool \<Rightarrow> int \<Rightarrow> idle_verdict" where
  "idleVerdict x reachedNow now =
     (case sp_idleStopAfterSeconds (is_spec x) of
        None \<Rightarrow> Idle_reached
      | Some seconds \<Rightarrow>
          if reachedNow then Idle_reached
          else (case later_of (is_startedAt x) (is_lastReachedAt x) of
             None \<Rightarrow> Idle_waiting (now + seconds * 1000)
           | Some since \<Rightarrow>
               if since + seconds * 1000 \<le> now then Idle_stop_now else Idle_waiting (since + seconds * 1000)))"

end
