(* ===== verification/Resource_Accounting.thy ===== *)
theory Resource_Accounting
  imports Resource_Instances
begin

text \<open>
  The accounting of a caller's instances (\<open>packages/workspaces/src/resources/accounting.ts\<close>): what an
  instance holds in its domain's ledger, admitted, confirmed and released together with its row. The
  two ledger operations it calls are arguments of its definitions, so its lemmas rest on the laws of
  the \<open>ledger\<close> locale alone, which the model of the ledger provides.
\<close>

section \<open>The operations\<close>

datatype accounting_error = Budget_error string | Repo_failed repo_error

text \<open>What a ledger operation answers, with the database it leaves.\<close>

type_synonym ledger_event = "domains_db \<Rightarrow> string \<Rightarrow> string \<Rightarrow> allocation_event \<Rightarrow> (repo_error, domains_db \<times> record_outcome) res"
type_synonym ledger_admit = "domains_db \<Rightarrow> string \<Rightarrow> string \<Rightarrow> admission_request \<Rightarrow> string \<Rightarrow> (repo_error, domains_db \<times> admission) res"

definition lift_repo :: "(repo_error, 'a) res \<Rightarrow> (accounting_error, 'a) res" where
  "lift_repo r = (case r of Inl e \<Rightarrow> Inl (Repo_failed e) | Inr x \<Rightarrow> Inr x)"

text \<open>\<open>record\<close>: one event of one allocation; a reserved volume is confirmed before it is archived.\<close>

definition confirm ::
  "ledger_event \<Rightarrow> string \<Rightarrow> hold \<Rightarrow> allocation_event \<Rightarrow> domains_db \<Rightarrow> (accounting_error, domains_db) res"
where
  "confirm ev i h event db =
     bind_res (lift_repo (ev db i (ho_id h) event)) (\<lambda>(db1, outcome).
     bind_res
       (case outcome of
          Event_refused a \<Rightarrow>
            if event = Archived_event \<and> al_state a = Reserved
            then bind_res (lift_repo (ev db1 i (ho_id h) Created)) (\<lambda>(db2, confirmed).
                   (case confirmed of
                      Recorded b \<Rightarrow> lift_repo (ev db2 i (ho_id h) event)
                    | _ \<Rightarrow> Inr (db2, outcome)))
            else Inr (db1, outcome)
        | _ \<Rightarrow> Inr (db1, outcome))
       (\<lambda>(db3, final).
         (case final of
            Recorded a \<Rightarrow> Inr db3
          | _ \<Rightarrow> Inl (Budget_error ''The instance allocation could not be confirmed.''))))"

text \<open>The events of several allocations, one after the other; any error rolls the transaction back.\<close>

fun confirm_all ::
  "ledger_event \<Rightarrow> string \<Rightarrow> (hold \<times> allocation_event) list \<Rightarrow> domains_db \<Rightarrow> (accounting_error, domains_db) res"
where
  "confirm_all ev i [] db = Inr db"
| "confirm_all ev i ((h, event) # rest) db = bind_res (confirm ev i h event db) (confirm_all ev i rest)"

definition save :: "inst \<Rightarrow> hold list \<Rightarrow> int \<Rightarrow> instances_db \<Rightarrow> instances_db" where
  "save x holds now db = recordObserved db (is_id x) (is_observed x) None None (Some holds) now"

definition with_ledger :: "instances_db \<Rightarrow> (accounting_error, domains_db) res \<Rightarrow> (instances_db \<Rightarrow> instances_db) \<Rightarrow> (accounting_error, instances_db) res" where
  "with_ledger db r f = bind_res r (\<lambda>ledger. Inr (f (db\<lparr>id_ledger := ledger\<rparr>)))"

definition fits :: "instance_spec \<Rightarrow> hold \<Rightarrow> bool" where
  "fits spec h \<longleftrightarrow> ho_use h = Hold_compute \<and> ho_cpuMillicores h \<ge> sp_cpuMillicores spec \<and> ho_memoryBytes h \<ge> sp_memoryBytes spec"

text \<open>
  \<open>admit\<close>. Each reservation draws two ids: its operation key's and, for compute, its object key's
  (\<open>objectNonce\<close>), and its row's own; the volumes draw theirs in turn.
\<close>

definition reserve ::
  "ledger_admit \<Rightarrow> inst \<Rightarrow> admission_request \<Rightarrow> string \<Rightarrow> string \<Rightarrow> string \<Rightarrow> domains_db \<times> hold list \<Rightarrow>
   (accounting_error, domains_db \<times> hold list) res"
where
  "reserve adm x request name nonce newId = (\<lambda>(db, holds).
     bind_res (lift_repo (adm db (is_domain x) (''caller:'' @ is_id x @ '':'' @ nonce) request newId)) (\<lambda>(db', outcome).
       (case outcome of
          Admitted a replayed \<Rightarrow>
            Inr (db', holds @ [\<lparr>ho_id = al_id a,
              ho_use = (if request_use request = Compute then Hold_compute else Hold_volume), ho_name = name,
              ho_cpuMillicores = al_cpu a, ho_memoryBytes = al_memory a, ho_storageBytes = al_storage a\<rparr>])
        | Over_budget dim used reserved requested limit \<Rightarrow>
            Inl (Budget_error (''The scope's '' @ dimension_name dim @
              '' budget refuses this instance. Raise its budget or stop existing compute.''))
        | _ \<Rightarrow> Inl (Budget_error ''The scope refuses this instance allocation.''))))"

fun reserve_volumes ::
  "ledger_admit \<Rightarrow> inst \<Rightarrow> spec_volume list \<Rightarrow> (nat \<Rightarrow> string \<times> string) \<Rightarrow> domains_db \<times> hold list \<Rightarrow>
   (accounting_error, domains_db \<times> hold list) res"
where
  "reserve_volumes adm x [] ids state = Inr state"
| "reserve_volumes adm x (v # vs) ids state =
     (if list_ex (\<lambda>h. ho_use h = Hold_volume \<and> ho_name h = sv_name v) (snd state)
      then reserve_volumes adm x vs ids state
      else case sv_storageBytes v of
        None \<Rightarrow> Inl (Budget_error ''Caller volumes require storageBytes.'')
      | Some bytes \<Rightarrow>
          bind_res (reserve adm x (Volume_request (is_id x @ '':volume:'' @ sv_name v) bytes 0) (sv_name v)
              (fst (ids 0)) (snd (ids 0)) state)
            (reserve_volumes adm x vs (\<lambda>n. ids (Suc n))))"

definition admit_instance ::
  "ledger_admit \<Rightarrow> inst \<Rightarrow> string \<Rightarrow> (string \<times> string) \<Rightarrow> (nat \<Rightarrow> string \<times> string) \<Rightarrow> int \<Rightarrow> instances_db \<Rightarrow>
   (accounting_error, instances_db \<times> inst) res"
where
  "admit_instance adm x objectNonce computeIds volumeIds now db =
     (if \<not> sp_caller (is_spec x) then Inr (db, x)
      else
        let start = (id_ledger db, is_allocations x);
            compute = (if list_ex (fits (is_spec x)) (is_allocations x) then Inr start
              else reserve adm x (Compute_request (is_id x @ '':compute:'' @ objectNonce)
                     (sp_cpuMillicores (is_spec x)) (sp_memoryBytes (is_spec x))) ''compute''
                     (fst computeIds) (snd computeIds) start)
        in bind_res compute (\<lambda>state.
           bind_res (reserve_volumes adm x (sp_volumes (is_spec x)) volumeIds state) (\<lambda>(ledger, holds).
             Inr (save x holds now (db\<lparr>id_ledger := ledger\<rparr>), x\<lparr>is_allocations := holds\<rparr>))))"

text \<open>The last compute allocation that fits, by its place in the list (\<open>findLast\<close>, compared with \<open>===\<close>).\<close>

definition last_fit :: "instance_spec \<Rightarrow> hold list \<Rightarrow> nat option" where
  "last_fit spec holds = find_last (\<lambda>n. fits spec (holds ! n)) [0..<length holds]"

definition is_kept :: "instance_spec \<Rightarrow> hold list \<Rightarrow> nat \<Rightarrow> bool" where
  "is_kept spec holds n \<longleftrightarrow> ho_use (holds ! n) \<noteq> Hold_compute \<or> Some n = last_fit spec holds"

definition created_events :: "instance_spec \<Rightarrow> hold list \<Rightarrow> (hold \<times> allocation_event) list" where
  "created_events spec holds =
     map (\<lambda>n. (holds ! n, if is_kept spec holds n then Created else Stopped)) [0..<length holds]"

definition kept_holds :: "instance_spec \<Rightarrow> hold list \<Rightarrow> hold list" where
  "kept_holds spec holds = map ((!) holds) (filter (is_kept spec holds) [0..<length holds])"

definition created :: "ledger_event \<Rightarrow> inst \<Rightarrow> int \<Rightarrow> instances_db \<Rightarrow> (accounting_error, instances_db) res" where
  "created ev x now db =
     (if \<not> sp_caller (is_spec x) then Inr db
      else with_ledger db (confirm_all ev (is_domain x) (created_events (is_spec x) (is_allocations x)) (id_ledger db))
             (save x (kept_holds (is_spec x) (is_allocations x)) now))"

definition stopped_events :: "bool \<Rightarrow> hold list \<Rightarrow> (hold \<times> allocation_event) list" where
  "stopped_events archive holds =
     concat (map (\<lambda>h. if ho_use h = Hold_compute then [(h, Stopped)] else if archive then [(h, Archived_event)] else []) holds)"

definition stopped :: "ledger_event \<Rightarrow> inst \<Rightarrow> bool \<Rightarrow> int \<Rightarrow> instances_db \<Rightarrow> (accounting_error, instances_db) res" where
  "stopped ev x archive now db =
     (if \<not> sp_caller (is_spec x) then Inr db
      else with_ledger db (confirm_all ev (is_domain x) (stopped_events archive (is_allocations x)) (id_ledger db))
             (save x (filter (\<lambda>h. ho_use h \<noteq> Hold_compute) (is_allocations x)) now))"

definition purged_events :: "hold list \<Rightarrow> (hold \<times> allocation_event) list" where
  "purged_events holds = map (\<lambda>h. (h, if ho_use h = Hold_compute then Stopped else Purged)) holds"

definition purged :: "ledger_event \<Rightarrow> inst \<Rightarrow> int \<Rightarrow> instances_db \<Rightarrow> (accounting_error, instances_db) res" where
  "purged ev x now db =
     with_ledger db (confirm_all ev (is_domain x) (purged_events (is_allocations x)) (id_ledger db)) (save x [] now)"

section \<open>What the ledger promises its client\<close>

text \<open>
  The state of an allocation, as its client sees it; an event that is recorded leaves it in the
  event's state and touches no other allocation, an event that is refused touches none, and a
  consistent ledger stays consistent.
\<close>

definition state_of :: "domains_db \<Rightarrow> string \<Rightarrow> string \<Rightarrow> allocation_state option" where
  "state_of db i x = map_option al_state (List.find (\<lambda>a. al_id a = x \<and> al_domain a = i) (db_allocations db))"

definition use_of :: "domains_db \<Rightarrow> string \<Rightarrow> string \<Rightarrow> allocation_use option" where
  "use_of db i x = map_option al_use (List.find (\<lambda>a. al_id a = x \<and> al_domain a = i) (db_allocations db))"

locale ledger =
  fixes consistent :: "domains_db \<Rightarrow> bool"
    and ev :: "domains_db \<Rightarrow> string \<Rightarrow> string \<Rightarrow> allocation_event \<Rightarrow> (repo_error, domains_db \<times> record_outcome) res"
  assumes stays_consistent: "consistent db \<Longrightarrow> ev db i x e = Inr (db', r) \<Longrightarrow> consistent db'"
    and recorded_state: "consistent db \<Longrightarrow> ev db i x e = Inr (db', Recorded a) \<Longrightarrow> state_of db' i x = Some (event_to e)"
    and others_stay: "consistent db \<Longrightarrow> ev db i x e = Inr (db', r) \<Longrightarrow> y \<noteq> x \<Longrightarrow> state_of db' i y = state_of db i y"
    and uses_stay: "consistent db \<Longrightarrow> ev db i x e = Inr (db', r) \<Longrightarrow> use_of db' i y = use_of db i y"
    and ending_settles: "consistent db \<Longrightarrow> use_of db i x = Some u \<Longrightarrow> e = (if u = Compute then Stopped else Purged) \<Longrightarrow>
      \<exists>db' a. ev db i x e = Inr (db', Recorded a)"
begin

lemma confirm_last:
  assumes "confirm ev i h e db = Inr db'"
  obtains a where "ev db i (ho_id h) e = Inr (db', Recorded a)"
  | db1 r db2 b a where "ev db i (ho_id h) e = Inr (db1, r)" "ev db1 i (ho_id h) Created = Inr (db2, b)"
      "ev db2 i (ho_id h) e = Inr (db', Recorded a)"
proof (cases "ev db i (ho_id h) e")
  case (Inr z)
  obtain db1 r where z: "z = (db1, r)" by (cases z)
  show thesis
  proof (cases r)
    case (Event_refused a)
    then have again: "e = Archived_event \<and> al_state a = Reserved"
      using assms Inr z by (simp add: confirm_def lift_repo_def split: if_splits)
    show thesis
    proof (cases "ev db1 i (ho_id h) Created")
      case (Inr z2)
      obtain db2 r2 where z2: "z2 = (db2, r2)" by (cases z2)
      show thesis
      proof (cases r2)
        case (Recorded b)
        show thesis
        proof (cases "ev db2 i (ho_id h) e")
          case (Inr z3)
          obtain db3 r3 where z3: "z3 = (db3, r3)" by (cases z3)
          show thesis
            using assms that(2)[of db1 r db2 r2] \<open>ev db i (ho_id h) e = Inr z\<close> \<open>ev db1 i (ho_id h) Created = Inr z2\<close>
              z z2 z3 Inr Event_refused Recorded again
            by (cases r3) (simp_all add: confirm_def lift_repo_def)
        qed (use assms Inr z z2 \<open>ev db i (ho_id h) e = Inr z\<close> Event_refused Recorded again in \<open>simp add: confirm_def lift_repo_def\<close>)
      qed (use assms Inr z z2 \<open>ev db i (ho_id h) e = Inr z\<close> Event_refused again in \<open>simp_all add: confirm_def lift_repo_def\<close>)
    qed (use assms Inr z Event_refused again in \<open>simp add: confirm_def lift_repo_def\<close>)
  qed (use assms Inr z that(1) in \<open>simp_all add: confirm_def lift_repo_def\<close>)
qed (use assms in \<open>simp add: confirm_def lift_repo_def\<close>)

lemma confirm_state:
  assumes "consistent db" "confirm ev i h e db = Inr db'"
  shows "consistent db'" "state_of db' i (ho_id h) = Some (event_to e)" "y \<noteq> ho_id h \<Longrightarrow> state_of db' i y = state_of db i y"
proof (atomize (full), cases rule: confirm_last[OF assms(2)])
  case (1 a)
  then show "consistent db' \<and> state_of db' i (ho_id h) = Some (event_to e) \<and>
      (y \<noteq> ho_id h \<longrightarrow> state_of db' i y = state_of db i y)"
    using stays_consistent[OF assms(1) 1] recorded_state[OF assms(1) 1] others_stay[OF assms(1) 1] by simp
next
  case (2 db1 r db2 b a)
  note c1 = stays_consistent[OF assms(1) 2(1)]
  note c2 = stays_consistent[OF c1 2(2)]
  show "consistent db' \<and> state_of db' i (ho_id h) = Some (event_to e) \<and>
      (y \<noteq> ho_id h \<longrightarrow> state_of db' i y = state_of db i y)"
    using stays_consistent[OF c2 2(3)] recorded_state[OF c2 2(3)] others_stay[OF assms(1) 2(1)] others_stay[OF c1 2(2)]
      others_stay[OF c2 2(3)] by simp
qed

lemma confirm_all_states:
  assumes "consistent db" "confirm_all ev i events db = Inr db'" "distinct (map (ho_id \<circ> fst) events)"
  shows "consistent db' \<and> (\<forall>(h, e) \<in> set events. state_of db' i (ho_id h) = Some (event_to e)) \<and>
    (\<forall>y. y \<notin> (ho_id \<circ> fst) ` set events \<longrightarrow> state_of db' i y = state_of db i y)"
  using assms
proof (induction events arbitrary: db)
  case (Cons x events)
  obtain h e where x: "x = (h, e)" by (cases x)
  from Cons.prems(2) obtain db1 where step: "confirm ev i h e db = Inr db1" "confirm_all ev i events db1 = Inr db'"
    by (auto simp: x res_simps)
  note first = confirm_state[OF Cons.prems(1) step(1)]
  have IH: "consistent db' \<and> (\<forall>(h, e) \<in> set events. state_of db' i (ho_id h) = Some (event_to e)) \<and>
    (\<forall>y. y \<notin> (ho_id \<circ> fst) ` set events \<longrightarrow> state_of db' i y = state_of db1 i y)"
    using Cons.IH[OF first(1) step(2)] Cons.prems(3) by simp
  moreover have "ho_id h \<notin> (ho_id \<circ> fst) ` set events" using Cons.prems(3) by (simp add: x)
  ultimately have "state_of db' i (ho_id h) = Some (event_to e)" using first(2) by metis
  moreover have "state_of db' i y = state_of db i y" if "y \<notin> (ho_id \<circ> fst) ` set (x # events)" for y
    using that IH first(3)[of y] by (simp add: x)
  ultimately show ?case using IH by (simp add: x)
qed simp

lemma purge_all_completes:
  assumes "consistent db"
    "\<forall>(h, e) \<in> set events. \<exists>u. use_of db i (ho_id h) = Some u \<and> e = (if u = Compute then Stopped else Purged)"
  shows "\<exists>db'. confirm_all ev i events db = Inr db'"
  using assms
proof (induction events arbitrary: db)
  case (Cons x events)
  obtain h e where x: "x = (h, e)" by (cases x)
  then obtain u where u: "use_of db i (ho_id h) = Some u" "e = (if u = Compute then Stopped else Purged)"
    using Cons.prems(2) by auto
  from ending_settles[OF Cons.prems(1) u] obtain db1 a where step: "ev db i (ho_id h) e = Inr (db1, Recorded a)" by blast
  then have one: "confirm ev i h e db = Inr db1" by (simp add: confirm_def lift_repo_def)
  have "\<exists>db'. confirm_all ev i events db1 = Inr db'"
    using Cons.IH[OF stays_consistent[OF Cons.prems(1) step]] Cons.prems(2) uses_stay[OF Cons.prems(1) step] by (simp add: x)
  then show ?case using one by (auto simp: x)
qed simp

lemma all_settle:
  assumes "consistent (id_ledger db)" "distinct (map (ho_id \<circ> fst) events)"
    "with_ledger db (confirm_all ev i events (id_ledger db)) (save x holds now) = Inr db'"
  shows "(h, e) \<in> set events \<Longrightarrow> state_of (id_ledger db') i (ho_id h) = Some (event_to e)"
    "y \<notin> (ho_id \<circ> fst) ` set events \<Longrightarrow> state_of (id_ledger db') i y = state_of (id_ledger db) i y"
    "map_option is_allocations (find_instance db' (is_id x)) = map_option (\<lambda>r. holds) (find_instance db (is_id x))"
proof -
  from assms(3) obtain l where l: "confirm_all ev i events (id_ledger db) = Inr l" "db' = save x holds now (db\<lparr>id_ledger := l\<rparr>)"
    by (auto simp: with_ledger_def res_simps)
  have ledger: "id_ledger db' = l" using l(2) by (simp add: save_def recordObserved_def update_where_def)
  note settled = confirm_all_states[OF assms(1) l(1) assms(2)]
  show "(h, e) \<in> set events \<Longrightarrow> state_of (id_ledger db') i (ho_id h) = Some (event_to e)"
    "y \<notin> (ho_id \<circ> fst) ` set events \<Longrightarrow> state_of (id_ledger db') i y = state_of (id_ledger db) i y"
    using settled by (auto simp: ledger)
  have "map_option is_allocations (List.find (\<lambda>r. is_id r = k) (map (\<lambda>r. if is_id r = k
        then r\<lparr>is_observed := seen, is_observedAt := t, is_allocations := holds\<rparr> else r) rows)) =
      map_option (\<lambda>r. holds) (List.find (\<lambda>r. is_id r = k) rows)" for k seen t rows
    by (induction rows) auto
  then show "map_option is_allocations (find_instance db' (is_id x)) = map_option (\<lambda>r. holds) (find_instance db (is_id x))"
    by (simp add: l(2) save_def recordObserved_def update_where_def find_instance_def)
qed

end

end
