(* ===== verification/Resource_Accounting_Proofs.thy ===== *)
theory Resource_Accounting_Proofs
  imports Resource_Accounting
begin

text \<open>
  The accounting of instances kept to the ledger: the laws of the \<open>ledger\<close> locale discharged on the
  model of the ledger, and what a confirmed start, stop or purge leaves in it and in the row.
\<close>

section \<open>The model's ledger keeps the laws\<close>

definition ledger_events :: "int \<Rightarrow> ledger_event" where
  "ledger_events now = (\<lambda>db i x e. record_event db ''read committed'' i x e now)"

definition ledger_admits :: "int \<Rightarrow> ledger_admit" where
  "ledger_admits now = (\<lambda>db i k request newId. admit db ''read committed'' i k request newId now)"

lemma find_moved_other:
  "y \<noteq> x \<Longrightarrow> map_option al_state (List.find (\<lambda>a. al_id a = y \<and> al_domain a = i) (map (moved_at j x e now) rows)) =
    map_option al_state (List.find (\<lambda>a. al_id a = y \<and> al_domain a = i) rows)"
  by (induction rows) (auto simp: moved_at_def move_def)

lemma record_uses:
  assumes "record_event db ''read committed'' i x e now = Inr (db', r)"
  shows "use_of db' i y = use_of db i y"
proof -
  have "map_option al_use (List.find (\<lambda>a. al_id a = y \<and> al_domain a = i) (map (moved_at i x e now) rows)) =
      map_option al_use (List.find (\<lambda>a. al_id a = y \<and> al_domain a = i) rows)" for rows
    by (induction rows) auto
  then show ?thesis using record_event_rows[OF assms] by (auto simp: use_of_def)
qed

lemma ending_recorded:
  assumes "ledger_ok db" "use_of db i x = Some u" "e = (if u = Compute then Stopped else Purged)"
  shows "\<exists>db' a. record_event db ''read committed'' i x e now = Inr (db', Recorded a)"
proof -
  from assms(2) obtain a where a: "List.find (\<lambda>a. al_id a = x \<and> al_domain a = i) (db_allocations db) = Some a" "al_use a = u"
    by (auto simp: use_of_def)
  note at = find_SomeD[OF a(1)]
  have check: "allocation_check a" and "al_domain a \<in> rd_id ` set (db_domains db)"
    using assms(1) at by (auto simp: ledger_ok_def)
  then obtain d where d: "find_domain db i = Some d"
    using at by (cases "find_domain db i") (auto simp: find_domain_def find_None_iff)
  have settled: "applies e a \<or> al_state a = event_to e \<and> al_use a \<in> set (event_uses e)"
    using check a(2) assms(3) by (cases "al_state a"; cases "al_use a") (auto simp: applies_def allocation_check_def)
  show ?thesis
  proof (cases "List.find (\<lambda>a. (al_id a = x \<and> al_domain a = i) \<and> applies e a) (db_allocations db)")
    case (Some b)
    then show ?thesis using d by (auto simp: record_event_def lockDomain_def)
  next
    case None
    then have "\<not> applies e a" using at by (auto simp: find_None_iff)
    then show ?thesis using None a(1) d settled by (auto simp: record_event_def lockDomain_def)
  qed
qed

interpretation confirmed: ledger ledger_ok "ledger_events now" for now
proof (unfold_locales, unfold ledger_events_def)
  fix db db' i x e r a and y :: string
  assume ok: "ledger_ok db"
  show "record_event db ''read committed'' i x e now = Inr (db', r) \<Longrightarrow> ledger_ok db'"
    using record_ok[OF ok] .
  show "record_event db ''read committed'' i x e now = Inr (db', Recorded a) \<Longrightarrow> state_of db' i x = Some (event_to e)"
    using event_recorded(1,2)[OF ok] by (simp add: state_of_def)
  show "record_event db ''read committed'' i x e now = Inr (db', r) \<Longrightarrow> y \<noteq> x \<Longrightarrow> state_of db' i y = state_of db i y"
    using record_event_rows[of db "''read committed''" i x e now db' r] find_moved_other[of y x i i e now "db_allocations db"]
    by (auto simp: state_of_def)
  show "record_event db ''read committed'' i x e now = Inr (db', r) \<Longrightarrow> use_of db' i y = use_of db i y"
    by (rule record_uses)
  show "use_of db i x = Some u \<Longrightarrow> e = (if u = Compute then Stopped else Purged) \<Longrightarrow>
      \<exists>db' a. record_event db ''read committed'' i x e now = Inr (db', Recorded a)" for u
    by (rule ending_recorded[OF ok])
qed

section \<open>Admission\<close>

text \<open>What an admission promises: a row with the amounts asked, not released, and nothing else touched.\<close>

locale admitting_ledger = ledger +
  fixes adm :: ledger_admit
  assumes admitted_row: "consistent db \<Longrightarrow> adm db i k request newId = Inr (db', Admitted a r) \<Longrightarrow>
      consistent db' \<and> sameAllocation a (values_of request) \<and>
      (\<exists>s. state_of db' i (al_id a) = Some s \<and> s \<noteq> Released) \<and>
      (\<forall>y. state_of db i y \<noteq> None \<longrightarrow> state_of db' i y = state_of db i y)"

text \<open>The holds cover the spec: a compute allocation that fits, and one for every volume.\<close>

definition holds_volume :: "hold list \<Rightarrow> string \<Rightarrow> bool" where
  "holds_volume holds name \<longleftrightarrow> list_ex (\<lambda>h. ho_use h = Hold_volume \<and> ho_name h = name) holds"

definition covers :: "instance_spec \<Rightarrow> hold list \<Rightarrow> bool" where
  "covers spec holds \<longleftrightarrow> list_ex (fits spec) holds \<and> (\<forall>v \<in> set (sp_volumes spec). holds_volume holds (sv_name v))"

text \<open>What a reservation adds: the holds before it stay, and those after them are live in the ledger.\<close>

definition extends :: "string \<Rightarrow> domains_db \<times> hold list \<Rightarrow> domains_db \<times> hold list \<Rightarrow> bool" where
  "extends i before now \<longleftrightarrow> (\<exists>new. snd now = snd before @ new \<and>
     (\<forall>h \<in> set new. \<exists>s. state_of (fst now) i (ho_id h) = Some s \<and> s \<noteq> Released)) \<and>
     (\<forall>y. state_of (fst before) i y \<noteq> None \<longrightarrow> state_of (fst now) i y = state_of (fst before) i y)"

lemma extends_refl: "extends i s s"
  by (simp add: extends_def)

lemma extends_trans:
  assumes "extends i a b" "extends i b c"
  shows "extends i a c"
proof -
  obtain new where new: "snd b = snd a @ new" "\<forall>h \<in> set new. \<exists>s. state_of (fst b) i (ho_id h) = Some s \<and> s \<noteq> Released"
    using assms(1) by (auto simp: extends_def)
  obtain more_new where new2: "snd c = snd b @ more_new"
      "\<forall>h \<in> set more_new. \<exists>s. state_of (fst c) i (ho_id h) = Some s \<and> s \<noteq> Released"
    using assms(2) by (auto simp: extends_def)
  have kept: "state_of (fst b) i y \<noteq> None \<Longrightarrow> state_of (fst c) i y = state_of (fst b) i y" for y
    using assms(2) by (simp add: extends_def)
  have "\<exists>s. state_of (fst c) i (ho_id h) = Some s \<and> s \<noteq> Released" if "h \<in> set (new @ more_new)" for h
  proof (cases "h \<in> set new")
    case True
    then show ?thesis using new(2) kept[of "ho_id h"] by auto
  qed (use that new2(2) in auto)
  moreover have "state_of (fst c) i y = state_of (fst a) i y" if "state_of (fst a) i y \<noteq> None" for y
    using that assms(1) kept[of y] by (simp add: extends_def)
  ultimately show ?thesis using new(1) new2(1) unfolding extends_def by (metis append.assoc)
qed

context admitting_ledger begin

lemma reserve_extends:
  assumes "consistent (fst s)" "reserve adm x request name nonce newId s = Inr s'"
  shows "consistent (fst s')" "extends (is_domain x) s s'"
    "\<exists>h. snd s' = snd s @ [h] \<and> ho_use h = (if request_use request = Compute then Hold_compute else Hold_volume) \<and>
      ho_name h = name \<and> ho_cpuMillicores h = av_cpu (values_of request) \<and> ho_memoryBytes h = av_memory (values_of request)"
proof -
  obtain db holds where s: "s = (db, holds)" by (cases s)
  let ?call = "adm db (is_domain x) (''caller:'' @ is_id x @ '':'' @ nonce) request newId"
  obtain db' out where call: "?call = Inr (db', out)"
    using assms(2) by (cases ?call) (auto simp: reserve_def s lift_repo_def)
  have "\<exists>a r. out = Admitted a r" using assms(2) call by (cases out) (auto simp: reserve_def s lift_repo_def)
  then obtain a r where out: "out = Admitted a r" by blast
  note run = call[unfolded out]
  have s': "s' = (db', holds @ [\<lparr>ho_id = al_id a,
              ho_use = (if request_use request = Compute then Hold_compute else Hold_volume), ho_name = name,
              ho_cpuMillicores = al_cpu a, ho_memoryBytes = al_memory a, ho_storageBytes = al_storage a\<rparr>])"
    using assms(2) run by (simp add: reserve_def s lift_repo_def)
  note row = admitted_row[OF _ run]
  show "consistent (fst s')" "extends (is_domain x) s s'"
    using row assms(1) by (auto simp: s s' extends_def)
  show "\<exists>h. snd s' = snd s @ [h] \<and> ho_use h = (if request_use request = Compute then Hold_compute else Hold_volume) \<and>
      ho_name h = name \<and> ho_cpuMillicores h = av_cpu (values_of request) \<and> ho_memoryBytes h = av_memory (values_of request)"
    using row assms(1) by (auto simp: s s' sameAllocation_def)
qed

lemma reserve_volumes_extends:
  assumes "consistent (fst s)" "reserve_volumes adm x vs ids s = Inr s'"
  shows "consistent (fst s') \<and> extends (is_domain x) s s' \<and> (\<forall>v \<in> set vs. holds_volume (snd s') (sv_name v))"
  using assms
proof (induction vs arbitrary: ids s)
  case Nil
  then show ?case by (simp add: extends_refl)
next
  case (Cons v vs)
  have keep: "holds_volume (snd s2) n" if "holds_volume (snd s1) n" "extends (is_domain x) s1 s2" for s1 s2 n
    using that by (auto simp: extends_def holds_volume_def)
  show ?case
  proof (cases "holds_volume (snd s) (sv_name v)")
    case True
    then have "reserve_volumes adm x vs ids s = Inr s'" using Cons.prems(2) by (simp add: holds_volume_def)
    from Cons.IH[OF Cons.prems(1) this] show ?thesis using keep[OF True] by simp
  next
    case False
    then obtain bytes s1 where one: "reserve adm x (Volume_request (is_id x @ '':volume:'' @ sv_name v) bytes 0) (sv_name v)
        (fst (ids 0)) (snd (ids 0)) s = Inr s1" "reserve_volumes adm x vs (\<lambda>n. ids (Suc n)) s1 = Inr s'"
      using Cons.prems(2) by (auto simp: holds_volume_def res_simps split: option.splits)
    note first = reserve_extends[OF Cons.prems(1) one(1)]
    note rest = Cons.IH[OF first(1) one(2)]
    have "holds_volume (snd s1) (sv_name v)" using first(3) by (auto simp: holds_volume_def)
    then show ?thesis using rest keep extends_trans[OF first(2)] by auto
  qed
qed

lemma admit_covers:
  assumes "consistent (id_ledger db)" "sp_caller (is_spec x)"
    "admit_instance adm x objectNonce computeIds volumeIds t db = Inr (db', x')"
  shows "covers (is_spec x) (is_allocations x')"
    "extends (is_domain x) (id_ledger db, is_allocations x) (id_ledger db', is_allocations x')"
    "x' = x\<lparr>is_allocations := is_allocations x'\<rparr>" "consistent (id_ledger db')"
proof -
  let ?start = "(id_ledger db, is_allocations x)"
  let ?run = "if list_ex (fits (is_spec x)) (is_allocations x) then Inr ?start
              else reserve adm x (Compute_request (is_id x @ '':compute:'' @ objectNonce)
                     (sp_cpuMillicores (is_spec x)) (sp_memoryBytes (is_spec x))) ''compute''
                     (fst computeIds) (snd computeIds) ?start"
  obtain s ledger holds where s: "?run = Inr s" and volumes: "reserve_volumes adm x (sp_volumes (is_spec x)) volumeIds s = Inr (ledger, holds)"
    and done': "db' = save x holds t (db\<lparr>id_ledger := ledger\<rparr>)" "x' = x\<lparr>is_allocations := holds\<rparr>"
  proof -
    from assms(2,3) have "bind_res ?run (\<lambda>state. bind_res (reserve_volumes adm x (sp_volumes (is_spec x)) volumeIds state)
        (\<lambda>(ledger, holds). Inr (save x holds t (db\<lparr>id_ledger := ledger\<rparr>), x\<lparr>is_allocations := holds\<rparr>))) = Inr (db', x')"
      by (simp add: admit_instance_def Let_def)
    then show thesis unfolding bind_res_Inr using that by fastforce
  qed
  have compute: "consistent (fst s) \<and> extends (is_domain x) ?start s \<and> list_ex (fits (is_spec x)) (snd s)"
  proof (cases "list_ex (fits (is_spec x)) (is_allocations x)")
    case True
    then show ?thesis using s assms(1) by (auto simp: extends_refl)
  next
    case False
    then have run: "reserve adm x (Compute_request (is_id x @ '':compute:'' @ objectNonce)
        (sp_cpuMillicores (is_spec x)) (sp_memoryBytes (is_spec x))) ''compute'' (fst computeIds) (snd computeIds) ?start = Inr s"
      using s by simp
    from assms(1) have c: "consistent (fst ?start)" by simp
    note r = reserve_extends[OF c run]
    then show ?thesis by (auto simp: fits_def)
  qed
  then have c: "consistent (fst s)" by simp
  note v = reserve_volumes_extends[OF c volumes]
  have ledger: "id_ledger db' = ledger" by (simp add: done'(1) save_def recordObserved_def update_where_def)
  have "list_ex (fits (is_spec x)) holds" using compute v by (auto simp: extends_def)
  then show "covers (is_spec x) (is_allocations x')" using v by (simp add: covers_def done'(2))
  show "extends (is_domain x) (id_ledger db, is_allocations x) (id_ledger db', is_allocations x')"
    using extends_trans[of "is_domain x" ?start s "(ledger, holds)"] compute v by (simp add: ledger done'(2))
  show "x' = x\<lparr>is_allocations := is_allocations x'\<rparr>" "consistent (id_ledger db')"
    using v by (simp_all add: done'(2) ledger)
qed

lemma admit_covered:
  assumes "sp_caller (is_spec x)" "covers (is_spec x) (is_allocations x)"
  shows "admit_instance adm x objectNonce computeIds volumeIds t db = Inr (save x (is_allocations x) t db, x)"
proof -
  have "reserve_volumes adm x vs ids (l, holds) = Inr (l, holds)"
    if "\<forall>v \<in> set vs. holds_volume holds (sv_name v)" for vs ids l holds
    using that by (induction vs arbitrary: ids) (auto simp: holds_volume_def)
  then show ?thesis using assms by (simp add: admit_instance_def covers_def)
qed

end

lemma admit_admitted:
  assumes "admit db ''read committed'' i k request newId now = Inr (db', Admitted a r)"
  shows "sameAllocation a (values_of request) \<and> al_domain a = i \<and> al_state a \<noteq> Released \<and>
    (a \<in> set (db_allocations db) \<and> db' = db \<or>
     newId \<notin> al_id ` set (db_allocations db) \<and> al_id a = newId \<and> db' = db\<lparr>db_allocations := db_allocations db @ [a]\<rparr>)"
proof -
  obtain vals where vals: "allocationValues request = Some vals" using assms by (auto simp: admit_def split: option.splits)
  then have vals_eq: "vals = values_of request" by (auto simp: allocationValues_def Let_def split: if_splits)
  obtain d where domain: "find_domain db i = Some d"
    using assms vals by (auto simp: admit_def lockDomain_def split: option.splits)
  show ?thesis
  proof (cases "List.find (\<lambda>a. al_domain a = i \<and> al_operationKey a = k) (db_allocations db)")
    case (Some p)
    then show ?thesis using assms vals domain vals_eq find_SomeD[OF Some]
      by (auto simp: admit_def lockDomain_def split: if_splits)
  next
    case None
    obtain source where run: "admit_new db i k vals source newId now = Inr (db', Admitted a r)"
      using assms vals domain None by (auto simp: admit_def lockDomain_def split: if_splits option.splits)
    have "admit_new db i k vals source newId now = Inr (db', Admitted a r) \<Longrightarrow>
      newId \<notin> al_id ` set (db_allocations db) \<and> a = new_allocation newId i k (map_option fst source) vals now \<and>
      db' = db\<lparr>db_allocations := db_allocations db @ [a]\<rparr>" for source
    proof -
      have over: "first_over read ask dims \<noteq> Some (Admitted a r)" for read ask dims
        by (induction dims) (auto simp: Let_def)
      assume "admit_new db i k vals source newId now = Inr (db', Admitted a r)"
      then obtain read row where row: "row = new_allocation newId i k (map_option fst source) vals now"
        "insert_allocation db row = Inr db'" "a = row"
        unfolding admit_new_def using over
        by (auto simp: res_simps Let_def split: option.splits)
      then show ?thesis
        by (auto simp: insert_allocation_def new_allocation_def list_all_iff split: if_splits)
    qed
    from this[OF run] show ?thesis by (simp add: new_allocation_def sameAllocation_def vals_eq)
  qed
qed

interpretation admitted: admitting_ledger ledger_ok "ledger_events now" "ledger_admits now" for now
proof (unfold_locales, unfold ledger_admits_def)
  fix db i k request newId db' a r
  assume ok: "ledger_ok db" and run: "admit db ''read committed'' i k request newId now = Inr (db', Admitted a r)"
  note row = admit_admitted[OF run]
  let ?at = "\<lambda>y b. al_id b = y \<and> al_domain b = i"
  from row show "ledger_ok db' \<and> sameAllocation a (values_of request) \<and>
      (\<exists>s. state_of db' i (al_id a) = Some s \<and> s \<noteq> Released) \<and>
      (\<forall>y. state_of db i y \<noteq> None \<longrightarrow> state_of db' i y = state_of db i y)"
  proof (elim conjE disjE)
    assume old: "a \<in> set (db_allocations db)" "db' = db"
    obtain b where b: "List.find (?at (al_id a)) (db_allocations db) = Some b"
      using old(1) row by (cases "List.find (?at (al_id a)) (db_allocations db)") (auto simp: find_None_iff)
    then have "b = a" using same_allocation[OF ok _ old(1)] find_SomeD[OF b] by blast
    then show ?thesis using b old row ok by (auto simp: state_of_def)
  next
    assume new: "newId \<notin> al_id ` set (db_allocations db)" "al_id a = newId" "db' = db\<lparr>db_allocations := db_allocations db @ [a]\<rparr>"
    have find_append: "List.find P (xs @ ys) = (case List.find P xs of None \<Rightarrow> List.find P ys | z \<Rightarrow> z)" for P :: "allocation \<Rightarrow> bool" and xs ys
      by (induction xs) auto
    have none: "List.find (?at newId) (db_allocations db) = None" using new(1) by (auto simp: find_None_iff image_iff)
    obtain db2 r2 where "admit db ''read committed'' i k request newId now = Inr (db2, r2)" "ledger_ok db2"
      using admit_cases[OF ok new(1) refl] by blast
    then have "ledger_ok db'" using run by simp
    moreover have "state_of db' i newId = Some (al_state a)"
      using new none row by (simp add: state_of_def find_append)
    moreover have "\<forall>y. state_of db i y \<noteq> None \<longrightarrow> state_of db' i y = state_of db i y"
      using new by (auto simp: state_of_def find_append)
    ultimately show ?thesis using row new(2) by auto
  qed
qed

section \<open>Starts and stops\<close>

lemma created_ids: "map (ho_id \<circ> fst) (created_events spec holds) = map ho_id holds"
  by (rule nth_equalityI) (simp_all add: created_events_def)

lemma created_in: "n < length holds \<Longrightarrow> (holds ! n, if is_kept spec holds n then Created else Stopped) \<in> set (created_events spec holds)"
  by (force simp: created_events_def)

lemma one_compute_kept: "length (filter (\<lambda>h. ho_use h = Hold_compute) (kept_holds spec holds)) \<le> 1"
proof -
  have "length (filter (\<lambda>n. ho_use (holds ! n) = Hold_compute \<and> is_kept spec holds n) ns) \<le> 1" if "distinct ns" for ns
    using that
  proof (induction ns)
    case (Cons n ns)
    show ?case
    proof (cases "ho_use (holds ! n) = Hold_compute \<and> is_kept spec holds n")
      case True
      then have "Some n = last_fit spec holds" by (simp add: is_kept_def)
      then have "\<not> (ho_use (holds ! m) = Hold_compute \<and> is_kept spec holds m)" if "m \<in> set ns" for m
        using that Cons.prems by (metis distinct.simps(2) is_kept_def option.inject)
      then show ?thesis using True by (simp add: filter_empty_conv)
    next
      case False
      then have "filter (\<lambda>n. ho_use (holds ! n) = Hold_compute \<and> is_kept spec holds n) (n # ns) =
          filter (\<lambda>n. ho_use (holds ! n) = Hold_compute \<and> is_kept spec holds n) ns" by simp
      then show ?thesis using Cons by simp
    qed
  qed simp
  from this[of "[0..<length holds]"] show ?thesis
    by (simp add: kept_holds_def filter_map comp_def conj_commute)
qed

lemma stopped_in:
  "(h, e) \<in> set (stopped_events archive holds) \<longleftrightarrow>
    h \<in> set holds \<and> (if ho_use h = Hold_compute then e = Stopped else archive \<and> e = Archived_event)"
  by (auto simp: stopped_events_def split: if_splits)

lemma stopped_ids: "distinct (map ho_id holds) \<Longrightarrow> distinct (map (ho_id \<circ> fst) (stopped_events archive holds))"
  by (induction holds) (auto simp: stopped_events_def)

text \<open>What an instance's row says it holds.\<close>

definition row_holds :: "instances_db \<Rightarrow> string \<Rightarrow> hold list option" where
  "row_holds db x = map_option is_allocations (find_instance db x)"

definition ledger_state :: "instances_db \<Rightarrow> inst \<Rightarrow> string \<Rightarrow> allocation_state option" where
  "ledger_state db x y = state_of (id_ledger db) (is_domain x) y"

text \<open>
  Admission covers the spec and is settled by one call. A caller's instance that was admitted
  holds a compute allocation its spec fits in and one allocation for every volume of the spec; the
  holds it had stay in front, every new one is a row of the ledger that is not released, and no row of
  the domain changes its state; and admitting the answered instance again, with whatever fresh ids,
  reserves nothing.
\<close>

lemma admission_covers_the_spec:
  assumes "ledger_ok (id_ledger db)" "sp_caller (is_spec x)"
    "admit_instance (ledger_admits now) x objectNonce computeIds volumeIds t db = Inr (db', x')"
  shows "covers (is_spec x) (is_allocations x') \<and>
    (\<exists>new. is_allocations x' = is_allocations x @ new \<and>
       (\<forall>h \<in> set new. \<exists>s. ledger_state db' x (ho_id h) = Some s \<and> s \<noteq> Released)) \<and>
    (\<forall>y. ledger_state db x y \<noteq> None \<longrightarrow> ledger_state db' x y = ledger_state db x y) \<and>
    admit_instance (ledger_admits now2) x' objectNonce2 computeIds2 volumeIds2 t2 db' =
      Inr (save x' (is_allocations x') t2 db', x') \<and>
    id_ledger (save x' (is_allocations x') t2 db') = id_ledger db'"
proof -
  note admitted = admitted.admit_covers[OF assms]
  have same: "is_spec x' = is_spec x" by (subst admitted(3)) simp
  have "sp_caller (is_spec x')" "covers (is_spec x') (is_allocations x')"
    using assms(2) admitted(1) by (simp_all add: same)
  note again = admitted.admit_covered[OF this]
  show ?thesis
    using admitted(1,2) again by (auto simp: extends_def ledger_state_def save_def recordObserved_def update_where_def)
qed

definition caller_spec :: instance_spec where
  "caller_spec = \<lparr>sp_caller = True, sp_alias = ''db'', sp_worktreeKey = None,
     sp_volumes = [\<lparr>sv_name = ''data'', sv_mountPath = ''/d'', sv_storageBytes = Some 30\<rparr>],
     sp_cpuMillicores = 500, sp_memoryBytes = 50, sp_idleStopAfterSeconds = None, sp_container = ''pg''\<rparr>"

definition caller_instance :: inst where
  "caller_instance = inserted_instance ''rin:1'' ''rdm:1'' ''db'' caller_spec ''sha256:0'' None 0"

definition caller_db :: instances_db where
  "caller_db = \<lparr>id_ledger = scope_example, id_instances = [caller_instance], id_links = [], id_workspaces = []\<rparr>"

definition ledger_example :: "allocation_state \<Rightarrow> int \<Rightarrow> domains_db" where
  "ledger_example state t = scope_example\<lparr>db_allocations :=
     [\<lparr>al_id = ''al1'', al_domain = ''rdm:1'', al_use = Compute, al_objectKey = ''rin:1:compute:n'', al_sourceKey = None,
        al_source = None, al_operationKey = ''caller:rin:1:c'', al_cpu = 500, al_memory = 50, al_storage = 0,
        al_protection = 0, al_state = state, al_updatedAt = t\<rparr>,
      \<lparr>al_id = ''al2'', al_domain = ''rdm:1'', al_use = Volume, al_objectKey = ''rin:1:volume:data'', al_sourceKey = None,
        al_source = None, al_operationKey = ''caller:rin:1:v'', al_cpu = 0, al_memory = 0, al_storage = 30,
        al_protection = 0, al_state = state, al_updatedAt = t\<rparr>]\<rparr>"

definition admitted_instance :: inst where
  "admitted_instance = caller_instance\<lparr>is_allocations :=
     [\<lparr>ho_id = ''al1'', ho_use = Hold_compute, ho_name = ''compute'', ho_cpuMillicores = 500, ho_memoryBytes = 50, ho_storageBytes = 0\<rparr>,
      \<lparr>ho_id = ''al2'', ho_use = Hold_volume, ho_name = ''data'', ho_cpuMillicores = 0, ho_memoryBytes = 0, ho_storageBytes = 30\<rparr>]\<rparr>"

definition admitted_db :: instances_db where
  "admitted_db = \<lparr>id_ledger = ledger_example Reserved 1, id_instances = [admitted_instance\<lparr>is_observedAt := 1\<rparr>],
     id_links = [], id_workspaces = []\<rparr>"

definition started_db :: instances_db where
  "started_db = \<lparr>id_ledger = ledger_example In_use 2, id_instances = [admitted_instance\<lparr>is_observedAt := 2\<rparr>],
     id_links = [], id_workspaces = []\<rparr>"

lemma caller_ledger: "ledger_ok (id_ledger caller_db)"
  using reachable_ok(1)[OF scope_example_reachable] by (simp add: caller_db_def)

lemma admitted_example_run:
  "admit_instance (ledger_admits 1) caller_instance ''n'' (''c'', ''al1'') (\<lambda>n. (''v'', ''al2'')) 1 caller_db =
     Inr (admitted_db, admitted_instance)"
  by code_simp

lemma started_example_run: "created (ledger_events 2) admitted_instance 2 admitted_db = Inr started_db"
  by code_simp

lemma admitted_ledger: "ledger_ok (id_ledger admitted_db)"
  using admitted.admit_covers(4)[OF caller_ledger _ admitted_example_run]
  by (simp add: caller_instance_def inserted_instance_def caller_spec_def)

lemma created_settles:
  assumes "ledger_ok (id_ledger db)" "distinct (map ho_id (is_allocations x))" "sp_caller (is_spec x)"
    "created (ledger_events now) x t db = Inr db'"
  shows "n < length (is_allocations x) \<Longrightarrow> ledger_state db' x (ho_id (is_allocations x ! n)) =
      Some (if is_kept (is_spec x) (is_allocations x) n then In_use else Released)"
    "row_holds db' (is_id x) = map_option (\<lambda>r. kept_holds (is_spec x) (is_allocations x)) (find_instance db (is_id x))"
    "y \<notin> ho_id ` set (is_allocations x) \<Longrightarrow> ledger_state db' x y = ledger_state db x y"
proof -
  let ?hs = "is_allocations x"
  have run: "with_ledger db (confirm_all (ledger_events now) (is_domain x) (created_events (is_spec x) ?hs) (id_ledger db))
      (save x (kept_holds (is_spec x) ?hs) t) = Inr db'"
    using assms(3,4) by (simp add: created_def)
  have "distinct (map (ho_id \<circ> fst) (created_events (is_spec x) ?hs))" using assms(2) by (simp only: created_ids)
  note settled = confirmed.all_settle[OF assms(1) this run]
  have ids: "(ho_id \<circ> fst) ` set (created_events (is_spec x) ?hs) = ho_id ` set ?hs"
    using created_ids[of "is_spec x" ?hs] by (metis set_map)
  show "n < length ?hs \<Longrightarrow> ledger_state db' x (ho_id (?hs ! n)) = Some (if is_kept (is_spec x) ?hs n then In_use else Released)"
    using settled(1)[OF created_in] by (auto simp: ledger_state_def)
  show "row_holds db' (is_id x) = map_option (\<lambda>r. kept_holds (is_spec x) ?hs) (find_instance db (is_id x))"
    using settled(3) by (simp add: row_holds_def)
  show "y \<notin> ho_id ` set ?hs \<Longrightarrow> ledger_state db' x y = ledger_state db x y"
    using settled(2) unfolding ids ledger_state_def by blast
qed

lemma stopped_settles:
  assumes "ledger_ok (id_ledger db)" "distinct (map ho_id (is_allocations x))" "sp_caller (is_spec x)"
    "stopped (ledger_events now) x archive t db = Inr db'"
  shows "h \<in> set (is_allocations x) \<Longrightarrow> ledger_state db' x (ho_id h) =
      (if ho_use h = Hold_compute then Some Released else if archive then Some Archived_volume else ledger_state db x (ho_id h))"
    "row_holds db' (is_id x) = map_option (\<lambda>r. filter (\<lambda>h. ho_use h \<noteq> Hold_compute) (is_allocations x)) (find_instance db (is_id x))"
    "y \<notin> ho_id ` set (is_allocations x) \<Longrightarrow> ledger_state db' x y = ledger_state db x y"
proof -
  let ?hs = "is_allocations x"
  have run: "with_ledger db (confirm_all (ledger_events now) (is_domain x) (stopped_events archive ?hs) (id_ledger db))
      (save x (filter (\<lambda>h. ho_use h \<noteq> Hold_compute) ?hs) t) = Inr db'"
    using assms(3,4) by (simp add: stopped_def)
  note settled = confirmed.all_settle[OF assms(1) stopped_ids[OF assms(2)] run]
  have left: "ledger_state db' x y = ledger_state db x y"
    if "\<forall>(h, e) \<in> set (stopped_events archive ?hs). ho_id h \<noteq> y" for y
    using settled(2)[of y] that by (force simp: ledger_state_def)
  show "ledger_state db' x (ho_id h) =
      (if ho_use h = Hold_compute then Some Released else if archive then Some Archived_volume else ledger_state db x (ho_id h))"
    if h: "h \<in> set ?hs"
  proof (cases "ho_use h = Hold_compute \<or> archive")
    case True
    then show ?thesis
      using h settled(1)[of h Stopped] settled(1)[of h Archived_event]
      by (cases "ho_use h = Hold_compute") (simp_all add: stopped_in ledger_state_def)
  next
    case False
    have "g = h" if "g \<in> set ?hs" "ho_id g = ho_id h" for g
      using that h assms(2) by (auto simp: distinct_map inj_on_def)
    then have "ho_id g \<noteq> ho_id h" if "(g, e) \<in> set (stopped_events archive ?hs)" for g e
      using that False by (auto simp: stopped_in split: if_splits)
    then show ?thesis using False left[of "ho_id h"] by auto
  qed
  show "row_holds db' (is_id x) = map_option (\<lambda>r. filter (\<lambda>h. ho_use h \<noteq> Hold_compute) ?hs) (find_instance db (is_id x))"
    using settled(3) by (simp add: row_holds_def)
  show "ledger_state db' x y = ledger_state db x y" if "y \<notin> ho_id ` set ?hs"
  proof (rule left)
    show "\<forall>(h, e) \<in> set (stopped_events archive ?hs). ho_id h \<noteq> y"
      using that stopped_in[of _ _ archive ?hs] by blast
  qed
qed

text \<open>
  A confirmed start or stop settles every hold of the instance, in the ledger and in its row. After
  a start the row keeps at most one compute allocation, the last the spec fits in: what it keeps is in
  use, the other compute allocations are released. After a stop every compute allocation is released
  and gone from the row, and the volumes are archived or left as they were. No other allocation of the
  domain moves.
\<close>

lemma start_and_stop_settle:
  assumes "ledger_ok (id_ledger db)" "distinct (map ho_id (is_allocations x))" "sp_caller (is_spec x)"
    "row_holds db (is_id x) \<noteq> None"
  shows "(created (ledger_events now) x t db = Inr db' \<longrightarrow>
       (\<forall>n < length (is_allocations x). ledger_state db' x (ho_id (is_allocations x ! n)) =
          Some (if is_kept (is_spec x) (is_allocations x) n then In_use else Released)) \<and>
       row_holds db' (is_id x) = Some (kept_holds (is_spec x) (is_allocations x)) \<and>
       length (filter (\<lambda>h. ho_use h = Hold_compute) (kept_holds (is_spec x) (is_allocations x))) \<le> 1 \<and>
       (\<forall>y. y \<notin> ho_id ` set (is_allocations x) \<longrightarrow> ledger_state db' x y = ledger_state db x y)) \<and>
    (stopped (ledger_events now) x archive t db = Inr db' \<longrightarrow>
       (\<forall>h \<in> set (is_allocations x). ledger_state db' x (ho_id h) =
          (if ho_use h = Hold_compute then Some Released
           else if archive then Some Archived_volume else ledger_state db x (ho_id h))) \<and>
       row_holds db' (is_id x) = Some (filter (\<lambda>h. ho_use h \<noteq> Hold_compute) (is_allocations x)) \<and>
       (\<forall>y. y \<notin> ho_id ` set (is_allocations x) \<longrightarrow> ledger_state db' x y = ledger_state db x y))"
proof (intro conjI impI)
  obtain r where r: "find_instance db (is_id x) = Some r" using assms(4) by (auto simp: row_holds_def)
  show "length (filter (\<lambda>h. ho_use h = Hold_compute) (kept_holds (is_spec x) (is_allocations x))) \<le> 1" by (rule one_compute_kept)
  {
    assume run: "created (ledger_events now) x t db = Inr db'"
    note settled = created_settles[OF assms(1-3) run]
    show "\<forall>n < length (is_allocations x). ledger_state db' x (ho_id (is_allocations x ! n)) =
          Some (if is_kept (is_spec x) (is_allocations x) n then In_use else Released)"
      "row_holds db' (is_id x) = Some (kept_holds (is_spec x) (is_allocations x))"
      "\<forall>y. y \<notin> ho_id ` set (is_allocations x) \<longrightarrow> ledger_state db' x y = ledger_state db x y"
      using settled r by (blast, simp, blast)
  }
  assume run: "stopped (ledger_events now) x archive t db = Inr db'"
  note settled = stopped_settles[OF assms(1-3) run]
  show "\<forall>h \<in> set (is_allocations x). ledger_state db' x (ho_id h) =
          (if ho_use h = Hold_compute then Some Released
           else if archive then Some Archived_volume else ledger_state db x (ho_id h))"
    "row_holds db' (is_id x) = Some (filter (\<lambda>h. ho_use h \<noteq> Hold_compute) (is_allocations x))"
    "\<forall>y. y \<notin> ho_id ` set (is_allocations x) \<longrightarrow> ledger_state db' x y = ledger_state db x y"
    using settled r by (blast, simp, blast)
qed

section \<open>Purges\<close>

text \<open>A hold names a row of its domain's ledger of its own use.\<close>

definition hold_of :: "instances_db \<Rightarrow> inst \<Rightarrow> hold \<Rightarrow> bool" where
  "hold_of db x h \<longleftrightarrow> (\<exists>u. use_of (id_ledger db) (is_domain x) (ho_id h) = Some u \<and> (u = Compute \<longleftrightarrow> ho_use h = Hold_compute))"

text \<open>
  C37: A purge always gets through. Whatever the states of an instance's allocations, as long as each is
  a row of the domain's ledger of the use the instance holds it for, confirming the purge succeeds: it
  leaves every one of them released, the instance's row holding nothing, and no other allocation of the
  domain moved.
\<close>

theorem purge_completes:
  assumes "ledger_ok (id_ledger db)" "distinct (map ho_id (is_allocations x))"
    "\<forall>h \<in> set (is_allocations x). hold_of db x h" "row_holds db (is_id x) \<noteq> None"
  shows "\<exists>db'. purged (ledger_events now) x t db = Inr db' \<and>
    (\<forall>h \<in> set (is_allocations x). ledger_state db' x (ho_id h) = Some Released) \<and>
    row_holds db' (is_id x) = Some [] \<and>
    (\<forall>y. y \<notin> ho_id ` set (is_allocations x) \<longrightarrow> ledger_state db' x y = ledger_state db x y)"
proof -
  let ?hs = "is_allocations x"
  have ending: "\<forall>(h, e) \<in> set (purged_events ?hs). \<exists>u. use_of (id_ledger db) (is_domain x) (ho_id h) = Some u \<and>
      e = (if u = Compute then Stopped else Purged)"
    using assms(3) by (fastforce simp: purged_events_def hold_of_def)
  obtain l where "confirm_all (ledger_events now) (is_domain x) (purged_events ?hs) (id_ledger db) = Inr l"
    using confirmed.purge_all_completes[OF assms(1) ending] by blast
  then obtain db' where run: "with_ledger db (confirm_all (ledger_events now) (is_domain x) (purged_events ?hs) (id_ledger db)) (save x [] t) = Inr db'"
    by (simp add: with_ledger_def)
  have ids: "map (ho_id \<circ> fst) (purged_events ?hs) = map ho_id ?hs" by (simp add: purged_events_def)
  have "distinct (map (ho_id \<circ> fst) (purged_events ?hs))" using assms(2) by (simp only: ids)
  note settled = confirmed.all_settle[OF assms(1) this run]
  have all: "(ho_id \<circ> fst) ` set (purged_events ?hs) = ho_id ` set ?hs" using ids by (metis set_map)
  have "ledger_state db' x (ho_id h) = Some Released" if "h \<in> set ?hs" for h
    using settled(1)[of h "if ho_use h = Hold_compute then Stopped else Purged"] that
    by (auto simp: purged_events_def ledger_state_def split: if_splits)
  moreover obtain r where "find_instance db (is_id x) = Some r" using assms(4) by (auto simp: row_holds_def)
  moreover have "\<forall>y. y \<notin> ho_id ` set ?hs \<longrightarrow> ledger_state db' x y = ledger_state db x y"
    using settled(2) unfolding all ledger_state_def by blast
  ultimately show ?thesis using run settled(3) by (auto simp: purged_def row_holds_def)
qed

theorem purge_completes_witness:
  "\<exists>db'. purged (ledger_events 3) admitted_instance 3 started_db = Inr db' \<and> row_holds db' ''rin:1'' = Some []"
proof -
  have ledger: "ledger_ok (id_ledger started_db)"
  proof -
    have "sp_caller (is_spec admitted_instance)" by code_simp
    then obtain l where l: "confirm_all (ledger_events 2) (is_domain admitted_instance)
        (created_events (is_spec admitted_instance) (is_allocations admitted_instance)) (id_ledger admitted_db) = Inr l"
      "started_db = save admitted_instance (kept_holds (is_spec admitted_instance) (is_allocations admitted_instance)) 2 (admitted_db\<lparr>id_ledger := l\<rparr>)"
      using started_example_run by (auto simp: created_def with_ledger_def res_simps)
    have "distinct (map (ho_id \<circ> fst) (created_events (is_spec admitted_instance) (is_allocations admitted_instance)))"
      unfolding created_ids by code_simp
    from confirmed.confirm_all_states[OF admitted_ledger l(1) this]
    show ?thesis by (simp add: l(2) save_def recordObserved_def update_where_def)
  qed
  have use: "use_of (id_ledger started_db) (is_domain admitted_instance) (ho_id h) =
      Some (if ho_use h = Hold_compute then Compute else Volume)" if "h \<in> set (is_allocations admitted_instance)" for h
  proof -
    have "list_all (\<lambda>h. use_of (id_ledger started_db) (is_domain admitted_instance) (ho_id h) =
      Some (if ho_use h = Hold_compute then Compute else Volume)) (is_allocations admitted_instance)" by code_simp
    then show ?thesis using that by (simp add: list_all_iff)
  qed
  have holds: "\<forall>h \<in> set (is_allocations admitted_instance). hold_of started_db admitted_instance h"
    using use by (simp add: hold_of_def)
  have "distinct (map ho_id (is_allocations admitted_instance))"
    "row_holds started_db (is_id admitted_instance) \<noteq> None" "is_id admitted_instance = ''rin:1''"
    by code_simp+
  with purge_completes[OF ledger this(1) holds this(2), of 3 3] show ?thesis by auto
qed

end
