(* ===== verification/Resource_Subnets.thy ===== *)
theory Resource_Subnets
  imports Prelude
begin

text \<open>
  The subnets of the networks the runtime creates: the configured range carved into equal subnets
  (\<open>parseSubnetPool\<close>), the table that holds them (\<open>resource_networks\<close>) and its allocation
  (\<open>packages/db/src/repositories/resource-instances.ts\<close>,
  \<open>packages/workspaces/src/resources/subnets.ts\<close>). Addresses are exact: a JavaScript number holds every
  32-bit address, and so does \<^typ>\<open>int\<close>.
\<close>

section \<open>Ranges\<close>

text \<open>\<open>text.split(c)\<close>, of one character.\<close>

fun split_on :: "char \<Rightarrow> string \<Rightarrow> string list" where
  "split_on c [] = [[]]"
| "split_on c (d # ds) =
     (if d = c then [] # split_on c ds
      else case split_on c ds of [] \<Rightarrow> [[d]] | w # ws \<Rightarrow> (d # w) # ws)"

definition ipv4_part :: "string \<Rightarrow> int option" where
  "ipv4_part part =
     (if 1 \<le> length part \<and> length part \<le> 3 \<and> list_all is_digit part
      then case read_nat 10 part of Some n \<Rightarrow> if n > 255 then None else Some (int n) | None \<Rightarrow> None
      else None)"

definition ipv4 :: "string \<Rightarrow> int option" where
  "ipv4 address =
     (let parts = split_on (CHR ''.'') address
      in if length parts \<noteq> 4 \<or> list_ex (\<lambda>part. ipv4_part part = None) parts then None
         else Some (fold (\<lambda>part v. v * 256 + the (ipv4_part part)) parts 0))"

definition dotted :: "int \<Rightarrow> string" where
  "dotted v = join ''.'' (map (\<lambda>shift. show_int (v div 2 ^ shift mod 256)) [24, 16, 8, 0])"

text \<open>
  \<open>Number(text)\<close> where it is an integer: besides what \<open>BigInt\<close> reads, a decimal with a fraction or an
  exponent whose value is whole. The value is exact (a number rounds past 53 bits).
\<close>

definition digits_or_none :: "string \<Rightarrow> nat option" where
  "digits_or_none ds = (if ds \<noteq> [] \<and> list_all is_digit ds then read_nat 10 ds else None)"

definition signed :: "string \<Rightarrow> int \<times> string" where
  "signed s = (case s of c # r \<Rightarrow> if c = CHR ''-'' then (-1, r) else if c = CHR ''+'' then (1, r) else (1, s) | [] \<Rightarrow> (1, s))"

definition decimal_integer :: "string \<Rightarrow> int option" where
  "decimal_integer text =
     (let (sign, body) = signed text;
          mantissa = takeWhile (\<lambda>c. c \<noteq> CHR ''e'' \<and> c \<noteq> CHR ''E'') body;
          tail = drop (length mantissa) body;
          (esign, edigits) = signed (drop 1 tail);
          expo = (if tail = [] then Some 0 else map_option (\<lambda>n. esign * int n) (digits_or_none edigits));
          parts = split_on (CHR ''.'') mantissa
      in if length parts > 2 then None
         else case (digits_or_none (concat parts), expo) of
           (Some n, Some e) \<Rightarrow>
             let scale = e - int (length (concat (tl parts))) in
             if scale \<ge> 0 then Some (sign * int n * 10 ^ nat scale)
             else if (10::int) ^ nat (- scale) dvd int n then Some (sign * (int n div 10 ^ nat (- scale))) else None
         | _ \<Rightarrow> None)"

definition number_integer :: "string \<Rightarrow> int option" where
  "number_integer text = (case parse_bigint text of Some n \<Rightarrow> Some n | None \<Rightarrow> decimal_integer (trim text))"

record subnet_pool =
  pool_base :: int
  pool_bits :: nat
  pool_prefix :: nat

datatype pool_error = Not_a_range | Prefix_does_not_fit | Host_bits_set

definition parseSubnetPool :: "string \<Rightarrow> int \<Rightarrow> (pool_error, subnet_pool) res" where
  "parseSubnetPool cidr prefix =
     (let parts = split_on (CHR ''/'') cidr;
          bits = (case tl parts of [] \<Rightarrow> None | bitsText # _ \<Rightarrow> number_integer bitsText)
      in case (ipv4 (hd parts), bits) of
           (Some base, Some bits) \<Rightarrow>
             if bits < 8 \<or> bits > 30 then Inl Not_a_range
             else if prefix \<le> bits \<or> prefix > 29 then Inl Prefix_does_not_fit
             else if base mod 2 ^ nat (32 - bits) \<noteq> 0 then Inl Host_bits_set
             else Inr \<lparr>pool_base = base, pool_bits = nat bits, pool_prefix = nat prefix\<rparr>
         | _ \<Rightarrow> Inl Not_a_range)"

definition poolSize :: "subnet_pool \<Rightarrow> nat" where
  "poolSize pool = 2 ^ (pool_prefix pool - pool_bits pool)"

definition subnetAt :: "subnet_pool \<Rightarrow> nat \<Rightarrow> string" where
  "subnetAt pool index =
     dotted (pool_base pool + int index * 2 ^ (32 - pool_prefix pool)) @ ''/'' @ show_int (int (pool_prefix pool))"

section \<open>The table of networks\<close>

datatype network_kind = Reach_network | Egress_network | Caller_network

record network_row =
  nw_name :: string
  nw_kind :: network_kind
  nw_subnet :: string
  nw_owner :: string

definition network_clash :: "network_row \<Rightarrow> network_row \<Rightarrow> bool" where
  "network_clash a b \<longleftrightarrow> nw_name a = nw_name b \<or> nw_subnet a = nw_subnet b"

definition ALLOCATION_ATTEMPTS :: nat where
  "ALLOCATION_ATTEMPTS = 32"

datatype network_allocation = Allocated string | Pool_exhausted

text \<open>The first subnet from \<open>index\<close> on, of the \<open>left\<close> that remain, that is not taken.\<close>

fun first_free :: "subnet_pool \<Rightarrow> string list \<Rightarrow> nat \<Rightarrow> nat \<Rightarrow> string option" where
  "first_free pool taken 0 index = None"
| "first_free pool taken (Suc left) index =
     (if subnetAt pool index \<notin> set taken then Some (subnetAt pool index) else first_free pool taken left (Suc index))"

text \<open>
  \<open>allocateNetwork\<close>. Before its \<open>t\<close>th statement other connections change the table by \<open>between t\<close>;
  \<^const>\<open>Inl\<close> is the failure after the last attempt.
\<close>

fun allocate_attempts ::
  "(nat \<Rightarrow> network_row list \<Rightarrow> network_row list) \<Rightarrow> string \<Rightarrow> network_kind \<Rightarrow> string \<Rightarrow> subnet_pool \<Rightarrow> nat \<Rightarrow> nat \<Rightarrow>
   network_row list \<Rightarrow> network_row list \<times> (unit, network_allocation) res"
where
  "allocate_attempts between name kind owner pool 0 t db = (db, Inl ())"
| "allocate_attempts between name kind owner pool (Suc attempts) t db =
     (let db1 = between t db in
      case List.find (\<lambda>r. nw_name r = name) db1 of
        Some held \<Rightarrow> (db1, Inr (Allocated (nw_subnet held)))
      | None \<Rightarrow>
          let db2 = between (t + 1) db1 in
          (case first_free pool (map nw_subnet db2) (poolSize pool) 0 of
             None \<Rightarrow> (db2, Inr Pool_exhausted)
           | Some subnet \<Rightarrow>
               let db3 = between (t + 2) db2;
                   row = \<lparr>nw_name = name, nw_kind = kind, nw_subnet = subnet, nw_owner = owner\<rparr>
               in if list_ex (network_clash row) db3
                  then allocate_attempts between name kind owner pool attempts (t + 3) db3
                  else (db3 @ [row], Inr (Allocated subnet))))"

definition allocateNetwork ::
  "(nat \<Rightarrow> network_row list \<Rightarrow> network_row list) \<Rightarrow> string \<Rightarrow> network_kind \<Rightarrow> string \<Rightarrow> subnet_pool \<Rightarrow>
   network_row list \<Rightarrow> network_row list \<times> (unit, network_allocation) res"
where
  "allocateNetwork between name kind owner pool db =
     allocate_attempts between name kind owner pool ALLOCATION_ATTEMPTS 0 db"

definition releaseNetwork :: "string \<Rightarrow> network_row list \<Rightarrow> network_row list" where
  "releaseNetwork name db = filter (\<lambda>r. nw_name r \<noteq> name) db"

definition networks :: "(string \<Rightarrow> nat) \<Rightarrow> network_kind \<Rightarrow> network_row list \<Rightarrow> (string \<times> string \<times> string) list" where
  "networks rank kind db =
     map (\<lambda>r. (nw_name r, nw_owner r, nw_subnet r)) (sort_key (\<lambda>r. rank (nw_name r)) (filter (\<lambda>r. nw_kind r = kind) db))"

section \<open>The runtime's pools\<close>

definition REACH_PREFIX :: int where "REACH_PREFIX = 27"
definition EGRESS_PREFIX :: int where "EGRESS_PREFIX = 28"

record subnet_pools =
  pools_reach :: subnet_pool
  pools_egress :: subnet_pool

definition resourceSubnetPools :: "string \<Rightarrow> string \<Rightarrow> (pool_error, subnet_pools) res" where
  "resourceSubnetPools reach egress =
     bind_res (parseSubnetPool reach REACH_PREFIX) (\<lambda>r.
     bind_res (parseSubnetPool egress EGRESS_PREFIX) (\<lambda>e. Inr \<lparr>pools_reach = r, pools_egress = e\<rparr>))"

definition pool_of :: "subnet_pools \<Rightarrow> network_kind \<Rightarrow> subnet_pool" where
  "pool_of pools kind = (if kind = Egress_network then pools_egress pools else pools_reach pools)"

datatype subnet_error = Range_in_use network_kind | Allocation_failed

definition allocate_subnet ::
  "(nat \<Rightarrow> network_row list \<Rightarrow> network_row list) \<Rightarrow> subnet_pools \<Rightarrow> string \<Rightarrow> network_kind \<Rightarrow> string \<Rightarrow>
   network_row list \<Rightarrow> network_row list \<times> (subnet_error, string) res"
where
  "allocate_subnet between pools name kind owner db =
     (case allocateNetwork between name kind owner (pool_of pools kind) db of
        (db', Inl e) \<Rightarrow> (db', Inl Allocation_failed)
      | (db', Inr Pool_exhausted) \<Rightarrow> (db', Inl (Range_in_use kind))
      | (db', Inr (Allocated subnet)) \<Rightarrow> (db', Inr subnet))"

section \<open>Addresses are read back as they are written\<close>

lemma split_on_nonempty [simp]: "split_on c s \<noteq> []"
  by (cases s) (auto split: list.splits)

lemma split_on_plain: "c \<notin> set s \<Longrightarrow> split_on c s = [s]"
  by (induction s) auto

lemma split_on_append: "c \<notin> set w \<Longrightarrow> split_on c (w @ c # s) = w # split_on c s"
  by (induction w) auto

lemma show_nat_chars: "c \<in> set (show_nat n) \<Longrightarrow> is_digit c"
  using show_nat_digits[of n] by (auto simp: list_all_iff)

lemma show_int_chars: "0 \<le> v \<Longrightarrow> c \<in> set (show_int v) \<Longrightarrow> is_digit c"
  by (auto simp: show_int_def dest: show_nat_chars)

lemma no_digit [simp]: "\<not> is_digit CHR ''.''" "\<not> is_digit CHR ''/''"
  by (simp_all add: is_digit_def)

lemma show_nat_short:
  assumes "n < 256"
  shows "1 \<le> length (show_nat n) \<and> length (show_nat n) \<le> 3"
proof -
  have one: "length (show_nat m) = 1" if "m < 10" for m using that by (simp add: show_nat.simps[of m])
  have two: "length (show_nat m) \<le> 2" if "m < 100" for m using that one[of "m div 10"] by (simp add: show_nat.simps[of m])
  have "length (show_nat n) \<le> 3" using assms two[of "n div 10"] by (simp add: show_nat.simps[of n])
  moreover have "1 \<le> length (show_nat n)" by (simp add: show_nat.simps[of n])
  ultimately show ?thesis by blast
qed

lemma ipv4_part_show: "0 \<le> v \<Longrightarrow> v < 256 \<Longrightarrow> ipv4_part (show_int v) = Some v"
proof -
  assume v: "0 \<le> v" "v < 256"
  then have "1 \<le> length (show_nat (nat v)) \<and> length (show_nat (nat v)) \<le> 3" by (intro show_nat_short) simp
  then show ?thesis using v by (simp add: ipv4_part_def show_int_def show_nat_digits read_nat_show_nat)
qed

lemma dotted_parts:
  "split_on (CHR ''.'') (dotted v) = map (\<lambda>shift. show_int (v div 2 ^ shift mod 256)) [24, 16, 8, 0]"
proof -
  have plain: "CHR ''.'' \<notin> set (show_int (v div 2 ^ k mod 256))" for k
    using show_int_chars[of "v div 2 ^ k mod 256" "CHR ''.''"] by auto
  have "split_on (CHR ''.'') (show_int (v div 2 ^ 24 mod 256) @ CHR ''.'' # show_int (v div 2 ^ 16 mod 256) @
      CHR ''.'' # show_int (v div 2 ^ 8 mod 256) @ CHR ''.'' # show_int (v div 2 ^ 0 mod 256)) =
      [show_int (v div 2 ^ 24 mod 256), show_int (v div 2 ^ 16 mod 256), show_int (v div 2 ^ 8 mod 256), show_int (v div 2 ^ 0 mod 256)]"
    by (simp only: split_on_append[OF plain] split_on_plain[OF plain])
  then show ?thesis by (simp add: dotted_def)
qed

lemma ipv4_dotted:
  assumes "0 \<le> v" "v < 2 ^ 32"
  shows "ipv4 (dotted v) = Some v"
proof -
  have part: "ipv4_part (show_int (v div 2 ^ k mod 256)) = Some (v div 2 ^ k mod 256)" for k
    by (rule ipv4_part_show) simp_all
  have next_part: "v div 2 ^ m * 256 + v div 2 ^ k mod 256 = v div 2 ^ k" if "m = k + 8" for k m
  proof -
    have "v div 2 ^ m = v div 2 ^ k div 256" by (simp add: that power_add zdiv_zmult2_eq)
    then show ?thesis by simp
  qed
  have top: "v div 2 ^ 24 mod 256 = v div 2 ^ 24" using assms by (intro mod_pos_pos_trivial) simp_all
  have "fold (\<lambda>part v. v * 256 + the (ipv4_part part)) (map (\<lambda>shift. show_int (v div 2 ^ shift mod 256)) [24, 16, 8, 0]) 0 =
      ((v div 2 ^ 24 mod 256 * 256 + v div 2 ^ 16 mod 256) * 256 + v div 2 ^ 8 mod 256) * 256 + v div 2 ^ 0 mod 256"
    by (simp only: list.map fold.simps part option.sel id_apply comp_apply mult_zero_left add_0)
  also have "\<dots> = v"
  proof -
    have parts: "v div 2 ^ 24 * 256 + v div 2 ^ 16 mod 256 = v div 2 ^ 16" "v div 2 ^ 16 * 256 + v div 2 ^ 8 mod 256 = v div 2 ^ 8"
      "v div 2 ^ 8 * 256 + v div 2 ^ 0 mod 256 = v div 2 ^ 0"
      by (rule next_part, simp)+
    show ?thesis unfolding top parts by simp
  qed
  finally have whole: "fold (\<lambda>part v. v * 256 + the (ipv4_part part))
      (map (\<lambda>shift. show_int (v div 2 ^ shift mod 256)) [24, 16, 8, 0]) 0 = v" .
  have "list_ex (\<lambda>part. ipv4_part part = None) (map (\<lambda>shift. show_int (v div 2 ^ shift mod 256)) [24, 16, 8, 0]) = False"
    unfolding list_ex_iff set_map by (metis (no_types, lifting) imageE part option.distinct(1))
  then show ?thesis unfolding ipv4_def dotted_parts Let_def whole by simp
qed

section \<open>Subnets of a pool\<close>

text \<open>The addresses a subnet covers, read from its text.\<close>

definition addresses :: "string \<Rightarrow> int set" where
  "addresses subnet =
     (case split_on (CHR ''/'') subnet of
        address # bits # _ \<Rightarrow> (case (ipv4 address, number_integer bits) of
            (Some base, Some bits) \<Rightarrow> {base ..< base + 2 ^ nat (32 - bits)} | _ \<Rightarrow> {})
      | _ \<Rightarrow> {})"

definition pool_ok :: "subnet_pool \<Rightarrow> bool" where
  "pool_ok pool \<longleftrightarrow> pool_bits pool < pool_prefix pool \<and> pool_prefix pool \<le> 29 \<and> 0 \<le> pool_base pool \<and>
     pool_base pool mod 2 ^ (32 - pool_bits pool) = 0 \<and> pool_base pool + 2 ^ (32 - pool_bits pool) \<le> 2 ^ 32"

definition pool_addresses :: "subnet_pool \<Rightarrow> int set" where
  "pool_addresses pool = {pool_base pool ..< pool_base pool + 2 ^ (32 - pool_bits pool)}"

lemma ipv4_bound: "ipv4 s = Some v \<Longrightarrow> 0 \<le> v \<and> v < 2 ^ 32"
proof -
  assume v: "ipv4 s = Some v"
  have part: "ipv4_part p = Some n \<Longrightarrow> 0 \<le> n \<and> n \<le> 255" for p n
    by (auto simp: ipv4_part_def split: if_splits option.splits)
  from v have four: "length (split_on (CHR ''.'') s) = 4" "\<forall>p \<in> set (split_on (CHR ''.'') s). ipv4_part p \<noteq> None"
    and total: "v = fold (\<lambda>part v. v * 256 + the (ipv4_part part)) (split_on (CHR ''.'') s) 0"
    by (auto simp: ipv4_def Let_def list_ex_iff split: if_splits)
  obtain a b c d where parts: "split_on (CHR ''.'') s = [a, b, c, d]"
    using four(1) by (auto simp: numeral_eq_Suc length_Suc_conv)
  have bound: "0 \<le> the (ipv4_part p) \<and> the (ipv4_part p) \<le> 255" if "p \<in> {a, b, c, d}" for p
  proof -
    have "p \<in> set (split_on (CHR ''.'') s)" using that by (auto simp: parts)
    then obtain n where "ipv4_part p = Some n" using four(2) by blast
    then show ?thesis using part by simp
  qed
  have "v = ((the (ipv4_part a) * 256 + the (ipv4_part b)) * 256 + the (ipv4_part c)) * 256 + the (ipv4_part d)"
    by (simp add: total parts)
  then show ?thesis using bound[of a] bound[of b] bound[of c] bound[of d] by simp
qed

lemma parsed_pool_ok:
  assumes "parseSubnetPool cidr prefix = Inr pool"
  shows "pool_ok pool"
proof -
  obtain base bits where read: "ipv4 (hd (split_on (CHR ''/'') cidr)) = Some base" "8 \<le> bits" "bits \<le> 30" "bits < prefix" "prefix \<le> 29"
    "base mod 2 ^ nat (32 - bits) = 0" "pool = \<lparr>pool_base = base, pool_bits = nat bits, pool_prefix = nat prefix\<rparr>"
  proof -
    let ?bits = "case tl (split_on (CHR ''/'') cidr) of [] \<Rightarrow> None | bitsText # _ \<Rightarrow> number_integer bitsText"
    obtain base bits where "ipv4 (hd (split_on (CHR ''/'') cidr)) = Some base" "?bits = Some bits"
      using assms by (auto simp: parseSubnetPool_def Let_def split: option.splits)
    then show thesis using assms that[of base bits] by (simp add: parseSubnetPool_def Let_def split: if_splits)
  qed
  note b = ipv4_bound[OF read(1)]
  have w: "nat (32 - bits) = 32 - nat bits" using read(2,3) by simp
  have "(2::int) ^ 32 = 2 ^ (32 - nat bits) * 2 ^ nat bits"
    using read(2,3) by (simp flip: power_add)
  moreover obtain q where q: "base = 2 ^ (32 - nat bits) * q" using read(6) w by (auto simp: zmod_eq_0_iff)
  ultimately have "(2::int) ^ (32 - nat bits) * q < 2 ^ (32 - nat bits) * 2 ^ nat bits" using b by simp
  then have "q < 2 ^ nat bits" by (simp add: mult_less_cancel_left_pos)
  then have "2 ^ (32 - nat bits) * (q + 1) \<le> (2::int) ^ (32 - nat bits) * 2 ^ nat bits"
    by (intro mult_left_mono) simp_all
  then have "base + 2 ^ (32 - nat bits) \<le> 2 ^ 32"
    using q \<open>(2::int) ^ 32 = 2 ^ (32 - nat bits) * 2 ^ nat bits\<close> by (simp add: algebra_simps)
  then show ?thesis using read b w by (simp add: pool_ok_def)
qed

lemma subnet_width:
  assumes "pool_ok pool" "index < poolSize pool"
  shows "pool_base pool + int index * 2 ^ (32 - pool_prefix pool) + 2 ^ (32 - pool_prefix pool) \<le>
    pool_base pool + 2 ^ (32 - pool_bits pool)"
proof -
  have "32 - pool_bits pool = (32 - pool_prefix pool) + (pool_prefix pool - pool_bits pool)"
    using assms(1) by (simp add: pool_ok_def)
  then have "(2::int) ^ (32 - pool_bits pool) = 2 ^ (32 - pool_prefix pool) * int (poolSize pool)"
    by (simp add: poolSize_def power_add)
  moreover have "(int index + 1) * 2 ^ (32 - pool_prefix pool) \<le> int (poolSize pool) * 2 ^ (32 - pool_prefix pool)"
    using assms(2) by (intro mult_right_mono) simp_all
  ultimately show ?thesis by (simp add: algebra_simps)
qed

lemma number_show: "number_integer (show_int n) = Some n"
  by (simp add: number_integer_def parse_bigint_show_int)

lemma addresses_subnetAt:
  assumes "pool_ok pool" "index < poolSize pool"
  shows "addresses (subnetAt pool index) =
    {pool_base pool + int index * 2 ^ (32 - pool_prefix pool) ..<
     pool_base pool + int index * 2 ^ (32 - pool_prefix pool) + 2 ^ (32 - pool_prefix pool)}"
proof -
  let ?a = "pool_base pool + int index * 2 ^ (32 - pool_prefix pool)"
  have wide: "(0::int) < 2 ^ (32 - pool_prefix pool)" by simp
  have a: "0 \<le> ?a" "?a < 2 ^ 32"
    using subnet_width[OF assms] assms(1) wide unfolding pool_ok_def by (simp, linarith)
  have no_slash: "CHR ''/'' \<notin> set (show_int v)" if "0 \<le> v" for v using show_int_chars[OF that] by fastforce
  have "CHR ''/'' \<notin> set (dotted ?a)"
    using no_slash by (simp add: dotted_def)
  moreover have "CHR ''/'' \<notin> set (show_int (int (pool_prefix pool)))" by (rule no_slash) simp
  ultimately have "split_on (CHR ''/'') (subnetAt pool index) = [dotted ?a, show_int (int (pool_prefix pool))]"
    by (simp add: subnetAt_def split_on_append split_on_plain)
  moreover have "nat (32 - int (pool_prefix pool)) = 32 - pool_prefix pool" by simp
  ultimately show ?thesis by (simp add: addresses_def ipv4_dotted[OF a] number_show)
qed

lemma subnet_in_pool:
  assumes "pool_ok pool" "index < poolSize pool"
  shows "addresses (subnetAt pool index) \<subseteq> pool_addresses pool"
proof -
  have "{a ..< a + w} \<subseteq> {b ..< b + u}" if "b \<le> a" "a + w \<le> b + u" for a b w u :: int using that by auto
  then show ?thesis
    unfolding addresses_subnetAt[OF assms] pool_addresses_def using subnet_width[OF assms] by simp
qed

lemma subnets_disjoint:
  assumes "pool_ok pool" "i < poolSize pool" "j < poolSize pool" "i \<noteq> j"
  shows "addresses (subnetAt pool i) \<inter> addresses (subnetAt pool j) = {}"
proof -
  let ?w = "(2::int) ^ (32 - pool_prefix pool)"
  have apart: "{a ..< a + w} \<inter> {b ..< b + w} = {}" if "a + w \<le> b \<or> b + w \<le> a" for a b w :: int using that by auto
  have "int i * ?w + ?w \<le> int j * ?w" if "i < j" for i j
  proof -
    have "(int i + 1) * ?w \<le> int j * ?w" using that by (intro mult_right_mono) simp_all
    then show ?thesis by (simp add: algebra_simps)
  qed
  from this[of i j] this[of j i] show ?thesis
    unfolding addresses_subnetAt[OF assms(1,2)] addresses_subnetAt[OF assms(1,3)]
    by (intro apart) (use assms(4) in linarith)
qed

section \<open>No two networks overlap\<close>

text \<open>
  One statement of any connection: it deletes a name's row, or inserts a row with a subnet of its kind's
  pool, which the table's keys accept.
\<close>

inductive network_statement :: "subnet_pools \<Rightarrow> network_row list \<Rightarrow> network_row list \<Rightarrow> bool" for pools where
  releases: "network_statement pools db (releaseNetwork name db)"
| inserts: "i < poolSize (pool_of pools (nw_kind row)) \<Longrightarrow> nw_subnet row = subnetAt (pool_of pools (nw_kind row)) i \<Longrightarrow>
    \<not> list_ex (network_clash row) db \<Longrightarrow> network_statement pools db (db @ [row])"

inductive_simps network_statement_simps: "network_statement pools db db'"

abbreviation network_run :: "subnet_pools \<Rightarrow> network_row list \<Rightarrow> network_row list \<Rightarrow> bool" where
  "network_run pools \<equiv> (network_statement pools)\<^sup>*\<^sup>*"

definition pool_row :: "subnet_pools \<Rightarrow> network_row \<Rightarrow> bool" where
  "pool_row pools row \<longleftrightarrow> (\<exists>i < poolSize (pool_of pools (nw_kind row)). nw_subnet row = subnetAt (pool_of pools (nw_kind row)) i)"

definition table_ok :: "subnet_pools \<Rightarrow> network_row list \<Rightarrow> bool" where
  "table_ok pools db \<longleftrightarrow> sorted_wrt (\<lambda>a b. \<not> network_clash a b) db \<and> (\<forall>row \<in> set db. pool_row pools row)"

lemma statement_ok: "network_statement pools db db' \<Longrightarrow> table_ok pools db \<Longrightarrow> table_ok pools db'"
proof (induction rule: network_statement.induct)
  case (releases db name)
  then show ?case by (auto simp: table_ok_def releaseNetwork_def intro: sorted_wrt_filter)
next
  case (inserts i row db)
  then show ?case by (auto simp: table_ok_def sorted_wrt_append list_ex_iff pool_row_def network_clash_def)
qed

lemma run_ok: "network_run pools db db' \<Longrightarrow> table_ok pools db \<Longrightarrow> table_ok pools db'"
  by (induction rule: rtranclp_induct) (auto dest: statement_ok)

lemma new_table_ok: "table_ok pools []"
  by (simp add: table_ok_def)

lemma first_free_Some:
  "first_free pool taken left index = Some s \<Longrightarrow>
    \<exists>i. index \<le> i \<and> i < index + left \<and> s = subnetAt pool i \<and> s \<notin> set taken \<and>
      (\<forall>j. index \<le> j \<and> j < i \<longrightarrow> subnetAt pool j \<in> set taken)"
proof (induction left arbitrary: index)
  case (Suc left)
  show ?case
  proof (cases "subnetAt pool index \<in> set taken")
    case True
    then have "first_free pool taken left (Suc index) = Some s" using Suc.prems by simp
    from Suc.IH[OF this] obtain i where "Suc index \<le> i" "i < Suc index + left" "s = subnetAt pool i" "s \<notin> set taken"
      "\<forall>j. Suc index \<le> j \<and> j < i \<longrightarrow> subnetAt pool j \<in> set taken"
      by blast
    moreover from this True have "\<forall>j. index \<le> j \<and> j < i \<longrightarrow> subnetAt pool j \<in> set taken"
      by (metis Suc_leI le_neq_implies_less)
    ultimately show ?thesis by (intro exI[of _ i]) simp
  qed (use Suc.prems in auto)
qed simp

lemma first_free_None:
  "first_free pool taken left index = None \<Longrightarrow> index \<le> i \<Longrightarrow> i < index + left \<Longrightarrow> subnetAt pool i \<in> set taken"
proof (induction left arbitrary: index)
  case (Suc left)
  then show ?case by (cases "i = index") (auto split: if_splits)
qed simp

text \<open>What an allocation answers, whatever the other connections did meanwhile.\<close>

lemma attempts_answer:
  assumes between: "\<And>t db. network_run pools db (between t db)"
    and "allocate_attempts between name kind owner (pool_of pools kind) attempts t db = (db', r)"
  shows "network_run pools db db' \<and>
    (\<forall>s. r = Inr (Allocated s) \<longrightarrow> (\<exists>row \<in> set db'. nw_name row = name \<and> nw_subnet row = s)) \<and>
    (r = Inr Pool_exhausted \<longrightarrow> (\<forall>i < poolSize (pool_of pools kind). subnetAt (pool_of pools kind) i \<in> nw_subnet ` set db'))"
  using assms(2)
proof (induction attempts arbitrary: t db)
  case (Suc attempts)
  let ?pool = "pool_of pools kind"
  define db1 where "db1 = between t db"
  have run1: "network_run pools db db1" unfolding db1_def by (rule between)
  show ?case
  proof (cases "List.find (\<lambda>r. nw_name r = name) db1")
    case (Some held)
    then have "db' = db1" "r = Inr (Allocated (nw_subnet held))" using Suc.prems by (auto simp: db1_def)
    then show ?thesis using run1 find_SomeD[OF Some] by auto
  next
    case None
    define db2 where "db2 = between (Suc t) db1"
    have run2: "network_run pools db db2" unfolding db2_def using run1 between by (meson rtranclp_trans)
    show ?thesis
    proof (cases "first_free ?pool (map nw_subnet db2) (poolSize ?pool) 0")
      case exhausted: None
      then have "db' = db2" "r = Inr Pool_exhausted"
        using Suc.prems None by (auto simp: db1_def[symmetric] db2_def[symmetric])
      then show ?thesis using run2 first_free_None[OF exhausted] by auto
    next
      case free: (Some s)
      from first_free_Some[OF free] obtain i where i: "i < poolSize ?pool" "s = subnetAt ?pool i" by auto
      define db3 where "db3 = between (Suc (Suc t)) db2"
      have run3: "network_run pools db db3" unfolding db3_def using run2 between by (meson rtranclp_trans)
      let ?row = "\<lparr>nw_name = name, nw_kind = kind, nw_subnet = s, nw_owner = owner\<rparr>"
      show ?thesis
      proof (cases "list_ex (network_clash ?row) db3")
        case True
        then have "allocate_attempts between name kind owner ?pool attempts (t + 3) db3 = (db', r)"
          using Suc.prems None free by (simp add: db1_def[symmetric] db2_def[symmetric] db3_def[symmetric])
        from Suc.IH[OF this] show ?thesis using run3 by (meson rtranclp_trans)
      next
        case False
        then have db': "db' = db3 @ [?row]" "r = Inr (Allocated s)"
          using Suc.prems None free by (auto simp: db1_def[symmetric] db2_def[symmetric] db3_def[symmetric])
        have "network_statement pools db3 (db3 @ [?row])"
          using False i by (intro network_statement.inserts) auto
        then show ?thesis using run3 unfolding db' by (auto intro: rtranclp.rtrancl_into_rtrancl)
      qed
    qed
  qed
qed auto

lemma table_disjoint:
  assumes "table_ok pools db" "pool_ok (pools_reach pools)" "pool_ok (pools_egress pools)"
    "pool_of pools (nw_kind a) = pool_of pools (nw_kind b) \<or>
     pool_addresses (pool_of pools (nw_kind a)) \<inter> pool_addresses (pool_of pools (nw_kind b)) = {}"
    "a \<in> set db" "b \<in> set db" "nw_name a \<noteq> nw_name b"
  shows "addresses (nw_subnet a) \<inter> addresses (nw_subnet b) = {}"
proof -
  have "sorted_wrt R xs \<Longrightarrow> a \<in> set xs \<Longrightarrow> b \<in> set xs \<Longrightarrow> a = b \<or> R a b \<or> R b a" for R :: "network_row \<Rightarrow> network_row \<Rightarrow> bool" and xs
    by (induction xs) auto
  from this[of "\<lambda>a b. \<not> network_clash a b" db] assms(1,5-7) have other: "nw_subnet a \<noteq> nw_subnet b"
    by (auto simp: table_ok_def network_clash_def)
  have rows: "pool_row pools a" "pool_row pools b" using assms(1,5,6) by (auto simp: table_ok_def)
  obtain i where i: "i < poolSize (pool_of pools (nw_kind a))" "nw_subnet a = subnetAt (pool_of pools (nw_kind a)) i"
    using rows(1) by (auto simp: pool_row_def)
  obtain j where j: "j < poolSize (pool_of pools (nw_kind b))" "nw_subnet b = subnetAt (pool_of pools (nw_kind b)) j"
    using rows(2) by (auto simp: pool_row_def)
  have ok: "pool_ok (pool_of pools k)" for k using assms(2,3) by (simp add: pool_of_def)
  show ?thesis
  proof (cases "pool_of pools (nw_kind a) = pool_of pools (nw_kind b)")
    case True
    then have "i \<noteq> j" using other i(2) j(2) by auto
    then show ?thesis using subnets_disjoint[OF ok i(1)] j True by (simp add: i(2))
  next
    case False
    then have "pool_addresses (pool_of pools (nw_kind a)) \<inter> pool_addresses (pool_of pools (nw_kind b)) = {}"
      using assms(4) by blast
    then show ?thesis using subnet_in_pool[OF ok i(1)] subnet_in_pool[OF ok j(1)] unfolding i(2) j(2) by blast
  qed
qed

text \<open>An allocation nobody disturbs answers in one attempt.\<close>

lemma allocate_alone:
  "allocateNetwork (\<lambda>t d. d) name kind owner pool db =
     (case List.find (\<lambda>row. nw_name row = name) db of
        Some held \<Rightarrow> (db, Inr (Allocated (nw_subnet held)))
      | None \<Rightarrow> (case List.find (\<lambda>i. subnetAt pool i \<notin> nw_subnet ` set db) [0..<poolSize pool] of
          Some i \<Rightarrow> (db @ [\<lparr>nw_name = name, nw_kind = kind, nw_subnet = subnetAt pool i, nw_owner = owner\<rparr>],
                      Inr (Allocated (subnetAt pool i)))
        | None \<Rightarrow> (db, Inr Pool_exhausted)))"
proof (cases "List.find (\<lambda>row. nw_name row = name) db")
  case (Some held)
  then show ?thesis by (simp add: allocateNetwork_def ALLOCATION_ATTEMPTS_def numeral_eq_Suc)
next
  case None
  have free: "first_free pool taken n k = map_option (subnetAt pool) (List.find (\<lambda>i. subnetAt pool i \<notin> set taken) [k..<k + n])" for taken n k
    by (induction n arbitrary: k) (simp_all add: upt_conv_Cons del: upt_Suc)
  show ?thesis
  proof (cases "List.find (\<lambda>i. subnetAt pool i \<notin> nw_subnet ` set db) [0..<poolSize pool]")
    case exhausted: None
    then show ?thesis using None free[of "map nw_subnet db" "poolSize pool" 0]
      by (simp add: allocateNetwork_def ALLOCATION_ATTEMPTS_def numeral_eq_Suc)
  next
    case (Some i)
    have "nw_name row \<noteq> name" if "row \<in> set db" for row using None that by (auto simp: find_None_iff)
    then have "\<not> list_ex (network_clash \<lparr>nw_name = name, nw_kind = kind, nw_subnet = subnetAt pool i, nw_owner = owner\<rparr>) db"
      using find_SomeD[OF Some] by (auto simp: list_ex_iff network_clash_def)
    then show ?thesis using None Some free[of "map nw_subnet db" "poolSize pool" 0]
      by (simp add: allocateNetwork_def ALLOCATION_ATTEMPTS_def numeral_eq_Suc)
  qed
qed

text \<open>
  C39: Networks of one pool never overlap, and those of two pools do not where the configured ranges do
  not meet. From an empty table on and under one configuration, whatever statements other connections
  run between those of an allocation (each releasing a name, or inserting a subnet of its kind's pool
  that the unique keys accept): the addresses of two networks of the table are disjoint when their pools
  are one or have disjoint ranges; an allocation that answers a subnet leaves it held under the asked
  name, and one that answers that the pool is exhausted saw every subnet of it taken. Undisturbed, it
  answers in one attempt: the subnet the name holds, or the lowest free one of the pool.
\<close>

theorem networks_never_overlap:
  assumes "resourceSubnetPools reachRange egressRange = Inr pools"
    "network_run pools [] db" "\<forall>t d. network_run pools d (between t d)"
    "allocateNetwork between name kind owner (pool_of pools kind) db = (db', r)"
  shows "(\<forall>a \<in> set db'. \<forall>b \<in> set db'. nw_name a \<noteq> nw_name b \<and>
        (pool_of pools (nw_kind a) = pool_of pools (nw_kind b) \<or>
         pool_addresses (pool_of pools (nw_kind a)) \<inter> pool_addresses (pool_of pools (nw_kind b)) = {}) \<longrightarrow>
      addresses (nw_subnet a) \<inter> addresses (nw_subnet b) = {}) \<and>
    network_run pools [] db' \<and>
    (\<forall>s. r = Inr (Allocated s) \<longrightarrow> (\<exists>row \<in> set db'. nw_name row = name \<and> nw_subnet row = s)) \<and>
    (r = Inr Pool_exhausted \<longrightarrow> (\<forall>i < poolSize (pool_of pools kind). subnetAt (pool_of pools kind) i \<in> nw_subnet ` set db')) \<and>
    (between = (\<lambda>t d. d) \<longrightarrow>
       r = (case List.find (\<lambda>row. nw_name row = name) db of
              Some held \<Rightarrow> Inr (Allocated (nw_subnet held))
            | None \<Rightarrow> (case List.find (\<lambda>i. subnetAt (pool_of pools kind) i \<notin> nw_subnet ` set db) [0..<poolSize (pool_of pools kind)] of
                Some i \<Rightarrow> Inr (Allocated (subnetAt (pool_of pools kind) i)) | None \<Rightarrow> Inr Pool_exhausted)))"
proof -
  let ?pool = "pool_of pools kind"
  have ok: "pool_ok (pools_reach pools)" "pool_ok (pools_egress pools)"
    using assms(1) parsed_pool_ok by (auto simp: resourceSubnetPools_def res_simps)
  note answer = attempts_answer[of pools between, OF assms(3)[rule_format] assms(4)[unfolded allocateNetwork_def]]
  have run: "network_run pools [] db'" using assms(2) answer by (meson rtranclp_trans)
  note table = run_ok[OF run new_table_ok]
  have "r = (case List.find (\<lambda>row. nw_name row = name) db of
              Some held \<Rightarrow> Inr (Allocated (nw_subnet held))
            | None \<Rightarrow> (case List.find (\<lambda>i. subnetAt ?pool i \<notin> nw_subnet ` set db) [0..<poolSize ?pool] of
                Some i \<Rightarrow> Inr (Allocated (subnetAt ?pool i)) | None \<Rightarrow> Inr Pool_exhausted))"
    if "between = (\<lambda>t d. d)"
    using assms(4) unfolding that allocate_alone by (simp split: option.splits)
  then show ?thesis using answer run table_disjoint[OF table ok] by blast
qed

text \<open>What the runtime's allocation answers from a free pool, nobody else writing.\<close>

lemma allocate_subnet_alone:
  assumes "\<forall>row \<in> set db. nw_name row \<noteq> name" "subnetAt (pool_of pools kind) 0 \<notin> nw_subnet ` set db"
  shows "allocate_subnet (\<lambda>t d. d) pools name kind owner db =
    (db @ [\<lparr>nw_name = name, nw_kind = kind, nw_subnet = subnetAt (pool_of pools kind) 0, nw_owner = owner\<rparr>],
     Inr (subnetAt (pool_of pools kind) 0))"
proof -
  let ?P = "\<lambda>i. subnetAt (pool_of pools kind) i \<notin> nw_subnet ` set db"
  have "[0..<poolSize (pool_of pools kind)] = 0 # [1..<poolSize (pool_of pools kind)]"
    by (simp add: poolSize_def upt_conv_Cons)
  then have "List.find ?P [0..<poolSize (pool_of pools kind)] = Some 0" using assms(2) by simp
  moreover have "List.find (\<lambda>row. nw_name row = name) db = None" using assms(1) by (simp add: find_None_iff)
  ultimately show ?thesis by (simp add: allocate_subnet_def allocate_alone)
qed

text \<open>
  C38: Ranges that meet are accepted and their networks overlap. Nothing compares the two configured
  ranges: with ranges of one base address, whatever their sizes, the first reach network and the first
  egress network a runtime asks for are both granted, and every address of the second is one of the
  first; the table's unique keys see two different texts.
\<close>

theorem overlapping_ranges_overlap:
  assumes "resourceSubnetPools reachRange egressRange = Inr pools"
    and "pool_base (pools_reach pools) = pool_base (pools_egress pools)" "reachName \<noteq> egressName"
    and "allocate_subnet (\<lambda>t d. d) pools reachName Reach_network reachOwner [] = (db, reachAnswer)"
    and "allocate_subnet (\<lambda>t d. d) pools egressName Egress_network egressOwner db = (db', egressAnswer)"
  shows "\<exists>reach egress. reachAnswer = Inr reach \<and> egressAnswer = Inr egress \<and>
    map nw_subnet db' = [reach, egress] \<and> addresses egress \<noteq> {} \<and> addresses egress \<subseteq> addresses reach"
proof -
  let ?r = "pools_reach pools" and ?e = "pools_egress pools"
  have parsed: "parseSubnetPool reachRange REACH_PREFIX = Inr ?r" "parseSubnetPool egressRange EGRESS_PREFIX = Inr ?e"
    using assms(1) by (auto simp: resourceSubnetPools_def res_simps)
  then have ok: "pool_ok ?r" "pool_ok ?e" using parsed_pool_ok by blast+
  have "parseSubnetPool cidr p = Inr pool \<Longrightarrow> pool_prefix pool = nat p" for cidr p pool
    by (auto simp: parseSubnetPool_def Let_def split: option.splits if_splits)
  from this[OF parsed(1)] this[OF parsed(2)] have prefix: "pool_prefix ?r = 27" "pool_prefix ?e = 28"
    by (simp_all add: REACH_PREFIX_def EGRESS_PREFIX_def)
  have some: "0 < poolSize ?r" "0 < poolSize ?e" by (simp_all add: poolSize_def)
  have at: "addresses (subnetAt ?r 0) = {pool_base ?r ..< pool_base ?r + 32}"
      "addresses (subnetAt ?e 0) = {pool_base ?r ..< pool_base ?r + 16}"
    using addresses_subnetAt[OF ok(1) some(1)] addresses_subnetAt[OF ok(2) some(2)] by (simp_all add: prefix assms(2))
  have "pool_base ?r + 16 \<in> addresses (subnetAt ?r 0) - addresses (subnetAt ?e 0)" by (simp add: at)
  then have texts: "subnetAt ?e 0 \<noteq> subnetAt ?r 0" by auto
  have first: "db = [\<lparr>nw_name = reachName, nw_kind = Reach_network, nw_subnet = subnetAt ?r 0, nw_owner = reachOwner\<rparr>]"
      "reachAnswer = Inr (subnetAt ?r 0)"
    using assms(4) allocate_subnet_alone[of "[]" reachName pools Reach_network reachOwner] by (simp_all add: pool_of_def)
  have second: "db' = db @ [\<lparr>nw_name = egressName, nw_kind = Egress_network, nw_subnet = subnetAt ?e 0, nw_owner = egressOwner\<rparr>]"
      "egressAnswer = Inr (subnetAt ?e 0)"
    using assms(3,5) allocate_subnet_alone[of db egressName pools Egress_network egressOwner] texts
    by (simp_all add: pool_of_def first(1))
  show ?thesis using first second at by auto
qed

definition example_pools :: subnet_pools where
  "example_pools = \<lparr>pools_reach = \<lparr>pool_base = 182910976, pool_bits = 16, pool_prefix = 27\<rparr>,
     pools_egress = \<lparr>pool_base = 182976512, pool_bits = 16, pool_prefix = 28\<rparr>\<rparr>"

definition race :: "nat \<Rightarrow> network_row list \<Rightarrow> network_row list" where
  "race t db = (let row = \<lparr>nw_name = ''other'', nw_kind = Reach_network, nw_subnet = ''10.231.0.0/27'', nw_owner = ''e''\<rparr>
     in if t = 2 \<and> \<not> list_ex (network_clash row) db then db @ [row] else db)"

text \<open>Another worker takes the lowest subnet between the look and the insert; the next attempt takes the second.\<close>

theorem networks_never_overlap_witness:
  "(case allocateNetwork race ''mine'' Reach_network ''x'' (pool_of example_pools Reach_network) [] of
      (db', r) \<Rightarrow> r = Inr (Allocated ''10.231.0.32/27'') \<and> addresses ''10.231.0.0/27'' \<inter> addresses ''10.231.0.32/27'' = {})"
proof -
  have pools: "resourceSubnetPools ''10.231.0.0/16'' ''10.232.0.0/16'' = Inr example_pools" by code_simp
  have size: "0 < poolSize (pool_of example_pools Reach_network)" by (simp add: poolSize_def)
  have at: "''10.231.0.0/27'' = subnetAt (pool_of example_pools Reach_network) 0" by code_simp
  have "network_run example_pools d (race t d)" for t d
    unfolding race_def Let_def using size at
    by (auto intro!: r_into_rtranclp network_statement.inserts)
  then have race: "\<forall>t d. network_run example_pools d (race t d)" by blast
  let ?run = "allocateNetwork race ''mine'' Reach_network ''x'' (pool_of example_pools Reach_network) []"
  have run: "?run = ([\<lparr>nw_name = ''other'', nw_kind = Reach_network, nw_subnet = ''10.231.0.0/27'', nw_owner = ''e''\<rparr>,
      \<lparr>nw_name = ''mine'', nw_kind = Reach_network, nw_subnet = ''10.231.0.32/27'', nw_owner = ''x''\<rparr>], Inr (Allocated ''10.231.0.32/27''))"
    by code_simp
  from networks_never_overlap[OF pools rtranclp.rtrancl_refl race run, THEN conjunct1]
  have "addresses ''10.231.0.0/27'' \<inter> addresses ''10.231.0.32/27'' = {}" by simp
  then show ?thesis by (simp add: run)
qed

text \<open>A deployment whose two ranges are the same one.\<close>

definition meeting_pools :: subnet_pools where
  "meeting_pools = \<lparr>pools_reach = \<lparr>pool_base = 182910976, pool_bits = 16, pool_prefix = 27\<rparr>,
     pools_egress = \<lparr>pool_base = 182910976, pool_bits = 16, pool_prefix = 28\<rparr>\<rparr>"

theorem overlapping_ranges_overlap_witness:
  "\<exists>db. snd (allocate_subnet (\<lambda>t d. d) meeting_pools ''e'' Egress_network ''i'' db) = Inr ''10.231.0.0/28'' \<and>
     map nw_subnet db = [''10.231.0.0/27''] \<and> addresses ''10.231.0.0/28'' \<subseteq> addresses ''10.231.0.0/27''"
proof -
  have pools: "resourceSubnetPools ''10.231.0.0/16'' ''10.231.0.0/16'' = Inr meeting_pools" by code_simp
  have base: "pool_base (pools_reach meeting_pools) = pool_base (pools_egress meeting_pools)" by (simp add: meeting_pools_def)
  let ?db = "[\<lparr>nw_name = ''r'', nw_kind = Reach_network, nw_subnet = ''10.231.0.0/27'', nw_owner = ''x''\<rparr>]"
  let ?db' = "?db @ [\<lparr>nw_name = ''e'', nw_kind = Egress_network, nw_subnet = ''10.231.0.0/28'', nw_owner = ''i''\<rparr>]"
  have runs: "allocate_subnet (\<lambda>t d. d) meeting_pools ''r'' Reach_network ''x'' [] = (?db, Inr ''10.231.0.0/27'')"
      "allocate_subnet (\<lambda>t d. d) meeting_pools ''e'' Egress_network ''i'' ?db = (?db', Inr ''10.231.0.0/28'')"
    by code_simp+
  from overlapping_ranges_overlap[OF pools base _ runs] have "addresses ''10.231.0.0/28'' \<subseteq> addresses ''10.231.0.0/27''" by auto
  then show ?thesis using runs(2) by (intro exI[of _ ?db]) simp
qed

end
