(* ===== verification/Resource_Reconciler.thy ===== *)
theory Resource_Reconciler
  imports Resource_Accounting
begin

text \<open>
  The reconciler of resource instances (\<open>packages/workspaces/src/resources/reconciler.ts\<close>): one tick
  over the rows, the live executors and what the container runtime reports. The runtime is whatever
  answers its calls: its answer to a call may depend on every call made before, and it may throw. A tick
  keeps the calls it made. The steps a caller's instance takes under its lock run as one; what other
  connections write during a tick is not modelled.
\<close>

section \<open>The runtime and the tick's state\<close>

record container =
  ct_running :: bool
  ct_exitCode :: "int option"

record up_result =
  ur_state :: observed
  ur_startedAt :: "int option"
  ur_volumes :: "spec_volume list option"

datatype runtime_call =
    Up_call inst "attachment list"
  | Stop_call inst
  | Archive_call inst
  | Converge_call "attachment list" "string list" "string list"

record runtime =
  rt_workspaceReach :: bool
  rt_observe :: "(string, string \<Rightarrow> container option) res"
  rt_up :: "runtime_call list \<Rightarrow> inst \<Rightarrow> attachment list \<Rightarrow> (string, up_result) res"
  rt_stop :: "runtime_call list \<Rightarrow> inst \<Rightarrow> (string, unit) res"
  rt_archive :: "runtime_call list \<Rightarrow> inst \<Rightarrow> (string, unit) res"
  rt_converge :: "runtime_call list \<Rightarrow> attachment list \<Rightarrow> string list \<Rightarrow> string list \<Rightarrow> (string, unit) res"

text \<open>
  What a tick reads besides the rows: the runtime, the ledger when accounting is on, live executors by
  domain, the owners of the known reach networks, whether a caller's lock is held elsewhere, the names
  of networks and containers, the fresh ids an admission of an instance draws and the first line of an
  error; \<open>tk_now\<close> is the tick's time and \<open>tk_clock\<close> that of its writes.
\<close>

record tick_env =
  tk_runtime :: runtime
  tk_accounting :: "(ledger_event \<times> ledger_admit) option"
  tk_executors :: "string option \<Rightarrow> (workspace_link \<times> string) list"
  tk_knownExecutors :: "string list"
  tk_busy :: "string \<Rightarrow> bool"
  tk_reachNetworkName :: "string \<Rightarrow> string"
  tk_instanceContainerName :: "string \<Rightarrow> string"
  tk_ids :: "string \<Rightarrow> string \<times> (string \<times> string) \<times> (nat \<Rightarrow> string \<times> string)"
  tk_message :: "accounting_error \<Rightarrow> string"
  tk_now :: int
  tk_clock :: int

record tick_state =
  ts_db :: instances_db
  ts_calls :: "runtime_call list"
  ts_running :: "inst list"
  ts_restarted :: "string list"
  ts_stopped :: "string list"
  ts_idleStopped :: "string list"
  ts_problems :: "string list"

text \<open>A step changes the state and may throw; what it changed before stays.\<close>

type_synonym 'a step = "tick_state \<Rightarrow> tick_state \<times> (string, 'a) res"

definition and_then :: "'a step \<Rightarrow> ('a \<Rightarrow> 'b step) \<Rightarrow> 'b step" where
  "and_then m f s = (case m s of (s', Inl e) \<Rightarrow> (s', Inl e) | (s', Inr a) \<Rightarrow> f a s')"

definition return_step :: "'a \<Rightarrow> 'a step" where
  "return_step a s = (s, Inr a)"

definition change :: "(tick_state \<Rightarrow> tick_state) \<Rightarrow> unit step" where
  "change f s = (f s, Inr ())"

definition write_db :: "(instances_db \<Rightarrow> instances_db) \<Rightarrow> unit step" where
  "write_db f = change (\<lambda>s. s\<lparr>ts_db := f (ts_db s)\<rparr>)"

text \<open>A transaction that throws leaves the rows as they were.\<close>

definition transaction :: "tick_env \<Rightarrow> (instances_db \<Rightarrow> (accounting_error, instances_db \<times> 'a) res) \<Rightarrow> 'a step" where
  "transaction c f s =
     (case f (ts_db s) of
        Inl e \<Rightarrow> (s, Inl (tk_message c e))
      | Inr (db, a) \<Rightarrow> (s\<lparr>ts_db := db\<rparr>, Inr a))"

definition call_runtime :: "runtime_call \<Rightarrow> (runtime_call list \<Rightarrow> (string, 'a) res) \<Rightarrow> 'a step" where
  "call_runtime call answer s = (s\<lparr>ts_calls := ts_calls s @ [call]\<rparr>, answer (ts_calls s))"

definition attempt :: "string \<Rightarrow> unit step \<Rightarrow> tick_state \<Rightarrow> tick_state" where
  "attempt what step s =
     (case step s of
        (s', Inl message) \<Rightarrow> s'\<lparr>ts_problems := ts_problems s' @ [what @ '': '' @ message]\<rparr>
      | (s', Inr _) \<Rightarrow> s')"

section \<open>Steps\<close>

definition FAILED_START_BACKOFF_MS :: int where
  "FAILED_START_BACKOFF_MS = 5 * 60000"

definition attachments_for :: "tick_env \<Rightarrow> (workspace_link \<times> string) list \<Rightarrow> inst list \<Rightarrow> attachment list" where
  "attachments_for c = desiredAttachments (tk_reachNetworkName c) (tk_instanceContainerName c)"

definition is_running_state :: "observed \<Rightarrow> bool" where
  "is_running_state state \<longleftrightarrow> (case state of Running_since t \<Rightarrow> True | _ \<Rightarrow> False)"

definition admit_step :: "tick_env \<Rightarrow> inst \<Rightarrow> inst step" where
  "admit_step c x =
     (case tk_accounting c of
        None \<Rightarrow> return_step x
      | Some (ev, adm) \<Rightarrow>
          (let (nonce, compute, volumes) = tk_ids c (is_id x)
           in transaction c (admit_instance adm x nonce compute volumes (tk_clock c))))"

definition created_step :: "tick_env \<Rightarrow> inst \<Rightarrow> unit step" where
  "created_step c x =
     (case tk_accounting c of
        None \<Rightarrow> return_step ()
      | Some (ev, adm) \<Rightarrow> transaction c (\<lambda>db. bind_res (created ev x (tk_clock c) db) (\<lambda>db. Inr (db, ()))))"

definition stopped_step :: "tick_env \<Rightarrow> inst \<Rightarrow> bool \<Rightarrow> unit step" where
  "stopped_step c x archive =
     (case tk_accounting c of
        None \<Rightarrow> return_step ()
      | Some (ev, adm) \<Rightarrow> transaction c (\<lambda>db. bind_res (stopped ev x archive (tk_clock c) db) (\<lambda>db. Inr (db, ()))))"

definition observe_as :: "tick_env \<Rightarrow> string \<Rightarrow> observed \<Rightarrow> int option \<Rightarrow> spec_volume list option \<Rightarrow> unit step" where
  "observe_as c x state startedAt volumes =
     write_db (\<lambda>db. recordObserved db x state startedAt volumes None (tk_clock c))"

definition stop_call :: "tick_env \<Rightarrow> inst \<Rightarrow> unit step" where
  "stop_call c x = call_runtime (Stop_call x) (\<lambda>calls. rt_stop (tk_runtime c) calls x)"

definition start :: "tick_env \<Rightarrow> inst \<Rightarrow> observed step" where
  "start c x =
     (let executors = tk_executors c (Some (is_domain x)) in
      and_then (admit_step c x) (\<lambda>admitted.
      let attachments = attachments_for c executors [admitted] in
      and_then (call_runtime (Up_call admitted attachments) (\<lambda>calls. rt_up (tk_runtime c) calls admitted attachments)) (\<lambda>result.
      and_then (if is_running_state (ur_state result) then created_step c admitted else return_step ()) (\<lambda>_.
      and_then (observe_as c (is_id x) (ur_state result) (ur_startedAt result) (ur_volumes result)) (\<lambda>_.
      return_step (ur_state result))))))"

text \<open>What a caller's instance does under its lock, from its row as it is there.\<close>

definition caller_step :: "tick_env \<Rightarrow> inst \<Rightarrow> unit step" where
  "caller_step c x s =
     (case select_instance (ts_db s) (is_domain x) (is_key x) of
        None \<Rightarrow> (s, Inr ())
      | Some current \<Rightarrow>
          (case is_desired current of
             Running \<Rightarrow>
               and_then (start c current) (\<lambda>_. change (\<lambda>s. s\<lparr>ts_restarted := ts_restarted s @ [is_key current]\<rparr>)) s
           | Stopped_asked \<Rightarrow>
               and_then (stop_call c current) (\<lambda>_.
               and_then (stopped_step c current False) (\<lambda>_.
               case is_stopReason current of
                 None \<Rightarrow> return_step ()
               | Some reason \<Rightarrow> observe_as c (is_id current) (Stopped_at (tk_now c) reason) None None)) s
           | Archived_asked \<Rightarrow>
               and_then (call_runtime (Archive_call current) (\<lambda>calls. rt_archive (tk_runtime c) calls current)) (\<lambda>_.
               and_then (stopped_step c current True) (\<lambda>_.
               observe_as c (is_id current) (Observed_archived (tk_now c)) None None)) s))"

definition locked_step :: "tick_env \<Rightarrow> inst \<Rightarrow> unit step" where
  "locked_step c x s =
     (if tk_busy c (is_domain x @ '':'' @ is_key x)
      then (s, Inl ''Another operation holds this instance. Retry after it finishes.'')
      else caller_step c x s)"

definition backing_off :: "tick_env \<Rightarrow> inst \<Rightarrow> bool" where
  "backing_off c x \<longleftrightarrow> (case is_observed x of Failed t message \<Rightarrow> True | _ \<Rightarrow> False) \<and>
     tk_now c - is_observedAt x < FAILED_START_BACKOFF_MS"

definition restart_step :: "tick_env \<Rightarrow> container option \<Rightarrow> inst \<Rightarrow> unit step" where
  "restart_step c container x =
     and_then (case container of
         None \<Rightarrow> return_step ()
       | Some ct \<Rightarrow> observe_as c (is_id x) (Exited (tk_now c) (ct_exitCode ct)) None None) (\<lambda>_.
     and_then (start c x) (\<lambda>state.
     and_then (change (\<lambda>s. s\<lparr>ts_restarted := ts_restarted s @ [is_key x]\<rparr>)) (\<lambda>_.
     if is_running_state state
     then change (\<lambda>s. s\<lparr>ts_running := ts_running s @ [x\<lparr>is_startedAt := Some (tk_now c)\<rparr>]\<rparr>)
     else return_step ())))"

definition runs_in :: "container option \<Rightarrow> bool" where
  "runs_in container \<longleftrightarrow> (case container of Some ct \<Rightarrow> ct_running ct | None \<Rightarrow> False)"

text \<open>One instance of the first loop.\<close>

definition visit :: "tick_env \<Rightarrow> (string \<Rightarrow> container option) \<Rightarrow> inst \<Rightarrow> tick_state \<Rightarrow> tick_state" where
  "visit c seen x s =
     (if \<not> rt_workspaceReach (tk_runtime c) \<and> \<not> sp_caller (is_spec x) then s
      else if sp_caller (is_spec x) then attempt (''caller '' @ is_key x) (locked_step c x) s
      else if is_desired x = Running then
        (if runs_in (seen (is_id x)) then s\<lparr>ts_running := ts_running s @ [x]\<rparr>
         else if backing_off c x then s
         else attempt (''restart '' @ is_key x) (restart_step c (seen (is_id x)) x) s)
      else if runs_in (seen (is_id x)) then
        attempt (''stop '' @ is_key x)
          (and_then (stop_call c x) (\<lambda>_. change (\<lambda>s. s\<lparr>ts_stopped := ts_stopped s @ [is_key x]\<rparr>))) s
      else s)"

definition reached_by :: "(workspace_link \<times> string) list \<Rightarrow> inst \<Rightarrow> bool" where
  "reached_by executors x \<longleftrightarrow> list_ex (\<lambda>(l, e). reaches l x) executors"

definition stays :: "tick_env \<Rightarrow> (workspace_link \<times> string) list \<Rightarrow> inst \<Rightarrow> bool" where
  "stays c executors x \<longleftrightarrow> reached_by executors x \<or> idleVerdict x False (tk_now c) \<noteq> Idle_stop_now"

definition idle_stop :: "tick_env \<Rightarrow> inst \<Rightarrow> tick_state \<Rightarrow> tick_state" where
  "idle_stop c x =
     attempt (''idle stop '' @ is_key x)
       (and_then (write_db (\<lambda>db. fst (setDesired db (is_id x) (Desire_stop Idle_stop) (tk_clock c)))) (\<lambda>_.
        and_then (stop_call c x) (\<lambda>_.
        and_then (observe_as c (is_id x) (Stopped_at (tk_now c) Idle_stop) None None) (\<lambda>_.
        change (\<lambda>s. s\<lparr>ts_idleStopped := ts_idleStopped s @ [is_key x]\<rparr>)))))"

definition tick_start :: "instances_db \<Rightarrow> tick_state" where
  "tick_start db = \<lparr>ts_db = db, ts_calls = [], ts_running = [], ts_restarted = [], ts_stopped = [], ts_idleStopped = [], ts_problems = []\<rparr>"

text \<open>\<open>tick\<close>: \<^const>\<open>Inl\<close> is the runtime's refusal to be observed. The number is that of the instances reached.\<close>

definition tick :: "tick_env \<Rightarrow> instances_db \<Rightarrow> (string, tick_state \<times> nat) res" where
  "tick c db =
     bind_res (rt_observe (tk_runtime c)) (\<lambda>seen.
       (let executors = tk_executors c None;
            s1 = fold (visit c seen) (listLive db) (tick_start db);
            running = ts_running s1;
            reached = filter (reached_by executors) running;
            s2 = attempt ''touch reached'' (write_db (\<lambda>db. touchReached db (map is_id reached) (tk_now c))) s1;
            s3 = fold (idle_stop c) (filter (\<lambda>x. \<not> stays c executors x) running) s2;
            stillRunning = filter (stays c executors) running;
            desired = attachments_for c executors stillRunning;
            liveExecutors = to_set (map snd executors);
            s4 = attempt ''converge reach''
              (call_runtime (Converge_call desired liveExecutors (tk_knownExecutors c))
                 (\<lambda>calls. rt_converge (tk_runtime c) calls desired liveExecutors (tk_knownExecutors c))) s3
        in Inr (s4, length reached)))"

text \<open>The hooks of the executors' adapter.\<close>

definition launched ::
  "tick_env \<Rightarrow> (string \<Rightarrow> nat) \<Rightarrow> (string \<times> string) list \<Rightarrow> instances_db \<Rightarrow> string option \<Rightarrow> string \<Rightarrow>
   (string \<times> attachment list) option"
where
  "launched c rank runs db runId executor =
     (case runId of None \<Rightarrow> None
      | Some run \<Rightarrow> (case linkOfRun db runs run of None \<Rightarrow> None
          | Some l \<Rightarrow> Some (executor, attachments_for c [(l, executor)] (list_instances rank db (wl_domain l) False))))"

section \<open>What a tick may change\<close>

text \<open>A row without what was last seen of its container.\<close>

definition asked_row :: "inst \<Rightarrow> inst" where
  "asked_row x = x\<lparr>is_observed := Not_started, is_observedAt := 0, is_startedAt := None, is_volumes := [], is_allocations := []\<rparr>"

definition asked_rows :: "instances_db \<Rightarrow> inst list" where
  "asked_rows db = map asked_row (id_instances db)"

lemma asked_row_simps [simp]:
  "is_id (asked_row x) = is_id x" "is_domain (asked_row x) = is_domain x" "is_spec (asked_row x) = is_spec x"
  "is_key (asked_row x) = is_key x" "is_desired (asked_row x) = is_desired x" "is_stopReason (asked_row x) = is_stopReason x"
  "is_lastReachedAt (asked_row x) = is_lastReachedAt x" "asked_row (asked_row x) = asked_row x"
  by (simp_all add: asked_row_def)

lemma asked_update:
  "(\<And>x. asked_row (f x) = asked_row x) \<Longrightarrow> asked_rows (update_where P f db) = asked_rows db"
  by (simp add: asked_rows_def update_where_def)

lemma asked_recordObserved [simp]: "asked_rows (recordObserved db x state startedAt volumes allocations now) = asked_rows db"
  unfolding recordObserved_def by (rule asked_update) (simp add: asked_row_def)

lemma asked_ledger [simp]: "asked_rows (db\<lparr>id_ledger := l\<rparr>) = asked_rows db"
  by (simp add: asked_rows_def)

lemma asked_save [simp]: "asked_rows (save x holds now db) = asked_rows db"
  by (simp add: save_def)

lemma asked_admit:
  assumes "admit_instance adm x nonce compute volumes now db = Inr (db', x')"
  shows "asked_rows db' = asked_rows db \<and> asked_row x' = asked_row x"
proof (cases "sp_caller (is_spec x)")
  case True
  then obtain ledger holds where "db' = save x holds now (db\<lparr>id_ledger := ledger\<rparr>)" "x' = x\<lparr>is_allocations := holds\<rparr>"
    using assms unfolding admit_instance_def Let_def by (simp only: bind_res_Inr if_False not_True_eq_False) fastforce
  then show ?thesis by (simp add: asked_row_def)
qed (use assms in \<open>simp add: admit_instance_def\<close>)

lemma asked_created: "created ev x now db = Inr db' \<Longrightarrow> asked_rows db' = asked_rows db"
  by (auto simp: created_def with_ledger_def res_simps split: if_splits)

lemma asked_stopped: "stopped ev x archive now db = Inr db' \<Longrightarrow> asked_rows db' = asked_rows db"
  by (auto simp: stopped_def with_ledger_def res_simps split: if_splits)

text \<open>What is asked of the rows stays, and every call made is allowed.\<close>

definition follows :: "(runtime_call \<Rightarrow> bool) \<Rightarrow> tick_state \<Rightarrow> tick_state \<Rightarrow> bool" where
  "follows ok s s' \<longleftrightarrow> asked_rows (ts_db s') = asked_rows (ts_db s) \<and>
     (\<exists>new. ts_calls s' = ts_calls s @ new \<and> (\<forall>call \<in> set new. ok call)) \<and>
     ts_running s' = ts_running s"

lemma follows_refl [simp]: "follows ok s s"
  by (simp add: follows_def)

lemma follows_trans: "follows ok a b \<Longrightarrow> follows ok b c \<Longrightarrow> follows ok a c"
  unfolding follows_def by (elim conjE exE) (simp, blast)

lemma follows_and_then:
  assumes "follows ok s (fst (m s))" "\<And>a s'. m s = (s', Inr a) \<Longrightarrow> follows ok s' (fst (f a s'))"
  shows "follows ok s (fst (and_then m f s))"
proof (cases "m s")
  case (Pair s' r)
  then show ?thesis using assms follows_trans[of ok s s'] by (cases r) (auto simp: and_then_def)
qed

lemma follows_return [simp]: "follows ok s (fst (return_step a s))"
  by (simp add: return_step_def)

lemma follows_write: "(\<And>db. asked_rows (f db) = asked_rows db) \<Longrightarrow> follows ok s (fst (write_db f s))"
  by (simp add: write_db_def change_def follows_def)

lemma follows_observe [simp]: "follows ok s (fst (observe_as c x state startedAt volumes s))"
  unfolding observe_as_def by (rule follows_write) simp

lemma follows_transaction:
  "(\<And>db db' a. f db = Inr (db', a) \<Longrightarrow> asked_rows db' = asked_rows db) \<Longrightarrow> follows ok s (fst (transaction c f s))"
  by (auto simp: transaction_def follows_def split: sum.split)

lemma follows_call: "ok call \<Longrightarrow> follows ok s (fst (call_runtime call answer s))"
  by (simp add: call_runtime_def follows_def)

lemma follows_attempt: "follows ok s (fst (step s)) \<Longrightarrow> follows ok s (attempt what step s)"
  by (auto simp: attempt_def follows_def split: prod.split sum.split)

lemma follows_created [simp]: "follows ok s (fst (created_step c x s))"
  unfolding created_step_def by (auto simp: res_simps split: option.split intro!: follows_transaction dest: asked_created)

lemma follows_stopped [simp]: "follows ok s (fst (stopped_step c x archive s))"
  unfolding stopped_step_def by (auto simp: res_simps split: option.split intro!: follows_transaction dest: asked_stopped)

lemma follows_admit [simp]: "follows ok s (fst (admit_step c x s))"
  unfolding admit_step_def by (auto split: option.split prod.split intro!: follows_transaction dest: asked_admit)

lemma admit_step_row: "admit_step c x s = (s', Inr x') \<Longrightarrow> asked_row x' = asked_row x"
  by (auto simp: admit_step_def return_step_def transaction_def Let_def split: option.splits prod.splits sum.splits dest: asked_admit)

lemma follows_start:
  assumes "\<And>x' atts. asked_row x' = asked_row x \<Longrightarrow> ok (Up_call x' atts)"
  shows "follows ok s (fst (start c x s))"
  unfolding start_def Let_def
  by (intro follows_and_then follows_admit follows_call assms)
    (auto intro!: assms follows_and_then dest: admit_step_row)

section \<open>The first loop\<close>

lemma and_then_assoc: "and_then (and_then m f) g = and_then m (\<lambda>a. and_then (f a) g)"
  by (rule ext) (auto simp: and_then_def split: prod.split sum.split)

lemma return_and_then: "and_then (return_step a) f = f a"
  by (rule ext) (simp add: and_then_def return_step_def)

text \<open>The instances whose container runs, and those just started.\<close>

definition running_from :: "tick_env \<Rightarrow> inst \<Rightarrow> inst \<Rightarrow> bool" where
  "running_from c y x \<longleftrightarrow> is_desired y = Running \<and> \<not> sp_caller (is_spec y) \<and>
     (x = y \<or> x = y\<lparr>is_startedAt := Some (tk_now c)\<rparr>)"

definition allowed :: "inst list \<Rightarrow> runtime_call \<Rightarrow> bool" where
  "allowed rows call \<longleftrightarrow>
     (case call of
        Up_call x atts \<Rightarrow> asked_row x \<in> set rows \<and> is_desired x = Running
      | Stop_call x \<Rightarrow> asked_row x \<in> set rows \<and> is_desired x \<noteq> Running
      | Archive_call x \<Rightarrow> asked_row x \<in> set rows \<and> is_desired x = Archived_asked \<and> sp_caller (is_spec x)
      | Converge_call atts executors known \<Rightarrow> False)"

lemma asked_row_fields:
  "asked_row x = asked_row y \<Longrightarrow> is_id x = is_id y \<and> is_desired x = is_desired y \<and> is_spec x = is_spec y"
  by (metis asked_row_simps(1,3,5))

lemma start_allowed:
  assumes "asked_row x \<in> set rows" "is_desired x = Running"
  shows "follows (allowed rows) s (fst (start c x s))"
proof (rule follows_start)
  fix x' atts assume same: "asked_row x' = asked_row x"
  show "allowed rows (Up_call x' atts)" using asked_row_fields[OF same] assms by (simp add: allowed_def same)
qed

lemma follows_change: "(\<And>s. follows ok s (f s)) \<Longrightarrow> follows ok s (fst (change f s))"
  by (simp add: change_def)

lemma caller_allowed:
  assumes "asked_rows (ts_db s) = rows" "sp_caller (is_spec x)"
    "\<forall>y \<in> set rows. is_domain y = is_domain x \<and> is_key y = is_key x \<longrightarrow> sp_caller (is_spec y)"
  shows "follows (allowed rows) s (fst (caller_step c x s))"
proof (cases "select_instance (ts_db s) (is_domain x) (is_key x)")
  case None
  then show ?thesis by (simp add: caller_step_def)
next
  case (Some current)
  then have at: "current \<in> set (id_instances (ts_db s))" "is_domain current = is_domain x" "is_key current = is_key x"
    unfolding select_instance_def by (auto dest: find_SomeD)
  then have row: "asked_row current \<in> set rows" using assms(1) by (auto simp: asked_rows_def)
  then have caller: "sp_caller (is_spec current)" using assms(3) at(2,3) by fastforce
  have push: "follows (allowed rows) s (fst (change (\<lambda>s. s\<lparr>ts_restarted := ts_restarted s @ [is_key current]\<rparr>) s))" for s
    by (simp add: change_def follows_def)
  show ?thesis
  proof (cases "is_desired current")
    case Running
    then show ?thesis using Some start_allowed[OF row Running] push
      by (auto simp: caller_step_def intro!: follows_and_then)
  next
    case Stopped_asked
    then have "allowed rows (Stop_call current)" using row by (simp add: allowed_def)
    then show ?thesis using Some Stopped_asked
      by (auto simp: caller_step_def stop_call_def split: option.split intro!: follows_and_then follows_call)
  next
    case Archived_asked
    then have "allowed rows (Archive_call current)" using row caller by (simp add: allowed_def)
    then show ?thesis using Some Archived_asked
      by (auto simp: caller_step_def intro!: follows_and_then follows_call)
  qed
qed

lemma restart_runs:
  assumes "asked_row x \<in> set rows" "is_desired x = Running"
  shows "\<exists>s1. follows (allowed rows) s s1 \<and>
    (fst (restart_step c ct x s) = s1 \<or>
     fst (restart_step c ct x s) = s1\<lparr>ts_running := ts_running s1 @ [x\<lparr>is_startedAt := Some (tk_now c)\<rparr>]\<rparr>)"
proof -
  let ?m = "and_then (case ct of None \<Rightarrow> return_step () | Some ct \<Rightarrow> observe_as c (is_id x) (Exited (tk_now c) (ct_exitCode ct)) None None)
    (\<lambda>_. and_then (start c x) (\<lambda>state. and_then (change (\<lambda>s. s\<lparr>ts_restarted := ts_restarted s @ [is_key x]\<rparr>)) (\<lambda>_. return_step state)))"
  let ?f = "\<lambda>state. if is_running_state state
     then change (\<lambda>s. s\<lparr>ts_running := ts_running s @ [x\<lparr>is_startedAt := Some (tk_now c)\<rparr>]\<rparr>) else return_step ()"
  have "restart_step c ct x = and_then ?m ?f"
    by (simp add: restart_step_def and_then_assoc return_and_then)
  moreover have "follows (allowed rows) s (fst (change (\<lambda>s. s\<lparr>ts_restarted := ts_restarted s @ [is_key x]\<rparr>) s))" for s
    by (simp add: change_def follows_def)
  then have m: "follows (allowed rows) s (fst (?m s))"
    using start_allowed[OF assms] by (auto split: option.split intro!: follows_and_then)
  ultimately show ?thesis
    by (cases "?m s"; cases "snd (?m s)") (auto simp: and_then_def change_def return_step_def)
qed

text \<open>One visit: the calls are allowed, and the instance joins the running ones as it is or just started.\<close>

definition visits :: "tick_env \<Rightarrow> inst list \<Rightarrow> inst set \<Rightarrow> tick_state \<Rightarrow> tick_state \<Rightarrow> bool" where
  "visits c rows xs s s' \<longleftrightarrow> asked_rows (ts_db s') = asked_rows (ts_db s) \<and>
     (\<exists>new. ts_calls s' = ts_calls s @ new \<and> (\<forall>call \<in> set new. allowed rows call)) \<and>
     (\<exists>more. ts_running s' = ts_running s @ more \<and> (\<forall>x \<in> set more. \<exists>y \<in> xs. running_from c y x))"

lemma follows_visits: "follows (allowed rows) s s' \<Longrightarrow> visits c rows xs s s'"
  by (auto simp: follows_def visits_def)

lemma visits_trans:
  assumes "visits c rows xs a b" "visits c rows ys b d"
  shows "visits c rows (xs \<union> ys) a d"
proof -
  obtain new more where 1: "ts_calls b = ts_calls a @ new" "\<forall>call \<in> set new. allowed rows call"
    "ts_running b = ts_running a @ more" "\<forall>x \<in> set more. \<exists>y \<in> xs. running_from c y x" "asked_rows (ts_db b) = asked_rows (ts_db a)"
    using assms(1) by (auto simp: visits_def)
  obtain new2 more2 where 2: "ts_calls d = ts_calls b @ new2" "\<forall>call \<in> set new2. allowed rows call"
    "ts_running d = ts_running b @ more2" "\<forall>x \<in> set more2. \<exists>y \<in> ys. running_from c y x" "asked_rows (ts_db d) = asked_rows (ts_db b)"
    using assms(2) by (auto simp: visits_def)
  show ?thesis unfolding visits_def
    using 1 2 by (intro conjI exI[of _ "new @ new2"] exI[of _ "more @ more2"]) auto
qed

lemma visit_visits:
  assumes "asked_rows (ts_db s) = rows" "asked_row x \<in> set rows"
    "\<forall>y \<in> set rows. is_domain y = is_domain x \<and> is_key y = is_key x \<longrightarrow> is_spec y = is_spec x"
  shows "visits c rows {x} s (visit c seen x s)"
    and "rt_workspaceReach (tk_runtime c) \<and> is_desired x = Running \<and> \<not> sp_caller (is_spec x) \<and> runs_in (seen (is_id x)) \<Longrightarrow>
      x \<in> set (ts_running (visit c seen x s))"
proof -
  consider (skip) "\<not> rt_workspaceReach (tk_runtime c)" "\<not> sp_caller (is_spec x)" | (caller) "sp_caller (is_spec x)"
    | (runs) "\<not> sp_caller (is_spec x)" "rt_workspaceReach (tk_runtime c)" "is_desired x = Running"
    | (stops) "\<not> sp_caller (is_spec x)" "rt_workspaceReach (tk_runtime c)" "is_desired x \<noteq> Running"
    by blast
  then show "visits c rows {x} s (visit c seen x s)"
  proof cases
    case skip
    then show ?thesis by (simp add: visit_def follows_visits)
  next
    case caller
    then have "follows (allowed rows) s (fst (locked_step c x s))"
      using caller_allowed[OF assms(1) caller] assms(3) by (simp add: locked_step_def)
    then show ?thesis using caller by (simp add: visit_def follows_visits follows_attempt)
  next
    case runs
    have "visits c rows {x} s (s\<lparr>ts_running := ts_running s @ [x]\<rparr>)"
      using runs by (simp add: visits_def running_from_def)
    moreover obtain s1 where s1: "follows (allowed rows) s s1"
      "fst (restart_step c (seen (is_id x)) x s) = s1 \<or>
       fst (restart_step c (seen (is_id x)) x s) = s1\<lparr>ts_running := ts_running s1 @ [x\<lparr>is_startedAt := Some (tk_now c)\<rparr>]\<rparr>"
      using restart_runs[OF assms(2) runs(3)] by blast
    then have "visits c rows {x} s (fst (restart_step c (seen (is_id x)) x s))"
      using runs by (auto simp: follows_def visits_def running_from_def)
    then have "visits c rows {x} s (attempt (''restart '' @ is_key x) (restart_step c (seen (is_id x)) x) s)"
      by (auto simp: attempt_def visits_def split: prod.splits sum.splits)
    ultimately show ?thesis using runs by (simp add: visit_def follows_visits)
  next
    case stops
    then have "allowed rows (Stop_call x)" using assms(2) by (simp add: allowed_def)
    moreover have "follows (allowed rows) s (fst (change (\<lambda>s. s\<lparr>ts_stopped := ts_stopped s @ [is_key x]\<rparr>) s))" for s
      by (simp add: change_def follows_def)
    ultimately have "follows (allowed rows) s (fst (and_then (stop_call c x) (\<lambda>_. change (\<lambda>s. s\<lparr>ts_stopped := ts_stopped s @ [is_key x]\<rparr>)) s))"
      unfolding stop_call_def by (intro follows_and_then follows_call)
    then show ?thesis using stops by (simp add: visit_def follows_visits follows_attempt)
  qed
  show "x \<in> set (ts_running (visit c seen x s))"
    if "rt_workspaceReach (tk_runtime c) \<and> is_desired x = Running \<and> \<not> sp_caller (is_spec x) \<and> runs_in (seen (is_id x))"
    using that by (simp add: visit_def)
qed

text \<open>Rows of one domain and key have one spec; rows of one id are one row.\<close>

definition instances_keyed :: "instances_db \<Rightarrow> bool" where
  "instances_keyed db \<longleftrightarrow> sorted_wrt (\<lambda>x y. is_id x \<noteq> is_id y \<and> \<not> key_clash x y) (id_instances db)"

lemma keyed_same:
  assumes "instances_keyed db" "x \<in> set (id_instances db)" "y \<in> set (id_instances db)" "is_id x = is_id y \<or> key_clash x y"
  shows "x = y"
proof -
  have "sorted_wrt R xs \<Longrightarrow> x \<in> set xs \<Longrightarrow> y \<in> set xs \<Longrightarrow> x = y \<or> R x y \<or> R y x" for R :: "inst \<Rightarrow> inst \<Rightarrow> bool" and xs
    by (induction xs) auto
  from this[of "\<lambda>x y. is_id x \<noteq> is_id y \<and> \<not> key_clash x y" "id_instances db"] assms show ?thesis
    by (auto simp: instances_keyed_def key_clash_def)
qed

lemma visits_all:
  assumes "asked_rows (ts_db s) = asked_rows db" "instances_keyed db" "set xs \<subseteq> set (id_instances db)"
  shows "visits c (asked_rows db) (set xs) s (fold (visit c seen) xs s) \<and>
    (\<forall>x \<in> set xs. rt_workspaceReach (tk_runtime c) \<and> is_desired x = Running \<and> \<not> sp_caller (is_spec x) \<and> runs_in (seen (is_id x)) \<longrightarrow>
      x \<in> set (ts_running (fold (visit c seen) xs s)))"
  using assms
proof (induction xs arbitrary: s)
  case Nil
  then show ?case by (simp add: follows_visits)
next
  case (Cons x xs)
  have x: "x \<in> set (id_instances db)" using Cons.prems(3) by simp
  then have row: "asked_row x \<in> set (asked_rows db)" by (simp add: asked_rows_def)
  have spec: "\<forall>y \<in> set (asked_rows db). is_domain y = is_domain x \<and> is_key y = is_key x \<longrightarrow> is_spec y = is_spec x"
    using keyed_same[OF Cons.prems(2) _ x] by (auto simp: asked_rows_def key_clash_def)
  note one = visit_visits[OF Cons.prems(1) row spec]
  have "asked_rows (ts_db (visit c seen x s)) = asked_rows db" using one(1) Cons.prems(1) by (auto simp: visits_def)
  with Cons.IH[OF this Cons.prems(2)] Cons.prems(3)
  have rest: "visits c (asked_rows db) (set xs) (visit c seen x s) (fold (visit c seen) xs (visit c seen x s))"
    and in_rest: "\<forall>y \<in> set xs. rt_workspaceReach (tk_runtime c) \<and> is_desired y = Running \<and> \<not> sp_caller (is_spec y) \<and> runs_in (seen (is_id y)) \<longrightarrow>
      y \<in> set (ts_running (fold (visit c seen) xs (visit c seen x s)))"
    by auto
  have "visits c (asked_rows db) ({x} \<union> set xs) s (fold (visit c seen) (x # xs) s)"
    using visits_trans[OF one(1) rest] by simp
  moreover have "set (ts_running (visit c seen x s)) \<subseteq> set (ts_running (fold (visit c seen) (x # xs) s))"
    using rest by (auto simp: visits_def)
  ultimately show ?case
  proof (intro conjI ballI impI)
    fix y assume y: "y \<in> set (x # xs)" "rt_workspaceReach (tk_runtime c) \<and> is_desired y = Running \<and> \<not> sp_caller (is_spec y) \<and> runs_in (seen (is_id y))"
    show "y \<in> set (ts_running (fold (visit c seen) (x # xs) s))"
    proof (cases "y = x")
      case True
      then show ?thesis using one(2) y(2) \<open>set (ts_running (visit c seen x s)) \<subseteq> _\<close> by blast
    next
      case False
      then show ?thesis using in_rest y by simp
    qed
  qed simp
qed

section \<open>The second loop\<close>

definition idle_row :: "string set \<Rightarrow> inst \<Rightarrow> inst" where
  "idle_row ids x = (if is_id x \<in> ids \<and> is_desired x \<noteq> Archived_asked then x\<lparr>is_desired := Stopped_asked, is_stopReason := Some Idle_stop\<rparr> else x)"

definition touch_row :: "string set \<Rightarrow> int \<Rightarrow> inst \<Rightarrow> inst" where
  "touch_row ids now x = (if is_id x \<in> ids then x\<lparr>is_lastReachedAt := Some now\<rparr> else x)"

lemma asked_touch: "asked_rows (touchReached db ids now) = map (touch_row (set ids) now) (asked_rows db)"
  by (auto simp: asked_rows_def touchReached_def update_where_def touch_row_def asked_row_def)

lemma asked_setDesired:
  "asked_rows (fst (setDesired db i (Desire_stop Idle_stop) now)) = map (idle_row {i}) (asked_rows db)"
  by (auto simp: asked_rows_def setDesired_def update_where_def desire_row_def idle_row_def asked_row_def Let_def)

lemma idle_stop_effect:
  "asked_rows (ts_db (idle_stop c x s)) = map (idle_row {is_id x}) (asked_rows (ts_db s)) \<and>
   ts_calls (idle_stop c x s) = ts_calls s @ [Stop_call x]"
proof -
  let ?s1 = "s\<lparr>ts_db := fst (setDesired (ts_db s) (is_id x) (Desire_stop Idle_stop) (tk_clock c))\<rparr>"
  have "asked_rows (ts_db ?s1) = map (idle_row {is_id x}) (asked_rows (ts_db s))" by (simp add: asked_setDesired)
  then show ?thesis
    by (cases "rt_stop (tk_runtime c) (ts_calls s) x")
      (auto simp: idle_stop_def attempt_def and_then_def write_db_def change_def stop_call_def call_runtime_def observe_as_def)
qed

lemma idle_row_compose: "idle_row A (idle_row B x) = idle_row (A \<union> B) x"
  by (auto simp: idle_row_def)

lemma idle_stops_effect:
  "asked_rows (ts_db (fold (idle_stop c) xs s)) = map (idle_row (is_id ` set xs)) (asked_rows (ts_db s)) \<and>
   ts_calls (fold (idle_stop c) xs s) = ts_calls s @ map Stop_call xs"
proof (induction xs arbitrary: s)
  case Nil
  have "idle_row {} = id" by (rule ext) (simp add: idle_row_def)
  then show ?case by simp
next
  case (Cons x xs)
  have "idle_row (is_id ` set xs) \<circ> idle_row {is_id x} = idle_row (is_id ` set (x # xs))"
    by (rule ext) (simp add: idle_row_compose)
  then show ?case using Cons[of "idle_stop c x s"] idle_stop_effect[of c x s] by (simp add: comp_def)
qed

text \<open>A running instance nobody reaches, whose idle time has passed since the later of its start and its last reach.\<close>

definition idle_out :: "tick_env \<Rightarrow> instances_db \<Rightarrow> inst \<Rightarrow> bool" where
  "idle_out c db x \<longleftrightarrow>
     (\<exists>row \<in> set (id_instances db). running_from c row x) \<and> \<not> reached_by (tk_executors c None) x \<and>
     (\<exists>seconds since. sp_idleStopAfterSeconds (is_spec x) = Some seconds \<and>
        later_of (is_startedAt x) (is_lastReachedAt x) = Some since \<and> since + seconds * 1000 \<le> tk_now c)"

lemma not_stays: "\<not> stays c (tk_executors c None) x \<Longrightarrow> \<exists>row \<in> set (id_instances db). running_from c row x \<Longrightarrow> idle_out c db x"
  by (auto simp: stays_def idle_out_def idleVerdict_def split: option.splits if_splits)

text \<open>What a call of a tick may be, when \<open>idle\<close> are the instances it stops for idleness.\<close>

definition tick_call :: "tick_env \<Rightarrow> instances_db \<Rightarrow> inst list \<Rightarrow> runtime_call \<Rightarrow> bool" where
  "tick_call c db idle call \<longleftrightarrow>
     (case call of
        Up_call x atts \<Rightarrow> asked_row x \<in> set (asked_rows db) \<and> is_desired x = Running
      | Stop_call x \<Rightarrow> asked_row x \<in> set (asked_rows db) \<and> is_desired x \<noteq> Running \<or> x \<in> set idle
      | Archive_call x \<Rightarrow> asked_row x \<in> set (asked_rows db) \<and> is_desired x = Archived_asked \<and> sp_caller (is_spec x)
      | Converge_call atts executors known \<Rightarrow>
          (\<forall>a \<in> set atts. \<exists>row \<in> set (id_instances db). \<exists>(l, e) \<in> set (tk_executors c None).
             is_desired row = Running \<and> is_id row = at_instanceId a \<and> e = at_executor a \<and> reaches l row))"

lemma running_from_fields:
  "running_from c y x \<Longrightarrow> is_id x = is_id y \<and> is_domain x = is_domain y \<and> is_spec x = is_spec y \<and> is_desired x = is_desired y \<and>
    is_desired y = Running \<and> \<not> sp_caller (is_spec y)"
  by (auto simp: running_from_def)

lemma reaches_same: "is_domain x = is_domain y \<Longrightarrow> is_spec x = is_spec y \<Longrightarrow> reaches l x = reaches l y"
  by (simp only: reaches_def)

lemma reached_same: "is_domain x = is_domain y \<Longrightarrow> is_spec x = is_spec y \<Longrightarrow> reached_by ex x = reached_by ex y"
  using reaches_same[of x y] by (simp add: reached_by_def)

lemma attachments_reach:
  "a \<in> set (attachments_for c executors xs) \<Longrightarrow>
    \<exists>x \<in> set xs. \<exists>(l, e) \<in> set executors. is_id x = at_instanceId a \<and> e = at_executor a \<and> is_desired x = Running \<and> reaches l x"
  by (fastforce simp: attachments_for_def desiredAttachments_def)

section \<open>A tick\<close>

lemma attempt_touch:
  "asked_rows (ts_db (attempt what (write_db (\<lambda>db. touchReached db ids now)) s)) = map (touch_row (set ids) now) (asked_rows (ts_db s)) \<and>
   ts_calls (attempt what (write_db (\<lambda>db. touchReached db ids now)) s) = ts_calls s"
  by (simp add: attempt_def write_db_def change_def asked_touch)

lemma attempt_call:
  "ts_db (attempt what (call_runtime call answer) s) = ts_db s \<and>
   ts_calls (attempt what (call_runtime call answer) s) = ts_calls s @ [call]"
  by (simp add: attempt_def call_runtime_def split: sum.split)

text \<open>The last state of a tick, from the state after its first loop.\<close>

lemma tick_shape:
  fixes c db
  defines "ex \<equiv> tk_executors c None"
  assumes "tick c db = Inr (s, n)" "rt_observe (tk_runtime c) = Inr seen"
    "s1 = fold (visit c seen) (listLive db) (tick_start db)"
    "idle = filter (\<lambda>x. \<not> stays c ex x) (ts_running s1)" "reached = filter (reached_by ex) (ts_running s1)"
  shows "asked_rows (ts_db s) = map (\<lambda>r. idle_row (is_id ` set idle) (touch_row (is_id ` set reached) (tk_now c) r)) (asked_rows (ts_db s1))"
    "\<exists>executors known. ts_calls s = ts_calls s1 @ map Stop_call idle @
      [Converge_call (attachments_for c ex (filter (stays c ex) (ts_running s1))) executors known]"
    "n = length reached"
proof -
  let ?s2 = "attempt ''touch reached'' (write_db (\<lambda>db. touchReached db (map is_id reached) (tk_now c))) s1"
  let ?s3 = "fold (idle_stop c) idle ?s2"
  let ?call = "Converge_call (attachments_for c ex (filter (stays c ex) (ts_running s1))) (to_set (map snd ex)) (tk_knownExecutors c)"
  obtain answer what where s: "s = attempt what (call_runtime ?call answer) ?s3" "n = length reached"
    using assms(2,3) by (auto simp: tick_def Let_def assms(4-6) ex_def)
  then show "n = length reached" by simp
  have rows: "asked_rows (ts_db ?s3) = map (idle_row (is_id ` set idle)) (map (touch_row (is_id ` set reached) (tk_now c)) (asked_rows (ts_db s1)))"
    using idle_stops_effect[of c idle ?s2] attempt_touch[of "''touch reached''" "map is_id reached" "tk_now c" s1] by simp
  then show "asked_rows (ts_db s) = map (\<lambda>r. idle_row (is_id ` set idle) (touch_row (is_id ` set reached) (tk_now c) r)) (asked_rows (ts_db s1))"
    using attempt_call[of what ?call answer ?s3] s(1) by simp
  have "ts_calls s = ts_calls s1 @ map Stop_call idle @ [?call]"
    using attempt_call[of what ?call answer ?s3] s(1) idle_stops_effect[of c idle ?s2]
      attempt_touch[of "''touch reached''" "map is_id reached" "tk_now c" s1] by simp
  then show "\<exists>executors known. ts_calls s = ts_calls s1 @ map Stop_call idle @
      [Converge_call (attachments_for c ex (filter (stays c ex) (ts_running s1))) executors known]"
    by blast
qed

text \<open>The state after the first loop.\<close>

lemma first_loop:
  assumes "instances_keyed db" "s1 = fold (visit c seen) (listLive db) (tick_start db)"
  shows "asked_rows (ts_db s1) = asked_rows db" "\<forall>call \<in> set (ts_calls s1). allowed (asked_rows db) call"
    "x \<in> set (ts_running s1) \<Longrightarrow> \<exists>row \<in> set (id_instances db). running_from c row x"
    "x \<in> set (id_instances db) \<Longrightarrow> rt_workspaceReach (tk_runtime c) \<and> is_desired x = Running \<and> \<not> sp_caller (is_spec x) \<and>
      runs_in (seen (is_id x)) \<Longrightarrow> x \<in> set (ts_running s1)"
proof -
  have live: "set (listLive db) \<subseteq> set (id_instances db)" by (auto simp: listLive_def)
  have "asked_rows (ts_db (tick_start db)) = asked_rows db" by (simp add: tick_start_def)
  from visits_all[OF this assms(1) live, of c seen]
  have v: "visits c (asked_rows db) (set (listLive db)) (tick_start db) s1"
    and ran: "\<forall>y \<in> set (listLive db). rt_workspaceReach (tk_runtime c) \<and> is_desired y = Running \<and> \<not> sp_caller (is_spec y) \<and>
      runs_in (seen (is_id y)) \<longrightarrow> y \<in> set (ts_running s1)"
    unfolding assms(2) by blast+
  show "asked_rows (ts_db s1) = asked_rows db" "\<forall>call \<in> set (ts_calls s1). allowed (asked_rows db) call"
    "x \<in> set (ts_running s1) \<Longrightarrow> \<exists>row \<in> set (id_instances db). running_from c row x"
    using v live by (fastforce simp: visits_def tick_start_def)+
  show "x \<in> set (ts_running s1)" if "x \<in> set (id_instances db)"
      "rt_workspaceReach (tk_runtime c) \<and> is_desired x = Running \<and> \<not> sp_caller (is_spec x) \<and> runs_in (seen (is_id x))"
  proof -
    have "x \<in> set (listLive db)" using that by (simp add: listLive_def)
    then show ?thesis using ran that(2) by blast
  qed
qed

lemma attached_rows:
  assumes "\<And>x. x \<in> set xs \<Longrightarrow> \<exists>row \<in> set (id_instances db). running_from c row x" "a \<in> set (attachments_for c ex xs)"
  shows "\<exists>row \<in> set (id_instances db). \<exists>(l, e) \<in> set ex. is_desired row = Running \<and> is_id row = at_instanceId a \<and> e = at_executor a \<and> reaches l row"
proof -
  obtain x l e where x: "x \<in> set xs" "(l, e) \<in> set ex" "is_id x = at_instanceId a" "e = at_executor a" "reaches l x"
    using attachments_reach[OF assms(2)] by auto
  obtain row where row: "row \<in> set (id_instances db)" "running_from c row x" using assms(1)[OF x(1)] by blast
  note f = running_from_fields[OF row(2)]
  then have "reaches l row" using x(5) reaches_same[of x row l] by simp
  then show ?thesis using row(1) x(2-4) f by force
qed

lemma reached_apart:
  assumes "instances_keyed db" "\<And>x. x \<in> set xs \<Longrightarrow> \<exists>row \<in> set (id_instances db). running_from c row x"
    "x \<in> set xs" "y \<in> set xs" "\<not> reached_by ex x" "reached_by ex y"
  shows "is_id x \<noteq> is_id y"
proof
  assume same_id: "is_id x = is_id y"
  obtain p q where p: "p \<in> set (id_instances db)" "running_from c p x" and q: "q \<in> set (id_instances db)" "running_from c q y"
    using assms(2-4) by blast
  note fields = running_from_fields[OF p(2)] running_from_fields[OF q(2)]
  have "p = q" using keyed_same[OF assms(1) p(1) q(1)] same_id fields by simp
  then have "reached_by ex x = reached_by ex y" using fields by (intro reached_same) simp_all
  then show False using assms(5,6) by simp
qed

text \<open>
  C40: A tick does what its rows ask. On one reading of the tables, and whatever the runtime answers:
  every call a tick makes to start, stop or archive is for an instance of which that is asked (one asked
  to stop is stopped whether or not an executor reaches it), save the stops of idle instances: running
  ones no live executor reaches whose idle time has passed since the later of their start and last
  reach. What is asked of a row changes only by those idle stops and by the time of the last reach,
  which is now for every instance asked to run, running and not of a caller, that a live executor
  reaches; none of these is stopped for being idle. The executors are attached to exactly such instances
  as they reach and that are asked to run.
\<close>

theorem tick_follows_its_rows:
  assumes "instances_keyed db" "rt_observe (tk_runtime c) = Inr seen" "tick c db = Inr (s, n)"
  shows "\<exists>idle reached.
    (\<forall>x \<in> set idle. idle_out c db x) \<and>
    (\<forall>call \<in> set (ts_calls s). tick_call c db idle call) \<and>
    asked_rows (ts_db s) = map (\<lambda>r. idle_row (is_id ` set idle) (touch_row (is_id ` set reached) (tk_now c) r)) (asked_rows db) \<and>
    (\<forall>x \<in> set (id_instances db). rt_workspaceReach (tk_runtime c) \<and> is_desired x = Running \<and> \<not> sp_caller (is_spec x) \<and>
       runs_in (seen (is_id x)) \<and> reached_by (tk_executors c None) x \<longrightarrow> x \<in> set reached) \<and>
    is_id ` set idle \<inter> is_id ` set reached = {} \<and> n = length reached"
proof -
  let ?ex = "tk_executors c None"
  define s1 where "s1 = fold (visit c seen) (listLive db) (tick_start db)"
  define idle where "idle = filter (\<lambda>x. \<not> stays c ?ex x) (ts_running s1)"
  define reached where "reached = filter (reached_by ?ex) (ts_running s1)"
  note shape = tick_shape[OF assms(3,2) s1_def idle_def reached_def]
  note first = first_loop[OF assms(1) s1_def]
  have idle_all: "\<forall>x \<in> set idle. idle_out c db x" using not_stays first(3) by (auto simp: idle_def)
  have calls: "\<forall>call \<in> set (ts_calls s). tick_call c db idle call"
  proof
    fix call assume "call \<in> set (ts_calls s)"
    then consider "call \<in> set (ts_calls s1)" | x where "x \<in> set idle" "call = Stop_call x"
      | executors known where "call = Converge_call (attachments_for c ?ex (filter (stays c ?ex) (ts_running s1))) executors known"
      using shape(2) by auto
    then show "tick_call c db idle call"
    proof cases
      case 1
      then show ?thesis using first(2) by (auto simp: allowed_def tick_call_def split: runtime_call.splits)
    next
      case 3
      have rows: "\<exists>row \<in> set (id_instances db). running_from c row x" if "x \<in> set (filter (stays c ?ex) (ts_running s1))" for x
        using first(3) that by simp
      show ?thesis unfolding 3 tick_call_def runtime_call.case by (intro ballI) (rule attached_rows[OF rows])
    qed (simp add: tick_call_def)
  qed
  have "is_id x \<noteq> is_id y" if "x \<in> set idle" "y \<in> set reached" for x y
    using reached_apart[OF assms(1) first(3), where x = x and y = y and ex = ?ex] that by (simp add: idle_def reached_def stays_def)
  then have apart: "is_id ` set idle \<inter> is_id ` set reached = {}" by blast
  show ?thesis
    by (intro exI[of _ idle] exI[of _ reached] conjI)
      (use idle_all calls shape(1,3) first(1,4) apart in \<open>simp_all add: reached_def\<close>)
qed

text \<open>Two running instances of one domain, one that a live executor reaches and one idle for an hour.\<close>

definition tick_spec :: "string \<Rightarrow> instance_spec" where
  "tick_spec name = \<lparr>sp_caller = False, sp_alias = name, sp_worktreeKey = None, sp_volumes = [],
     sp_cpuMillicores = 1, sp_memoryBytes = 1, sp_idleStopAfterSeconds = Some 60, sp_container = ''c''\<rparr>"

definition tick_row :: "string \<Rightarrow> inst" where
  "tick_row name = (inserted_instance name ''rdm:1'' name (tick_spec name) ''sha256:0'' None 0)\<lparr>is_startedAt := Some 0\<rparr>"

definition tick_db :: instances_db where
  "tick_db = \<lparr>id_ledger = scope_example, id_instances = [tick_row ''db'', tick_row ''mail''], id_links = [], id_workspaces = []\<rparr>"

definition tick_example :: tick_env where
  "tick_example = \<lparr>tk_runtime = \<lparr>rt_workspaceReach = True,
       rt_observe = Inr (\<lambda>i. Some \<lparr>ct_running = True, ct_exitCode = None\<rparr>), rt_up = (\<lambda>calls x atts. Inl ''no''),
       rt_stop = (\<lambda>calls x. Inr ()), rt_archive = (\<lambda>calls x. Inr ()), rt_converge = (\<lambda>calls atts names owners. Inr ())\<rparr>,
     tk_accounting = None,
     tk_executors = (\<lambda>i. [(\<lparr>wl_workspaceId = ''w'', wl_domain = ''rdm:1'', wl_worktreeKey = ''k'', wl_aliases = Some [(''db'', Level_project)]\<rparr>, ''e'')]),
     tk_knownExecutors = [], tk_busy = (\<lambda>k. False), tk_reachNetworkName = (\<lambda>e. e), tk_instanceContainerName = (\<lambda>i. i),
     tk_ids = (\<lambda>i. (i, (i, i), (\<lambda>n. (i, i)))), tk_message = (\<lambda>e. []), tk_now = 3600000, tk_clock = 3600000\<rparr>"

theorem tick_follows_its_rows_witness:
  "\<exists>s. tick tick_example tick_db = Inr (s, 1) \<and> map is_desired (asked_rows (ts_db s)) = [Running, Stopped_asked] \<and>
     map is_lastReachedAt (asked_rows (ts_db s)) = [Some 3600000, None]"
proof -
  have keyed: "instances_keyed tick_db" by code_simp
  have seen: "rt_observe (tk_runtime tick_example) = Inr (\<lambda>i. Some \<lparr>ct_running = True, ct_exitCode = None\<rparr>)"
    by (simp add: tick_example_def)
  have run: "(case tick tick_example tick_db of Inr (s, n) \<Rightarrow> n = 1 \<and> map is_desired (asked_rows (ts_db s)) = [Running, Stopped_asked] \<and>
     map is_lastReachedAt (asked_rows (ts_db s)) = [Some 3600000, None] | _ \<Rightarrow> False)"
    by code_simp
  then obtain s n where s: "tick tick_example tick_db = Inr (s, n)" by (auto split: sum.splits)
  from run have answer: "n = 1" "map is_desired (asked_rows (ts_db s)) = [Running, Stopped_asked]"
    "map is_lastReachedAt (asked_rows (ts_db s)) = [Some 3600000, None]"
    unfolding s by simp_all
  obtain reached :: "inst list" where "n = length reached" using tick_follows_its_rows[OF keyed seen s] by blast
  show ?thesis using s answer by (intro exI[of _ s]) (simp only: simp_thms)
qed

end
