(* ===== verification/Spec2Isabelle.thy ===== *)
theory Spec2Isabelle
  imports Telemetry_Projection Telemetry_Budget_Proofs Telemetry_Retention Telemetry_Ingester Workspace_Stop_Proofs Build_Process_Proofs Executor_Recovery_Guards Home_Put_Proofs Resource_Members Resource_Accounting_Proofs Resource_Subnets Resource_Reconciler
begin

text \<open>
  Sealant runs coding agents in workspaces and keeps the record of what they did. This development
  models eight parts of it, each from its TypeScript under \<open>src/packages\<close> and \<open>src/apps\<close>.

  \<^bold>\<open>The run record\<close> (\<open>packages/telemetry\<close>, \<open>packages/db/src/schema/telemetry.ts\<close>). The daemon of an
  executor sends envelopes; \<open>Telemetry_Events\<close> normalizes them (\<open>normalize.ts\<close>) and derives the
  timeline and scrollback rows, with process arguments withheld; \<open>Telemetry_Loss\<close> finds the gaps
  between them and the output budget (\<open>normalize.ts\<close>, \<open>output-budget.ts\<close>); \<open>Telemetry_Redelivery\<close> says
  which redelivered event is the one stored (\<open>redelivery.ts\<close>); \<open>Telemetry_Sink\<close> appends batches to the
  log and its projections, rebuilds the projections and answers the queries (\<open>sink.ts\<close>, \<open>query.ts\<close>);
  \<open>Telemetry_Ingester\<close> is one connection, as the taps and flushes of \<open>ingester.ts\<close>;
  \<open>Telemetry_Retention\<close> deletes expired records (\<open>retention.ts\<close>). The lemmas show that an append that
  succeeds stored what was sent and that delivering its batch again changes nothing, that the projections
  of events stored as normalized are what a rebuild makes of the log, that no number received past is
  missing without a recorded gap but in front of a loss marker (which the code reports instead of the
  gap), and that retention ends and touches no other run.

  \<^bold>\<open>Capture evidence\<close> (\<open>packages/db/src/capture-evidence-order.ts\<close>): \<open>Capture_Evidence\<close> orders the
  answers about unsaved work; work reads as saved only when every unsaved answer is covered.

  \<^bold>\<open>Executors that hold unsaved work\<close>. \<open>Executor_Preservation\<close> is the policy of when an executor may be
  deleted and what an attestation covers (\<open>workspaces/src/runtime/executor-preservation.ts\<close>);
  \<open>Capture_Ledger\<close> the row of a run and every operation of its repository
  (\<open>db/src/repositories/workspace-capture-drains.ts\<close>), \<open>Capture_Status\<close> what a worker reads of it
  (\<open>worker/capture-drain-ledger.ts\<close>), \<open>Capture_Removal\<close> how a worker removes an executor over it and
  \<open>Capture_Drain\<close> the drain before a stop (\<open>worker/capture-drain.ts\<close>). An operation runs at one instant
  under the row's lock; a worker's calls are interleaved with any operations of other connections, and
  may fail before or after they took effect. The lemmas show that a removal request is sent only on the
  evidence it was authorized on, that one of unknown outcome keeps everything else off the executor and
  what settles it, and when, that a recovery keeps other deleters off, that an unsaved answer stands until
  one covers it, and that a drain returns and lets a stop proceed only on proof. The rows are those
  outside Boat custody; the status lines of the log are arguments. The schema of a stored status is the
  code's; the parser that reads a value by it is zod's, of which \<open>parse_shape\<close> states the documented
  behaviour of the constructors the schema uses.

  \<^bold>\<open>The executor of a run\<close>. \<open>Runtime_Instances\<close> is its row and every operation of its repository
  (\<open>db/src/repositories/workspace-runtime-instances.ts\<close>): a launch and its ownership, an exit, a stop, a
  removal, and the conditions of the listings the sweeps read. \<open>Workspace_Stop\<close> is one stop
  (\<open>worker/process-workspace-stop.ts\<close>): the claim, the drain, the removal decided, authorized and made,
  and what is written of it; it composes the drain, the removal and the rows. The lemmas show that a
  launch taken from a worker stays lost to it, that a stop is recorded once and never as a crash, that a
  stop ends, asks the runtime at most once and only on evidence that stands at that instant, and that one
  reported made was carried out and recorded where the owner's discard was not found on record (a stop
  that finds it may report what was not made). \<open>Runtime_Exits\<close> is the
  sweep of executors that ended unasked, of ended ones nothing settled and of the remains of stopped ones
  (\<open>worker/reconcile-runtime-exits.ts\<close>), with the launches whose worker was lost
  (\<open>worker/adopt-stranded-launches.ts\<close>); \<open>Executor_Recovery\<close> the attempts to bring a retained executor back
  on its own disk, drain it and remove it (\<open>worker/recover-retained-executors.ts\<close>). \<open>Worker_Invariants\<close> is
  the rule by which what every operation on the rows keeps is carried through a worker's calls. The lemmas
  show that both ask for a removal only on evidence, that an ended executor stays in view of the sweeps
  until the runtime removed it, and that a recovery starts an executor only under its claim and, when it
  is known to have ended, only with a daemon that boots to recover; and the run in which it is not known.

  \<^bold>\<open>Building and launching\<close>. \<open>Build_Jobs\<close> is the table of the jobs that build a workspace and every
  operation of its repository (\<open>db/src/repositories/workspace-build-jobs.ts\<close>): enqueueing, claiming under a
  lease, and the writes made under a claim. \<open>Build_Process\<close> is one delivery of a job to a worker
  (\<open>worker/process-workspace-build-job.ts\<close>) over that table and the run's row: the claim, the success or
  failure committed under it, and the launch under an ownership. The lemmas show, for all operations of
  others between two calls and all failures of the calls, that a job is settled once, that nothing lands
  under a claim another has replaced, that every row has the shape of its status, that a run is launched
  only by the delivery whose success was recorded, and that the row of a launch that failed through
  \<open>failLaunch\<close> after its executor was reported names it; and two ends that leave something behind: a
  success whose acknowledgement was lost, and the secret of a job that is not launched.

  \<^bold>\<open>Logins in a shared home\<close>: \<open>Credential_Placements\<close> is the table of what is placed and the pure plans
  over it (\<open>packages/db/src/credential-placements.ts\<close>), \<open>Home_Placements\<close> the transaction around a write
  (\<open>packages/workspaces/src/worker/home-placements.ts\<close>) and its exit codes, \<open>Home_Script\<close> the commands of
  the script that writes (\<open>packages/workspaces/src/runtime/home-credentials.ts\<close>) in their order. The
  lemmas follow a put through planning, beginning, writing and settling, for every answer of the write.

  \<^bold>\<open>Resource domains\<close> (\<open>packages/db/src/repositories/resource-domains.ts\<close>): budgets, the ledger of
  allocations and its events (\<open>Resource_Domains\<close>), members under versioned decisions
  (\<open>Resource_Members\<close>). \<open>Resource_Ledger\<close> and \<open>Resource_Ledger_Proofs\<close> hold the invariant of the ledger,
  the step relation of all its operations and what holds in every reachable database: nothing is
  admitted over budget, every read is exact, each operation is charged once.

  \<^bold>\<open>Resource instances\<close>: rows, links, reach and idleness (\<open>Resource_Instances\<close>, from
  \<open>repositories/resource-instances.ts\<close> and \<open>workspaces/src/resources/reach.ts\<close>), what an instance holds in
  its domain's ledger (\<open>Resource_Accounting\<close>, from \<open>resources/accounting.ts\<close>, over the ledger as a locale
  that the ledger's model interprets), the subnets of its networks (\<open>Resource_Subnets\<close>) and the tick that
  keeps the containers at what the rows ask (\<open>Resource_Reconciler\<close>, from \<open>resources/reconciler.ts\<close>). The
  lemmas show that admission covers an instance's spec, that a purge always gets through, that networks
  of one pool, or of ranges that do not meet, never overlap (ranges that meet are accepted, and then they
  do), and that a tick makes the calls its rows ask for and stops for idleness only what nobody reaches.

  State is a record of tables, each a list in insertion order; an operation takes the state and returns
  it changed. A thrown error is \<open>Inl\<close>, and a transaction that throws has no state to return. Statements
  of a transaction that holds its row run as one step; where other connections may come between two
  statements, what they do is a function argument. \<open>Prelude\<close> has results, integers as text and sets in
  order; \<open>Js_Values\<close> the values of the language and their JSON; \<open>Sql_Tables\<close> inserts under unique indexes.

  \<^bold>\<open>Bounds.\<close> The loops of retention are partial functions, proved to return within the rows there are;
  a subnet allocation has the 32 attempts of the code; the walk of an error's causes has its depth of 8.
  A drain's loop is a partial function, proved to
  return when its poll interval is above zero; a removal has the attempts of the code. Everything else
  recurs on its data.

  \<^bold>\<open>Parameters.\<close> sha256, the runtime client's stream kinds, the sealed credentials, text collation, clocks
  and fresh ids are arguments. Amounts are integers; where the code checks that they are safe integers,
  the model does.

  \<^bold>\<open>Not modelled\<close>: SQL triggers (but for the guard of the capture ledger) and migrations; connection failures and their retries; the routes of the
  API, the web application, the command line and the SDK; the runtimes (Docker, Kubernetes, Boat), image
  building and BuildKit, and the attempts, staged material and logins of a launch; the bound on a whole
  recovery attempt; Boat custody and the preservation before a deadline; GitHub and inference.
\<close>

end
